(* ===== verification/Prelude.thy ===== *)
theory Prelude
  imports Main "HOL-Library.Word"
begin

unbundle bit_operations_syntax

text \<open>
  Shared vocabulary of the development: the machine types, the C strings, and the parts of
  the C and BSD libraries that the sources call.

  \<^item> A \<open>char *\<close> that points to a NUL-terminated string is the \<^typ>\<open>string\<close> of the
    characters before the NUL; a pointer into it is the remaining suffix, and reading at the end
    of it reads the NUL.
  \<^item> Unsigned integers of a fixed width are words. An IPv4 address (\<open>struct in_addr\<close>,
    \<open>in_addr_t\<close>) is the 32-bit word in host order, so \<open>htonl\<close> and \<open>ntohl\<close> are the identity
    here; the bytes of a message are written out in network order by the functions of
    \<open>rw_unaligned.h\<close> (theory \<open>Wire\<close>).
  \<^item> \<open>strtoul\<close>, \<open>atoi\<close> and \<open>inet_aton\<close> follow the GNU C library on an LP64 system:
    \<open>unsigned long\<close> has 64 bits and saturates, \<open>atoi\<close> converts the saturated \<open>long\<close> to a
    32-bit \<open>int\<close>, \<open>inet_aton\<close> takes one to four parts in decimal, octal or hexadecimal.
\<close>

type_synonym u8 = "8 word"
type_synonym u16 = "16 word"
type_synonym u32 = "32 word"
type_synonym u64 = "64 word"
type_synonym in_addr = "32 word"

named_theorems clib "facts about the modelled C library functions"
named_theorems scan "suffix and length facts about scanning functions"

lemma unat_drop_bit: "unat (drop_bit k n) = unat n div 2 ^ k"
  by (metis drop_bit_eq_div unat_drop_bit_eq)

lemma ucast_small: "(w :: u16) < 256 \<Longrightarrow> ucast (ucast w :: u8) = w"
proof -
  assume "w < 256"
  then have "unat (w mod 256) = unat w" by (simp add: unat_mod word_less_nat_alt)
  then have "w mod 256 = w" by (rule unsigned_word_eqI)
  then show ?thesis by (simp add: unsigned_ucast_eq take_bit_eq_mod)
qed

section \<open>Characters\<close>

abbreviation chr_code :: "char \<Rightarrow> nat" where
  "chr_code c \<equiv> of_char c"

definition isspace :: "char \<Rightarrow> bool" where
  "isspace c = (c = CHR '' '' \<or> (9 \<le> chr_code c \<and> chr_code c \<le> 13))"

definition isdigit :: "char \<Rightarrow> bool" where
  "isdigit c = (48 \<le> chr_code c \<and> chr_code c \<le> 57)"

definition isxdigit :: "char \<Rightarrow> bool" where
  "isxdigit c = (isdigit c \<or> (65 \<le> chr_code c \<and> chr_code c \<le> 70)
                           \<or> (97 \<le> chr_code c \<and> chr_code c \<le> 102))"

definition digit_val :: "char \<Rightarrow> nat" where
  "digit_val c = (if isdigit c then chr_code c - 48
                  else if 97 \<le> chr_code c then chr_code c - 87 else chr_code c - 55)"

definition toupper :: "char \<Rightarrow> char" where
  "toupper c = (if 97 \<le> chr_code c \<and> chr_code c \<le> 122 then char_of (chr_code c - 32) else c)"

definition strcaseeq :: "string \<Rightarrow> string \<Rightarrow> bool" where
  "strcaseeq s t = (map toupper s = map toupper t)"

definition digit_char :: "nat \<Rightarrow> char" where
  "digit_char d = char_of (48 + d)"

lemma isdigit_digit_char [simp]: "d < 10 \<Longrightarrow> isdigit (digit_char d)"
  by (simp add: isdigit_def digit_char_def)

lemma digit_val_digit_char [simp]: "d < 10 \<Longrightarrow> digit_val (digit_char d) = d"
  by (simp add: digit_val_def isdigit_def digit_char_def)

lemma digit_char_eq_zero [simp]: "d < 10 \<Longrightarrow> digit_char d = CHR ''0'' \<longleftrightarrow> d = 0"
proof -
  assume d: "d < 10"
  have z: "CHR ''0'' = digit_char 0" by code_simp
  have "d = 0" if "digit_char d = digit_char 0"
  proof -
    from that have "digit_val (digit_char d) = digit_val (digit_char 0)" by (rule arg_cong)
    with d show ?thesis by simp
  qed
  then show ?thesis unfolding z by auto
qed

lemma isdigit_not_space: "isdigit c \<Longrightarrow> \<not> isspace c"
  by (auto simp: isdigit_def isspace_def)

lemma isdigit_punct [simp]:
  "\<not> isdigit CHR ''.''" "\<not> isdigit CHR ''-''" "\<not> isdigit CHR '' ''" "\<not> isdigit CHR '':''"
  "\<not> isdigit CHR ''/''" "\<not> isdigit CHR ''x''" "\<not> isdigit CHR ''X''" "isdigit CHR ''0''"
  by (simp_all add: isdigit_def)

lemma isspace_blank [simp]: "isspace CHR '' ''" "\<not> isspace CHR '':''" "\<not> isspace CHR ''.''"
  by (simp_all add: isspace_def)

section \<open>Decimal numbers\<close>

text \<open>\<open>printf("%u")\<close>.\<close>

fun dec :: "nat \<Rightarrow> string" where
  "dec n = (if n < 10 then [digit_char n] else dec (n div 10) @ [digit_char (n mod 10)])"

declare dec.simps [simp del]

definition base_val :: "nat \<Rightarrow> string \<Rightarrow> nat" where
  "base_val b s = foldl (\<lambda>a c. b * a + digit_val c) 0 s"

lemma dec_digits: "list_all isdigit (dec n)"
proof (induction n rule: dec.induct)
  case (1 n)
  then show ?case by (subst dec.simps) auto
qed

lemma dec_not_Nil [simp]: "dec n \<noteq> []"
  by (subst dec.simps) simp

lemma base_val_dec [clib]: "base_val 10 (dec n) = n"
proof (induction n rule: dec.induct)
  case (1 n)
  then show ?case by (subst dec.simps) (auto simp: base_val_def)
qed

lemma hd_dec_zero: "hd (dec n) = CHR ''0'' \<longleftrightarrow> n = 0"
proof (induction n rule: dec.induct)
  case (1 n)
  then show ?case by (subst dec.simps) auto
qed

lemma dec_set_isdigit: "c \<in> set (dec n) \<Longrightarrow> isdigit c"
  using dec_digits [of n] by (simp add: list_all_iff)

lemma hd_dec_isdigit [simp]: "isdigit (hd (dec n))"
  by (rule dec_set_isdigit [of _ n]) simp

lemma dec_zero [simp]: "dec 0 = ''0''"
  by code_simp

lemma hd_dec_append [simp]: "hd (dec n @ r) = hd (dec n)"
  by simp

section \<open>Number scanning\<close>

definition ULONG_MAX :: nat where
  "ULONG_MAX = 2 ^ 64 - 1"

definition scan_base :: "(char \<Rightarrow> bool) \<Rightarrow> nat \<Rightarrow> string \<Rightarrow> nat \<times> string" where
  "scan_base p b s = (min ULONG_MAX (base_val b (takeWhile p s)), dropWhile p s)"

text \<open>
  \<open>strtoul(s, &end, 10)\<close> with the value and the rest of the string: leading white space, an
  optional sign, digits. With no digit the value is 0 and the rest is the whole string.
\<close>

definition strtoul10 :: "string \<Rightarrow> nat \<times> string" where
  "strtoul10 s =
     (let t = dropWhile isspace s;
          neg = (t \<noteq> [] \<and> hd t = CHR ''-'');
          u = (if t \<noteq> [] \<and> (hd t = CHR ''-'' \<or> hd t = CHR ''+'') then tl t else t)
      in if u = [] \<or> \<not> isdigit (hd u) then (0, s)
         else let (v, r) = scan_base isdigit 10 u
              in (if neg \<and> base_val 10 (takeWhile isdigit u) \<le> ULONG_MAX
                  then (2 ^ 64 - v) mod 2 ^ 64 else v, r))"

text \<open>\<open>strtoul(s, &end, 0)\<close> on a string that starts with a digit: \<open>0x\<close> hexadecimal, \<open>0\<close> octal.\<close>

definition isodigit_c :: "char \<Rightarrow> bool" where
  "isodigit_c c = (48 \<le> chr_code c \<and> chr_code c \<le> 55)"

definition strtoul0 :: "string \<Rightarrow> nat \<times> string" where
  "strtoul0 s =
     (if s \<noteq> [] \<and> hd s = CHR ''0''
      then (if length s \<ge> 3 \<and> (s ! 1 = CHR ''x'' \<or> s ! 1 = CHR ''X'') \<and> isxdigit (s ! 2)
            then scan_base isxdigit 16 (drop 2 s) else scan_base isodigit_c 8 s)
      else scan_base isdigit 10 s)"

text \<open>\<open>atoi\<close>: the \<open>long\<close> of \<open>strtol\<close>, saturated, converted to \<open>int\<close>.\<close>

definition atoi :: "string \<Rightarrow> int" where
  "atoi s =
     (let t = dropWhile isspace s;
          neg = (t \<noteq> [] \<and> hd t = CHR ''-'');
          u = (if t \<noteq> [] \<and> (hd t = CHR ''-'' \<or> hd t = CHR ''+'') then tl t else t);
          m = int (base_val 10 (takeWhile isdigit u));
          l = (if neg then max (- (2 ^ 63)) (- m) else min (2 ^ 63 - 1) m)
      in sint (word_of_int l :: 32 word))"

lemma takeWhile_dec [simp]:
  "r = [] \<or> \<not> isdigit (hd r) \<Longrightarrow> takeWhile isdigit (dec n @ r) = dec n"
  using dec_digits [of n]
  by (cases r) (auto simp: takeWhile_append takeWhile_eq_all_conv list_all_iff)

lemma dropWhile_dec [simp]:
  "r = [] \<or> \<not> isdigit (hd r) \<Longrightarrow> dropWhile isdigit (dec n @ r) = r"
  using dec_digits [of n]
  by (cases r) (auto simp: dropWhile_append list_all_iff)

lemma dropWhile_space_dec [simp]: "dropWhile isspace (dec n @ r) = dec n @ r"
proof -
  have "\<not> isspace (hd (dec n))" by (rule isdigit_not_space) simp
  then show ?thesis by (cases "dec n") simp_all
qed

lemma hd_dec_not_sign [simp]: "hd (dec n) \<noteq> CHR ''-''" "hd (dec n) \<noteq> CHR ''+''"
proof -
  have "isdigit (hd (dec n))" by simp
  then show "hd (dec n) \<noteq> CHR ''-''" "hd (dec n) \<noteq> CHR ''+''"
    by (auto simp: isdigit_def)
qed

lemma strtoul10_dec [clib]:
  "n \<le> ULONG_MAX \<Longrightarrow> r = [] \<or> \<not> isdigit (hd r) \<Longrightarrow> strtoul10 (dec n @ r) = (n, r)"
  by (simp add: strtoul10_def scan_base_def base_val_dec)

lemma atoi_dec [clib]:
  "n < 2 ^ 31 \<Longrightarrow> r = [] \<or> \<not> isdigit (hd r) \<Longrightarrow> atoi (dec n @ r) = int n"
  by (simp add: atoi_def base_val_dec int_word_sint)

lemma strtoul0_dec [clib]:
  assumes "n \<le> ULONG_MAX" and "r = [] \<or> (\<not> isdigit (hd r) \<and> hd r \<noteq> CHR ''x'' \<and> hd r \<noteq> CHR ''X'')"
  shows "strtoul0 (dec n @ r) = (n, r)"
proof (cases "n = 0")
  case True
  have nodig: "r = [] \<or> \<not> isodigit_c (hd r)"
    using assms(2) by (auto simp: isodigit_c_def isdigit_def)
  have z: "isodigit_c CHR ''0''" by (simp add: isodigit_c_def)
  have "takeWhile isodigit_c (CHR ''0'' # r) = ''0''"
    using nodig z by (cases r) simp_all
  moreover have "dropWhile isodigit_c (CHR ''0'' # r) = r"
    using nodig z by (cases r) simp_all
  moreover have "\<not> (length (CHR ''0'' # r) \<ge> 3 \<and> ((CHR ''0'' # r) ! 1 = CHR ''x'' \<or> (CHR ''0'' # r) ! 1 = CHR ''X''))"
    using assms(2) by (cases r) auto
  ultimately have "strtoul0 (CHR ''0'' # r) = (min ULONG_MAX (base_val 8 ''0''), r)"
    unfolding strtoul0_def scan_base_def by auto
  with True show ?thesis by (simp add: base_val_def digit_val_def isdigit_def)
next
  case False
  then have "hd (dec n) \<noteq> CHR ''0''" by (simp add: hd_dec_zero)
  then have "strtoul0 (dec n @ r) = scan_base isdigit 10 (dec n @ r)"
    by (simp add: strtoul0_def)
  moreover have "r = [] \<or> \<not> isdigit (hd r)" using assms(2) by blast
  ultimately show ?thesis
    using assms(1) by (simp only: scan_base_def takeWhile_dec dropWhile_dec base_val_dec min_absorb2)
qed

section \<open>IPv4 addresses in text\<close>

text \<open>\<open>inet_ntop(AF_INET, ...)\<close> with a buffer of at least 16 bytes.\<close>

definition octet :: "nat \<Rightarrow> in_addr \<Rightarrow> nat" where
  "octet k a = unat a div 256 ^ k mod 256"

definition inet_ntop :: "in_addr \<Rightarrow> string" where
  "inet_ntop a = dec (octet 3 a) @ ''.'' @ dec (octet 2 a) @ ''.'' @ dec (octet 1 a)
                 @ ''.'' @ dec (octet 0 a)"

text \<open>
  \<open>inet_aton\<close>: \<open>k\<close> more parts may follow the one being read; the last part fills the bytes
  that are left.
\<close>

fun inet_aton_loop :: "nat \<Rightarrow> nat \<Rightarrow> string \<Rightarrow> nat option" where
  "inet_aton_loop k acc s =
     (if s = [] \<or> \<not> isdigit (hd s) then None
      else let (ul, r) = strtoul0 s
           in if ul > 4294967295 then None
              else if r \<noteq> [] \<and> hd r = CHR ''.''
                   then (case k of 0 \<Rightarrow> None
                         | Suc k' \<Rightarrow> if ul > 255 then None
                                     else inet_aton_loop k' (256 * acc + ul) (tl r))
                   else if r \<noteq> [] \<and> \<not> isspace (hd r) then None
                        else if ul \<ge> 256 ^ (k + 1) then None
                        else Some (256 ^ (k + 1) * acc + ul))"

declare inet_aton_loop.simps [simp del]

definition inet_aton :: "string \<Rightarrow> in_addr option" where
  "inet_aton s = map_option of_nat (inet_aton_loop 3 0 s)"

definition INADDR_NONE :: in_addr where
  "INADDR_NONE = 0xffffffff"

definition inet_addr :: "string \<Rightarrow> in_addr" where
  "inet_addr s = (case inet_aton s of None \<Rightarrow> INADDR_NONE | Some a \<Rightarrow> a)"

lemma octet_less [simp]: "octet k a < 256"
  by (simp add: octet_def)

lemma inet_aton_loop_dot:
  "n < 256 \<Longrightarrow> inet_aton_loop (Suc k) acc (dec n @ CHR ''.'' # r)
     = inet_aton_loop k (256 * acc + n) r"
  by (subst inet_aton_loop.simps) (simp add: strtoul0_dec ULONG_MAX_def)

lemma inet_aton_loop_last:
  "n < 256 \<Longrightarrow> r = [] \<or> isspace (hd r) \<Longrightarrow> inet_aton_loop 0 acc (dec n @ r) = Some (256 * acc + n)"
proof -
  assume n: "n < 256" and r: "r = [] \<or> isspace (hd r)"
  from r have r': "r = [] \<or> (\<not> isdigit (hd r) \<and> hd r \<noteq> CHR ''x'' \<and> hd r \<noteq> CHR ''X''
      \<and> hd r \<noteq> CHR ''.'')"
    by (auto simp: isspace_def isdigit_def)
  with n have s: "strtoul0 (dec n @ r) = (n, r)"
    by (intro strtoul0_dec) (auto simp: ULONG_MAX_def)
  show ?thesis
    using n r r' by (subst inet_aton_loop.simps) (auto simp: s)
qed

lemma base256_step: "256 * ((n::nat) div 256) + n mod 256 = n"
  by (rule mult_div_mod_eq)

lemma octets_sum: "256 * (256 * (256 * octet 3 a + octet 2 a) + octet 1 a) + octet 0 a = unat a"
proof -
  define n where "n = unat a"
  have "n < 4294967296" using unsigned_less [of a, where 'a = nat] by (simp add: n_def)
  then have top: "n div 256 div 256 div 256 mod 256 = n div 256 div 256 div 256"
    by simp
  have "octet 3 a = n div 256 div 256 div 256 mod 256" "octet 2 a = n div 256 div 256 mod 256"
    "octet 1 a = n div 256 mod 256" "octet 0 a = n mod 256"
    by (simp_all add: octet_def n_def div_mult2_eq [symmetric])
  then show ?thesis by (simp only: top base256_step n_def [symmetric])
qed

lemma inet_aton_ntop_append:
  "r = [] \<or> isspace (hd r) \<Longrightarrow> inet_aton (inet_ntop a @ r) = Some a"
proof -
  assume r: "r = [] \<or> isspace (hd r)"
  have "inet_aton_loop 3 0 (inet_ntop a @ r) = Some (unat a)"
    using r octets_sum [of a]
    by (simp add: inet_ntop_def numeral_3_eq_3 inet_aton_loop_dot inet_aton_loop_last)
  then show ?thesis by (simp add: inet_aton_def)
qed

lemma inet_aton_ntop [simp, clib]: "inet_aton (inet_ntop a) = Some a"
  using inet_aton_ntop_append [of "[]" a] by simp

lemma inet_addr_ntop [simp, clib]: "inet_addr (inet_ntop a) = a"
  by (simp add: inet_addr_def)

lemma inet_ntop_inj: "inet_ntop a = inet_ntop b \<longleftrightarrow> a = b"
  by (metis inet_aton_ntop option.inject)

lemma inet_ntop_not_Nil [simp]: "inet_ntop a \<noteq> []"
  by (simp add: inet_ntop_def)

section \<open>Bounded string copies\<close>

text \<open>The C string held by a byte array: what comes before the first NUL.\<close>

definition cstr :: "string \<Rightarrow> string" where
  "cstr s = takeWhile (\<lambda>c. c \<noteq> CHR 0x00) s"

lemma cstr_id [simp]: "CHR 0x00 \<notin> set s \<Longrightarrow> cstr s = s"
  by (auto simp: cstr_def takeWhile_eq_all_conv)

lemma cstr_Nil [simp]: "cstr [] = []"
  by (simp add: cstr_def)

lemma length_cstr: "length (cstr s) \<le> length s"
  unfolding cstr_def by (rule length_takeWhile_le)

text \<open>
  \<open>strncpy(dst, src, n); dst[n-1] = '\0'\<close>, and \<open>snprintf(dst, n, "%s", src)\<close>: at most
  \<open>n - 1\<close> characters are kept.
\<close>

definition bounded_copy :: "nat \<Rightarrow> string \<Rightarrow> string" where
  "bounded_copy n s = take (n - 1) s"

lemma bounded_copy_id [simp]: "length s < n \<Longrightarrow> bounded_copy n s = s"
  by (simp add: bounded_copy_def)

lemma length_dec: "n < 10 ^ k \<Longrightarrow> 0 < k \<Longrightarrow> length (dec n) \<le> k"
proof (induction k arbitrary: n)
  case 0
  then show ?case by simp
next
  case (Suc k)
  show ?case
  proof (cases "n < 10")
    case True
    then show ?thesis by (subst dec.simps) simp
  next
    case False
    with Suc.prems have "0 < k" by (cases k) auto
    moreover from Suc.prems have "n div 10 < 10 ^ k" by (simp add: less_mult_imp_div_less)
    ultimately have "length (dec (n div 10)) \<le> k" by (rule Suc.IH [rotated])
    with False show ?thesis by (subst dec.simps) simp
  qed
qed

lemma length_inet_ntop: "length (inet_ntop a) \<le> 15"
proof -
  have "length (dec (octet k a)) \<le> 3" for k
    using length_dec [of "octet k a" 3] octet_less [of k a] by simp
  from this [of 0] this [of 1] this [of 2] this [of 3] show ?thesis
    by (simp add: inet_ntop_def)
qed

end
