(* ===== verification/MiniXml.thy ===== *)
theory MiniXml
  imports Prelude
begin

text \<open>
  \<open>minixml.c\<close>: the XML scanner shared by the daemon and the client library.

  The pointer \<open>p->xml\<close> is the suffix of the buffer that it points to, so that \<open>p->xmlend\<close> is the
  end of the list and \<open>p->xml + k >= p->xmlend\<close> reads as a bound on the length of the suffix.
  Every dereference is explicit: reading from the empty suffix gives \<open>Overrun\<close>, which is the
  undefined behaviour that the checks of the code are there to prevent. The early returns at the
  end of the buffer are \<open>Stop\<close>. The callbacks only record what they are given, so a run yields the
  list of calls it makes.

  Shown here: the scanner terminates, it never reads outside its buffer whatever the input
  (\<open>parsexml_no_overrun\<close>), and on the text of an element tree it reports exactly the elements and
  character data of the tree (\<open>parsexml_print\<close>).
\<close>

section \<open>Scanning primitives\<close>

definition IS_WHITE_SPACE :: "char \<Rightarrow> bool" where
  "IS_WHITE_SPACE c = (c = CHR '' '' \<or> c = CHR 0x09 \<or> c = CHR 0x0D \<or> c = CHR 0x0A)"

datatype 'a scan_res = Overrun | Stop | Go 'a

datatype xml_event =
    StartElt string
  | EndElt string
  | CharData string
  | AttValue string string

text \<open>
  The loop that occurs in most places of the file:
  \<^verbatim>\<open>while(P(*p->xml)) { i++; p->xml++; if(p->xml >= p->xmlend) return; }\<close>
\<close>

fun scan_while :: "(char \<Rightarrow> bool) \<Rightarrow> string \<Rightarrow> nat \<Rightarrow> (string \<times> nat) scan_res" where
  "scan_while P [] i = Overrun"
| "scan_while P (c # cs) i =
     (if P c then (if cs = [] then Stop else scan_while P cs (Suc i)) else Go (c # cs, i))"

text \<open>\<open>memcmp(p->xml, lit, strlen(lit)) == 0\<close>, with the read of the whole block.\<close>

definition mem_is :: "string \<Rightarrow> string \<Rightarrow> bool scan_res" where
  "mem_is s lit = (if length s < length lit then Overrun else Go (take (length lit) s = lit))"

text \<open>\<^verbatim>\<open>while(*(p->xml++) != '=') { if(p->xml >= p->xmlend) return -1; }\<close>\<close>

fun att_equal :: "string \<Rightarrow> string scan_res" where
  "att_equal [] = Overrun"
| "att_equal (c # cs) = (if c \<noteq> CHR ''='' then (if cs = [] then Stop else att_equal cs) else Go cs)"

section \<open>parseatt\<close>

text \<open>
  One attribute, from its first character: the position where it ends (on the closing quote, or on
  the character that ends an unquoted value), its name and its value.
\<close>

definition att_value :: "string \<Rightarrow> (string \<times> string) scan_res" where
  "att_value s =
     (case s of [] \<Rightarrow> Overrun
      | sep # r \<Rightarrow>
          if sep = CHR 0x27 \<or> sep = CHR 0x22
          then (if r = [] then Stop
                else case scan_while (\<lambda>c. c \<noteq> sep) r 0 of
                       Overrun \<Rightarrow> Overrun | Stop \<Rightarrow> Stop
                     | Go (r', n) \<Rightarrow> Go (r', take n r))
          else (case scan_while (\<lambda>c. \<not> IS_WHITE_SPACE c \<and> c \<noteq> CHR ''>'' \<and> c \<noteq> CHR ''/'') s 0 of
                  Overrun \<Rightarrow> Overrun | Stop \<Rightarrow> Stop
                | Go (r', n) \<Rightarrow> Go (r', take n s)))"

definition parse_one_att :: "string \<Rightarrow> (string \<times> string \<times> string) scan_res" where
  "parse_one_att s =
     (case scan_while (\<lambda>c. c \<noteq> CHR ''='' \<and> \<not> IS_WHITE_SPACE c) s 0 of
        Overrun \<Rightarrow> Overrun | Stop \<Rightarrow> Stop
      | Go (r, n) \<Rightarrow>
          (case att_equal r of Overrun \<Rightarrow> Overrun | Stop \<Rightarrow> Stop
           | Go r1 \<Rightarrow>
               if r1 = [] then Stop
               else (case scan_while IS_WHITE_SPACE r1 0 of Overrun \<Rightarrow> Overrun | Stop \<Rightarrow> Stop
                     | Go (r2, _) \<Rightarrow>
                         (case att_value r2 of Overrun \<Rightarrow> Overrun | Stop \<Rightarrow> Stop
                          | Go (r3, v) \<Rightarrow> Go (r3, take n s, v)))))"

lemma scan_while_Go [scan]: "scan_while P s i = Go (r, n) \<Longrightarrow>
    r \<noteq> [] \<and> length r \<le> length s \<and> \<not> P (hd r) \<and> n + length r = i + length s"
  by (induction P s i rule: scan_while.induct) (auto split: if_splits)

lemma scan_while_overrun [simp]: "scan_while P s i = Overrun \<longleftrightarrow> s = []"
  by (induction P s i rule: scan_while.induct) auto

lemma att_equal_Go [scan]: "att_equal s = Go r \<Longrightarrow> length r < length s"
  by (induction s rule: att_equal.induct) (auto split: if_splits dest: less_SucI)

lemma att_equal_overrun [simp]: "att_equal s = Overrun \<longleftrightarrow> s = []"
  by (induction s rule: att_equal.induct) auto

lemma att_value_Go [scan]: "att_value s = Go (r, v) \<Longrightarrow> r \<noteq> [] \<and> length r \<le> length s"
  by (auto simp: att_value_def split: list.splits if_splits scan_res.splits dest!: scan_while_Go)

lemma att_value_overrun [simp]: "att_value s = Overrun \<longleftrightarrow> s = []"
  by (auto simp: att_value_def split: list.splits scan_res.splits)

lemma parse_one_att_Go [scan]: "parse_one_att s = Go (r, n, v) \<Longrightarrow> r \<noteq> [] \<and> length r < length s"
  by (auto simp: parse_one_att_def split: scan_res.splits if_splits
      dest!: scan_while_Go att_equal_Go att_value_Go)

lemma parse_one_att_overrun [simp]: "parse_one_att s = Overrun \<longleftrightarrow> s = []"
  by (auto simp: parse_one_att_def split: scan_res.splits dest!: scan_while_Go)

function parseatt :: "string \<Rightarrow> xml_event list \<Rightarrow> string scan_res \<times> xml_event list" where
  "parseatt s evs =
     (case s of [] \<Rightarrow> (Stop, evs)
      | c # cs \<Rightarrow>
          if c = CHR ''/'' \<or> c = CHR ''>'' then (Go s, evs)
          else if \<not> IS_WHITE_SPACE c
          then (case parse_one_att s of
                  Overrun \<Rightarrow> (Overrun, evs) | Stop \<Rightarrow> (Stop, evs)
                | Go (r, n, v) \<Rightarrow> parseatt (tl r) (evs @ [AttValue n v]))
          else parseatt cs evs)"
  by pat_completeness auto
termination
  by (relation "measure (\<lambda>(s, evs). length s)") (auto dest!: parse_one_att_Go)

declare parseatt.simps [simp del]

lemma parseatt_Go [scan]: "parseatt s evs = (Go r, evs') \<Longrightarrow>
    length r \<le> length s \<and> r \<noteq> [] \<and> (hd r = CHR ''/'' \<or> hd r = CHR ''>'')"
proof (induction s evs rule: parseatt.induct)
  case (1 s evs)
  show ?case
  proof (cases s)
    case Nil
    with "1.prems" show ?thesis by (simp add: parseatt.simps)
  next
    case (Cons c cs)
    consider "c = CHR ''/'' \<or> c = CHR ''>''"
      | "c \<noteq> CHR ''/''" "c \<noteq> CHR ''>''" "IS_WHITE_SPACE c"
      | "c \<noteq> CHR ''/''" "c \<noteq> CHR ''>''" "\<not> IS_WHITE_SPACE c" by blast
    then show ?thesis
    proof cases
      case 1
      with "1.prems" Cons show ?thesis by (subst (asm) parseatt.simps) auto
    next
      case 2
      with "1.prems" Cons have "parseatt cs evs = (Go r, evs')"
        by (subst (asm) parseatt.simps) auto
      with 2 Cons "1.IH"(2) [of c cs] show ?thesis by auto
    next
      case 3
      with "1.prems" Cons obtain r1 n v where one: "parse_one_att s = Go (r1, n, v)"
        and rest: "parseatt (tl r1) (evs @ [AttValue n v]) = (Go r, evs')"
        by (subst (asm) parseatt.simps) (auto split: scan_res.splits)
      have "length r \<le> length (tl r1) \<and> r \<noteq> [] \<and> (hd r = CHR ''/'' \<or> hd r = CHR ''>'')"
        using "1.IH"(1) [OF Cons _ _ one] 3 rest by simp
      with parse_one_att_Go [OF one] show ?thesis by auto
    qed
  qed
qed

lemma parseatt_no_overrun [scan]: "fst (parseatt s evs) \<noteq> Overrun"
proof (induction s evs rule: parseatt.induct)
  case (1 s evs)
  show ?case
    by (subst parseatt.simps)
      (auto split: list.splits scan_res.splits simp: "1.IH")
qed

section \<open>parseelt\<close>

text \<open>The name of an element; a colon starts it again, to ignore the namespace prefix.\<close>

fun elt_name :: "string \<Rightarrow> nat \<Rightarrow> string \<Rightarrow> (string \<times> nat \<times> string) scan_res" where
  "elt_name [] i en = Overrun"
| "elt_name (c # cs) i en =
     (if \<not> IS_WHITE_SPACE c \<and> c \<noteq> CHR ''>'' \<and> c \<noteq> CHR ''/''
      then (case cs of [] \<Rightarrow> Stop
            | d # ds \<Rightarrow> if d = CHR '':''
                        then (if ds = [] then Stop else elt_name ds 0 ds)
                        else elt_name cs (Suc i) en)
      else Go (c # cs, i, en))"

text \<open>
  The body of the comment loop, from the position before the increment:
  \<^verbatim>\<open>do { p->xml++; if((p->xml + 3) >= p->xmlend) return; } while(memcmp(p->xml, "-->", 3) != 0);\<close>
\<close>

fun skip_comment :: "string \<Rightarrow> string scan_res" where
  "skip_comment [] = Stop"
| "skip_comment (c # cs) =
     (if length cs \<le> 3 then Stop
      else case mem_is cs ''-->'' of
             Overrun \<Rightarrow> Overrun | Stop \<Rightarrow> Stop
           | Go b \<Rightarrow> if b then Go (drop 3 cs) else skip_comment cs)"

fun cdata_end :: "string \<Rightarrow> nat \<Rightarrow> (string \<times> nat) scan_res" where
  "cdata_end [] i = Overrun"
| "cdata_end (c # cs) i =
     (case mem_is (c # cs) '']]>'' of
        Overrun \<Rightarrow> Overrun | Stop \<Rightarrow> Stop
      | Go b \<Rightarrow> if b then Go (c # cs, i)
                else if length cs \<le> 3 then Stop else cdata_end cs (Suc i))"

fun text_end :: "string \<Rightarrow> nat \<Rightarrow> (string \<times> nat) scan_res" where
  "text_end [] i = Overrun"
| "text_end (c # cs) i =
     (if c \<noteq> CHR ''<'' then (if length cs \<le> 1 then Stop else text_end cs (Suc i))
      else Go (c # cs, i))"

definition cdata_start :: string where
  "cdata_start = ''<![CDATA[''"

text \<open>
  What follows a start tag, from its \<open>>\<close>: leading white space counts as data, then either a CDATA
  section or text up to the next \<open><\<close>, which is reported when a closing tag follows it.
\<close>

definition parse_cdata :: "string \<Rightarrow> xml_event list \<Rightarrow> string scan_res \<times> xml_event list" where
  "parse_cdata data evs =
     (case cdata_end data 0 of
        Overrun \<Rightarrow> (Overrun, evs) | Stop \<Rightarrow> (Stop, evs)
      | Go (r, i) \<Rightarrow>
          let evs' = (if i > 0 then evs @ [CharData (take i data)] else evs)
          in case scan_while (\<lambda>c. c \<noteq> CHR ''<'') r 0 of
               Overrun \<Rightarrow> (Overrun, evs') | Stop \<Rightarrow> (Stop, evs')
             | Go (r', _) \<Rightarrow> (Go r', evs'))"

definition parse_content :: "string \<Rightarrow> xml_event list \<Rightarrow> string scan_res \<times> xml_event list" where
  "parse_content s evs =
     (let data = tl s
      in if data = [] then (Stop, evs)
         else case scan_while IS_WHITE_SPACE data 0 of
                Overrun \<Rightarrow> (Overrun, evs) | Stop \<Rightarrow> (Stop, evs)
              | Go (r, i) \<Rightarrow>
                  if length r \<ge> 9 + 3 \<and> take 9 r = cdata_start
                  then parse_cdata (drop 9 r) evs
                  else (case text_end r i of
                          Overrun \<Rightarrow> (Overrun, evs) | Stop \<Rightarrow> (Stop, evs)
                        | Go (r', i') \<Rightarrow>
                            if i' > 0 \<and> 1 < length r' \<and> r' ! 1 = CHR ''/''
                            then (Go r', evs @ [CharData (take i' data)])
                            else (Go r', evs)))"

text \<open>A closing tag, from its slash.\<close>

definition parse_endtag :: "string \<Rightarrow> xml_event list \<Rightarrow> string scan_res \<times> xml_event list" where
  "parse_endtag s evs =
     (let en = tl s
      in if en = [] then (Stop, evs)
         else case scan_while (\<lambda>c. c \<noteq> CHR ''>'') en 0 of
                Overrun \<Rightarrow> (Overrun, evs) | Stop \<Rightarrow> (Stop, evs)
              | Go (r, i) \<Rightarrow> (Go (tl r), evs @ [EndElt (take i en)]))"

text \<open>A start tag whose name has been read, from the end of its name to its content.\<close>

definition parse_starttag ::
  "string \<Rightarrow> string \<Rightarrow> xml_event list \<Rightarrow> string scan_res \<times> xml_event list" where
  "parse_starttag name s evs =
     (case parseatt s (evs @ [StartElt name]) of
        (Go r, evs') \<Rightarrow>
          (case r of [] \<Rightarrow> (Overrun, evs')
           | c # cs \<Rightarrow> if c \<noteq> CHR ''/'' then parse_content r evs' else (Go r, evs'))
      | (x, evs') \<Rightarrow> (x, evs'))"

text \<open>A tag, from the character after its \<open><\<close>.\<close>

definition parse_tag :: "string \<Rightarrow> xml_event list \<Rightarrow> string scan_res \<times> xml_event list" where
  "parse_tag s evs =
     (case elt_name s 0 s of
        Overrun \<Rightarrow> (Overrun, evs) | Stop \<Rightarrow> (Stop, evs)
      | Go (r, i, en) \<Rightarrow>
          if i > 0 then parse_starttag (take i en) r evs
          else (case r of [] \<Rightarrow> (Overrun, evs)
                | c # cs \<Rightarrow> if c = CHR ''/'' then parse_endtag r evs else (Go r, evs)))"

lemma elt_name_Go [scan]: "elt_name s i en = Go (r, n, en') \<Longrightarrow> r \<noteq> [] \<and> length r \<le> length s"
proof (induction s i en rule: elt_name.induct)
  case (2 c cs i en)
  then show ?case by (cases cs) (auto split: if_splits)
qed simp

lemma elt_name_overrun [simp]: "elt_name s i en = Overrun \<longleftrightarrow> s = []"
proof (induction s i en rule: elt_name.induct)
  case (2 c cs i en)
  then show ?case by (cases cs) auto
qed simp

lemma skip_comment_Go [scan]: "skip_comment s = Go r \<Longrightarrow> length r < length s"
  by (induction s rule: skip_comment.induct)
    (fastforce split: if_splits scan_res.splits)+

lemma skip_comment_no_overrun [scan]: "skip_comment s \<noteq> Overrun"
  by (induction s rule: skip_comment.induct) (auto simp: mem_is_def)

lemma cdata_end_Go [scan]: "cdata_end s i = Go (r, n) \<Longrightarrow> r \<noteq> [] \<and> length r \<le> length s"
proof (induction s i rule: cdata_end.induct)
  case (2 c cs i)
  show ?case
  proof (cases "mem_is (c # cs) '']]>''")
    case (Go b)
    have "r \<noteq> [] \<and> length r \<le> length cs" if "\<not> b" "\<not> length cs \<le> 3"
      "cdata_end cs (Suc i) = Go (r, n)"
      using "2.IH" [OF Go that] .
    with "2.prems" Go show ?thesis by (auto split: if_splits)
  qed (use "2.prems" in simp_all)
qed simp

lemma cdata_end_no_overrun [scan]: "3 \<le> length s \<Longrightarrow> cdata_end s i \<noteq> Overrun"
proof (induction s i rule: cdata_end.induct)
  case (2 c cs i)
  have "mem_is (c # cs) '']]>'' \<noteq> Overrun" using "2.prems" by (simp add: mem_is_def)
  with 2 show ?case by (cases "length cs \<le> 3") (simp_all split: scan_res.split)
qed simp

lemma text_end_Go [scan]: "text_end s i = Go (r, n) \<Longrightarrow> r \<noteq> [] \<and> length r \<le> length s"
  by (induction s i rule: text_end.induct) (auto split: if_splits)

lemma text_end_overrun [simp]: "text_end s i = Overrun \<longleftrightarrow> s = []"
proof (induction s i rule: text_end.induct)
  case (2 c cs i)
  show ?case
  proof (cases "length cs \<le> 1")
    case False
    then have "cs \<noteq> []" by auto
    with 2 False show ?thesis by simp
  qed simp
qed simp

lemma parse_cdata_Go [scan]: "parse_cdata s evs = (Go r, evs') \<Longrightarrow> length r \<le> length s"
  by (auto simp: parse_cdata_def Let_def split: scan_res.splits dest!: cdata_end_Go scan_while_Go)

lemma parse_content_Go [scan]: "parse_content s evs = (Go r, evs') \<Longrightarrow> length r < length s"
  by (cases s) (auto simp: parse_content_def Let_def split: scan_res.splits if_splits
      dest!: scan_while_Go text_end_Go parse_cdata_Go)

lemma parse_endtag_Go [scan]: "parse_endtag s evs = (Go r, evs') \<Longrightarrow> length r < length s"
  by (cases s) (auto simp: parse_endtag_def Let_def split: scan_res.splits if_splits
      dest!: scan_while_Go)

lemma parse_starttag_Go [scan]: "parse_starttag n s evs = (Go r, evs') \<Longrightarrow> length r \<le> length s"
  by (auto simp: parse_starttag_def split: prod.splits scan_res.splits list.splits if_splits
      dest!: parseatt_Go parse_content_Go)

lemma parse_tag_Go [scan]: "parse_tag s evs = (Go r, evs') \<Longrightarrow> length r \<le> length s"
  by (auto simp: parse_tag_def split: scan_res.splits list.splits if_splits
      dest!: elt_name_Go parse_starttag_Go parse_endtag_Go)

text \<open>\<open>parseelt\<close> and \<open>parsexml\<close>: the result says whether the run read outside the buffer.\<close>

datatype xml_outcome = Returned | OutOfBounds

function parseelt :: "string \<Rightarrow> xml_event list \<Rightarrow> xml_outcome \<times> xml_event list" where
  "parseelt s evs =
     (if length s \<le> 1 then (Returned, evs)
      else if 4 \<le> length s \<and> take 4 s = ''<!--''
      then (case skip_comment (drop 3 s) of
              Overrun \<Rightarrow> (OutOfBounds, evs) | Stop \<Rightarrow> (Returned, evs)
            | Go r \<Rightarrow> parseelt r evs)
      else if s ! 0 = CHR ''<'' \<and> s ! 1 \<noteq> CHR ''?''
      then (case parse_tag (tl s) evs of
              (Overrun, evs') \<Rightarrow> (OutOfBounds, evs') | (Stop, evs') \<Rightarrow> (Returned, evs')
            | (Go r, evs') \<Rightarrow> parseelt r evs')
      else parseelt (tl s) evs)"
  by pat_completeness auto
termination
proof (relation "measure (\<lambda>(s, evs). length s)", goal_cases)
  case (2 s evs r)
  then show ?case by (auto dest!: skip_comment_Go)
next
  case (3 s evs x xa xb)
  then show ?case
    using parse_tag_Go [of "tl s" evs xb xa] by (cases s) auto
qed auto

declare parseelt.simps [simp del]

definition parsexml :: "string \<Rightarrow> xml_outcome \<times> xml_event list" where
  "parsexml buf = parseelt buf []"

section \<open>Memory safety\<close>

lemma parse_cdata_no_overrun [scan]: "3 \<le> length s \<Longrightarrow> fst (parse_cdata s evs) \<noteq> Overrun"
  by (auto simp: parse_cdata_def Let_def cdata_end_no_overrun
      split: scan_res.splits dest!: cdata_end_Go)

lemma parse_content_no_overrun [scan]: "fst (parse_content s evs) \<noteq> Overrun"
  by (auto simp: parse_content_def Let_def parse_cdata_no_overrun split: scan_res.splits dest!: scan_while_Go)

lemma parse_endtag_no_overrun [scan]: "fst (parse_endtag s evs) \<noteq> Overrun"
  by (auto simp: parse_endtag_def Let_def split: scan_res.splits)

lemma parse_starttag_no_overrun [scan]: "fst (parse_starttag n s evs) \<noteq> Overrun"
  using parseatt_no_overrun [of s "evs @ [StartElt n]"]
  by (auto simp: parse_starttag_def parse_content_no_overrun
      split: prod.splits scan_res.splits list.splits dest!: parseatt_Go)

lemma parse_tag_no_overrun [scan]: "s \<noteq> [] \<Longrightarrow> fst (parse_tag s evs) \<noteq> Overrun"
  by (auto simp: parse_tag_def parse_starttag_no_overrun
      parse_endtag_no_overrun split: scan_res.splits list.splits dest!: elt_name_Go)

lemma parsexml_returned: "fst (parsexml buf) = Returned"
proof -
  have "fst (parseelt s evs) = Returned" for s evs
  proof (induction s evs rule: parseelt.induct)
    case (1 s evs)
    show ?case
    proof (cases "length s \<le> 1")
      case True
      then show ?thesis by (simp add: parseelt.simps)
    next
      case False
      then have "tl s \<noteq> []" by (cases s) auto
      then have "fst (parse_tag (tl s) evs) \<noteq> Overrun" by (rule parse_tag_no_overrun)
      with False 1 skip_comment_no_overrun [of "drop 3 s"] show ?thesis
        by (subst parseelt.simps) (auto split: scan_res.split prod.split)
    qed
  qed
  then show ?thesis by (simp add: parsexml_def)
qed

text \<open>
  C31: \<open>parsexml\<close> always returns and never reads outside the buffer it is given, for any content of
  the buffer: every dereference of \<open>p->xml\<close> and every \<open>memcmp\<close> block lies before \<open>p->xmlend\<close>.
\<close>

theorem parsexml_no_overrun: "fst (parsexml buf) = Returned"
  by (rule parsexml_returned)

section \<open>The text of an element tree\<close>

datatype xml_tree = Node string "xml_tree list" | Leaf string string

fun print_xml :: "xml_tree \<Rightarrow> string" where
  "print_xml (Node n ts) = ''<'' @ n @ ''>'' @ concat (map print_xml ts) @ ''</'' @ n @ ''>''"
| "print_xml (Leaf n t) = ''<'' @ n @ ''>'' @ t @ ''</'' @ n @ ''>''"

fun events_of :: "xml_tree \<Rightarrow> xml_event list" where
  "events_of (Node n ts) = StartElt n # concat (map events_of ts) @ [EndElt n]"
| "events_of (Leaf n t) = StartElt n # (if t = [] then [] else [CharData t]) @ [EndElt n]"

text \<open>
  Names as element names without a prefix: no delimiter, and not the start of a comment or of a
  processing instruction. Text has no markup.
\<close>

definition tag_char :: "char \<Rightarrow> bool" where
  "tag_char c = (\<not> IS_WHITE_SPACE c \<and> c \<noteq> CHR ''>'' \<and> c \<noteq> CHR ''/'' \<and> c \<noteq> CHR '':''
                 \<and> c \<noteq> CHR ''?'' \<and> c \<noteq> CHR ''!'')"

definition tag_name :: "string \<Rightarrow> bool" where
  "tag_name n = (n \<noteq> [] \<and> list_all tag_char n)"

fun wf_tree :: "xml_tree \<Rightarrow> bool" where
  "wf_tree (Node n ts) = (tag_name n \<and> list_all wf_tree ts)"
| "wf_tree (Leaf n t) = (tag_name n \<and> list_all (\<lambda>c. c \<noteq> CHR ''<'') t)"

lemma scan_while_append:
  "list_all P xs \<Longrightarrow> r \<noteq> [] \<Longrightarrow> \<not> P (hd r) \<Longrightarrow> scan_while P (xs @ r) i = Go (r, i + length xs)"
  by (induction xs arbitrary: i) (auto simp: neq_Nil_conv)

lemma elt_name_append:
  "list_all tag_char xs \<Longrightarrow> elt_name (xs @ CHR ''>'' # r) i en = Go (CHR ''>'' # r, i + length xs, en)"
proof (induction xs arbitrary: i)
  case Nil
  then show ?case by simp
next
  case (Cons x xs)
  then show ?case by (cases xs) (auto simp: tag_char_def)
qed

lemma text_end_append:
  "list_all (\<lambda>c. c \<noteq> CHR ''<'') t \<Longrightarrow> 1 < length r \<Longrightarrow> r ! 0 = CHR ''<'' \<Longrightarrow>
    text_end (t @ r) i = Go (r, i + length t)"
proof (induction t arbitrary: i)
  case Nil
  then show ?case by (cases r) auto
next
  case (Cons c t)
  then show ?case by simp
qed


lemma parseelt_tag:
  "s \<noteq> [] \<Longrightarrow> hd s \<noteq> CHR ''?'' \<Longrightarrow> hd s \<noteq> CHR ''!'' \<Longrightarrow> parse_tag s evs = (Go r, evs') \<Longrightarrow>
    parseelt (CHR ''<'' # s) evs = parseelt r evs'"
  by (subst parseelt.simps) (auto simp: neq_Nil_conv)

lemma parse_endtag_close:
  assumes "tag_name n"
  shows "parseelt (CHR ''<'' # CHR ''/'' # n @ CHR ''>'' # r) evs = parseelt r (evs @ [EndElt n])"
proof (rule parseelt_tag)
  have "list_all (\<lambda>c. c \<noteq> CHR ''>'') n"
    using assms by (auto simp: tag_name_def tag_char_def list_all_iff)
  then have "scan_while (\<lambda>c. c \<noteq> CHR ''>'') (n @ CHR ''>'' # r) 0 = Go (CHR ''>'' # r, length n)"
    by (simp add: scan_while_append)
  then show "parse_tag (CHR ''/'' # n @ CHR ''>'' # r) evs = (Go r, evs @ [EndElt n])"
    by (simp add: parse_tag_def parse_endtag_def)
qed auto

lemma parse_starttag_open:
  assumes "tag_name n" and "parse_content (CHR ''>'' # data) (evs @ [StartElt n]) = (Go r, evs')"
  shows "parseelt (CHR ''<'' # n @ CHR ''>'' # data) evs = parseelt r evs'"
proof (rule parseelt_tag)
  from assms(1) have n: "n \<noteq> []" "list_all tag_char n" by (auto simp: tag_name_def)
  then have "tag_char (hd n)" by (cases n) auto
  with n show "hd (n @ CHR ''>'' # data) \<noteq> CHR ''?''" "hd (n @ CHR ''>'' # data) \<noteq> CHR ''!''"
    by (auto simp: tag_char_def)
  from n assms(2) show "parse_tag (n @ CHR ''>'' # data) evs = (Go r, evs')"
    by (simp add: parse_tag_def elt_name_append parse_starttag_def parseatt.simps)
qed simp

lemma parse_content_element:
  "1 < length d \<Longrightarrow> d ! 0 = CHR ''<'' \<Longrightarrow> d ! 1 \<noteq> CHR ''!'' \<Longrightarrow> parse_content (c # d) evs = (Go d, evs)"
proof -
  assume d: "1 < length d" "d ! 0 = CHR ''<''" "d ! 1 \<noteq> CHR ''!''"
  then obtain d' e where dd: "d = CHR ''<'' # e # d'"
    by (cases d; cases "tl d") auto
  with d have "take 9 d \<noteq> cdata_start" by (simp add: cdata_start_def)
  with dd show ?thesis
    by (simp add: parse_content_def IS_WHITE_SPACE_def)
qed

lemma parse_content_text:
  assumes "list_all (\<lambda>c. c \<noteq> CHR ''<'') t" and "r = CHR ''<'' # CHR ''/'' # r'"
  shows "parse_content (c # t @ r) evs = (Go r, if t = [] then evs else evs @ [CharData t])"
proof -
  define w where "w = takeWhile IS_WHITE_SPACE t"
  define u where "u = dropWhile IS_WHITE_SPACE t"
  have t: "t = w @ u" by (simp add: w_def u_def)
  have "u \<noteq> [] \<Longrightarrow> \<not> IS_WHITE_SPACE (hd u)" unfolding u_def by (rule hd_dropWhile)
  moreover have "\<not> IS_WHITE_SPACE CHR ''<''" by (simp add: IS_WHITE_SPACE_def)
  ultimately have "\<not> IS_WHITE_SPACE (hd (u @ r))" using assms(2) by (cases u) auto
  moreover have "list_all IS_WHITE_SPACE w"
    by (auto simp: w_def list_all_iff dest: set_takeWhileD)
  ultimately have ws: "scan_while IS_WHITE_SPACE (t @ r) 0 = Go (u @ r, length w)"
    using scan_while_append [of IS_WHITE_SPACE w "u @ r" 0] assms(2) by (simp add: t)
  have "list_all (\<lambda>c. c \<noteq> CHR ''<'') u" using assms(1) by (simp add: t)
  with assms(2) have te: "text_end (u @ r) (length w) = Go (r, length t)"
    by (subst text_end_append) (auto simp: t)
  have "take 9 (u @ r) \<noteq> cdata_start"
    using assms by (cases u) (auto simp: cdata_start_def t)
  with assms(2) ws te show ?thesis
    by (simp add: parse_content_def)
qed

lemma print_xml_start:
  assumes "wf_tree t"
  shows "\<exists>c r. print_xml t = CHR ''<'' # c # r \<and> c \<noteq> CHR ''!''"
proof -
  obtain n r where "print_xml t = CHR ''<'' # n @ r" "tag_name n"
    using assms by (cases t) auto
  then show ?thesis by (cases n) (auto simp: tag_name_def tag_char_def)
qed

lemma concat_print_start:
  assumes "list_all wf_tree ts"
  shows "1 < length (concat (map print_xml ts) @ CHR ''<'' # CHR ''/'' # r)
    \<and> (concat (map print_xml ts) @ CHR ''<'' # CHR ''/'' # r) ! 0 = CHR ''<''
    \<and> (concat (map print_xml ts) @ CHR ''<'' # CHR ''/'' # r) ! 1 \<noteq> CHR ''!''"
proof (cases ts)
  case (Cons t ts')
  with assms print_xml_start [of t] show ?thesis by auto
qed simp

lemma parseelt_print:
  "wf_tree t \<Longrightarrow> parseelt (print_xml t @ r) evs = parseelt r (evs @ events_of t)"
proof (induction t arbitrary: r evs)
  case (Node n ts)
  have sub: "parseelt (concat (map print_xml us) @ r) evs = parseelt r (evs @ concat (map events_of us))"
    if "set us \<subseteq> set ts" for us r evs
    using that Node.IH Node.prems by (induction us arbitrary: evs) (auto simp: list_all_iff)
  let ?d = "concat (map print_xml ts) @ CHR ''<'' # CHR ''/'' # n @ CHR ''>'' # r"
  have "parse_content (CHR ''>'' # ?d) (evs @ [StartElt n]) = (Go ?d, evs @ [StartElt n])"
    using Node.prems concat_print_start [of ts "n @ CHR ''>'' # r"]
    by (intro parse_content_element) auto
  with Node.prems have "parseelt (CHR ''<'' # n @ CHR ''>'' # ?d) evs = parseelt ?d (evs @ [StartElt n])"
    by (intro parse_starttag_open) auto
  also have "\<dots> = parseelt r (evs @ events_of (Node n ts))"
    using Node.prems by (simp add: sub parse_endtag_close)
  finally show ?case by simp
next
  case (Leaf n t)
  let ?d = "t @ CHR ''<'' # CHR ''/'' # n @ CHR ''>'' # r"
  have "parse_content (CHR ''>'' # ?d) (evs @ [StartElt n])
      = (Go (CHR ''<'' # CHR ''/'' # n @ CHR ''>'' # r),
         if t = [] then evs @ [StartElt n] else (evs @ [StartElt n]) @ [CharData t])"
    using Leaf.prems by (intro parse_content_text) auto
  with Leaf.prems have "parseelt (CHR ''<'' # n @ CHR ''>'' # ?d) evs
      = parseelt (CHR ''<'' # CHR ''/'' # n @ CHR ''>'' # r)
          (if t = [] then evs @ [StartElt n] else (evs @ [StartElt n]) @ [CharData t])"
    by (intro parse_starttag_open) auto
  also have "\<dots> = parseelt r (evs @ events_of (Leaf n t))"
    using Leaf.prems by (simp add: parse_endtag_close)
  finally show ?case by simp
qed

lemma parsexml_tree: "wf_tree t \<Longrightarrow> parsexml (print_xml t) = (Returned, events_of t)"
  using parseelt_print [of t "[]" "[]"] by (simp add: parsexml_def parseelt.simps)

text \<open>
  C32: on the text of a well-formed element tree (plain element names, text without markup), the
  scanner calls the start, data and end callbacks exactly in document order, one pair of start and
  end calls per element and one data call per non-empty text.
\<close>

theorem parsexml_print:
  assumes "wf_tree t"
  shows "parsexml (print_xml t) = (Returned, events_of t)"
  using assms by (rule parsexml_tree)

theorem parsexml_print_witness:
  "parsexml ''<a><b>1</b><c></c></a>''
     = (Returned, [StartElt ''a'', StartElt ''b'', CharData ''1'', EndElt ''b'', StartElt ''c'',
                   EndElt ''c'', EndElt ''a''])"
  using parsexml_print [of "Node ''a'' [Leaf ''b'' ''1'', Leaf ''c'' []]"]
  by (simp add: tag_name_def tag_char_def IS_WHITE_SPACE_def)

text \<open>
  an unquoted attribute value that ends at the closing bracket of its tag makes the scanner
  step over that bracket: the content and the closing tag of the element are then read as
  attributes and are lost. The start of the element and the attribute are all that is reported.
\<close>

theorem parsexml_unquoted_swallows:
  "parsexml ''<a b=c>x</a>'' = (Returned, [StartElt ''a'', AttValue ''b'' ''c''])"
  by code_simp

section \<open>The callback interface\<close>

text \<open>
  \<open>struct xmlparser\<close> from the point of view of a client: the callbacks over the client's own data,
  a null pointer being \<open>None\<close>. A run of the scanner is the calls in their order.
\<close>

record 's xmlparser =
  starteltfunc :: "('s \<Rightarrow> string \<Rightarrow> 's) option"
  endeltfunc :: "('s \<Rightarrow> string \<Rightarrow> 's) option"
  datafunc :: "('s \<Rightarrow> string \<Rightarrow> 's) option"
  attfunc :: "('s \<Rightarrow> string \<Rightarrow> string \<Rightarrow> 's) option"

fun xml_call :: "'s xmlparser \<Rightarrow> xml_event \<Rightarrow> 's \<Rightarrow> 's" where
  "xml_call p (StartElt n) d = (case starteltfunc p of None \<Rightarrow> d | Some f \<Rightarrow> f d n)"
| "xml_call p (EndElt n) d = (case endeltfunc p of None \<Rightarrow> d | Some f \<Rightarrow> f d n)"
| "xml_call p (CharData t) d = (case datafunc p of None \<Rightarrow> d | Some f \<Rightarrow> f d t)"
| "xml_call p (AttValue n v) d = (case attfunc p of None \<Rightarrow> d | Some f \<Rightarrow> f d n v)"

definition parsexml_with :: "'s xmlparser \<Rightarrow> string \<Rightarrow> 's \<Rightarrow> 's" where
  "parsexml_with p buf d = fold (xml_call p) (snd (parsexml buf)) d"

text \<open>
  What a client relies on: the scanner reports an element tree faithfully. The lemmas say how the
  data of a client evolves over a tree, element by element, so that a client is verified by
  induction over its documents without going back to the scanner.
\<close>

locale xml_scanner =
  fixes scan :: "string \<Rightarrow> xml_outcome \<times> xml_event list"
    and text_of :: "xml_tree \<Rightarrow> string"
    and wf :: "xml_tree \<Rightarrow> bool"
  assumes total: "fst (scan buf) = Returned"
    and faithful: "wf t \<Longrightarrow> scan (text_of t) = (Returned, events_of t)"
begin

lemma client_run: "wf t \<Longrightarrow> fold (xml_call p) (snd (scan (text_of t))) d = fold (xml_call p) (events_of t) d"
  by (simp add: faithful)

lemma client_node:
  assumes "wf (Node n ts)" and "starteltfunc p = Some f" and "endeltfunc p = Some g"
  shows "fold (xml_call p) (snd (scan (text_of (Node n ts)))) d
    = g (fold (\<lambda>t. fold (xml_call p) (events_of t)) ts (f d n)) n"
proof -
  have "fold (xml_call p) (concat (map events_of us)) e = fold (\<lambda>t. fold (xml_call p) (events_of t)) us e"
    for us e by (induction us arbitrary: e) auto
  with assms show ?thesis by (simp add: faithful)
qed

end

interpretation minixml: xml_scanner parsexml print_xml wf_tree
  by unfold_locales (auto simp: parsexml_returned parsexml_tree)

lemma parsexml_with_tree:
  "wf_tree t \<Longrightarrow> parsexml_with p (print_xml t) d = fold (xml_call p) (events_of t) d"
  by (simp add: parsexml_with_def minixml.client_run)

lemmas parsexml_with_node = minixml.client_node [folded parsexml_with_def]

end
