(* ===== verification/ReplyParse.thy ===== *)
theory ReplyParse
  imports MiniXml
begin

text \<open>
  \<open>upnpreplyparse.c\<close>: the name/value list that SOAP requests and responses are read into.

  The list is built at the head, so it is in reverse document order. Only an element that is closed
  before another one opens (a leaf of the document) gives an entry, names are cut at 63 characters,
  and the data of \<open>NewPortListing\<close>, an XML document of its own, is kept apart. Allocation is taken
  to succeed. Shown: on any element tree the list is the leaves of the tree in reverse
  (\<open>ParseNameValue_leaves\<close>), and a lookup returns the last leaf of that name.
\<close>

record NameValue =
  nv_name :: string
  nv_value :: string

record NameValueParserData =
  l_head :: "NameValue list"
  curelt :: string
  portListing :: "string option"
  topelt :: bool
  cdata :: "string option"

definition zero_nvpd :: NameValueParserData where
  "zero_nvpd = \<lparr>l_head = [], curelt = [], portListing = None, topelt = False, cdata = None\<rparr>"

definition NameValueParserStartElt :: "NameValueParserData \<Rightarrow> string \<Rightarrow> NameValueParserData" where
  "NameValueParserStartElt d name =
     d\<lparr>topelt := True, curelt := cstr (take 63 name), cdata := None\<rparr>"

definition NameValueParserEndElt :: "NameValueParserData \<Rightarrow> string \<Rightarrow> NameValueParserData" where
  "NameValueParserEndElt d name =
     (if \<not> topelt d then d
      else let d1 = (if curelt d \<noteq> ''NewPortListing''
                     then let v = (case cdata d of None \<Rightarrow> [] | Some t \<Rightarrow> cstr t)
                          in d\<lparr>l_head := \<lparr>nv_name = take 63 (curelt d), nv_value = v\<rparr> # l_head d\<rparr>
                     else d)
           in d1\<lparr>cdata := None, topelt := False\<rparr>)"

definition NameValueParserGetData :: "NameValueParserData \<Rightarrow> string \<Rightarrow> NameValueParserData" where
  "NameValueParserGetData d datas =
     (if curelt d = ''NewPortListing'' then d\<lparr>portListing := Some datas\<rparr>
      else d\<lparr>cdata := Some datas\<rparr>)"

definition nv_parser :: "NameValueParserData xmlparser" where
  "nv_parser = \<lparr>starteltfunc = Some NameValueParserStartElt, endeltfunc = Some NameValueParserEndElt,
     datafunc = Some NameValueParserGetData, attfunc = None\<rparr>"

definition ParseNameValue :: "string \<Rightarrow> NameValueParserData" where
  "ParseNameValue buffer = parsexml_with nv_parser buffer zero_nvpd"

definition ClearNameValueList :: "NameValueParserData \<Rightarrow> NameValueParserData" where
  "ClearNameValueList d = d\<lparr>portListing := None, l_head := []\<rparr>"

fun GetValue_loop :: "NameValue list \<Rightarrow> string \<Rightarrow> string option" where
  "GetValue_loop [] name = None"
| "GetValue_loop (nv # nvs) name = (if nv_name nv = name then Some (nv_value nv) else GetValue_loop nvs name)"

definition GetValueFromNameValueList :: "NameValueParserData \<Rightarrow> string \<Rightarrow> string option" where
  "GetValueFromNameValueList d name = GetValue_loop (l_head d) name"

section \<open>Leaves of a document\<close>

definition leaf_name :: "string \<Rightarrow> string" where
  "leaf_name n = cstr (take 63 n)"

definition leaf_entry :: "string \<Rightarrow> string \<Rightarrow> NameValue list" where
  "leaf_entry n v = (if leaf_name n = ''NewPortListing'' then []
                     else [\<lparr>nv_name = leaf_name n, nv_value = cstr v\<rparr>])"

fun leaves :: "xml_tree \<Rightarrow> NameValue list" where
  "leaves (Leaf n v) = leaf_entry n v"
| "leaves (Node n ts) = (if ts = [] then leaf_entry n [] else concat (map leaves ts))"

fun listings :: "xml_tree \<Rightarrow> string list" where
  "listings (Leaf n v) = (if leaf_name n = ''NewPortListing'' \<and> v \<noteq> [] then [v] else [])"
| "listings (Node n ts) = concat (map listings ts)"

lemma nv_parser_sel [simp]:
  "starteltfunc nv_parser = Some NameValueParserStartElt"
  "endeltfunc nv_parser = Some NameValueParserEndElt"
  "datafunc nv_parser = Some NameValueParserGetData" "attfunc nv_parser = None"
  by (simp_all add: nv_parser_def)

lemma take_leaf_name [simp]: "take 63 (leaf_name n) = leaf_name n"
proof -
  have "length (leaf_name n) \<le> length (take 63 n)"
    unfolding leaf_name_def cstr_def by (rule length_takeWhile_le)
  then show ?thesis by simp
qed

lemmas nv_defs = NameValueParserStartElt_def NameValueParserEndElt_def NameValueParserGetData_def

text \<open>The data after an element, whatever the tree: the leaves are added and no element is open.\<close>

definition after_tree :: "xml_tree \<Rightarrow> NameValueParserData \<Rightarrow> NameValueParserData \<Rightarrow> bool" where
  "after_tree t d d' = (l_head d' = rev (leaves t) @ l_head d \<and> \<not> topelt d' \<and> cdata d' = None
     \<and> portListing d' = (if listings t = [] then portListing d else Some (last (listings t))))"

lemma nv_leaf: "after_tree (Leaf n v) d (fold (xml_call nv_parser) (events_of (Leaf n v)) d)"
  by (auto simp: after_tree_def nv_defs leaf_entry_def leaf_name_def [symmetric] Let_def)

lemma nv_trees:
  assumes "\<And>t d. t \<in> set ts \<Longrightarrow> after_tree t d (fold (xml_call nv_parser) (events_of t) d)" and "ts \<noteq> []"
  shows "let d' = fold (\<lambda>t. fold (xml_call nv_parser) (events_of t)) ts d
    in l_head d' = rev (concat (map leaves ts)) @ l_head d \<and> \<not> topelt d' \<and> cdata d' = None
       \<and> portListing d' = (if concat (map listings ts) = [] then portListing d
                           else Some (last (concat (map listings ts))))"
  using assms
proof (induction ts arbitrary: d)
  case (Cons t ts)
  let ?d = "fold (xml_call nv_parser) (events_of t) d"
  have t: "after_tree t d ?d" using Cons.prems by simp
  show ?case
  proof (cases "ts = []")
    case True
    with t show ?thesis by (simp add: after_tree_def)
  next
    case False
    with Cons have "let d' = fold (\<lambda>t. fold (xml_call nv_parser) (events_of t)) ts ?d
      in l_head d' = rev (concat (map leaves ts)) @ l_head ?d \<and> \<not> topelt d' \<and> cdata d' = None
       \<and> portListing d' = (if concat (map listings ts) = [] then portListing ?d
                           else Some (last (concat (map listings ts))))"
      by simp
    with t show ?thesis by (auto simp: after_tree_def Let_def last_append)
  qed
qed simp

lemma fold_events_concat:
  "fold f (concat (map events_of ts)) d = fold (\<lambda>t. fold f (events_of t)) ts d"
  by (induction ts arbitrary: d) auto

lemma nv_tree: "after_tree t d (fold (xml_call nv_parser) (events_of t) d)"
proof (induction t arbitrary: d)
  case (Leaf n v)
  then show ?case by (rule nv_leaf)
next
  case (Node n ts)
  show ?case
  proof (cases "ts = []")
    case True
    with nv_leaf [of n "[]" d] show ?thesis by (simp add: after_tree_def)
  next
    case False
    with nv_trees [of ts, OF Node.IH] show ?thesis
      by (auto simp: after_tree_def fold_events_concat Let_def NameValueParserEndElt_def
          NameValueParserStartElt_def)
  qed
qed

lemma GetValue_loop_map_of:
  "GetValue_loop nvs name = map_of (map (\<lambda>nv. (nv_name nv, nv_value nv)) nvs) name"
  by (induction nvs) auto

text \<open>
  C33: for every well-formed element tree, \<open>ParseNameValue\<close> on its text gives the list of the leaves
  of the tree in reverse document order (names cut at 63 characters), leaves out \<open>NewPortListing\<close>,
  and keeps the last non-empty \<open>NewPortListing\<close> text as the port listing.
\<close>

theorem ParseNameValue_leaves:
  assumes "wf_tree t"
  shows "l_head (ParseNameValue (print_xml t)) = rev (leaves t)
    \<and> portListing (ParseNameValue (print_xml t))
        = (if listings t = [] then None else Some (last (listings t)))"
  using nv_tree [of t zero_nvpd] assms
  by (simp add: ParseNameValue_def parsexml_with_tree after_tree_def zero_nvpd_def)

theorem ParseNameValue_leaves_witness:
  "l_head (ParseNameValue (print_xml (Node ''s'' [Leaf ''a'' ''1'', Node ''b'' [Leaf ''c'' ''2'']])))
     = [\<lparr>nv_name = ''c'', nv_value = ''2''\<rparr>, \<lparr>nv_name = ''a'', nv_value = ''1''\<rparr>]"
  using ParseNameValue_leaves [of "Node ''s'' [Leaf ''a'' ''1'', Node ''b'' [Leaf ''c'' ''2'']]"]
  by (simp add: tag_name_def tag_char_def IS_WHITE_SPACE_def leaf_entry_def leaf_name_def)

text \<open>
  a SOAP argument that occurs as exactly one leaf is found by its name with its value, whatever
  the rest of the request is.
\<close>

theorem GetValue_unique_leaf:
  assumes "wf_tree t" and "\<lparr>nv_name = name, nv_value = v\<rparr> \<in> set (leaves t)"
    and "\<forall>nv \<in> set (leaves t). nv_name nv = name \<longrightarrow> nv_value nv = v"
  shows "GetValueFromNameValueList (ParseNameValue (print_xml t)) name = Some v"
proof -
  have l: "l_head (ParseNameValue (print_xml t)) = rev (leaves t)"
    using nv_tree [of t zero_nvpd] assms(1)
    by (simp add: ParseNameValue_def parsexml_with_tree after_tree_def zero_nvpd_def)
  let ?kv = "map (\<lambda>nv. (nv_name nv, nv_value nv)) (rev (leaves t))"
  have "(name, v) \<in> set ?kv" using assms(2) by force
  then obtain w where w: "map_of ?kv name = Some w"
    by (cases "map_of ?kv name") (force simp: map_of_eq_None_iff)+
  then have "(name, w) \<in> set ?kv" by (rule map_of_SomeD)
  with assms(3) have "w = v" by auto
  with w l show ?thesis by (simp add: GetValueFromNameValueList_def GetValue_loop_map_of)
qed

theorem GetValue_unique_leaf_witness:
  "GetValueFromNameValueList
     (ParseNameValue (print_xml (Node ''s'' [Leaf ''a'' ''1'', Leaf ''b'' ''2'']))) ''a'' = Some ''1''"
  using GetValue_unique_leaf [of "Node ''s'' [Leaf ''a'' ''1'', Leaf ''b'' ''2'']" "''a''" "''1''"]
  by (simp add: tag_name_def tag_char_def IS_WHITE_SPACE_def leaf_entry_def leaf_name_def)

end
