(* ===== verification/IgdDesc.thy ===== *)
theory IgdDesc
  imports MiniXml
begin

text \<open>
  \<open>igd_desc_parse.c\<close> of the client library: the services of an Internet Gateway Device description.
  Shown: every string fits its array whatever the description, and on a description that lists
  services the parser keeps the common interface service, the IPv6 firewall service and the first
  two connection services (\<open>IGD_select_services\<close>).
\<close>

record IGDdatas_service =
  controlurl :: string
  eventsuburl :: string
  scpdurl :: string
  servicetype :: string

record IGDdatas =
  cureltname :: string
  urlbase :: string
  presentationurl :: string
  igd_level :: int
  CIF :: IGDdatas_service
  igd_first :: IGDdatas_service
  igd_second :: IGDdatas_service
  IPv6FC :: IGDdatas_service
  igd_tmp :: IGDdatas_service

definition zero_service :: IGDdatas_service where
  "zero_service = \<lparr>controlurl = [], eventsuburl = [], scpdurl = [], servicetype = []\<rparr>"

definition zero_igd :: IGDdatas where
  "zero_igd = \<lparr>cureltname = [], urlbase = [], presentationurl = [], igd_level = 0, CIF = zero_service,
     igd_first = zero_service, igd_second = zero_service, IPv6FC = zero_service, igd_tmp = zero_service\<rparr>"

definition IGDstartelt :: "IGDdatas \<Rightarrow> string \<Rightarrow> IGDdatas" where
  "IGDstartelt d name =
     (let d1 = d\<lparr>cureltname := cstr (take 127 name), igd_level := igd_level d + 1\<rparr>
      in if name = ''service''
         then d1\<lparr>igd_tmp := \<lparr>controlurl = [], eventsuburl = [], scpdurl = [], servicetype = []\<rparr>\<rparr>
         else d1)"

text \<open>\<open>COMPARE(str, cstr)\<close>: the literal is a prefix of the string.\<close>

definition COMPARE :: "string \<Rightarrow> string \<Rightarrow> bool" where
  "COMPARE s lit = (take (length lit) s = lit)"

definition is_cif :: "string \<Rightarrow> bool" where
  "is_cif st = COMPARE st ''urn:schemas-upnp-org:service:WANCommonInterfaceConfig:''"

definition is_ipv6fc :: "string \<Rightarrow> bool" where
  "is_ipv6fc st = COMPARE st ''urn:schemas-upnp-org:service:WANIPv6FirewallControl:''"

definition is_connection :: "string \<Rightarrow> bool" where
  "is_connection st = (COMPARE st ''urn:schemas-upnp-org:service:WANIPConnection:''
     \<or> COMPARE st ''urn:schemas-upnp-org:service:WANPPPConnection:'')"

definition IGDendelt :: "IGDdatas \<Rightarrow> string \<Rightarrow> IGDdatas" where
  "IGDendelt d name =
     (let d1 = d\<lparr>igd_level := igd_level d - 1\<rparr>; st = servicetype (igd_tmp d)
      in if name = ''service''
         then (if is_cif st then d1\<lparr>CIF := igd_tmp d\<rparr>
               else if is_ipv6fc st then d1\<lparr>IPv6FC := igd_tmp d\<rparr>
               else if is_connection st
               then (if servicetype (igd_first d) = [] then d1\<lparr>igd_first := igd_tmp d\<rparr>
                     else d1\<lparr>igd_second := igd_tmp d\<rparr>)
               else d1)
         else d1)"

definition IGDdata :: "IGDdatas \<Rightarrow> string \<Rightarrow> IGDdatas" where
  "IGDdata d t =
     (let v = cstr (take 127 t); n = cureltname d
      in if n = ''URLBase'' then d\<lparr>urlbase := v\<rparr>
         else if n = ''presentationURL'' then d\<lparr>presentationurl := v\<rparr>
         else if n = ''serviceType'' then d\<lparr>igd_tmp := (igd_tmp d)\<lparr>servicetype := v\<rparr>\<rparr>
         else if n = ''controlURL'' then d\<lparr>igd_tmp := (igd_tmp d)\<lparr>controlurl := v\<rparr>\<rparr>
         else if n = ''eventSubURL'' then d\<lparr>igd_tmp := (igd_tmp d)\<lparr>eventsuburl := v\<rparr>\<rparr>
         else if n = ''SCPDURL'' then d\<lparr>igd_tmp := (igd_tmp d)\<lparr>scpdurl := v\<rparr>\<rparr>
         else d)"

definition igd_parser :: "IGDdatas xmlparser" where
  "igd_parser = \<lparr>starteltfunc = Some IGDstartelt, endeltfunc = Some IGDendelt, datafunc = Some IGDdata,
     attfunc = None\<rparr>"

definition parse_igd :: "string \<Rightarrow> IGDdatas" where
  "parse_igd buf = parsexml_with igd_parser buf zero_igd"

section \<open>Bounds\<close>

definition svc_fits :: "IGDdatas_service \<Rightarrow> bool" where
  "svc_fits s = (length (controlurl s) < 128 \<and> length (eventsuburl s) < 128 \<and> length (scpdurl s) < 128
     \<and> length (servicetype s) < 128)"

definition igd_fits :: "IGDdatas \<Rightarrow> bool" where
  "igd_fits d = (length (cureltname d) < 128 \<and> length (urlbase d) < 128 \<and> length (presentationurl d) < 128
     \<and> svc_fits (CIF d) \<and> svc_fits (igd_first d) \<and> svc_fits (igd_second d) \<and> svc_fits (IPv6FC d)
     \<and> svc_fits (igd_tmp d))"

lemma length_cstr_127: "length (cstr (take 127 t)) < 128"
proof -
  from length_cstr [of "take 127 t"] show ?thesis by simp
qed

lemma igd_call_fits: "igd_fits d \<Longrightarrow> igd_fits (xml_call igd_parser ev d)"
  using length_cstr_127
  by (cases ev) (auto simp: igd_parser_def IGDstartelt_def IGDendelt_def IGDdata_def igd_fits_def
      svc_fits_def Let_def)

lemma igd_fold_fits: "igd_fits d \<Longrightarrow> igd_fits (fold (xml_call igd_parser) evs d)"
  by (induction evs arbitrary: d) (auto simp: igd_call_fits)

lemma zero_igd_fits: "igd_fits zero_igd"
  by (simp add: zero_igd_def igd_fits_def svc_fits_def zero_service_def)

text \<open>
  whatever description a device sends, every string the parser stores, with its terminating NUL,
  fits its array of \<open>MINIUPNPC_URL_MAXSIZE\<close> bytes.
\<close>

theorem parse_igd_fits: "igd_fits (parse_igd buf)"
  unfolding parse_igd_def parsexml_with_def by (rule igd_fold_fits) (rule zero_igd_fits)

section \<open>Selection of the services\<close>

definition svc_tree :: "IGDdatas_service \<Rightarrow> xml_tree" where
  "svc_tree s = Node ''service''
     [Leaf ''serviceType'' (servicetype s), Leaf ''controlURL'' (controlurl s),
      Leaf ''eventSubURL'' (eventsuburl s), Leaf ''SCPDURL'' (scpdurl s)]"

definition plain_url :: "string \<Rightarrow> bool" where
  "plain_url s = (length s < 128 \<and> list_all (\<lambda>c. c \<noteq> CHR ''<'' \<and> c \<noteq> CHR 0x00) s)"

definition svc_printable :: "IGDdatas_service \<Rightarrow> bool" where
  "svc_printable s = (plain_url (servicetype s) \<and> plain_url (controlurl s) \<and> plain_url (eventsuburl s)
     \<and> plain_url (scpdurl s))"

definition IGD_service :: "IGDdatas_service \<Rightarrow> IGDdatas \<Rightarrow> IGDdatas" where
  "IGD_service s d =
     (let st = servicetype s; d1 = d\<lparr>igd_tmp := s, cureltname := ''SCPDURL''\<rparr>
      in if is_cif st then d1\<lparr>CIF := s\<rparr>
         else if is_ipv6fc st then d1\<lparr>IPv6FC := s\<rparr>
         else if is_connection st
         then (if servicetype (igd_first d) = [] then d1\<lparr>igd_first := s\<rparr> else d1\<lparr>igd_second := s\<rparr>)
         else d1)"

lemma plain_url_cstr: "plain_url u \<Longrightarrow> cstr (take 127 u) = u"
  by (simp add: plain_url_def) (rule cstr_id, auto simp: list_all_iff)

text \<open>One leaf of a service: the field named by the element is set, the level is back.\<close>

lemma igd_leaf:
  assumes "n \<noteq> ''service''"
  shows "fold (xml_call igd_parser) (events_of (Leaf n t)) d
    = (let d1 = d\<lparr>cureltname := cstr (take 127 n)\<rparr> in if t = [] then d1 else IGDdata d1 t)"
proof -
  have "IGDdata (d\<lparr>cureltname := m, igd_level := l\<rparr>) t = (IGDdata (d\<lparr>cureltname := m\<rparr>) t)\<lparr>igd_level := l\<rparr>"
    "igd_level (IGDdata d t) = igd_level d" for d m l
    by (simp_all add: IGDdata_def Let_def)
  with assms show ?thesis
    by (simp add: igd_parser_def IGDstartelt_def IGDendelt_def Let_def)
qed

lemma cstr_literals [simp]:
  "cstr ''serviceType'' = ''serviceType''" "cstr ''controlURL'' = ''controlURL''"
  "cstr ''eventSubURL'' = ''eventSubURL''" "cstr ''SCPDURL'' = ''SCPDURL''"
  by (simp_all add: cstr_def)

lemma igd_fields:
  assumes "plain_url u"
  shows "servicetype (igd_tmp d) = [] \<Longrightarrow> fold (xml_call igd_parser) (events_of (Leaf ''serviceType'' u)) d
      = d\<lparr>cureltname := ''serviceType'', igd_tmp := (igd_tmp d)\<lparr>servicetype := u\<rparr>\<rparr>"
    and "controlurl (igd_tmp d) = [] \<Longrightarrow> fold (xml_call igd_parser) (events_of (Leaf ''controlURL'' u)) d
      = d\<lparr>cureltname := ''controlURL'', igd_tmp := (igd_tmp d)\<lparr>controlurl := u\<rparr>\<rparr>"
    and "eventsuburl (igd_tmp d) = [] \<Longrightarrow> fold (xml_call igd_parser) (events_of (Leaf ''eventSubURL'' u)) d
      = d\<lparr>cureltname := ''eventSubURL'', igd_tmp := (igd_tmp d)\<lparr>eventsuburl := u\<rparr>\<rparr>"
    and "scpdurl (igd_tmp d) = [] \<Longrightarrow> fold (xml_call igd_parser) (events_of (Leaf ''SCPDURL'' u)) d
      = d\<lparr>cureltname := ''SCPDURL'', igd_tmp := (igd_tmp d)\<lparr>scpdurl := u\<rparr>\<rparr>"
  using plain_url_cstr [OF assms]
  by (simp_all add: igd_leaf IGDdata_def Let_def del: events_of.simps)

lemma igd_service_run:
  assumes "svc_printable s"
  shows "fold (xml_call igd_parser) (events_of (svc_tree s)) d = IGD_service s d"
proof -
  have u: "plain_url (servicetype s)" "plain_url (controlurl s)" "plain_url (eventsuburl s)"
    "plain_url (scpdurl s)"
    using assms by (simp_all add: svc_printable_def)
  let ?leaf = "\<lambda>n t. fold (xml_call igd_parser) (events_of (Leaf n t))"
  have "fold (xml_call igd_parser) (events_of (svc_tree s)) d
    = IGDendelt (?leaf ''SCPDURL'' (scpdurl s) (?leaf ''eventSubURL'' (eventsuburl s)
        (?leaf ''controlURL'' (controlurl s) (?leaf ''serviceType'' (servicetype s)
          (IGDstartelt d ''service''))))) ''service''"
    by (simp add: svc_tree_def igd_parser_def)
  also have "IGDstartelt d ''service'' = d\<lparr>cureltname := ''service'', igd_level := igd_level d + 1,
      igd_tmp := zero_service\<rparr>"
    by (simp add: IGDstartelt_def Let_def cstr_def zero_service_def)
  also have "IGDendelt (?leaf ''SCPDURL'' (scpdurl s) (?leaf ''eventSubURL'' (eventsuburl s)
        (?leaf ''controlURL'' (controlurl s) (?leaf ''serviceType'' (servicetype s)
          (d\<lparr>cureltname := ''service'', igd_level := igd_level d + 1, igd_tmp := zero_service\<rparr>))))) ''service''
      = IGDendelt (d\<lparr>cureltname := ''SCPDURL'', igd_level := igd_level d + 1, igd_tmp := s\<rparr>) ''service''"
    using u by (cases s; cases d) (simp add: igd_fields zero_service_def del: events_of.simps)
  also have "\<dots> = IGD_service s d"
    by (simp add: IGDendelt_def IGD_service_def Let_def)
  finally show ?thesis .
qed

lemma svc_tree_wf: "svc_printable s \<Longrightarrow> wf_tree (svc_tree s)"
proof -
  assume s: "svc_printable s"
  have "plain_url u \<Longrightarrow> list_all (\<lambda>c. c \<noteq> CHR ''<'') u" for u
    by (auto simp: plain_url_def list_all_iff)
  with s show ?thesis
    by (simp add: svc_tree_def svc_printable_def tag_name_def tag_char_def IS_WHITE_SPACE_def)
qed

lemma igd_services_run:
  "list_all svc_printable ss \<Longrightarrow>
    fold (xml_call igd_parser) (concat (map (events_of \<circ> svc_tree) ss)) d = fold IGD_service ss d"
  by (induction ss arbitrary: d) (auto simp: igd_service_run)

definition conns :: "IGDdatas_service list \<Rightarrow> IGDdatas_service list" where
  "conns ss = filter (\<lambda>s. is_connection (servicetype s)) ss"

lemma COMPARE_nth: "COMPARE s lit \<Longrightarrow> i < length lit \<Longrightarrow> s ! i = lit ! i"
  unfolding COMPARE_def by (metis nth_take)

lemma service_kinds:
  "is_cif st \<Longrightarrow> st ! 32 = CHR ''C''" "is_ipv6fc st \<Longrightarrow> st ! 32 = CHR ''I'' \<and> st ! 34 = CHR ''v''"
  "is_connection st \<Longrightarrow> st ! 32 = CHR ''P'' \<or> (st ! 32 = CHR ''I'' \<and> st ! 34 = CHR ''C'')"
  by (auto simp: is_cif_def is_ipv6fc_def is_connection_def dest: COMPARE_nth [where i = 32] COMPARE_nth [where i = 34])

lemma service_disjoint:
  "is_connection st \<Longrightarrow> \<not> is_cif st" "is_connection st \<Longrightarrow> \<not> is_ipv6fc st"
  "is_ipv6fc st \<Longrightarrow> \<not> is_cif st"
  using service_kinds [of st] by auto

lemma connection_not_Nil: "is_connection st \<Longrightarrow> st \<noteq> []"
  by (auto simp: is_connection_def COMPARE_def)

text \<open>The choice among the connection services, newest last.\<close>

fun pick_last :: "IGDdatas_service \<Rightarrow> IGDdatas_service list \<Rightarrow> IGDdatas_service" where
  "pick_last z [] = z"
| "pick_last z (s # ss) = pick_last s ss"

lemma fold_first_set:
  "servicetype (igd_first d) \<noteq> [] \<Longrightarrow> igd_first (fold IGD_service ss d) = igd_first d
    \<and> igd_second (fold IGD_service ss d) = pick_last (igd_second d) (conns ss)"
  by (induction ss arbitrary: d)
    (auto simp: IGD_service_def Let_def conns_def dest: service_disjoint)

lemma fold_connections:
  "servicetype (igd_first d) = [] \<Longrightarrow>
    igd_first (fold IGD_service ss d) = (case conns ss of [] \<Rightarrow> igd_first d | s # _ \<Rightarrow> s)
    \<and> igd_second (fold IGD_service ss d) = pick_last (igd_second d) (tl (conns ss))"
proof (induction ss arbitrary: d)
  case (Cons s ss)
  show ?case
  proof (cases "is_connection (servicetype s)")
    case True
    then have "servicetype s \<noteq> []" by (rule connection_not_Nil)
    with True Cons.prems service_disjoint(1,2) [OF True]
    have "igd_first (IGD_service s d) = s" "igd_second (IGD_service s d) = igd_second d"
      "servicetype (igd_first (IGD_service s d)) \<noteq> []"
      by (simp_all add: IGD_service_def Let_def)
    with fold_first_set [of "IGD_service s d" ss] True show ?thesis by (simp add: conns_def)
  next
    case False
    with Cons.prems have "servicetype (igd_first (IGD_service s d)) = []"
      "igd_first (IGD_service s d) = igd_first d" "igd_second (IGD_service s d) = igd_second d"
      by (auto simp: IGD_service_def Let_def)
    with Cons.IH [of "IGD_service s d"] False show ?thesis by (simp add: conns_def split: list.splits)
  qed
qed (simp add: conns_def)

lemma fold_cif: "CIF (fold IGD_service ss d) = pick_last (CIF d) (filter (\<lambda>s. is_cif (servicetype s)) ss)"
  by (induction ss arbitrary: d) (auto simp: IGD_service_def Let_def)

lemma fold_fc:
  "IPv6FC (fold IGD_service ss d) = pick_last (IPv6FC d) (filter (\<lambda>s. is_ipv6fc (servicetype s)) ss)"
  by (induction ss arbitrary: d) (auto simp: IGD_service_def Let_def dest: service_disjoint)

lemma parse_igd_services:
  assumes "list_all svc_printable ss"
  shows "parse_igd (print_xml (Node ''root'' (map svc_tree ss)))
    = (fold IGD_service ss (IGDstartelt zero_igd ''root''))\<lparr>igd_level := 0\<rparr>"
proof -
  have wf: "wf_tree (Node ''root'' (map svc_tree ss))"
    using assms by (auto simp: svc_tree_wf list_all_iff tag_name_def tag_char_def IS_WHITE_SPACE_def)
  have lev: "igd_level (fold IGD_service ss d) = igd_level d" for d
    by (induction ss arbitrary: d) (auto simp: IGD_service_def Let_def)
  show ?thesis
    unfolding parse_igd_def parsexml_with_tree [OF wf]
    using igd_services_run [OF assms, of "IGDstartelt zero_igd ''root''"]
    by (simp add: igd_parser_def IGDendelt_def Let_def comp_def lev)
      (simp add: IGDstartelt_def Let_def zero_igd_def)
qed

text \<open>
  on a description that lists any services, the parser selects by service type: the first
  connection service (IP or PPP) as the primary one, the last of the other connection services as
  the secondary one, the last common interface service and the last IPv6 firewall service, each with
  its three URLs, and empty entries where there is none.
\<close>

theorem IGD_select_services:
  assumes "list_all svc_printable ss"
  defines "d \<equiv> parse_igd (print_xml (Node ''root'' (map svc_tree ss)))"
  shows "igd_first d = (case conns ss of [] \<Rightarrow> zero_service | s # _ \<Rightarrow> s)
    \<and> igd_second d = pick_last zero_service (tl (conns ss))
    \<and> CIF d = pick_last zero_service (filter (\<lambda>s. is_cif (servicetype s)) ss)
    \<and> IPv6FC d = pick_last zero_service (filter (\<lambda>s. is_ipv6fc (servicetype s)) ss)"
proof -
  have z: "servicetype (igd_first (IGDstartelt zero_igd ''root'')) = []"
    "igd_first (IGDstartelt zero_igd ''root'') = zero_service"
    "igd_second (IGDstartelt zero_igd ''root'') = zero_service"
    "CIF (IGDstartelt zero_igd ''root'') = zero_service" "IPv6FC (IGDstartelt zero_igd ''root'') = zero_service"
    by (simp_all add: IGDstartelt_def zero_igd_def zero_service_def Let_def)
  show ?thesis
    unfolding d_def parse_igd_services [OF assms(1)]
    using fold_connections [OF z(1), of ss] by (simp add: fold_cif fold_fc z split: list.splits)
qed

theorem IGD_select_services_witness:
  "let s = \<lparr>controlurl = ''/ctl'', eventsuburl = ''/evt'', scpdurl = ''/d.xml'',
             servicetype = ''urn:schemas-upnp-org:service:WANIPConnection:1''\<rparr>
   in igd_first (parse_igd (print_xml (Node ''root'' (map svc_tree [s])))) = s"
proof -
  let ?s = "\<lparr>controlurl = ''/ctl'', eventsuburl = ''/evt'', scpdurl = ''/d.xml'',
             servicetype = ''urn:schemas-upnp-org:service:WANIPConnection:1''\<rparr>"
  have "list_all svc_printable [?s]" by (simp add: svc_printable_def plain_url_def)
  moreover have "conns [?s] = [?s]" by (simp add: conns_def is_connection_def COMPARE_def)
  ultimately show ?thesis using IGD_select_services [of "[?s]"] by (simp add: Let_def)
qed

end
