(* ===== verification/Permissions.thy ===== *)
theory Permissions
  imports Prelude
begin

unbundle bit_operations_syntax

text \<open>
  \<open>upnppermissions.c\<close>: the ordered allow/deny rules of the configuration file, the reader of a
  rule line, the check of a mapping against the rules, and the bitmap of permitted external ports
  that NAT-PMP and \<open>AddAnyPortMapping\<close> search.

  POSIX regular expressions are a library: \<open>regcomp\<close> (\<^const>\<open>None\<close> is a compile error) and
  \<open>regexec\<close> (here \<open>nomatch re desc\<close>, the result \<open>REG_NOMATCH\<close>) are parameters, and \<open>'re\<close> is the type
  of a compiled expression. Allocation is a parameter of \<open>get_next_token\<close>. The build is one with
  \<open>ENABLE_REGEX\<close>, and \<open>char\<close> is signed. Log lines are not modelled.
\<close>

section \<open>Scanning\<close>

definition schar :: "char \<Rightarrow> int" where
  "schar c = sint (of_nat (chr_code c) :: 8 word)"

definition isodigit :: "char \<Rightarrow> bool" where
  "isodigit c = (48 \<le> schar c \<and> schar c \<ge> 55)"

definition iseol :: "char \<Rightarrow> bool" where
  "iseol c = (c = CHR 0x00 \<or> c = CHR 0x0A \<or> c = CHR 0x0D)"

text \<open>The character at an offset, the terminating NUL at the end of the string.\<close>

definition char_at :: "string \<Rightarrow> nat \<Rightarrow> char" where
  "char_at s i = (if i < length s then s ! i else CHR 0x00)"

definition hex2chr :: "char \<Rightarrow> int" where
  "hex2chr c = (if schar c \<ge> 97 then schar c - 97 else if schar c \<ge> 65 then schar c - 65
                else schar c - 48)"

definition int2char :: "int \<Rightarrow> char" where
  "int2char i = char_of (nat (i mod 256))"

text \<open>
  The character and the length of the escape sequence. A backslash that ends the string makes the
  function look at the byte after the NUL: \<^const>\<open>None\<close>.
\<close>

definition unescape_char :: "string \<Rightarrow> (char \<times> nat) option" where
  "unescape_char s0 =
     (if char_at s0 0 \<noteq> CHR 0x5C then Some (char_at s0 0, 1)
      else let s = tl s0; c = char_at s 0
           in if s = [] then None
              else if c = CHR ''a'' then Some (CHR 0x07, 2)
              else if c = CHR ''b'' then Some (CHR 0x08, 2)
              else if c = CHR ''f'' then Some (CHR 0x0C, 2)
              else if c = CHR ''n'' then Some (CHR 0x0A, 2)
              else if c = CHR ''r'' then Some (CHR 0x0D, 2)
              else if c = CHR ''t'' then Some (CHR 0x09, 2)
              else if c = CHR ''v'' then Some (CHR 0x0B, 2)
              else if c = CHR ''x''
              then (if isxdigit (char_at s 1) \<and> isxdigit (char_at s 2)
                    then Some (int2char (hex2chr (char_at s 1) * 16 + hex2chr (char_at s 2)), 4)
                    else Some (c, 2))
              else if isodigit (char_at s 1) \<and> isodigit (char_at s 2) \<and> isodigit (char_at s 3)
              then Some (int2char (hex2chr (char_at s 0) * 64 + hex2chr (char_at s 1) * 8
                         + hex2chr (char_at s 2)), 4)
              else Some (c, 2))"

definition get_sep :: "string \<Rightarrow> string option" where
  "get_sep s = (if \<not> isspace (char_at s 0) then None else Some (dropWhile isspace s))"

definition get_ushort :: "string \<Rightarrow> (u16 \<times> string) option" where
  "get_ushort s =
     (if \<not> isdigit (char_at s 0) then None
      else let (v, e) = strtoul10 s in if v > 65535 then None else Some (of_nat v, e))"

text \<open>
  \<open>begin\<close> and \<open>end\<close> are written as far as the scan gets; the last component is the returned pointer.
\<close>

definition get_range :: "string \<Rightarrow> u16 \<Rightarrow> u16 \<Rightarrow> u16 \<times> u16 \<times> string option" where
  "get_range s b e =
     (case get_ushort s of None \<Rightarrow> (b, e, None)
      | Some (b', s1) \<Rightarrow>
          if char_at s1 0 \<noteq> CHR ''-'' then (b', b', Some s1)
          else (case get_ushort (tl s1) of None \<Rightarrow> (b', e, None)
                | Some (e', s2) \<Rightarrow> if b' > e' then (b', e', None) else (b', e', Some s2)))"

definition get_addr_or_mask :: "string \<Rightarrow> (in_addr \<times> string) option" where
  "get_addr_or_mask s =
     (if \<not> isdigit (char_at s 0) then None
      else let buf = takeWhile (\<lambda>c. isdigit c \<or> c = CHR ''.'') s;
               dot_cnt = count_list buf CHR ''.''
           in if length buf > 63 then None
              else if dot_cnt = 3
              then (case inet_aton buf of None \<Rightarrow> None | Some a \<Rightarrow> Some (a, drop (length buf) s))
              else if dot_cnt = 0
              then (let n_bits = atoi buf
                    in if n_bits > 32 \<or> n_bits < 0 then None
                       else Some (if n_bits = 0 then 0 else push_bit (nat (32 - n_bits)) 0xffffffff,
                                  drop (length buf) s))
              else None)"

section \<open>Tokens\<close>

datatype token_error = OutOfMemory | ReadPastEnd

fun token_len :: "char option \<Rightarrow> string \<Rightarrow> nat" where
  "token_len deli [] = 0"
| "token_len deli (c # s) =
     (if iseol c \<or> (case deli of Some d \<Rightarrow> c = d | None \<Rightarrow> isspace c) then 0
      else if c = CHR 0x5C
           then (case s of [] \<Rightarrow> 1 | c' # s' \<Rightarrow> if iseol c' then 1 else 2 + token_len deli s')
           else 1 + token_len deli s)"

text \<open>The copy with unescaping of the next \<open>n\<close> characters, as the characters stored in \<open>t\<close>.\<close>

lemma unescape_char_len: "unescape_char s = Some (c, k) \<Longrightarrow> 0 < k"
  by (auto simp: unescape_char_def Let_def split: if_splits)

function unescape_loop :: "string \<Rightarrow> nat \<Rightarrow> string option" where
  "unescape_loop s n =
     (if n = 0 then Some []
      else if char_at s 0 \<noteq> CHR 0x5C then map_option (Cons (char_at s 0)) (unescape_loop (tl s) (n - 1))
      else case unescape_char s of None \<Rightarrow> None
           | Some (c, seqlen) \<Rightarrow>
               if seqlen > n then Some []
               else map_option (Cons c) (unescape_loop (drop seqlen s) (n - seqlen)))"
  by pat_completeness auto
termination
  by (relation "measure snd") (auto dest: unescape_char_len)

text \<open>
  \<open>realloc (Some block) n\<close> and \<open>realloc None n\<close> give the \<open>n\<close> bytes of the new block (\<^const>\<open>None\<close>
  when it fails); \<open>malloc_ok\<close> says whether the first allocation succeeds, \<open>token\<close> is the token
  pointer on entry.
\<close>

definition get_next_token ::
  "bool \<Rightarrow> (string option \<Rightarrow> nat \<Rightarrow> string option) \<Rightarrow> string \<Rightarrow> string option \<Rightarrow> bool
   \<Rightarrow> token_error + (string option \<times> string)" where
  "get_next_token malloc_ok realloc s0 token raw =
     (let quoted = (char_at s0 0 = CHR 0x22 \<or> char_at s0 0 = CHR 0x27);
          deli = (if quoted then Some (char_at s0 0) else None);
          s = (if quoted then tl s0 else s0);
          len = token_len deli s;
          r = drop len s;
          r' = (if quoted \<and> Some (char_at r 0) = deli then tl r else r)
      in if len = 0 then Inr (None, r')
         else if \<not> malloc_ok then Inl OutOfMemory
         else if raw then Inr (Some (take len s), r')
         else case unescape_loop s len of None \<Rightarrow> Inl ReadPastEnd
              | Some t \<Rightarrow>
                  (case realloc token (length t + 1) of
                     Some tmp \<Rightarrow> Inr (Some (cstr (take (length t) tmp)), r')
                   | None \<Rightarrow> Inr (Some (cstr t), r')))"

section \<open>Rules\<close>

datatype perm_type = UPNPPERM_UNSET | UPNPPERM_ALLOW | UPNPPERM_DENY

record 're upnpperm =
  perm_type :: perm_type
  eport_min :: u16
  eport_max :: u16
  address :: in_addr
  addr_mask :: in_addr
  iport_min :: u16
  iport_max :: u16
  re :: "string option"
  regex :: "'re option"

definition zero_perm :: "'re upnpperm" where
  "zero_perm = \<lparr>perm_type = UPNPPERM_UNSET, eport_min = 0, eport_max = 0, address = 0, addr_mask = 0,
     iport_min = 0, iport_max = 0, re = None, regex = None\<rparr>"

text \<open>
  \<open>read_permission_line\<close>, cut at its tokens. The result is the return code and the rule, which on
  an error keeps what was read before it.
\<close>

definition read_perm_regex ::
  "(string \<Rightarrow> 're option) \<Rightarrow> bool \<Rightarrow> (string option \<Rightarrow> nat \<Rightarrow> string option)
   \<Rightarrow> 're upnpperm \<Rightarrow> string \<Rightarrow> int \<times> 're upnpperm" where
  "read_perm_regex regcomp malloc_ok realloc perm p =
     (case get_next_token malloc_ok realloc p (re perm) True of
        Inl _ \<Rightarrow> (-1, perm)
      | Inr (None, _) \<Rightarrow> (0, perm\<lparr>re := None\<rparr>)
      | Inr (Some t, _) \<Rightarrow>
          if t = [] then (0, perm\<lparr>re := None\<rparr>)
          else case regcomp t of None \<Rightarrow> (-1, perm\<lparr>re := None\<rparr>)
               | Some r \<Rightarrow> (0, perm\<lparr>re := Some t, regex := Some r\<rparr>))"

definition read_perm_iports ::
  "(string \<Rightarrow> 're option) \<Rightarrow> bool \<Rightarrow> (string option \<Rightarrow> nat \<Rightarrow> string option)
   \<Rightarrow> 're upnpperm \<Rightarrow> string \<Rightarrow> int \<times> 're upnpperm" where
  "read_perm_iports regcomp malloc_ok realloc perm0 p0 =
     (let (b, e, r) = get_range p0 (iport_min perm0) (iport_max perm0);
          perm = perm0\<lparr>iport_min := b, iport_max := e\<rparr>
      in case r of None \<Rightarrow> (-1, perm)
         | Some p \<Rightarrow>
             if iseol (char_at p 0) \<or> char_at p 0 = CHR ''#'' then (0, perm)
             else case get_sep p of None \<Rightarrow> (-1, perm)
                  | Some p' \<Rightarrow>
                      if iseol (char_at p' 0) \<or> char_at p' 0 = CHR ''#'' then (0, perm)
                      else read_perm_regex regcomp malloc_ok realloc perm p')"

definition read_perm_address ::
  "(string \<Rightarrow> 're option) \<Rightarrow> bool \<Rightarrow> (string option \<Rightarrow> nat \<Rightarrow> string option)
   \<Rightarrow> 're upnpperm \<Rightarrow> string \<Rightarrow> int \<times> 're upnpperm" where
  "read_perm_address regcomp malloc_ok realloc perm0 p0 =
     (case get_addr_or_mask p0 of None \<Rightarrow> (-1, perm0)
      | Some (a, p1) \<Rightarrow>
          let perm1 = perm0\<lparr>address := a\<rparr>;
              m = (if char_at p1 0 \<noteq> CHR ''/'' then Some (0xffffffff, p1) else get_addr_or_mask (tl p1))
          in case m of None \<Rightarrow> (-1, perm1)
             | Some (k, p2) \<Rightarrow>
                 let perm2 = perm1\<lparr>addr_mask := k\<rparr>
                 in case get_sep p2 of None \<Rightarrow> (-1, perm2)
                    | Some p3 \<Rightarrow> read_perm_iports regcomp malloc_ok realloc perm2 p3)"

definition read_perm_ports ::
  "(string \<Rightarrow> 're option) \<Rightarrow> bool \<Rightarrow> (string option \<Rightarrow> nat \<Rightarrow> string option)
   \<Rightarrow> 're upnpperm \<Rightarrow> string \<Rightarrow> int \<times> 're upnpperm" where
  "read_perm_ports regcomp malloc_ok realloc perm0 p0 =
     (case get_sep p0 of None \<Rightarrow> (-1, perm0)
      | Some p1 \<Rightarrow>
          let (b, e, r) = get_range p1 (eport_min perm0) (eport_max perm0);
              perm = perm0\<lparr>eport_min := b, eport_max := e\<rparr>
          in case r of None \<Rightarrow> (-1, perm)
             | Some p2 \<Rightarrow>
                 (case get_sep p2 of None \<Rightarrow> (-1, perm)
                  | Some p3 \<Rightarrow> read_perm_address regcomp malloc_ok realloc perm p3))"

definition read_permission_line ::
  "(string \<Rightarrow> 're option) \<Rightarrow> bool \<Rightarrow> (string option \<Rightarrow> nat \<Rightarrow> string option)
   \<Rightarrow> string \<Rightarrow> int \<times> 're upnpperm" where
  "read_permission_line regcomp malloc_ok realloc p0 =
     (let p = dropWhile isspace p0
      in if take 5 p = ''allow''
         then read_perm_ports regcomp malloc_ok realloc (zero_perm\<lparr>perm_type := UPNPPERM_ALLOW\<rparr>) (drop 5 p)
         else if take 4 p = ''deny''
         then read_perm_ports regcomp malloc_ok realloc (zero_perm\<lparr>perm_type := UPNPPERM_DENY\<rparr>) (drop 4 p)
         else (-1, zero_perm))"

definition free_permission_line :: "'re upnpperm \<Rightarrow> 're upnpperm" where
  "free_permission_line perm = (if re perm \<noteq> None then perm\<lparr>re := None, regex := None\<rparr> else perm)"

text \<open>What \<open>write_permlist\<close> sends to the control socket; the first part goes through \<open>char buf[128]\<close>.\<close>

definition hexdigit :: "nat \<Rightarrow> char" where
  "hexdigit n = (if n < 10 then char_of (48 + n) else char_of (87 + n))"

definition hex8 :: "in_addr \<Rightarrow> string" where
  "hex8 a = map (\<lambda>k. hexdigit (unat a div 16 ^ k mod 16)) [7, 6, 5, 4, 3, 2, 1, 0]"

definition perm_text :: "nat \<Rightarrow> 're upnpperm \<Rightarrow> string" where
  "perm_text i perm = (if i < 10 then ''0'' else []) @ dec i @ '' ''
     @ (if perm_type perm = UPNPPERM_ALLOW then ''allow'' else ''deny'')
     @ '' '' @ dec (unat (eport_min perm)) @ ''-'' @ dec (unat (eport_max perm))
     @ '' '' @ hex8 (address perm) @ ''/'' @ hex8 (addr_mask perm)
     @ '' '' @ dec (unat (iport_min perm)) @ ''-'' @ dec (unat (iport_max perm))"

fun write_re :: "string \<Rightarrow> string" where
  "write_re [] = []"
| "write_re (c # p) =
     (if c = CHR 0x22 then [CHR 0x5C, CHR 0x22] @ write_re p
      else if c = CHR 0x5C then (case p of [] \<Rightarrow> [c] | d # p' \<Rightarrow> c # d # write_re p')
      else c # write_re p)"

fun write_perms :: "nat \<Rightarrow> 're upnpperm list \<Rightarrow> string" where
  "write_perms i [] = []"
| "write_perms i (perm # perms) =
     perm_text i perm
     @ (case re perm of None \<Rightarrow> [] | Some r \<Rightarrow> [CHR '' '', CHR 0x22] @ write_re r @ [CHR 0x22])
     @ [CHR 0x0A] @ write_perms (i + 1) perms"

definition write_permlist :: "'re upnpperm list \<Rightarrow> string" where
  "write_permlist permary = ''Permissions :'' @ [CHR 0x0A] @ write_perms 0 permary"

section \<open>Checking a mapping\<close>

definition match_permission ::
  "('re \<Rightarrow> string \<Rightarrow> bool) \<Rightarrow> 're upnpperm \<Rightarrow> u16 \<Rightarrow> in_addr \<Rightarrow> u16 \<Rightarrow> string option \<Rightarrow> bool" where
  "match_permission nomatch perm eport addr iport desc =
     (if eport < eport_min perm \<or> eport_max perm < eport then False
      else if iport < iport_min perm \<or> iport_max perm < iport then False
      else if addr AND addr_mask perm \<noteq> address perm AND addr_mask perm then False
      else if (case (desc, re perm, regex perm) of (Some d, Some _, Some r) \<Rightarrow> nomatch r d | _ \<Rightarrow> False)
      then False
      else True)"

fun check_upnp_rule_against_permissions ::
  "('re \<Rightarrow> string \<Rightarrow> bool) \<Rightarrow> 're upnpperm list \<Rightarrow> u16 \<Rightarrow> in_addr \<Rightarrow> u16 \<Rightarrow> string option \<Rightarrow> bool" where
  "check_upnp_rule_against_permissions nomatch [] eport addr iport desc = True"
| "check_upnp_rule_against_permissions nomatch (perm # permary) eport addr iport desc =
     (if match_permission nomatch perm eport addr iport desc
      then perm_type perm = UPNPPERM_ALLOW
      else check_upnp_rule_against_permissions nomatch permary eport addr iport desc)"

section \<open>The bitmap of permitted ports\<close>

text \<open>
  The array \<open>allowed\<close> of 2048 words. \<open>permit_bits\<close> is the inner do/while loop (one bit at a time up
  to a word boundary), \<open>permit_ports\<close> the loop over one rule's external ports.
\<close>

definition permit_bit :: "perm_type \<Rightarrow> nat \<Rightarrow> u32 list \<Rightarrow> u32 list" where
  "permit_bit ty j a =
     a[j div 32 := (if ty = UPNPPERM_ALLOW then a ! (j div 32) OR push_bit (j mod 32) 1
                    else a ! (j div 32) AND NOT (push_bit (j mod 32) 1))]"

function permit_bits :: "perm_type \<Rightarrow> nat \<Rightarrow> nat \<Rightarrow> u32 list \<Rightarrow> nat \<times> u32 list" where
  "permit_bits ty emax j a =
     (let a' = permit_bit ty j a; j' = j + 1
      in if j' mod 32 \<noteq> 0 \<and> j' \<le> emax then permit_bits ty emax j' a' else (j', a'))"
  by pat_completeness auto
termination
  by (relation "measure (\<lambda>(ty, emax, j, a). emax - j)") auto

declare permit_bits.simps [simp del]

lemma permit_bits_progress: "j < fst (permit_bits ty emax j a)"
proof (induction ty emax j a rule: permit_bits.induct)
  case (1 ty emax j a)
  from "1.IH" [OF refl refl] show ?case by (subst permit_bits.simps) (auto simp: Let_def)
qed

function permit_ports :: "perm_type \<Rightarrow> nat \<Rightarrow> nat \<Rightarrow> u32 list \<Rightarrow> u32 list" where
  "permit_ports ty emax j a =
     (if j \<le> emax
      then if j mod 32 = 0 \<and> emax \<ge> j + 31
           then permit_ports ty emax (j + 32)
                  (a[j div 32 := (if ty = UPNPPERM_ALLOW then 0xffffffff else 0)])
           else permit_ports ty emax (fst (permit_bits ty emax j a)) (snd (permit_bits ty emax j a))
      else a)"
  by pat_completeness auto
termination
proof (relation "measure (\<lambda>(ty, emax, j, a). emax + 1 - j)")
  show "((ty, emax, fst (permit_bits ty emax j a), snd (permit_bits ty emax j a)), ty, emax, j, a)
    \<in> measure (\<lambda>(ty, emax, j, a). emax + 1 - j)" if "j \<le> emax" for ty emax j a
    using permit_bits_progress [of j ty emax a] that by (auto split: prod.splits)
qed auto

declare permit_ports.simps [simp del]

definition permit_rule :: "in_addr \<Rightarrow> u16 \<Rightarrow> 're upnpperm \<Rightarrow> u32 list \<Rightarrow> u32 list" where
  "permit_rule addr iport perm a =
     (if addr AND addr_mask perm \<noteq> address perm AND addr_mask perm then a
      else if iport < iport_min perm \<or> iport_max perm < iport then a
      else permit_ports (perm_type perm) (unat (eport_max perm)) (unat (eport_min perm)) a)"

definition get_permitted_ext_ports :: "'re upnpperm list \<Rightarrow> in_addr \<Rightarrow> u16 \<Rightarrow> u32 list" where
  "get_permitted_ext_ports permary addr iport =
     fold (permit_rule addr iport) (rev permary) (replicate 2048 0xffffffff)"

text \<open>The bit of a port in the array, and what each loop does to every bit.\<close>

definition port_bit :: "u32 list \<Rightarrow> nat \<Rightarrow> bool" where
  "port_bit a k = bit (a ! (k div 32)) (k mod 32)"

lemma word32_bits: "bit (0xffffffff :: u32) (k mod 32)"
proof -
  have "(0xffffffff :: u32) = mask 32" by (simp add: mask_eq_exp_minus_1)
  then show ?thesis by (simp only: bit_mask_iff) simp
qed

lemma same_port: "(k :: nat) div 32 = j div 32 \<Longrightarrow> k mod 32 = j mod 32 \<longleftrightarrow> k = j"
  by (metis div_mult_mod_eq)

lemma port_bit_permit_bit:
  assumes "length a = 2048" "j < 65536"
  shows "port_bit (permit_bit ty j a) k = (if k = j then ty = UPNPPERM_ALLOW else port_bit a k)"
proof (cases "k div 32 = j div 32")
  case True
  have "j div 32 < length a" using assms by simp
  with True same_port [OF True] show ?thesis
    by (auto simp: port_bit_def permit_bit_def bit_simps)
next
  case False
  then show ?thesis by (auto simp: port_bit_def permit_bit_def)
qed

lemma length_permit_bit [simp]: "length (permit_bit ty j a) = length a"
  by (simp add: permit_bit_def)

lemma permit_bits_correct:
  assumes "length a = 2048" "j \<le> emax" "emax < 65536"
  shows "length (snd (permit_bits ty emax j a)) = 2048 \<and> fst (permit_bits ty emax j a) \<le> emax + 1 \<and>
    (\<forall>k. port_bit (snd (permit_bits ty emax j a)) k
      = (if j \<le> k \<and> k < fst (permit_bits ty emax j a) then ty = UPNPPERM_ALLOW else port_bit a k))"
  using assms
proof (induction ty emax j a rule: permit_bits.induct)
  case (1 ty emax j a)
  have b: "port_bit (permit_bit ty j a) k = (if k = j then ty = UPNPPERM_ALLOW else port_bit a k)" for k
    using 1 by (intro port_bit_permit_bit) auto
  show ?case
  proof (cases "(j + 1) mod 32 \<noteq> 0 \<and> j + 1 \<le> emax")
    case True
    have e: "permit_bits ty emax j a = permit_bits ty emax (j + 1) (permit_bit ty j a)"
      using True by (subst permit_bits.simps) (simp add: Let_def)
    have g: "j + 1 < fst (permit_bits ty emax (j + 1) (permit_bit ty j a))" by (rule permit_bits_progress)
    from "1.IH" [OF refl refl True] "1.prems" True g show ?thesis unfolding e
      by (auto simp: b less_Suc_eq_le Suc_le_eq)
  next
    case False
    then have e: "permit_bits ty emax j a = (j + 1, permit_bit ty j a)"
      by (subst permit_bits.simps) (auto simp: Let_def)
    show ?thesis unfolding e using "1.prems" by (auto simp: b)
  qed
qed

lemma port_bit_word:
  assumes "length a = 2048" "j mod 32 = 0" "j < 65536"
  shows "port_bit (a[j div 32 := (if ty = UPNPPERM_ALLOW then 0xffffffff else 0)]) k
    = (if j \<le> k \<and> k < j + 32 then ty = UPNPPERM_ALLOW else port_bit a k)"
proof -
  have "k div 32 = j div 32 \<longleftrightarrow> j \<le> k \<and> k < j + 32"
  proof -
    obtain q where q: "j = 32 * q" using assms(2) by (metis mod_0_imp_dvd dvdE)
    have "k div 32 = q \<longleftrightarrow> 32 * q \<le> k \<and> k < 32 * q + 32" by auto
    with q show ?thesis by simp
  qed
  moreover have "j div 32 < length a" using assms by simp
  ultimately show ?thesis using word32_bits [of k] by (auto simp: port_bit_def)
qed

lemma permit_ports_correct:
  assumes "length a = 2048" "emax < 65536"
  shows "length (permit_ports ty emax j a) = 2048 \<and> (\<forall>k. port_bit (permit_ports ty emax j a) k
    = (if j \<le> k \<and> k \<le> emax then ty = UPNPPERM_ALLOW else port_bit a k))"
  using assms
proof (induction ty emax j a rule: permit_ports.induct)
  case (1 ty emax j a)
  consider "\<not> j \<le> emax" | "j \<le> emax" "j mod 32 = 0 \<and> emax \<ge> j + 31"
    | "j \<le> emax" "\<not> (j mod 32 = 0 \<and> emax \<ge> j + 31)" by blast
  then show ?case
  proof cases
    case 1
    then show ?thesis using "1.prems" by (subst (1 2) permit_ports.simps) auto
  next
    case 2
    let ?a = "a[j div 32 := (if ty = UPNPPERM_ALLOW then 0xffffffff else 0)]"
    have "permit_ports ty emax j a = permit_ports ty emax (j + 32) ?a"
      using 2 by (subst permit_ports.simps) simp
    moreover have "port_bit ?a k = (if j \<le> k \<and> k < j + 32 then ty = UPNPPERM_ALLOW else port_bit a k)" for k
      using 2 "1.prems" by (intro port_bit_word) auto
    ultimately show ?thesis using "1.IH"(1) [OF 2] "1.prems" 2 by auto
  next
    case 3
    let ?p = "permit_bits ty emax j a"
    have "permit_ports ty emax j a = permit_ports ty emax (fst ?p) (snd ?p)"
      using 3 by (subst permit_ports.simps) auto
    with permit_bits_correct [of a j emax ty] "1.IH"(2) [OF 3] "1.prems" 3
      permit_bits_progress [of j ty emax a] show ?thesis by auto
  qed
qed

lemma permit_rule_correct:
  assumes "length a = 2048"
  shows "length (permit_rule addr iport perm a) = 2048 \<and>
    port_bit (permit_rule addr iport perm a) (unat eport)
      = (if match_permission nomatch perm eport addr iport None then perm_type perm = UPNPPERM_ALLOW
         else port_bit a (unat eport))"
proof -
  have "unat (eport_max perm) < 65536" using unsigned_less [of "eport_max perm", where 'a = nat] by simp
  from permit_ports_correct [OF assms this] show ?thesis
    using assms by (auto simp: permit_rule_def match_permission_def word_less_nat_alt not_less)
qed

lemma permitted_fold:
  "length (foldr (permit_rule addr iport) perms (replicate 2048 0xffffffff)) = 2048
   \<and> port_bit (foldr (permit_rule addr iport) perms (replicate 2048 0xffffffff)) (unat eport)
     = check_upnp_rule_against_permissions nomatch perms eport addr iport None"
proof (induction perms)
  case Nil
  have "unat eport < 65536" using unsigned_less [of eport, where 'a = nat] by simp
  then show ?case using word32_bits by (simp add: port_bit_def)
next
  case (Cons perm perms)
  with permit_rule_correct [where nomatch = nomatch and perm = perm and addr = addr and iport = iport
      and eport = eport, of "foldr (permit_rule addr iport) perms (replicate 2048 0xffffffff)"]
  show ?case by simp
qed
text \<open>
  C30: the bitmap is the permission check: the bit of an external port is set exactly when
  \<open>check_upnp_rule_against_permissions\<close>, without a description, accepts a mapping of that port to
  the address and internal port, for every rule list. The array keeps its 2048 words.
\<close>

theorem get_permitted_ext_ports_correct:
  "length (get_permitted_ext_ports permary addr iport) = 2048 \<and>
   port_bit (get_permitted_ext_ports permary addr iport) (unat eport)
     = check_upnp_rule_against_permissions nomatch permary eport addr iport None"
  using permitted_fold [of addr iport permary eport nomatch]
  by (simp add: get_permitted_ext_ports_def foldr_conv_fold)

section \<open>Reading rules\<close>

text \<open>A rule that was read without error: kind and ranges are set, an expression is compiled.\<close>

lemma get_range_ok: "get_range s b e = (b', e', Some r) \<Longrightarrow> b' \<le> e'"
  by (auto simp: get_range_def split: option.splits if_splits)

definition perm_ok :: "'re upnpperm \<Rightarrow> bool" where
  "perm_ok perm = (perm_type perm \<noteq> UPNPPERM_UNSET \<and> eport_min perm \<le> eport_max perm
     \<and> iport_min perm \<le> iport_max perm \<and> (re perm = None \<longleftrightarrow> regex perm = None) \<and> re perm \<noteq> Some [])"

lemma read_perm_regex_ok:
  "read_perm_regex regcomp m ra perm p = (0, q) \<Longrightarrow> perm_ok perm
    \<Longrightarrow> regex perm = None \<Longrightarrow> perm_ok q"
  by (auto simp: read_perm_regex_def perm_ok_def split: sum.splits option.splits prod.splits if_splits)

lemma read_perm_iports_ok:
  assumes "read_perm_iports regcomp m ra perm p = (0, q)" "perm_type perm \<noteq> UPNPPERM_UNSET"
    "eport_min perm \<le> eport_max perm" "re perm = None" "regex perm = None"
  shows "perm_ok q"
proof -
  obtain b e r where g: "get_range p (iport_min perm) (iport_max perm) = (b, e, r)" by (metis surj_pair)
  with assms(1) obtain s where r: "r = Some s" by (cases r) (auto simp: read_perm_iports_def)
  with g have "b \<le> e" by (auto intro: get_range_ok)
  with assms(2-) have ok: "perm_ok (perm\<lparr>iport_min := b, iport_max := e\<rparr>)" by (simp add: perm_ok_def)
  show ?thesis
    using assms g r ok read_perm_regex_ok [of regcomp m ra "perm\<lparr>iport_min := b, iport_max := e\<rparr>"]
    by (auto simp: read_perm_iports_def Let_def split: if_splits option.splits)
qed

lemma read_perm_address_ok:
  assumes "read_perm_address regcomp m ra perm p = (0, q)" "perm_type perm \<noteq> UPNPPERM_UNSET"
    "eport_min perm \<le> eport_max perm" "re perm = None" "regex perm = None"
  shows "perm_ok q"
  using assms
  by (auto simp: read_perm_address_def Let_def split: option.splits prod.splits if_splits
      elim!: read_perm_iports_ok)

lemma read_perm_ports_ok:
  assumes "read_perm_ports regcomp m ra perm p = (0, q)" "perm_type perm \<noteq> UPNPPERM_UNSET"
    "re perm = None" "regex perm = None"
  shows "perm_ok q"
  using assms
  by (auto simp: read_perm_ports_def Let_def split: option.splits prod.splits
      elim!: read_perm_address_ok dest: get_range_ok)

lemma read_permission_line_ok:
  "read_permission_line regcomp m ra p = (0, perm) \<Longrightarrow> perm_ok perm"
  by (auto simp: read_permission_line_def Let_def zero_perm_def split: if_splits
      elim!: read_perm_ports_ok)

section \<open>Writing and reading rules\<close>

definition perm_line :: "'re upnpperm \<Rightarrow> string" where
  "perm_line perm = (if perm_type perm = UPNPPERM_ALLOW then ''allow '' else ''deny '')
     @ dec (unat (eport_min perm)) @ ''-'' @ dec (unat (eport_max perm)) @ '' ''
     @ inet_ntop (address perm) @ ''/'' @ inet_ntop (addr_mask perm) @ '' ''
     @ dec (unat (iport_min perm)) @ ''-'' @ dec (unat (iport_max perm))
     @ (case re perm of None \<Rightarrow> [] | Some r \<Rightarrow> [CHR '' '', CHR 0x22] @ r @ [CHR 0x22])"

definition plain_re :: "string \<Rightarrow> bool" where
  "plain_re r = (r \<noteq> [] \<and> list_all (\<lambda>c. \<not> iseol c \<and> c \<noteq> CHR 0x22 \<and> c \<noteq> CHR 0x5C) r)"

lemma char_at_dec [simp]: "char_at (dec n @ r) 0 = hd (dec n)"
  by (cases "dec n") (simp_all add: char_at_def)

lemma char_at_Cons [simp]: "char_at (c # r) 0 = c"
  by (simp add: char_at_def)

lemma char_at_ntop [simp]: "char_at (inet_ntop a @ r) 0 = hd (dec (octet 3 a))"
  by (simp add: inet_ntop_def)

lemma hd_ntop [simp]: "hd (inet_ntop a @ r) = hd (dec (octet 3 a))" "hd (inet_ntop a) = hd (dec (octet 3 a))"
  by (simp_all add: inet_ntop_def)

lemma get_ushort_dec:
  "r = [] \<or> \<not> isdigit (hd r) \<Longrightarrow> get_ushort (dec (unat v) @ r) = Some (v, r)"
  using unsigned_less [of v, where 'a = nat]
  by (auto simp: get_ushort_def strtoul10_dec ULONG_MAX_def)

lemma get_range_dec:
  "b \<le> e \<Longrightarrow> r = [] \<or> \<not> isdigit (hd r)
   \<Longrightarrow> get_range (dec (unat b) @ CHR ''-'' # dec (unat e) @ r) x y = (b, e, Some r)"
  using get_ushort_dec [of "CHR ''-'' # dec (unat e) @ r" b] get_ushort_dec [of r e]
  by (simp add: get_range_def)

lemma get_sep_blank: "s = [] \<or> \<not> isspace (hd s) \<Longrightarrow> get_sep (CHR '' '' # s) = Some s"
  by (cases s) (auto simp: get_sep_def)

lemma digits_no_dot: "list_all isdigit s \<Longrightarrow> count_list s CHR ''.'' = 0"
  by (induction s) auto

lemma ntop_chars: "c \<in> set (inet_ntop a) \<Longrightarrow> isdigit c \<or> c = CHR ''.''"
  by (auto simp: inet_ntop_def dest: dec_set_isdigit)

lemma count_dots_ntop: "count_list (inet_ntop a) CHR ''.'' = 3"
  by (simp add: inet_ntop_def digits_no_dot dec_digits)

lemma get_addr_or_mask_ntop:
  assumes "r = [] \<or> (\<not> isdigit (hd r) \<and> hd r \<noteq> CHR ''.'')"
  shows "get_addr_or_mask (inet_ntop a @ r) = Some (a, r)"
proof -
  have "takeWhile (\<lambda>c. isdigit c \<or> c = CHR ''.'') (inet_ntop a @ r) = inet_ntop a"
    using assms ntop_chars [of _ a] by (cases r) (auto simp: takeWhile_append takeWhile_eq_all_conv)
  then show ?thesis using length_inet_ntop [of a] count_dots_ntop [of a]
    by (simp add: get_addr_or_mask_def)
qed

lemma hd_dec_not_space [simp]: "\<not> isspace (hd (dec n))"
  by (rule isdigit_not_space) simp

lemma token_len_plain:
  "list_all (\<lambda>c. \<not> iseol c \<and> c \<noteq> CHR 0x22 \<and> c \<noteq> CHR 0x5C) s
   \<Longrightarrow> token_len (Some CHR 0x22) (s @ [CHR 0x22]) = length s"
  by (induction s) auto

lemma get_next_token_quoted:
  "plain_re s \<Longrightarrow> get_next_token True ra (CHR 0x22 # s @ [CHR 0x22]) t True = Inr (Some s, [])"
  by (auto simp: get_next_token_def plain_re_def token_len_plain Let_def)


definition re_tail :: "string option \<Rightarrow> string" where
  "re_tail x = (case x of None \<Rightarrow> [] | Some r \<Rightarrow> [CHR '' '', CHR 0x22] @ r @ [CHR 0x22])"

definition re_compiled :: "(string \<Rightarrow> 're option) \<Rightarrow> string option \<Rightarrow> 're option \<Rightarrow> bool" where
  "re_compiled regcomp x y = (case x of None \<Rightarrow> y = None
     | Some s \<Rightarrow> plain_re s \<and> regcomp s \<noteq> None \<and> y = regcomp s)"

lemma re_tail_hd: "re_tail x = [] \<or> \<not> isdigit (hd (re_tail x))"
  by (auto simp: re_tail_def split: option.splits)

lemma char_chars [simp]: "\<not> isspace CHR 0x22" "\<not> iseol CHR 0x22" "\<not> iseol CHR '' ''" "iseol CHR 0x00"
  by (simp_all add: isspace_def iseol_def)

lemma read_perm_iports_line:
  assumes "b \<le> e" and "re_compiled regcomp x y"
    and "re perm = None" "regex perm = None"
  shows "read_perm_iports regcomp True ra perm (dec (unat b) @ CHR ''-'' # dec (unat e) @ re_tail x)
    = (0, perm\<lparr>iport_min := b, iport_max := e, re := x, regex := y\<rparr>)"
proof (cases x)
  case None
  with assms get_range_dec [of b e "re_tail x", OF _ re_tail_hd] show ?thesis
    by (simp add: read_perm_iports_def Let_def re_tail_def char_at_def re_compiled_def)
next
  case (Some s)
  have p: "plain_re s" "regcomp s \<noteq> None" "y = regcomp s"
    using assms(2) Some by (auto simp: re_compiled_def)
  with assms(1,3,4) Some get_range_dec [of b e "re_tail x", OF _ re_tail_hd] show ?thesis
    by (auto simp: read_perm_iports_def Let_def re_tail_def re_compiled_def get_sep_blank
        read_perm_regex_def get_next_token_quoted plain_re_def [of "[]"])
qed

lemma read_perm_address_line:
  assumes "b \<le> e" and "re_compiled regcomp x y"
    and "re perm = None" "regex perm = None"
  shows "read_perm_address regcomp True ra perm (inet_ntop a @ CHR ''/'' # inet_ntop m @ CHR '' '' #
      dec (unat b) @ CHR ''-'' # dec (unat e) @ re_tail x)
    = (0, perm\<lparr>address := a, addr_mask := m, iport_min := b, iport_max := e, re := x, regex := y\<rparr>)"
  using read_perm_iports_line [of b e regcomp x y "perm\<lparr>address := a, addr_mask := m\<rparr>" ra] assms
  by (simp add: read_perm_address_def get_addr_or_mask_ntop get_sep_blank)

lemma read_perm_ports_line:
  assumes "eport_min perm \<le> eport_max perm" "iport_min perm \<le> iport_max perm" and "re_compiled regcomp (re perm) (regex perm)"
  shows "read_perm_ports regcomp True ra (zero_perm\<lparr>perm_type := perm_type perm\<rparr>)
      (CHR '' '' # dec (unat (eport_min perm)) @ CHR ''-'' # dec (unat (eport_max perm)) @ CHR '' ''
     # inet_ntop (address perm) @ CHR ''/'' # inet_ntop (addr_mask perm) @ CHR '' ''
     # dec (unat (iport_min perm)) @ CHR ''-'' # dec (unat (iport_max perm)) @ re_tail (re perm)) = (0, perm)"
  using assms read_perm_address_line [of "iport_min perm" "iport_max perm" regcomp "re perm" "regex perm"
     "zero_perm\<lparr>perm_type := perm_type perm, eport_min := eport_min perm, eport_max := eport_max perm\<rparr>" ra "address perm" "addr_mask perm"]
  by (simp add: read_perm_ports_def get_sep_blank get_range_dec zero_perm_def)

lemma read_permission_line_print:
  assumes "perm_ok perm" "re_compiled regcomp (re perm) (regex perm)"
  shows "read_permission_line regcomp True ra (perm_line perm) = (0, perm)"
proof -
  have "perm_type perm = UPNPPERM_ALLOW \<or> perm_type perm = UPNPPERM_DENY"
    using assms(1) by (cases "perm_type perm") (auto simp: perm_ok_def)
  then show ?thesis
    using assms read_perm_ports_line [of perm regcomp ra]
    by (auto simp: read_permission_line_def perm_line_def perm_ok_def isspace_def re_tail_def [symmetric])
qed

definition prefix_mask :: "nat \<Rightarrow> in_addr" where
  "prefix_mask n = (if n = 0 then 0 else push_bit (32 - n) 0xffffffff)"

lemma all_ones: "(0xffffffff :: u32) = - 1"
  by simp

lemma prefix_mask_bit: "bit (prefix_mask n) i = (32 - n \<le> i \<and> i < 32)"
  by (auto simp: prefix_mask_def all_ones bit_simps)

lemma prefix_mask_match:
  "a AND prefix_mask n = b AND prefix_mask n \<longleftrightarrow> drop_bit (32 - n) a = drop_bit (32 - n) (b :: in_addr)"
proof
  assume h: "a AND prefix_mask n = b AND prefix_mask n"
  show "drop_bit (32 - n) a = drop_bit (32 - n) b"
  proof (rule bit_word_eqI)
    fix i
    from h have "bit (a AND prefix_mask n) (32 - n + i) = bit (b AND prefix_mask n) (32 - n + i)" by simp
    then show "bit (drop_bit (32 - n) a) i = bit (drop_bit (32 - n) b) i"
      by (auto simp: bit_simps prefix_mask_bit dest: bit_imp_le_length)
  qed
next
  assume h: "drop_bit (32 - n) a = drop_bit (32 - n) b"
  show "a AND prefix_mask n = b AND prefix_mask n"
  proof (rule bit_word_eqI)
    fix i
    from h have "bit (drop_bit (32 - n) a) (i - (32 - n)) = bit (drop_bit (32 - n) b) (i - (32 - n))" by simp
    then show "bit (a AND prefix_mask n) i = bit (b AND prefix_mask n) i"
      by (cases "32 - n \<le> i") (auto simp: bit_simps prefix_mask_bit)
  qed
qed

lemma get_addr_or_mask_bits:
  assumes "n \<le> 32" and "r = [] \<or> (\<not> isdigit (hd r) \<and> hd r \<noteq> CHR ''.'')"
  shows "get_addr_or_mask (dec n @ r) = Some (prefix_mask n, r)"
proof -
  have "takeWhile (\<lambda>c. isdigit c \<or> c = CHR ''.'') (dec n @ r) = dec n"
    using assms(2) dec_set_isdigit [of _ n] by (cases r) (auto simp: takeWhile_append takeWhile_eq_all_conv)
  moreover have "count_list (dec n) CHR ''.'' = 0" by (rule digits_no_dot) (rule dec_digits)
  moreover have "length (dec n) \<le> 2" using length_dec [of n 2] assms(1) by simp
  moreover have "atoi (dec n) = int n" using atoi_dec [of n "[]"] assms(1) by simp
  ultimately show ?thesis using assms(1)
    by (auto simp: get_addr_or_mask_def Let_def prefix_mask_def nat_diff_distrib simp del: count_list_0_iff)
qed

lemma letters_not_space [simp]: "\<not> isspace CHR ''d''" "\<not> isspace CHR ''a''"
  by (simp_all add: isspace_def)

definition cidr_rule :: "u16 \<Rightarrow> u16 \<Rightarrow> in_addr \<Rightarrow> nat \<Rightarrow> u16 \<Rightarrow> u16 \<Rightarrow> 're upnpperm" where
  "cidr_rule b e ip n ib ie = \<lparr>perm_type = UPNPPERM_DENY, eport_min = b, eport_max = e, address = ip,
     addr_mask = prefix_mask n, iport_min = ib, iport_max = ie, re = None, regex = None\<rparr>"

lemma read_cidr_line:
  assumes "b \<le> e" "ib \<le> ie" "n \<le> 32"
  shows "read_permission_line regcomp True ra (''deny '' @ dec (unat b) @ ''-'' @ dec (unat e) @ '' ''
      @ inet_ntop ip @ ''/'' @ dec n @ '' '' @ dec (unat ib) @ ''-'' @ dec (unat ie))
    = (0, cidr_rule b e ip n ib ie)"
  using read_perm_iports_line [of ib ie regcomp None None "zero_perm\<lparr>perm_type := UPNPPERM_DENY,
       eport_min := b, eport_max := e, address := ip, addr_mask := prefix_mask n\<rparr>" ra] assms
  by (simp add: read_permission_line_def read_perm_ports_def get_sep_blank get_range_dec
      read_perm_address_def get_addr_or_mask_ntop get_addr_or_mask_bits re_compiled_def re_tail_def zero_perm_def cidr_rule_def)

lemma cidr_rule_match:
  "match_permission nomatch (cidr_rule b e ip n ib ie) eport addr iport desc
     \<longleftrightarrow> b \<le> eport \<and> eport \<le> e \<and> ib \<le> iport \<and> iport \<le> ie
          \<and> drop_bit (32 - n) addr = drop_bit (32 - n) ip"
  using prefix_mask_match [of addr n ip]
  by (cases desc) (auto simp: match_permission_def cidr_rule_def)

lemma length_perm_text: "i < 10 ^ 10 \<Longrightarrow> length (perm_text i perm) \<le> 68"
proof -
  assume "i < 10 ^ 10"
  then have "length (dec i) \<le> 10" by (rule length_dec) simp
  moreover have "length (dec (unat w)) \<le> 5" for w :: u16
    using length_dec [of "unat w" 5] unsigned_less [of w, where 'a = nat] by simp
  from this [of "eport_min perm"] this [of "eport_max perm"] this [of "iport_min perm"] this [of "iport_max perm"]
  have "length (dec (unat (eport_min perm))) + length (dec (unat (eport_max perm)))
     + length (dec (unat (iport_min perm))) + length (dec (unat (iport_max perm))) \<le> 20" by linarith
  ultimately show ?thesis
    by (simp add: perm_text_def hex8_def)
qed

lemma check_first_match:
  "check_upnp_rule_against_permissions nomatch permary eport addr iport desc
   \<longleftrightarrow> (\<forall>i < length permary. match_permission nomatch (permary ! i) eport addr iport desc
        \<and> (\<forall>j < i. \<not> match_permission nomatch (permary ! j) eport addr iport desc)
        \<longrightarrow> perm_type (permary ! i) = UPNPPERM_ALLOW)"
  by (induction permary) (auto simp: All_less_Suc2)
text \<open>
  the decision is made by the first rule that matches: a mapping is accepted unless some rule
  matches it, no earlier rule does, and that rule is not an allow rule.
\<close>

theorem permissions_first_match:
  "check_upnp_rule_against_permissions nomatch permary eport addr iport desc
   \<longleftrightarrow> \<not> (\<exists>i < length permary. match_permission nomatch (permary ! i) eport addr iport desc
        \<and> list_all (\<lambda>perm. \<not> match_permission nomatch perm eport addr iport desc) (take i permary)
        \<and> perm_type (permary ! i) \<noteq> UPNPPERM_ALLOW)"
proof -
  have l: "list_all P (take i permary) = (\<forall>j < i. P (permary ! j))" if "i < length permary" for i P
    using that by (auto simp: list_all_length)
  then show ?thesis unfolding check_first_match by (auto simp: l)
qed

text \<open>
  a line that is read without error gives a rule with a kind, non-empty port ranges, and a
  compiled expression exactly when it has an expression, whatever the line is.
\<close>

theorem read_permission_line_wf:
  assumes "read_permission_line regcomp malloc_ok realloc p = (0, perm)"
  shows "perm_ok perm"
  using assms by (rule read_permission_line_ok)

theorem read_permission_line_wf_witness:
  "perm_ok (cidr_rule 22 22 0xc0a80421 32 22 22 :: unit upnpperm)"
proof -
  have "read_permission_line (\<lambda>_. Some ()) True (\<lambda>_ _. None)
      (''deny '' @ dec (unat (22 :: u16)) @ ''-'' @ dec (unat (22 :: u16)) @ '' '' @ inet_ntop 0xc0a80421
       @ ''/'' @ dec 32 @ '' '' @ dec (unat (22 :: u16)) @ ''-'' @ dec (unat (22 :: u16)))
    = (0, cidr_rule 22 22 0xc0a80421 32 22 22)"
    by (rule read_cidr_line) simp_all
  then show ?thesis by (rule read_permission_line_wf)
qed

text \<open>
  a rule written as a line of the configuration file (address and mask in dotted form, an
  optional quoted expression) is read back as the same rule.
\<close>

theorem permission_line_roundtrip:
  assumes "perm_ok perm" and "re_compiled regcomp (re perm) (regex perm)"
  shows "read_permission_line regcomp True realloc (perm_line perm) = (0, perm)"
  using assms by (rule read_permission_line_print)

theorem permission_line_roundtrip_witness:
  "let perm = \<lparr>perm_type = UPNPPERM_DENY, eport_min = 0, eport_max = 1023, address = 0xc0a80100,
     addr_mask = 0xffffff00, iport_min = 1, iport_max = 65535, re = Some ''^x.*'', regex = Some ''^x.*''\<rparr>
   in read_permission_line Some True (\<lambda>_ _. None) (perm_line perm) = (0, perm)"
proof -
  let ?perm = "\<lparr>perm_type = UPNPPERM_DENY, eport_min = 0, eport_max = 1023, address = 0xc0a80100,
     addr_mask = 0xffffff00, iport_min = 1, iport_max = 65535, re = Some ''^x.*'', regex = Some ''^x.*''\<rparr>"
  have "perm_ok ?perm" by (simp add: perm_ok_def)
  moreover have "re_compiled Some (re ?perm) (regex ?perm)"
    by (simp add: re_compiled_def plain_re_def iseol_def)
  ultimately show ?thesis unfolding Let_def by (rule permission_line_roundtrip)
qed

text \<open>
  a deny line for a network in prefix notation is read, and the rule matches a mapping exactly
  when both ports are in the ranges and the client address has the network's first \<open>n\<close> bits.
\<close>

theorem deny_network_matches:
  assumes "b \<le> e" and "ib \<le> ie" and "n \<le> 32"
  shows "\<exists>perm. read_permission_line regcomp True realloc
      (''deny '' @ dec (unat b) @ ''-'' @ dec (unat e) @ '' '' @ inet_ntop ip @ ''/'' @ dec n
       @ '' '' @ dec (unat ib) @ ''-'' @ dec (unat ie)) = (0, perm)
    \<and> perm_type perm = UPNPPERM_DENY
    \<and> (match_permission nomatch perm eport addr iport desc
       \<longleftrightarrow> b \<le> eport \<and> eport \<le> e \<and> ib \<le> iport \<and> iport \<le> ie
          \<and> drop_bit (32 - n) addr = drop_bit (32 - n) ip)"
proof (intro exI conjI)
  show "read_permission_line regcomp True realloc
      (''deny '' @ dec (unat b) @ ''-'' @ dec (unat e) @ '' '' @ inet_ntop ip @ ''/'' @ dec n
       @ '' '' @ dec (unat ib) @ ''-'' @ dec (unat ie)) = (0, cidr_rule b e ip n ib ie)"
    by (rule read_cidr_line [OF assms])
qed (simp_all add: cidr_rule_match, simp add: cidr_rule_def)

theorem deny_network_matches_witness:
  "\<exists>perm. read_permission_line (\<lambda>_. Some ()) True (\<lambda>_ _. None)
      (''deny '' @ dec (unat (0 :: u16)) @ ''-'' @ dec (unat (65535 :: u16)) @ '' '' @ inet_ntop 0xc0a80100
       @ ''/'' @ dec 24 @ '' '' @ dec (unat (0 :: u16)) @ ''-'' @ dec (unat (65535 :: u16))) = (0, perm)
    \<and> perm_type perm = UPNPPERM_DENY \<and> match_permission (\<lambda>_ _. False) perm 80 0xc0a8017d 80 None"
proof -
  have "(0 :: u16) \<le> 65535" "(24 :: nat) \<le> 32" by simp_all
  from deny_network_matches [OF this(1) this(1) this(2), of "\<lambda>_. Some ()" "\<lambda>_ _. None" "0xc0a80100"
      "\<lambda>_ _. False" 80 "0xc0a8017d" 80 None]
  obtain perm where p: "read_permission_line (\<lambda>_. Some ()) True (\<lambda>_ _. None)
      (''deny '' @ dec (unat (0 :: u16)) @ ''-'' @ dec (unat (65535 :: u16)) @ '' '' @ inet_ntop 0xc0a80100
       @ ''/'' @ dec 24 @ '' '' @ dec (unat (0 :: u16)) @ ''-'' @ dec (unat (65535 :: u16))) = (0, perm)"
    "perm_type perm = UPNPPERM_DENY"
    and m: "match_permission (\<lambda>_ _. False) perm 80 0xc0a8017d 80 None
     \<longleftrightarrow> (0 :: u16) \<le> 80 \<and> (80 :: u16) \<le> 65535 \<and> (0 :: u16) \<le> 80 \<and> (80 :: u16) \<le> 65535
          \<and> drop_bit (32 - 24) (0xc0a8017d :: in_addr) = drop_bit (32 - 24) 0xc0a80100" by blast
  have "match_permission (\<lambda>_ _. False) perm 80 0xc0a8017d 80 None" unfolding m by code_simp
  with p show ?thesis by blast
qed

text \<open>
  the line that \<open>write_permlist\<close> formats for a rule always fits the 128-byte buffer with its
  terminator, for every index of a 32-bit \<open>int\<close>, so \<open>write(fd, buf, l)\<close> sends only bytes of it.
\<close>

theorem write_permlist_line_fits:
  assumes "i < 2 ^ 31"
  shows "length (perm_text i perm) < 128"
  using length_perm_text [of i perm] assms by simp

theorem write_permlist_line_fits_witness:
  "length (perm_text 7 (zero_perm :: unit upnpperm)) < 128"
  using write_permlist_line_fits [of 7 "zero_perm :: unit upnpperm"] by simp

end
