(* ===== verification/RdrBackend.thy ===== *)
theory RdrBackend
  imports Prelude
begin

text \<open>
  The interface between the firewall-independent code (\<open>upnpredirect.c\<close>, \<open>natpmp.c\<close>) and a
  firewall backend: the functions that every backend of the program defines under the same names
  (\<open>netfilter/iptcrdr.h\<close>), as the fields of a record over the backend's state, and their contract as
  the locale \<open>redirect_backend\<close>.

  The contract speaks of the list of port mappings that the backend holds. It says what each call
  reports and does to that list when the backend works; \<open>inv\<close> is the backend's own invariant.
  Theory \<open>IptcRdr\<close> has the calls of the iptables backend and \<open>IptcBackend\<close> shows the contract for them.
\<close>

abbreviation IPPROTO_TCP :: u16 where "IPPROTO_TCP \<equiv> 6"
abbreviation IPPROTO_UDP :: u16 where "IPPROTO_UDP \<equiv> 17"
abbreviation IPPROTO_UDPLITE :: u16 where "IPPROTO_UDPLITE \<equiv> 136"

text \<open>What a lookup stores through its pointers; \<open>rhost\<close> is \<^const>\<open>None\<close> when the buffer is not written.\<close>

record rdr_info =
  info_iaddr :: string
  info_iport :: u16
  info_desc :: string
  info_timestamp :: u32
  info_packets :: u64
  info_bytes :: u64
  info_rhost :: "string option"

text \<open>
  The calls, with the state last and the buffer sizes for the internal address, the description and
  the remote host. Lookups give \<^const>\<open>None\<close> for a negative result. Of the peer rules (builds with
  \<open>PCP_PEER\<close>) the callers only take the external port, the protocol, the timestamp and the counters.
\<close>

record 's rdr_ops =
  be_add_redirect_rule2 :: "string option \<Rightarrow> u16 \<Rightarrow> string \<Rightarrow> u16 \<Rightarrow> u16 \<Rightarrow> string option \<Rightarrow> u32 \<Rightarrow> 's \<Rightarrow> int \<times> 's"
  be_add_filter_rule2 :: "string option \<Rightarrow> string \<Rightarrow> u16 \<Rightarrow> u16 \<Rightarrow> u16 \<Rightarrow> 's \<Rightarrow> int \<times> 's"
  be_get_redirect_rule :: "u16 \<Rightarrow> u16 \<Rightarrow> nat \<Rightarrow> nat \<Rightarrow> nat \<Rightarrow> 's \<Rightarrow> rdr_info option"
  be_get_redirect_rule_by_index :: "nat \<Rightarrow> nat \<Rightarrow> nat \<Rightarrow> nat \<Rightarrow> 's \<Rightarrow> (u16 \<times> u16 \<times> rdr_info) option"
  be_delete_redirect_and_filter_rules :: "u16 \<Rightarrow> u16 \<Rightarrow> 's \<Rightarrow> int \<times> 's"
  be_update_portmapping :: "u16 \<Rightarrow> u16 \<Rightarrow> u16 \<Rightarrow> string option \<Rightarrow> u32 \<Rightarrow> 's \<Rightarrow> int \<times> 's"
  be_update_portmapping_desc_timestamp :: "u16 \<Rightarrow> u16 \<Rightarrow> string option \<Rightarrow> u32 \<Rightarrow> 's \<Rightarrow> int \<times> 's"
  be_get_portmappings_in_range :: "u16 \<Rightarrow> u16 \<Rightarrow> u16 \<Rightarrow> 's \<Rightarrow> u16 list option"
  be_get_peer_rule_by_index :: "nat \<Rightarrow> 's \<Rightarrow> (u16 \<times> u16 \<times> u32 \<times> u64 \<times> u64) option"

section \<open>Port mappings\<close>

record mapping =
  m_eport :: u16
  m_proto :: u16
  m_iaddr :: in_addr
  m_iport :: u16
  m_rhost :: in_addr
  m_desc :: string
  m_time :: u32
  m_packets :: u64
  m_bytes :: u64

abbreviation m_key :: "mapping \<Rightarrow> u16 \<times> u16" where
  "m_key m \<equiv> (m_eport m, m_proto m)"

definition rhost_addr :: "string option \<Rightarrow> in_addr" where
  "rhost_addr host = (case host of None \<Rightarrow> 0 | Some a \<Rightarrow> if a = [] \<or> a = ''*'' then 0 else inet_addr a)"

definition desc_text :: "string option \<Rightarrow> string" where
  "desc_text desc = (case desc of None \<Rightarrow> ''miniupnpd'' | Some d \<Rightarrow> d)"

definition new_mapping :: "string option \<Rightarrow> u16 \<Rightarrow> string \<Rightarrow> u16 \<Rightarrow> u16 \<Rightarrow> string option \<Rightarrow> u32 \<Rightarrow> mapping" where
  "new_mapping rhost eport iaddr iport proto desc ts =
     \<lparr>m_eport = eport, m_proto = proto, m_iaddr = inet_addr iaddr, m_iport = iport,
      m_rhost = rhost_addr rhost, m_desc = desc_text desc, m_time = ts, m_packets = 0, m_bytes = 0\<rparr>"

definition mapping_info :: "nat \<Rightarrow> nat \<Rightarrow> nat \<Rightarrow> mapping \<Rightarrow> rdr_info" where
  "mapping_info il dl rl m =
     \<lparr>info_iaddr = bounded_copy il (inet_ntop (m_iaddr m)), info_iport = m_iport m,
      info_desc = bounded_copy dl (m_desc m), info_timestamp = m_time m,
      info_packets = m_packets m, info_bytes = m_bytes m,
      info_rhost = (if m_rhost m = 0 then None else Some (bounded_copy rl (inet_ntop (m_rhost m))))\<rparr>"

text \<open>The lookup by index always writes the remote host.\<close>

definition indexed_info :: "nat \<Rightarrow> nat \<Rightarrow> nat \<Rightarrow> mapping \<Rightarrow> rdr_info" where
  "indexed_info il dl rl m = (mapping_info il dl rl m)\<lparr>info_rhost :=
     Some (if m_rhost m = 0 then [] else bounded_copy rl (inet_ntop (m_rhost m)))\<rparr>"

definition find_mapping :: "u16 \<Rightarrow> u16 \<Rightarrow> mapping list \<Rightarrow> mapping option" where
  "find_mapping eport proto ms = find (\<lambda>m. m_key m = (eport, proto)) ms"

definition drop_mapping :: "u16 \<Rightarrow> u16 \<Rightarrow> mapping list \<Rightarrow> mapping list" where
  "drop_mapping eport proto ms = filter (\<lambda>m. m_key m \<noteq> (eport, proto)) ms"

definition change_mapping :: "u16 \<Rightarrow> u16 \<Rightarrow> (mapping \<Rightarrow> mapping) \<Rightarrow> mapping list \<Rightarrow> mapping list" where
  "change_mapping eport proto f ms = map (\<lambda>m. if m_key m = (eport, proto) then f m else m) ms"

text \<open>
  The contract. The filter rule is only promised to keep the mappings; an addition is promised for a
  pair of external port and protocol that is not mapped.
\<close>

locale redirect_backend =
  fixes ops :: "'s rdr_ops" and inv :: "'s \<Rightarrow> bool" and mappings :: "'s \<Rightarrow> mapping list"
  assumes keys_distinct: "inv s \<Longrightarrow> distinct (map m_key (mappings s))"
    and get_redirect_rule_law:
      "inv s \<Longrightarrow> be_get_redirect_rule ops eport proto il dl rl s
         = map_option (mapping_info il dl rl) (find_mapping eport proto (mappings s))"
    and get_by_index_law:
      "inv s \<Longrightarrow> be_get_redirect_rule_by_index ops index il dl rl s
         = (if index < length (mappings s)
            then let m = mappings s ! index in Some (m_eport m, m_proto m, indexed_info il dl rl m)
            else None)"
    and add_redirect_rule2_law:
      "inv s \<Longrightarrow> find_mapping eport proto (mappings s) = None
       \<Longrightarrow> be_add_redirect_rule2 ops rhost eport iaddr iport proto desc ts s = (r, s')
       \<Longrightarrow> r = 0 \<and> inv s' \<and> mappings s' = mappings s @ [new_mapping rhost eport iaddr iport proto desc ts]"
    and add_filter_rule2_law:
      "inv s \<Longrightarrow> be_add_filter_rule2 ops rhost iaddr eport iport proto s = (r, s')
       \<Longrightarrow> r = 0 \<and> inv s' \<and> mappings s' = mappings s"
    and delete_law:
      "inv s \<Longrightarrow> be_delete_redirect_and_filter_rules ops eport proto s = (r, s')
       \<Longrightarrow> inv s' \<and> mappings s' = drop_mapping eport proto (mappings s)
          \<and> (find_mapping eport proto (mappings s) \<noteq> None \<longrightarrow> r = 0)"
    and update_portmapping_law:
      "inv s \<Longrightarrow> be_update_portmapping ops eport proto iport desc ts s = (r, s')
       \<Longrightarrow> inv s' \<and> (r = 0 \<or> r = -1) \<and> (r = 0 \<longrightarrow> mappings s' = change_mapping eport proto
              (\<lambda>m. m\<lparr>m_iport := iport, m_desc := desc_text desc, m_time := ts\<rparr>) (mappings s))
          \<and> (r \<noteq> 0 \<longrightarrow> mappings s' = mappings s
              \<or> mappings s' = change_mapping eport proto (\<lambda>m. m\<lparr>m_iport := iport\<rparr>) (mappings s))"
    and update_desc_law:
      "inv s \<Longrightarrow> be_update_portmapping_desc_timestamp ops eport proto desc ts s = (r, s')
       \<Longrightarrow> r = 0 \<and> inv s' \<and> mappings s' = change_mapping eport proto
              (\<lambda>m. m\<lparr>m_desc := desc_text desc, m_time := ts\<rparr>) (mappings s)"
    and get_in_range_law:
      "inv s \<Longrightarrow> be_get_portmappings_in_range ops startport endport proto s
         = Some (map m_eport (filter (\<lambda>m. m_proto m = proto \<and> startport \<le> m_eport m \<and> m_eport m \<le> endport)
                               (mappings s)))"

section \<open>Facts about lists of mappings\<close>

lemma find_mapping_None_iff:
  "find_mapping eport proto ms = None \<longleftrightarrow> (eport, proto) \<notin> m_key ` set ms"
  by (auto simp: find_mapping_def find_None_iff)

lemma find_mapping_Some_key: "find_mapping eport proto ms = Some m \<Longrightarrow> m \<in> set ms \<and> m_key m = (eport, proto)"
  by (auto simp: find_mapping_def find_Some_iff in_set_conv_nth)

lemma find_mapping_append:
  "find_mapping eport proto (ms @ ns) =
     (case find_mapping eport proto ms of None \<Rightarrow> find_mapping eport proto ns | Some m \<Rightarrow> Some m)"
  by (induction ms) (simp_all add: find_mapping_def)

lemma find_mapping_snoc:
  "find_mapping eport proto (ms @ [m]) =
     (case find_mapping eport proto ms of None \<Rightarrow> if m_key m = (eport, proto) then Some m else None
      | Some x \<Rightarrow> Some x)"
  by (induction ms) (auto simp: find_mapping_def)

lemma new_mapping_sel [simp]:
  "m_eport (new_mapping rhost eport iaddr iport proto desc ts) = eport"
  "m_proto (new_mapping rhost eport iaddr iport proto desc ts) = proto"
  "m_iaddr (new_mapping rhost eport iaddr iport proto desc ts) = inet_addr iaddr"
  "m_iport (new_mapping rhost eport iaddr iport proto desc ts) = iport"
  "m_time (new_mapping rhost eport iaddr iport proto desc ts) = ts"
  "m_desc (new_mapping rhost eport iaddr iport proto desc ts) = desc_text desc"
  by (simp_all add: new_mapping_def)

lemma find_mapping_drop:
  "find_mapping eport proto (drop_mapping e p ms)
     = (if (eport, proto) = (e, p) then None else find_mapping eport proto ms)"
  by (induction ms) (auto simp: find_mapping_def drop_mapping_def)

lemma find_mapping_change:
  assumes "\<And>m. m_key (f m) = m_key m"
  shows "find_mapping eport proto (change_mapping e p f ms)
     = (if (eport, proto) = (e, p) then map_option f (find_mapping eport proto ms)
        else find_mapping eport proto ms)"
  using assms by (induction ms) (auto simp: find_mapping_def change_mapping_def)

lemma drop_mapping_absent: "find_mapping eport proto ms = None \<Longrightarrow> drop_mapping eport proto ms = ms"
  by (induction ms) (auto simp: find_mapping_def drop_mapping_def split: if_splits)

lemma change_mapping_absent: "find_mapping eport proto ms = None \<Longrightarrow> change_mapping eport proto f ms = ms"
  by (induction ms) (auto simp: find_mapping_def change_mapping_def split: if_splits)

lemma find_mapping_mem:
  "distinct (map m_key ms) \<Longrightarrow> m \<in> set ms \<Longrightarrow> find_mapping (m_eport m) (m_proto m) ms = Some m"
  by (induction ms) (auto simp: find_mapping_def image_iff)

end
