(* ===== verification/Redirect.thy ===== *)
theory Redirect
  imports RdrBackend Permissions
begin

text \<open>
  \<open>upnpredirect.c\<close>: adding, updating, listing, expiring and deleting port mappings over a firewall
  backend, and the lease file that survives a restart.

  The backend calls and the settings are a record \<open>E\<close>: the permission rules, the build options
  (\<open>SUPPORT_REMOTEHOST\<close>, \<open>LEASEFILE_USE_REMAINING_TIME\<close>, \<open>PCP_PEER\<close>; \<open>port_in_use\<close> is constantly 0 in a
  build without \<open>CHECK_PORTINUSE\<close>), the clocks, and whether each file operation succeeds. The state
  has the backend's state, the contents of the lease file (\<^const>\<open>None\<close> when it does not exist),
  \<open>nextruletoclean_timestamp\<close> and the number of event notifications sent. The build is a Linux one
  with \<open>ENABLE_LEASEFILE\<close> and \<open>ENABLE_EVENTS\<close>. Times are taken modulo \<open>2^32\<close>, as the code's
  \<open>unsigned int\<close>. Allocation succeeds; log lines are not modelled.
\<close>

record ('s, 're) redirect_env =
  be_ops :: "'s rdr_ops"
  nomatch :: "'re \<Rightarrow> string \<Rightarrow> bool"
  upnppermlist :: "'re upnpperm list"
  disable_port_forwarding :: bool
  port_in_use :: "u16 \<Rightarrow> u16 \<Rightarrow> string \<Rightarrow> u16 \<Rightarrow> 's \<Rightarrow> int"
  lease_file :: "string option"
  support_remotehost :: bool
  use_remaining_time :: bool
  pcp_peer :: bool
  upnp_time :: u32
  unix_time :: u32
  append_ok :: bool
  temp_ok :: bool
  rename_ok :: bool
  unlink_ok :: bool

record 's redirect_state =
  fw :: 's
  lease_data :: "string option"
  nextruletoclean_timestamp :: u32
  events :: nat

section \<open>Protocol names\<close>

definition proto_atoi :: "string \<Rightarrow> u16" where
  "proto_atoi protocol =
     (if strcaseeq protocol ''UDP'' then IPPROTO_UDP
      else if strcaseeq protocol ''UDPLITE'' then IPPROTO_UDPLITE else IPPROTO_TCP)"

definition proto_itoa :: "u16 \<Rightarrow> string" where
  "proto_itoa proto =
     (if proto = IPPROTO_UDP then ''UDP'' else if proto = IPPROTO_TCP then ''TCP''
      else if proto = IPPROTO_UDPLITE then ''UDPLITE'' else ''*UNKNOWN*'')"

section \<open>The lease file\<close>

text \<open>
  \<open>fgets\<close> with a buffer of \<open>n\<close> bytes: the next piece of the file, up to a newline or \<open>n - 1\<close>
  characters, and all the pieces.
\<close>

definition fgets_len :: "nat \<Rightarrow> string \<Rightarrow> nat" where
  "fgets_len n s = min (n - 1) (length (takeWhile (\<lambda>c. c \<noteq> CHR 0x0A) s) + 1)"

function fgets_all :: "nat \<Rightarrow> string \<Rightarrow> string list" where
  "fgets_all n s =
     (if s = [] \<or> n < 2 then [] else take (fgets_len n s) s # fgets_all n (drop (fgets_len n s) s))"
  by pat_completeness auto
termination
  by (relation "measure (length \<circ> snd)") (auto simp: fgets_len_def)

declare fgets_all.simps [simp del]

definition lease_time :: "('s, 're) redirect_env \<Rightarrow> u32 \<Rightarrow> u32" where
  "lease_time E ts =
     (if ts \<noteq> 0 then (let t = ts - upnp_time E in if use_remaining_time E then t else t + unix_time E)
      else ts)"

definition lease_line ::
  "('s, 're) redirect_env \<Rightarrow> string option \<Rightarrow> u16 \<Rightarrow> string \<Rightarrow> u16 \<Rightarrow> u16 \<Rightarrow> string \<Rightarrow> u32 \<Rightarrow> string" where
  "lease_line E rhost eport iaddr iport proto desc ts =
     proto_itoa proto @ '':'' @ dec (unat eport) @ '':''
     @ (if support_remotehost E
        then (case rhost of None \<Rightarrow> [] | Some h \<Rightarrow> filter (\<lambda>c. schar c \<ge> 32 \<and> c \<noteq> CHR '':'') h) @ '':''
        else [])
     @ iaddr @ '':'' @ dec (unat iport) @ '':'' @ dec (unat (lease_time E ts)) @ '':''
     @ filter (\<lambda>c. schar c \<ge> 32) desc @ [CHR 0x0A]"

definition lease_file_add ::
  "('s, 're) redirect_env \<Rightarrow> string option \<Rightarrow> u16 \<Rightarrow> string \<Rightarrow> u16 \<Rightarrow> u16 \<Rightarrow> string \<Rightarrow> u32
   \<Rightarrow> 's redirect_state \<Rightarrow> int \<times> 's redirect_state" where
  "lease_file_add E rhost eport iaddr iport proto desc ts st =
     (if lease_file E = None then (0, st)
      else if \<not> append_ok E then (-1, st)
      else (0, st\<lparr>lease_data := Some ((case lease_data st of None \<Rightarrow> [] | Some d \<Rightarrow> d)
                 @ lease_line E rhost eport iaddr iport proto desc ts)\<rparr>))"

definition lease_prefix :: "u16 \<Rightarrow> u16 \<Rightarrow> string" where
  "lease_prefix eport proto = bounded_copy 32 (proto_itoa proto @ '':'' @ dec (unat eport) @ '':'')"

definition lease_file_remove ::
  "('s, 're) redirect_env \<Rightarrow> u16 \<Rightarrow> u16 \<Rightarrow> 's redirect_state \<Rightarrow> int \<times> 's redirect_state" where
  "lease_file_remove E eport proto st =
     (case lease_file E of None \<Rightarrow> (0, st)
      | Some path \<Rightarrow>
          if length path + 7 > 128 then (-1, st)
          else (case lease_data st of None \<Rightarrow> (0, st)
                | Some d \<Rightarrow>
                    let str = lease_prefix eport proto;
                        kept = concat (filter (\<lambda>b. length b < length str \<or> take (length str) b \<noteq> str)
                                        (fgets_all 511 d))
                    in if \<not> temp_ok E then (-1, st)
                       else if rename_ok E then (0, st\<lparr>lease_data := Some kept\<rparr>) else (0, st)))"

section \<open>Adding and deleting mappings\<close>

definition next_clean :: "u32 \<Rightarrow> u32 \<Rightarrow> u32" where
  "next_clean old ts = (if ts > 0 then (if old = 0 \<or> ts < old then ts else old) else old)"

definition upnp_redirect_internal ::
  "('s, 're) redirect_env \<Rightarrow> string option \<Rightarrow> u16 \<Rightarrow> string \<Rightarrow> u16 \<Rightarrow> u16 \<Rightarrow> string \<Rightarrow> u32
   \<Rightarrow> 's redirect_state \<Rightarrow> int \<times> 's redirect_state" where
  "upnp_redirect_internal E rhost eport iaddr iport proto desc ts st =
     (if disable_port_forwarding E then (-1, st)
      else let (r, f1) = be_add_redirect_rule2 (be_ops E) rhost eport iaddr iport proto (Some desc) ts (fw st);
               st1 = st\<lparr>fw := f1\<rparr>
           in if r < 0 then (-1, st1)
              else let st2 = snd (lease_file_add E rhost eport iaddr iport proto desc ts st1);
                       (q, f2) = be_add_filter_rule2 (be_ops E) rhost iaddr eport iport proto (fw st2);
                       st3 = st2\<lparr>fw := f2\<rparr>
                   in if q < 0 then (-1, st3)
                      else (0, st3\<lparr>nextruletoclean_timestamp := next_clean (nextruletoclean_timestamp st3) ts,
                                  events := events st3 + 1\<rparr>))"

definition same_rhost :: "string option \<Rightarrow> string \<Rightarrow> bool" where
  "same_rhost rhost rhost_old =
     (case rhost of None \<Rightarrow> rhost_old = []
      | Some h \<Rightarrow> (h = ''*'' \<and> rhost_old = []) \<or> h = rhost_old)"

definition upnp_redirect ::
  "('s, 're) redirect_env \<Rightarrow> string option \<Rightarrow> u16 \<Rightarrow> string \<Rightarrow> u16 \<Rightarrow> string \<Rightarrow> string option \<Rightarrow> u32
   \<Rightarrow> 's redirect_state \<Rightarrow> int \<times> 's redirect_state" where
  "upnp_redirect E rhost eport iaddr iport protocol desc0 leaseduration st =
     (let proto = proto_atoi protocol
      in case inet_aton iaddr of None \<Rightarrow> (-1, st)
         | Some addr \<Rightarrow>
             if \<not> check_upnp_rule_against_permissions (nomatch E) (upnppermlist E) eport addr iport desc0
             then (-3, st)
             else let desc = (case desc0 of None \<Rightarrow> [] | Some d \<Rightarrow> d);
                      ts = (if leaseduration > 0 then upnp_time E + leaseduration else 0)
                  in case be_get_redirect_rule (be_ops E) eport proto 32 0 32 (fw st) of
                       Some info \<Rightarrow>
                         let rhost_old = (case info_rhost info of None \<Rightarrow> [] | Some h \<Rightarrow> h)
                         in if iaddr = info_iaddr info \<and> same_rhost rhost rhost_old
                            then let (r, f1) =
                                       (if iport \<noteq> info_iport info
                                        then be_update_portmapping (be_ops E) eport proto iport (Some desc) ts (fw st)
                                        else be_update_portmapping_desc_timestamp (be_ops E) eport proto (Some desc) ts (fw st));
                                     st1 = st\<lparr>fw := f1\<rparr>
                                 in if r = 0
                                    then (r, snd (lease_file_add E rhost eport iaddr iport proto desc ts
                                               (snd (lease_file_remove E eport proto st1))))
                                    else (r, st1)
                            else (-2, st)
                     | None \<Rightarrow>
                         if port_in_use E eport proto iaddr iport (fw st) > 0 then (-4, st)
                         else upnp_redirect_internal E rhost eport iaddr iport proto desc ts st)"

definition upnp_delete_redir ::
  "('s, 're) redirect_env \<Rightarrow> u16 \<Rightarrow> u16 \<Rightarrow> 's redirect_state \<Rightarrow> int \<times> 's redirect_state" where
  "upnp_delete_redir E eport proto st =
     (let (r, f1) = be_delete_redirect_and_filter_rules (be_ops E) eport proto (fw st);
          st1 = snd (lease_file_remove E eport proto (st\<lparr>fw := f1\<rparr>))
      in (r, st1\<lparr>events := events st1 + 1\<rparr>))"

definition upnp_delete_redirection ::
  "('s, 're) redirect_env \<Rightarrow> u16 \<Rightarrow> string \<Rightarrow> 's redirect_state \<Rightarrow> int \<times> 's redirect_state" where
  "upnp_delete_redirection E eport protocol st = upnp_delete_redir E eport (proto_atoi protocol) st"

section \<open>Listing mappings\<close>

text \<open>\<open>upnp_get_redirection_infos\<close>: the result of the lookup and the remaining lease.\<close>

definition upnp_get_redirection_infos ::
  "('s, 're) redirect_env \<Rightarrow> u16 \<Rightarrow> string \<Rightarrow> nat \<Rightarrow> nat \<Rightarrow> nat \<Rightarrow> 's redirect_state
   \<Rightarrow> (rdr_info \<times> string \<times> u32) option" where
  "upnp_get_redirection_infos E eport protocol iaddrlen desclen rhostlen st =
     map_option (\<lambda>info. (info, (case info_rhost info of None \<Rightarrow> [] | Some h \<Rightarrow> h),
         if info_timestamp info > 0 \<and> info_timestamp info > upnp_time E
         then info_timestamp info - upnp_time E else 0))
       (be_get_redirect_rule (be_ops E) eport (proto_atoi protocol) iaddrlen desclen rhostlen (fw st))"

definition proto_name :: "u16 \<Rightarrow> string" where
  "proto_name proto = (if proto = IPPROTO_TCP then ''TCP'' else if proto = IPPROTO_UDPLITE then ''UDPLITE'' else ''UDP'')"

definition upnp_get_redirection_infos_by_index ::
  "('s, 're) redirect_env \<Rightarrow> nat \<Rightarrow> nat \<Rightarrow> nat \<Rightarrow> nat \<Rightarrow> 's redirect_state
   \<Rightarrow> (u16 \<times> string \<times> rdr_info \<times> u32) option" where
  "upnp_get_redirection_infos_by_index E index iaddrlen desclen rhostlen st =
     map_option (\<lambda>(eport, proto, info). (eport, proto_name proto, info,
         if info_timestamp info > upnp_time E then info_timestamp info - upnp_time E else 0))
       (be_get_redirect_rule_by_index (be_ops E) index iaddrlen desclen rhostlen (fw st))"

text \<open>The counting loop; a backend that always answers would make it run forever (\<^const>\<open>None\<close>).\<close>

partial_function (option) count_entries ::
  "('s, 're) redirect_env \<Rightarrow> nat \<Rightarrow> 's redirect_state \<Rightarrow> nat option" where
  [code]: "count_entries E n st =
     (case upnp_get_redirection_infos_by_index E n 32 64 32 st of
        None \<Rightarrow> Some n | Some _ \<Rightarrow> count_entries E (n + 1) st)"

definition upnp_get_portmapping_number_of_entries ::
  "('s, 're) redirect_env \<Rightarrow> 's redirect_state \<Rightarrow> nat option" where
  "upnp_get_portmapping_number_of_entries E st = count_entries E 0 st"

definition upnp_get_portmappings_in_range ::
  "('s, 're) redirect_env \<Rightarrow> u16 \<Rightarrow> u16 \<Rightarrow> string \<Rightarrow> 's redirect_state \<Rightarrow> u16 list option" where
  "upnp_get_portmappings_in_range E startport endport protocol st =
     be_get_portmappings_in_range (be_ops E) startport endport (proto_atoi protocol) (fw st)"

section \<open>Expired and unused mappings\<close>

record rule_state =
  rs_packets :: u64
  rs_bytes :: u64
  rs_eport :: u16
  rs_proto :: u8
  to_remove :: bool

text \<open>
  One round of the collecting loops: is the rule expired, and the next timestamp to clean.
\<close>

definition rule_expired :: "u32 \<Rightarrow> u32 \<Rightarrow> bool" where
  "rule_expired now ts = (ts > 0 \<and> ts \<le> now)"

definition next_to_clean :: "u32 \<Rightarrow> u32 \<Rightarrow> u32 \<Rightarrow> u32" where
  "next_to_clean now ts next =
     (if ts > 0 \<and> \<not> ts \<le> now \<and> (next \<le> now \<or> ts < next) then ts else next)"

partial_function (option) collect_rules ::
  "(nat \<Rightarrow> (u16 \<times> u16 \<times> u32 \<times> u64 \<times> u64) option) \<Rightarrow> u32 \<Rightarrow> nat \<Rightarrow> u32 \<Rightarrow> rule_state list
   \<Rightarrow> (nat \<times> u32 \<times> rule_state list) option" where
  [code]: "collect_rules get now i next list =
     (case get i of None \<Rightarrow> Some (i, next, list)
      | Some (eport, proto, ts, pk, by) \<Rightarrow>
          collect_rules get now (i + 1) (next_to_clean now ts next)
            (\<lparr>rs_packets = pk, rs_bytes = by, rs_eport = eport, rs_proto = ucast proto,
              to_remove = rule_expired now ts\<rparr> # list))"

definition rule_at :: "('s, 're) redirect_env \<Rightarrow> 's \<Rightarrow> nat \<Rightarrow> (u16 \<times> u16 \<times> u32 \<times> u64 \<times> u64) option" where
  "rule_at E f i = map_option (\<lambda>(eport, proto, info). (eport, proto, info_timestamp info,
       info_packets info, info_bytes info)) (be_get_redirect_rule_by_index (be_ops E) i 0 0 0 f)"

fun expire_rules ::
  "('s, 're) redirect_env \<Rightarrow> rule_state list \<Rightarrow> int \<Rightarrow> 's redirect_state
   \<Rightarrow> rule_state list \<times> int \<times> 's redirect_state" where
  "expire_rules E [] i st = ([], i, st)"
| "expire_rules E (r # rs) i st =
     (if to_remove r
      then expire_rules E rs (i - 1) (snd (upnp_delete_redir E (rs_eport r) (ucast (rs_proto r)) st))
      else let (rs', i', st') = expire_rules E rs i st in (r # rs', i', st'))"

definition get_upnp_rules_state_list ::
  "('s, 're) redirect_env \<Rightarrow> int \<Rightarrow> 's redirect_state \<Rightarrow> (rule_state list \<times> 's redirect_state) option" where
  "get_upnp_rules_state_list E max_rules_number_target st =
     (case collect_rules (rule_at E (fw st)) (upnp_time E) 0 0 [] of None \<Rightarrow> None
      | Some (i1, next1, list1) \<Rightarrow>
          (case (if pcp_peer E
                 then collect_rules (\<lambda>i. be_get_peer_rule_by_index (be_ops E) i (fw st)) (upnp_time E) 0 next1 list1
                 else Some (i1, next1, list1)) of None \<Rightarrow> None
           | Some (i, next, list) \<Rightarrow>
               let (list', i', st') = expire_rules E list (int i) (st\<lparr>nextruletoclean_timestamp := next\<rparr>)
               in Some (if i' \<le> max_rules_number_target then [] else list', st')))"

fun remove_unused_rules ::
  "('s, 're) redirect_env \<Rightarrow> rule_state list \<Rightarrow> 's redirect_state \<Rightarrow> 's redirect_state" where
  "remove_unused_rules E [] st = st"
| "remove_unused_rules E (r # rs) st =
     (case be_get_redirect_rule (be_ops E) (rs_eport r) (ucast (rs_proto r)) 0 0 0 (fw st) of
        None \<Rightarrow> remove_unused_rules E rs st
      | Some info \<Rightarrow>
          if info_packets info = rs_packets r \<and> info_bytes info = rs_bytes r
          then remove_unused_rules E rs (snd (upnp_delete_redir E (rs_eport r) (ucast (rs_proto r)) st))
          else remove_unused_rules E rs st)"

section \<open>Reloading the lease file\<close>

definition split_colon :: "string \<Rightarrow> (string \<times> string) option" where
  "split_colon s =
     (let a = takeWhile (\<lambda>c. c \<noteq> CHR '':'') s
      in if length a < length s then Some (a, drop (length a + 1) s) else None)"

definition trim :: "string \<Rightarrow> string" where
  "trim s = rev (dropWhile isspace (rev (dropWhile isspace s)))"

record lease_entry =
  le_proto :: string
  le_eport :: u16
  le_rhost :: "string option"
  le_iaddr :: string
  le_iport :: u16
  le_time :: u32
  le_desc :: string

text \<open>
  The fields of a line; \<^const>\<open>None\<close> is \<open>unrecognized data in lease file\<close>. Numbers are read up to the
  next non-digit, so the colon after them does not matter to \<open>atoi\<close>.
\<close>

definition parse_lease_line :: "bool \<Rightarrow> string \<Rightarrow> lease_entry option" where
  "parse_lease_line remote line =
     (case split_colon line of None \<Rightarrow> None
      | Some (proto, p1) \<Rightarrow>
          (case (if remote then map_option snd (split_colon p1) else Some p1) of None \<Rightarrow> None
           | Some p2 \<Rightarrow>
               (case split_colon p2 of None \<Rightarrow> None
                | Some (rhost, p3) \<Rightarrow>
                    (case split_colon p3 of None \<Rightarrow> None
                     | Some (iaddr, p4) \<Rightarrow>
                         (case split_colon p4 of None \<Rightarrow> None
                          | Some (_, p5) \<Rightarrow>
                              (case split_colon p5 of None \<Rightarrow> None
                               | Some (_, p6) \<Rightarrow>
                                   Some \<lparr>le_proto = proto, le_eport = word_of_int (atoi p1),
                                      le_rhost = (if remote then Some rhost else None), le_iaddr = iaddr,
                                      le_iport = word_of_int (atoi p4),
                                      le_time = of_nat (fst (strtoul10 p5)), le_desc = trim p6\<rparr>))))))"

definition reload_lease ::
  "('s, 're) redirect_env \<Rightarrow> lease_entry \<Rightarrow> 's redirect_state \<Rightarrow> 's redirect_state" where
  "reload_lease E l st =
     (if le_time l > 0 \<and> \<not> use_remaining_time E \<and> le_time l \<le> unix_time E then st
      else let leaseduration = (if le_time l > 0
                                then if use_remaining_time E then le_time l else le_time l - unix_time E
                                else 0);
               ts = (if le_time l > 0 then leaseduration + upnp_time E else 0);
               (r, st1) = upnp_redirect E (le_rhost l) (le_eport l) (le_iaddr l) (le_iport l) (le_proto l)
                            (Some (le_desc l)) leaseduration st
           in if r = -2
              then snd (lease_file_add E (le_rhost l) (le_eport l) (le_iaddr l) (le_iport l)
                          (proto_atoi (le_proto l)) (le_desc l) ts st1)
              else st1)"

fun reload_lines :: "('s, 're) redirect_env \<Rightarrow> string list \<Rightarrow> 's redirect_state \<Rightarrow> 's redirect_state" where
  "reload_lines E [] st = st"
| "reload_lines E (line # ls) st =
     (case parse_lease_line (support_remotehost E) line of
        None \<Rightarrow> reload_lines E ls st
      | Some l \<Rightarrow> reload_lines E ls (reload_lease E l st))"

definition reload_from_lease_file :: "('s, 're) redirect_env \<Rightarrow> 's redirect_state \<Rightarrow> int \<times> 's redirect_state" where
  "reload_from_lease_file E st =
     (if lease_file E = None then (-1, st)
      else case lease_data st of None \<Rightarrow> (-1, st)
           | Some d \<Rightarrow>
               let st1 = (if unlink_ok E then st\<lparr>lease_data := None\<rparr> else st)
               in (0, reload_lines E (fgets_all 320 d) st1))"

text \<open>The rewrite of a lease file that holds remaining times.\<close>

partial_function (option) lease_rewrite_loop ::
  "('s, 're) redirect_env \<Rightarrow> nat \<Rightarrow> 's redirect_state \<Rightarrow> 's redirect_state option" where
  [code]: "lease_rewrite_loop E index st =
     (case be_get_redirect_rule_by_index (be_ops E) index 32 64 40 (fw st) of None \<Rightarrow> Some st
      | Some (eport, proto, info) \<Rightarrow>
          (case lease_file_add E (info_rhost info) eport (info_iaddr info) (info_iport info) proto
                  (info_desc info) (info_timestamp info) st of
             (r, st') \<Rightarrow> if r < 0 then Some st' else lease_rewrite_loop E (index + 1) st'))"

definition lease_file_rewrite :: "('s, 're) redirect_env \<Rightarrow> 's redirect_state \<Rightarrow> 's redirect_state option" where
  "lease_file_rewrite E st =
     (if lease_file E = None then Some st
      else lease_rewrite_loop E 0 (if unlink_ok E then st\<lparr>lease_data := None\<rparr> else st))"

text \<open>A line of \<open>write_ruleset_details\<close>, which is formatted into \<open>char buffer[256]\<close>.\<close>

definition pad2 :: "nat \<Rightarrow> string" where
  "pad2 i = (if i < 10 then '' '' else []) @ dec i"

definition ruleset_line :: "nat \<Rightarrow> u16 \<Rightarrow> u16 \<Rightarrow> rdr_info \<Rightarrow> string" where
  "ruleset_line i eport proto info =
     pad2 i @ '' '' @ proto_itoa proto @ '' '' @ (case info_rhost info of None \<Rightarrow> [] | Some h \<Rightarrow> h)
     @ '':'' @ dec (unat eport) @ ''->'' @ info_iaddr info @ '':'' @ dec (unat (info_iport info))
     @ '' '' @ [CHR 0x27] @ info_desc info @ [CHR 0x27] @ '' '' @ dec (unat (info_timestamp info))
     @ '' '' @ dec (unat (info_packets info)) @ '' '' @ dec (unat (info_bytes info)) @ [CHR 0x0A]"

partial_function (option) write_ruleset_loop ::
  "('s, 're) redirect_env \<Rightarrow> nat \<Rightarrow> string \<Rightarrow> 's redirect_state \<Rightarrow> string option" where
  [code]: "write_ruleset_loop E i out st =
     (case be_get_redirect_rule_by_index (be_ops E) i 32 64 32 (fw st) of None \<Rightarrow> Some out
      | Some (eport, proto, info) \<Rightarrow>
          write_ruleset_loop E (i + 1) (out @ ruleset_line i eport proto info) st)"

definition write_ruleset_details :: "('s, 're) redirect_env \<Rightarrow> 's redirect_state \<Rightarrow> string option" where
  "write_ruleset_details E st = write_ruleset_loop E 0 (''Ruleset :'' @ [CHR 0x0A]) st"

section \<open>Requests over a backend\<close>

lemma lease_file_add_frame [simp]:
  "fw (snd (lease_file_add E rhost eport iaddr iport proto desc ts st)) = fw st"
  "nextruletoclean_timestamp (snd (lease_file_add E rhost eport iaddr iport proto desc ts st))
     = nextruletoclean_timestamp st"
  "events (snd (lease_file_add E rhost eport iaddr iport proto desc ts st)) = events st"
  by (simp_all add: lease_file_add_def)

lemma lease_file_remove_frame [simp]:
  "fw (snd (lease_file_remove E eport proto st)) = fw st"
  "nextruletoclean_timestamp (snd (lease_file_remove E eport proto st)) = nextruletoclean_timestamp st"
  "events (snd (lease_file_remove E eport proto st)) = events st"
  by (simp_all add: lease_file_remove_def Let_def split: option.splits)

definition allowed :: "('s, 're) redirect_env \<Rightarrow> u16 \<Rightarrow> string \<Rightarrow> u16 \<Rightarrow> string option \<Rightarrow> bool" where
  "allowed E eport iaddr iport desc = (case inet_aton iaddr of None \<Rightarrow> False
     | Some a \<Rightarrow> check_upnp_rule_against_permissions (nomatch E) (upnppermlist E) eport a iport desc)"

definition rhost_text :: "in_addr \<Rightarrow> string" where
  "rhost_text a = (if a = 0 then [] else inet_ntop a)"

text \<open>The client that may overwrite a mapping: the same internal address and remote host.\<close>

definition owns :: "string \<Rightarrow> string option \<Rightarrow> mapping \<Rightarrow> bool" where
  "owns iaddr rhost m = (iaddr = inet_ntop (m_iaddr m) \<and> same_rhost rhost (rhost_text (m_rhost m)))"

lemma bounded_ntop [simp]: "16 \<le> n \<Longrightarrow> bounded_copy n (inet_ntop a) = inet_ntop a"
  using length_inet_ntop [of a] by simp

lemma mapping_info_owner:
  "info_iaddr (mapping_info 32 dl 32 m) = inet_ntop (m_iaddr m)"
  "(case info_rhost (mapping_info 32 dl 32 m) of None \<Rightarrow> [] | Some h \<Rightarrow> h) = rhost_text (m_rhost m)"
  "info_iport (mapping_info il dl rl m) = m_iport m" "info_timestamp (mapping_info il dl rl m) = m_time m"
  "info_packets (mapping_info il dl rl m) = m_packets m" "info_bytes (mapping_info il dl rl m) = m_bytes m"
  by (simp_all add: mapping_info_def rhost_text_def)

definition lease_end :: "('s, 're) redirect_env \<Rightarrow> u32 \<Rightarrow> u32" where
  "lease_end E d = (if d > 0 then upnp_time E + d else 0)"

context redirect_backend
begin

lemma redirect_internal_spec:
  assumes "be_ops E = ops" "inv (fw st)" "find_mapping eport proto (mappings (fw st)) = None"
    and "upnp_redirect_internal E rhost eport iaddr iport proto desc ts st = (r, st')"
  shows "inv (fw st') \<and> (if disable_port_forwarding E then r = -1 \<and> st' = st
     else r = 0 \<and> mappings (fw st') = mappings (fw st) @ [new_mapping rhost eport iaddr iport proto (Some desc) ts]
        \<and> nextruletoclean_timestamp st' = next_clean (nextruletoclean_timestamp st) ts
        \<and> events st' = events st + 1)"
proof (cases "disable_port_forwarding E")
  case True
  with assms show ?thesis by (simp add: upnp_redirect_internal_def)
next
  case False
  obtain q f1 where a: "be_add_redirect_rule2 ops rhost eport iaddr iport proto (Some desc) ts (fw st) = (q, f1)"
    by fastforce
  from add_redirect_rule2_law [OF assms(2,3) a] have f1: "q = 0" "inv f1"
    "mappings f1 = mappings (fw st) @ [new_mapping rhost eport iaddr iport proto (Some desc) ts]" by auto
  obtain q2 f2 where b: "be_add_filter_rule2 ops rhost iaddr eport iport proto f1 = (q2, f2)" by fastforce
  from add_filter_rule2_law [OF f1(2) b] have "q2 = 0" "inv f2" "mappings f2 = mappings f1" by auto
  with False assms(1,4) a b f1 show ?thesis
    by (auto simp: upnp_redirect_internal_def Let_def)
qed

text \<open>The update of an existing mapping.\<close>

definition update_call :: "u16 \<Rightarrow> u16 \<Rightarrow> u16 \<Rightarrow> string option \<Rightarrow> u32 \<Rightarrow> mapping \<Rightarrow> 's \<Rightarrow> int \<times> 's" where
  "update_call eport proto iport desc ts m s =
     (if iport \<noteq> m_iport m then be_update_portmapping ops eport proto iport desc ts s
      else be_update_portmapping_desc_timestamp ops eport proto desc ts s)"

lemma update_call_spec:
  assumes inv: "inv s" and m: "find_mapping eport proto (mappings s) = Some m"
    and u: "update_call eport proto iport desc ts m s = (r, s')"
  shows "inv s' \<and> (r = 0 \<or> r = -1) \<and> (if r = 0
     then mappings s' = change_mapping eport proto (\<lambda>m. m\<lparr>m_iport := iport, m_desc := desc_text desc, m_time := ts\<rparr>) (mappings s)
     else mappings s' = mappings s \<or> mappings s' = change_mapping eport proto (\<lambda>m. m\<lparr>m_iport := iport\<rparr>) (mappings s))"
proof (cases "iport = m_iport m")
  case False
  with u have "be_update_portmapping ops eport proto iport desc ts s = (r, s')" by (simp add: update_call_def)
  from update_portmapping_law [OF inv this] show ?thesis by simp
next
  case same: True
  with u have "be_update_portmapping_desc_timestamp ops eport proto desc ts s = (r, s')" by (simp add: update_call_def)
  from update_desc_law [OF inv this] have l: "r = 0" "inv s'"
    "mappings s' = change_mapping eport proto (\<lambda>m. m\<lparr>m_desc := desc_text desc, m_time := ts\<rparr>) (mappings s)" by auto
  have "m_iport x = iport" if "x \<in> set (mappings s)" "m_key x = (eport, proto)" for x
    using that find_mapping_mem [of "mappings s" x] keys_distinct [OF inv] m same by auto
  then have "mappings s' = change_mapping eport proto (\<lambda>m. m\<lparr>m_iport := iport, m_desc := desc_text desc, m_time := ts\<rparr>) (mappings s)"
    unfolding l(3) change_mapping_def by (auto intro!: map_cong)
  with l show ?thesis by simp
qed

text \<open>Every outcome of a request for a mapping.\<close>

lemma redirect_cases:
  assumes E: "be_ops E = ops" and inv: "inv (fw st)"
    and call: "upnp_redirect E rhost eport iaddr iport protocol desc d st = (r, st')"
  defines "proto \<equiv> proto_atoi protocol" and "ms \<equiv> mappings (fw st)"
    and "txt \<equiv> (case desc of None \<Rightarrow> [] | Some t \<Rightarrow> t)"
  obtains (invalid) "inet_aton iaddr = None" "r = -1" "st' = st"
  | (refused) "inet_aton iaddr \<noteq> None" "\<not> allowed E eport iaddr iport desc" "r = -3" "st' = st"
  | (conflict) m where "allowed E eport iaddr iport desc" "find_mapping eport proto ms = Some m" "\<not> owns iaddr rhost m" "r = -2" "st' = st"
  | (in_use) "allowed E eport iaddr iport desc" "find_mapping eport proto ms = None" "r = -4" "st' = st"
  | (disabled) "allowed E eport iaddr iport desc" "find_mapping eport proto ms = None" "r = -1" "st' = st"
  | (added) "allowed E eport iaddr iport desc" "find_mapping eport proto ms = None" "\<not> disable_port_forwarding E" "r = 0" "inv (fw st')"
      "mappings (fw st') = ms @ [new_mapping rhost eport iaddr iport proto (Some txt) (lease_end E d)]"
  | (updated) m where "allowed E eport iaddr iport desc" "find_mapping eport proto ms = Some m" "owns iaddr rhost m" "r = 0" "inv (fw st')"
      "mappings (fw st') = change_mapping eport proto (\<lambda>m. m\<lparr>m_iport := iport, m_desc := txt, m_time := lease_end E d\<rparr>) ms"
  | (failed) m where "allowed E eport iaddr iport desc" "find_mapping eport proto ms = Some m" "owns iaddr rhost m" "r = -1" "inv (fw st')"
      "mappings (fw st') = ms \<or> mappings (fw st') = change_mapping eport proto (\<lambda>m. m\<lparr>m_iport := iport\<rparr>) ms"
proof (cases "allowed E eport iaddr iport desc")
  case False
  show thesis
  proof (cases "inet_aton iaddr")
    case None
    with call invalid show thesis by (simp add: upnp_redirect_def)
  next
    case (Some a)
    with False call refused show thesis by (simp add: upnp_redirect_def allowed_def)
  qed
next
  case ok: True
  then obtain a where a: "inet_aton iaddr = Some a"
    "check_upnp_rule_against_permissions (nomatch E) (upnppermlist E) eport a iport desc"
    by (auto simp: allowed_def split: option.splits)
  have get: "be_get_redirect_rule (be_ops E) eport proto 32 0 32 (fw st) = map_option (mapping_info 32 0 32) (find_mapping eport proto ms)"
    unfolding E ms_def using inv by (rule get_redirect_rule_law)
  show thesis
  proof (cases "find_mapping eport proto ms")
    case None
    have step: "(if port_in_use E eport proto iaddr iport (fw st) > 0 then (-4, st)
        else upnp_redirect_internal E rhost eport iaddr iport proto txt (lease_end E d) st) = (r, st')"
      using call a get None unfolding lease_end_def txt_def proto_def
      by (simp add: upnp_redirect_def Let_def split del: if_split)
    show thesis
    proof (cases "port_in_use E eport proto iaddr iport (fw st) > 0")
      case True
      with step in_use ok None show thesis by simp
    next
      case False
      with step have i: "upnp_redirect_internal E rhost eport iaddr iport proto txt (lease_end E d) st = (r, st')" by simp
      from redirect_internal_spec [OF E inv None [unfolded ms_def] i] added disabled ok None show thesis
        by (cases "disable_port_forwarding E") (auto simp: ms_def)
    qed
  next
    case (Some m)
    note own = mapping_info_owner
    let ?u = "update_call eport proto iport (Some txt) (lease_end E d) m (fw st)"
    obtain r1 f1 where u: "?u = (r1, f1)" by (cases ?u)
    show thesis
    proof (cases "owns iaddr rhost m")
      case False
      with call a get Some own conflict ok show thesis
        by (simp add: upnp_redirect_def proto_def owns_def Let_def split: if_splits)
    next
      case True
      have "r = r1 \<and> fw st' = f1"
        using call a get Some own True u E unfolding update_call_def owns_def
        by (auto simp: upnp_redirect_def lease_end_def txt_def proto_def Let_def split: if_splits prod.splits)
      with update_call_spec [OF inv Some [unfolded ms_def] u] updated [OF ok Some True] failed [OF ok Some True]
      show thesis by (cases "r = 0") (auto simp: ms_def desc_text_def)
    qed
  qed
qed

end

lemma collect_rules_list:
  assumes "\<And>i. get i = (if i < length xs then Some (xs ! i) else None)"
  shows "n \<le> length xs \<Longrightarrow> collect_rules get now n next acc
    = Some (length xs, fold (\<lambda>(e, p, ts, pk, by). next_to_clean now ts) (drop n xs) next,
        rev (map (\<lambda>(e, p, ts, pk, by). \<lparr>rs_packets = pk, rs_bytes = by, rs_eport = e, rs_proto = ucast p,
              to_remove = rule_expired now ts\<rparr>) (drop n xs)) @ acc)"
proof (induction "length xs - n" arbitrary: n "next" acc)
  case 0
  then show ?case by (subst collect_rules.simps) (simp add: assms)
next
  case (Suc k)
  then have n: "n < length xs" by simp
  obtain e p ts pk bb where x: "xs ! n = (e, p, ts, pk, bb)" by (metis prod_cases5)
  have "drop n xs = xs ! n # drop (n + 1) xs" using n by (simp add: Cons_nth_drop_Suc)
  with Suc.hyps(1) [of "n + 1"] Suc.hyps(2) n x show ?case
    by (subst collect_rules.simps) (simp add: assms)
qed

lemma next_to_clean_fold:
  "let N = fold (next_to_clean now) tss 0
   in (N = 0 \<and> (\<forall>ts \<in> set tss. ts \<le> now)) \<or> (N \<in> set tss \<and> now < N \<and> (\<forall>ts \<in> set tss. now < ts \<longrightarrow> N \<le> ts))"
proof (induction tss rule: rev_induct)
  case (snoc t tss)
  let ?N = "fold (next_to_clean now) tss 0"
  have f: "fold (next_to_clean now) (tss @ [t]) 0 = next_to_clean now t ?N" by simp
  have "t \<le> now \<longrightarrow> next_to_clean now t ?N = ?N" by (simp add: next_to_clean_def)
  moreover have "now < t \<Longrightarrow> next_to_clean now t ?N = (if ?N \<le> now \<or> t < ?N then t else ?N)"
    by (auto simp: next_to_clean_def not_le word_gt_0_no [symmetric] dest: order.strict_trans1 [OF word_zero_le])
  ultimately show ?case using snoc unfolding f Let_def
    by (cases "t \<le> now") (auto simp: not_le)
qed simp

definition rule_keys :: "rule_state list \<Rightarrow> (u16 \<times> u16) set" where
  "rule_keys rs = (\<lambda>r. (rs_eport r, ucast (rs_proto r))) ` set (filter to_remove rs)"

definition unused :: "rule_state list \<Rightarrow> mapping \<Rightarrow> bool" where
  "unused rs m = list_ex (\<lambda>r. rs_eport r = m_eport m \<and> ucast (rs_proto r) = m_proto m
     \<and> rs_packets r = m_packets m \<and> rs_bytes r = m_bytes m) rs"

definition rule_of :: "u32 \<Rightarrow> mapping \<Rightarrow> rule_state" where
  "rule_of now m = \<lparr>rs_packets = m_packets m, rs_bytes = m_bytes m, rs_eport = m_eport m,
     rs_proto = ucast (m_proto m), to_remove = rule_expired now (m_time m)\<rparr>"

context redirect_backend
begin

lemma delete_redir_spec:
  assumes "be_ops E = ops" "inv (fw st)" "upnp_delete_redir E eport proto st = (r, st')"
  shows "inv (fw st') \<and> mappings (fw st') = drop_mapping eport proto (mappings (fw st))
    \<and> nextruletoclean_timestamp st' = nextruletoclean_timestamp st \<and> events st' = events st + 1
    \<and> (find_mapping eport proto (mappings (fw st)) \<noteq> None \<longrightarrow> r = 0)"
proof -
  obtain q f1 where d: "be_delete_redirect_and_filter_rules ops eport proto (fw st) = (q, f1)" by fastforce
  from delete_law [OF assms(2) d] assms(1,3) d show ?thesis
    by (auto simp: upnp_delete_redir_def Let_def)
qed

lemma delete_redir_fw:
  assumes "be_ops E = ops" "inv (fw st)"
  shows "inv (fw (snd (upnp_delete_redir E eport proto st)))"
    "mappings (fw (snd (upnp_delete_redir E eport proto st))) = drop_mapping eport proto (mappings (fw st))"
    "nextruletoclean_timestamp (snd (upnp_delete_redir E eport proto st)) = nextruletoclean_timestamp st"
  using delete_redir_spec [OF assms, of eport proto "fst (upnp_delete_redir E eport proto st)"
      "snd (upnp_delete_redir E eport proto st)"] by simp_all

lemma count_entries_spec:
  assumes "be_ops E = ops" "inv (fw st)"
  shows "n \<le> length (mappings (fw st)) \<Longrightarrow> count_entries E n st = Some (length (mappings (fw st)))"
proof (induction "length (mappings (fw st)) - n" arbitrary: n)
  case 0
  then show ?case using assms
    by (subst count_entries.simps) (simp add: upnp_get_redirection_infos_by_index_def get_by_index_law)
next
  case (Suc k)
  then have "n < length (mappings (fw st))" by simp
  with Suc.hyps(1) [of "n + 1"] Suc.hyps(2) assms show ?case
    by (subst count_entries.simps)
      (simp add: upnp_get_redirection_infos_by_index_def get_by_index_law Let_def)
qed

lemma expire_rules_spec:
  assumes "be_ops E = ops"
  shows "inv (fw st) \<Longrightarrow> expire_rules E rs i st = (rs', i', st') \<Longrightarrow>
    rs' = filter (\<lambda>r. \<not> to_remove r) rs \<and> i' = i - int (length (filter to_remove rs)) \<and> inv (fw st')
    \<and> mappings (fw st') = filter (\<lambda>m. m_key m \<notin> rule_keys rs) (mappings (fw st))
    \<and> nextruletoclean_timestamp st' = nextruletoclean_timestamp st"
proof (induction rs arbitrary: i st rs' i' st')
  case Nil
  then show ?case by (simp add: rule_keys_def)
next
  case (Cons r rs)
  show ?case
  proof (cases "to_remove r")
    case True
    let ?st = "snd (upnp_delete_redir E (rs_eport r) (ucast (rs_proto r)) st)"
    note d = delete_redir_fw [OF assms Cons.prems(1), of "rs_eport r" "ucast (rs_proto r)"]
    from Cons.prems(2) True have "expire_rules E rs (i - 1) ?st = (rs', i', st')" by simp
    from Cons.IH [OF d(1) this] d(2,3) True show ?thesis
      by (auto simp: rule_keys_def drop_mapping_def intro!: filter_cong)
  next
    case False
    then show ?thesis using Cons.prems Cons.IH [OF Cons.prems(1)]
      by (auto simp: rule_keys_def split: prod.splits)
  qed
qed

lemma rule_at_law:
  assumes "be_ops E = ops" "inv f"
  shows "rule_at E f i = (if i < length (mappings f)
    then Some (map (\<lambda>m. (m_eport m, m_proto m, m_time m, m_packets m, m_bytes m)) (mappings f) ! i) else None)"
  using assms by (simp add: rule_at_def get_by_index_law Let_def indexed_info_def mapping_info_owner)

lemma remove_unused_spec:
  assumes "be_ops E = ops"
  shows "inv (fw st) \<Longrightarrow> inv (fw (remove_unused_rules E rs st))
    \<and> mappings (fw (remove_unused_rules E rs st)) = filter (\<lambda>m. \<not> unused rs m) (mappings (fw st))"
proof (induction rs arbitrary: st)
  case Nil
  then show ?case by (simp add: unused_def)
next
  case (Cons r rs)
  let ?e = "rs_eport r" and ?p = "ucast (rs_proto r) :: u16" and ?ms = "mappings (fw st)"
  have get: "be_get_redirect_rule (be_ops E) ?e ?p 0 0 0 (fw st) = map_option (mapping_info 0 0 0) (find_mapping ?e ?p ?ms)"
    using assms Cons.prems by (simp add: get_redirect_rule_law)
  show ?case
  proof (cases "find_mapping ?e ?p ?ms")
    case None
    then have "unused (r # rs) m = unused rs m" if "m \<in> set ?ms" for m
      using that by (auto simp: unused_def find_mapping_None_iff)
    then have "filter (\<lambda>m. \<not> unused (r # rs) m) ?ms = filter (\<lambda>m. \<not> unused rs m) ?ms" by (auto intro!: filter_cong)
    with None get Cons show ?thesis by simp
  next
    case (Some m0)
    from find_mapping_Some_key [OF this] have m0: "m0 \<in> set ?ms" "m_key m0 = (?e, ?p)" by auto
    have uniq: "m = m0" if "m \<in> set ?ms" "m_key m = (?e, ?p)" for m
      using find_mapping_mem [OF keys_distinct [OF Cons.prems] that(1)] that(2) Some by auto
    show ?thesis
    proof (cases "m_packets m0 = rs_packets r \<and> m_bytes m0 = rs_bytes r")
      case True
      note d = delete_redir_fw [OF assms Cons.prems, of ?e ?p]
      have "filter (\<lambda>m. \<not> unused rs m) (drop_mapping ?e ?p ?ms) = filter (\<lambda>m. \<not> unused (r # rs) m) ?ms"
        unfolding drop_mapping_def filter_filter
      proof (intro filter_cong refl)
        fix m assume "m \<in> set ?ms"
        with True uniq [OF this] have "rs_eport r = m_eport m \<and> ucast (rs_proto r) = m_proto m
            \<and> rs_packets r = m_packets m \<and> rs_bytes r = m_bytes m \<longleftrightarrow> m_key m = (?e, ?p)" by auto
        then show "(m_key m \<noteq> (?e, ?p) \<and> \<not> unused rs m) = (\<not> unused (r # rs) m)" by (simp add: unused_def)
      qed
      with Cons.IH [OF d(1)] d(2) True Some get show ?thesis by (simp add: mapping_info_owner)
    next
      case False
      then have "filter (\<lambda>m. \<not> unused (r # rs) m) ?ms = filter (\<lambda>m. \<not> unused rs m) ?ms"
        using uniq by (intro filter_cong refl) (auto simp: unused_def)
      with Cons False Some get show ?thesis by (auto simp: mapping_info_owner)
    qed
  qed
qed

text \<open>The rule states of a list of mappings, newest first.\<close>

lemma rules_state_list_spec:
  assumes E: "be_ops E = ops" "\<not> pcp_peer E" and inv: "inv (fw st)"
    and small: "\<forall>m \<in> set (mappings (fw st)). m_proto m < 256"
  shows "\<exists>list st'. get_upnp_rules_state_list E target st = Some (list, st') \<and> inv (fw st')
    \<and> mappings (fw st') = filter (\<lambda>m. \<not> rule_expired (upnp_time E) (m_time m)) (mappings (fw st))
    \<and> list = (if int (length (mappings (fw st'))) \<le> target then []
              else rev (map (rule_of (upnp_time E)) (mappings (fw st'))))
    \<and> nextruletoclean_timestamp st' = fold (next_to_clean (upnp_time E)) (map m_time (mappings (fw st))) 0"
proof -
  let ?now = "upnp_time E" and ?ms = "mappings (fw st)"
  let ?f = "\<lambda>m. (m_eport m, m_proto m, m_time m, m_packets m, m_bytes m)"
  let ?rs = "rev (map (rule_of ?now) ?ms)" and ?N = "fold (next_to_clean ?now) (map m_time ?ms) 0"
  have "collect_rules (rule_at E (fw st)) ?now 0 0 [] = Some (length ?ms, ?N, ?rs)"
    using collect_rules_list [of "rule_at E (fw st)" "map ?f ?ms" 0 ?now 0 "[]"] rule_at_law [OF E(1) inv]
    by (simp add: fold_map comp_def rule_of_def)
  moreover obtain rs' i' st' where e: "expire_rules E ?rs (int (length ?ms)) (st\<lparr>nextruletoclean_timestamp := ?N\<rparr>) = (rs', i', st')"
    by (metis prod_cases3)
  ultimately have g: "get_upnp_rules_state_list E target st = Some (if i' \<le> target then [] else rs', st')"
    using E(2) by (simp add: get_upnp_rules_state_list_def)
  have keys: "m_key m \<in> rule_keys ?rs \<longleftrightarrow> rule_expired ?now (m_time m)" if m: "m \<in> set ?ms" for m
  proof -
    have "ucast (ucast (m_proto x) :: u8) = m_proto x" if "x \<in> set ?ms" for x
      using small that by (intro ucast_small) auto
    moreover have "rule_keys ?rs = (\<lambda>m. (m_eport m, ucast (ucast (m_proto m) :: u8)))
        ` set (filter (\<lambda>m. rule_expired ?now (m_time m)) ?ms)"
      by (simp add: rule_keys_def rev_filter [symmetric] filter_map comp_def rule_of_def image_image)
    ultimately have "rule_keys ?rs = m_key ` set (filter (\<lambda>m. rule_expired ?now (m_time m)) ?ms)"
      by (auto simp: image_iff)
    moreover have "x = m" if "x \<in> set ?ms" "m_key x = m_key m" for x
      using keys_distinct [OF inv] m that by (auto simp: distinct_map dest: inj_onD)
    ultimately show ?thesis using m by auto
  qed
  from expire_rules_spec [OF E(1) _ e] inv have x: "rs' = filter (\<lambda>r. \<not> to_remove r) ?rs"
    "i' = int (length ?ms) - int (length (filter to_remove ?rs))" "inv (fw st')"
    "mappings (fw st') = filter (\<lambda>m. m_key m \<notin> rule_keys ?rs) ?ms" "nextruletoclean_timestamp st' = ?N" by auto
  have ms': "mappings (fw st') = filter (\<lambda>m. \<not> rule_expired ?now (m_time m)) ?ms"
    unfolding x(4) using keys by (intro filter_cong) auto
  have l: "rs' = rev (map (rule_of ?now) (mappings (fw st')))"
    unfolding x(1) ms' by (simp add: rev_filter [symmetric] filter_map comp_def rule_of_def)
  have "int (length (filter to_remove ?rs)) + int (length (filter (\<lambda>r. \<not> to_remove r) ?rs)) = int (length ?ms)"
    using sum_length_filter_compl [of to_remove ?rs] by (metis length_map length_rev of_nat_add)
  then have "i' = int (length (mappings (fw st')))"
    using x(1,2) l by (metis add_diff_cancel_left' length_map length_rev)
  with g x ms' l show ?thesis by simp
qed

end

section \<open>Lease lines\<close>

text \<open>The line of an entry as the lease file has it, and the entries that a line can carry.\<close>

definition entry_line :: "bool \<Rightarrow> lease_entry \<Rightarrow> string" where
  "entry_line remote l = le_proto l @ '':'' @ dec (unat (le_eport l)) @ '':''
     @ (if remote then (case le_rhost l of None \<Rightarrow> [] | Some h \<Rightarrow> h) @ '':'' else [])
     @ le_iaddr l @ '':'' @ dec (unat (le_iport l)) @ '':'' @ dec (unat (le_time l)) @ '':''
     @ le_desc l @ [CHR 0x0A]"

definition field_ok :: "string \<Rightarrow> bool" where
  "field_ok s = list_all (\<lambda>c. c \<noteq> CHR '':'' \<and> c \<noteq> CHR 0x0A) s"

definition lease_ok :: "bool \<Rightarrow> lease_entry \<Rightarrow> bool" where
  "lease_ok remote l = (field_ok (le_proto l) \<and> field_ok (le_iaddr l)
     \<and> (case le_rhost l of None \<Rightarrow> \<not> remote | Some h \<Rightarrow> remote \<and> field_ok h)
     \<and> CHR 0x0A \<notin> set (le_desc l)
     \<and> (le_desc l \<noteq> [] \<longrightarrow> \<not> isspace (hd (le_desc l)) \<and> \<not> isspace (last (le_desc l)))
     \<and> length (entry_line remote l) < 320)"

lemma split_colon_append: "CHR '':'' \<notin> set a \<Longrightarrow> split_colon (a @ CHR '':'' # r) = Some (a, r)"
proof -
  assume a: "CHR '':'' \<notin> set a"
  have "takeWhile (\<lambda>c. c \<noteq> CHR '':'') (a @ CHR '':'' # r) = a"
    using a by (auto simp: takeWhile_append takeWhile_eq_all_conv)
  then show ?thesis by (simp add: split_colon_def)
qed

lemma dec_no_colon [simp]: "CHR '':'' \<notin> set (dec n)" "CHR 0x0A \<notin> set (dec n)"
  using dec_set_isdigit [of _ n] by (force simp: isdigit_def)+

lemma trim_line:
  assumes "s \<noteq> [] \<longrightarrow> \<not> isspace (hd s) \<and> \<not> isspace (last s)"
  shows "trim (s @ [CHR 0x0A]) = s"
proof (cases "s = []")
  case True
  then show ?thesis by (simp add: trim_def isspace_def)
next
  case False
  then have "dropWhile isspace (s @ [CHR 0x0A]) = s @ [CHR 0x0A]" using assms by (cases s) auto
  moreover have "dropWhile isspace (rev s) = rev s"
    using assms False by (cases s rule: rev_cases) auto
  ultimately show ?thesis by (simp add: trim_def isspace_def)
qed

lemma field_no_colon: "field_ok s \<Longrightarrow> CHR '':'' \<notin> set s \<and> CHR 0x0A \<notin> set s"
  by (auto simp: field_ok_def list_all_iff)

lemma atoi_ushort [simp]: "(word_of_int (atoi (dec (unat (p :: u16)) @ CHR '':'' # r)) :: u16) = p"
  using atoi_dec [of "unat p" "CHR '':'' # r"] unsigned_less [of p, where 'a = nat] by simp

lemma strtoul_uint [simp]: "(of_nat (fst (strtoul10 (dec (unat (t :: u32)) @ CHR '':'' # r))) :: u32) = t"
  using strtoul10_dec [of "unat t" "CHR '':'' # r"] unsigned_less [of t, where 'a = nat]
  by (simp add: ULONG_MAX_def)

lemma parse_entry_line:
  assumes "lease_ok remote l"
  shows "parse_lease_line remote (entry_line remote l) = Some l"
proof -
  have p: "CHR '':'' \<notin> set (le_proto l)" "CHR '':'' \<notin> set (le_iaddr l)"
    using assms field_no_colon by (auto simp: lease_ok_def)
  have t: "trim (le_desc l @ [CHR 0x0A]) = le_desc l" using assms by (intro trim_line) (simp add: lease_ok_def)
  show ?thesis
  proof (cases "le_rhost l")
    case None
    with assms have "\<not> remote" by (simp add: lease_ok_def)
    with p t None show ?thesis by (simp add: parse_lease_line_def entry_line_def split_colon_append)
  next
    case (Some h)
    with assms field_no_colon have "remote" "CHR '':'' \<notin> set h" by (auto simp: lease_ok_def)
    with p t Some show ?thesis by (simp add: parse_lease_line_def entry_line_def split_colon_append)
  qed
qed

text \<open>Lines come out of \<open>fgets\<close> one by one when they fit the buffer.\<close>

definition is_line :: "nat \<Rightarrow> string \<Rightarrow> bool" where
  "is_line n s = (s \<noteq> [] \<and> last s = CHR 0x0A \<and> CHR 0x0A \<notin> set (butlast s) \<and> length s < n)"

lemma fgets_all_lines: "list_all (is_line n) ls \<Longrightarrow> fgets_all n (concat ls) = ls"
proof (induction ls)
  case Nil
  then show ?case by (simp add: fgets_all.simps)
next
  case (Cons l ls)
  then have l: "l \<noteq> []" "last l = CHR 0x0A" "CHR 0x0A \<notin> set (butlast l)" "length l < n" by (auto simp: is_line_def)
  then have e: "l = butlast l @ [CHR 0x0A]" by (metis append_butlast_last_id)
  have "takeWhile (\<lambda>c. c \<noteq> CHR 0x0A) (l @ concat ls) = butlast l"
    using l(3) by (subst e) (auto simp: takeWhile_append takeWhile_eq_all_conv)
  then have "fgets_len n (l @ concat ls) = length l"
    using l(1,4) by (simp add: fgets_len_def)
  moreover have "\<not> n < 2" using l(1,4) by (cases l) auto
  ultimately show ?case using Cons l(1) by (subst fgets_all.simps) simp
qed

lemma entry_line_is_line: "lease_ok remote l \<Longrightarrow> is_line 320 (entry_line remote l)"
  using field_no_colon [of "le_proto l"] field_no_colon [of "le_iaddr l"]
  by (auto simp: is_line_def lease_ok_def entry_line_def butlast_append dest: field_no_colon split: option.splits)

lemma reload_lines_entries:
  "list_all (lease_ok (support_remotehost E)) ls \<Longrightarrow>
     reload_lines E (map (entry_line (support_remotehost E)) ls) st = fold (reload_lease E) ls st"
  by (induction ls arbitrary: st) (simp_all add: parse_entry_line)

text \<open>What \<open>lease_file_add\<close> writes for printable fields is the line of the entry.\<close>

lemma lease_line_entry:
  assumes "list_all (\<lambda>c. schar c \<ge> 32 \<and> c \<noteq> CHR '':'') h" "list_all (\<lambda>c. schar c \<ge> 32) desc"
  shows "lease_line E (Some h) eport iaddr iport proto desc ts
    = entry_line (support_remotehost E) \<lparr>le_proto = proto_itoa proto, le_eport = eport, le_rhost = Some h,
        le_iaddr = iaddr, le_iport = iport, le_time = lease_time E ts, le_desc = desc\<rparr>"
proof -
  have "filter (\<lambda>c. schar c \<ge> 32 \<and> c \<noteq> CHR '':'') h = h" "filter (\<lambda>c. schar c \<ge> 32) desc = desc"
    using assms by (auto simp: list_all_iff intro!: filter_True)
  then show ?thesis by (simp add: lease_line_def entry_line_def)
qed

definition le_key :: "lease_entry \<Rightarrow> u16 \<times> u16" where
  "le_key l = (le_eport l, proto_atoi (le_proto l))"

definition le_expiry :: "('s, 're) redirect_env \<Rightarrow> lease_entry \<Rightarrow> u32" where
  "le_expiry E l = (if le_time l = 0 then 0 else upnp_time E + (le_time l - unix_time E))"

definition le_mapping :: "('s, 're) redirect_env \<Rightarrow> lease_entry \<Rightarrow> mapping" where
  "le_mapping E l = new_mapping (le_rhost l) (le_eport l) (le_iaddr l) (le_iport l) (proto_atoi (le_proto l))
     (Some (le_desc l)) (le_expiry E l)"

definition lease_live :: "('s, 're) redirect_env \<Rightarrow> lease_entry \<Rightarrow> bool" where
  "lease_live E l = ((le_time l = 0 \<or> unix_time E < le_time l)
     \<and> allowed E (le_eport l) (le_iaddr l) (le_iport l) (Some (le_desc l)))"

context redirect_backend
begin

lemma redirect_new:
  assumes "be_ops E = ops" "inv (fw st)" "allowed E eport iaddr iport desc"
    "find_mapping eport (proto_atoi protocol) (mappings (fw st)) = None"
    "port_in_use E eport (proto_atoi protocol) iaddr iport (fw st) \<le> 0"
  shows "upnp_redirect E rhost eport iaddr iport protocol desc d st
    = upnp_redirect_internal E rhost eport iaddr iport (proto_atoi protocol)
        (case desc of None \<Rightarrow> [] | Some t \<Rightarrow> t) (lease_end E d) st"
  using assms get_redirect_rule_law [OF assms(2)]
  by (auto simp: upnp_redirect_def allowed_def lease_end_def Let_def split: option.splits)

lemma reload_lease_spec:
  assumes E: "be_ops E = ops" "\<not> disable_port_forwarding E" "\<not> use_remaining_time E"
    and free: "\<And>e p a i f. port_in_use E e p a i f \<le> 0"
    and inv: "inv (fw st)" and new: "le_key l \<notin> m_key ` set (mappings (fw st))" and live: "lease_live E l"
  shows "inv (fw (reload_lease E l st)) \<and> mappings (fw (reload_lease E l st)) = mappings (fw st) @ [le_mapping E l]"
proof -
  define d where "d = (if le_time l > 0 then le_time l - unix_time E else 0)"
  obtain r st' where c: "upnp_redirect E (le_rhost l) (le_eport l) (le_iaddr l) (le_iport l) (le_proto l)
      (Some (le_desc l)) d st = (r, st')" by fastforce
  have fr: "find_mapping (le_eport l) (proto_atoi (le_proto l)) (mappings (fw st)) = None"
    using new by (simp add: find_mapping_None_iff le_key_def)
  have "allowed E (le_eport l) (le_iaddr l) (le_iport l) (Some (le_desc l))"
    using live by (simp add: lease_live_def)
  from c redirect_new [OF E(1) inv this fr free, of "le_rhost l" d]
  have "upnp_redirect_internal E (le_rhost l) (le_eport l) (le_iaddr l) (le_iport l) (proto_atoi (le_proto l))
      (le_desc l) (lease_end E d) st = (r, st')" by simp
  from redirect_internal_spec [OF E(1) inv fr this] E(2) have x: "r = 0" "inv (fw st')"
    "mappings (fw st') = mappings (fw st) @ [new_mapping (le_rhost l) (le_eport l) (le_iaddr l) (le_iport l)
       (proto_atoi (le_proto l)) (Some (le_desc l)) (lease_end E d)]" by auto
  have "lease_end E d = le_expiry E l"
    using live by (auto simp: lease_end_def d_def le_expiry_def lease_live_def word_gt_0)
  moreover have "reload_lease E l st = st'"
    using c E(3) live x(1) by (auto simp: reload_lease_def d_def lease_live_def word_gt_0 Let_def split: prod.splits)
  ultimately show ?thesis using x by (simp add: le_mapping_def)
qed

lemma reload_fold:
  assumes E: "be_ops E = ops" "\<not> disable_port_forwarding E" "\<not> use_remaining_time E"
    and free: "\<And>e p a i f. port_in_use E e p a i f \<le> 0"
  shows "inv (fw st) \<Longrightarrow> distinct (map le_key ls) \<Longrightarrow> list_all (lease_live E) ls
    \<Longrightarrow> \<forall>l \<in> set ls. le_key l \<notin> m_key ` set (mappings (fw st))
    \<Longrightarrow> inv (fw (fold (reload_lease E) ls st))
       \<and> mappings (fw (fold (reload_lease E) ls st)) = mappings (fw st) @ map (le_mapping E) ls"
proof (induction ls arbitrary: st)
  case (Cons l ls)
  have s: "inv (fw (reload_lease E l st))"
    "mappings (fw (reload_lease E l st)) = mappings (fw st) @ [le_mapping E l]"
    using reload_lease_spec [OF E free Cons.prems(1), of l] Cons.prems by auto
  have k: "m_key (le_mapping E l) = le_key l" by (simp add: le_mapping_def le_key_def)
  have "le_key x \<noteq> le_key l" if "x \<in> set ls" for x using Cons.prems(2) that by (auto simp: image_iff)
  with Cons.prems s k have "\<forall>x \<in> set ls. le_key x \<notin> m_key ` set (mappings (fw (reload_lease E l st)))"
    by (auto simp: image_iff)
  with Cons.IH [OF s(1)] Cons.prems s(2) show ?case by simp
qed simp

end

text \<open>Removal from a file of lines.\<close>

definition lease_of :: "u16 \<Rightarrow> u16 \<Rightarrow> string \<Rightarrow> bool" where
  "lease_of eport proto line = (take (length (lease_prefix eport proto)) line = lease_prefix eport proto)"

lemma lease_file_remove_lines:
  assumes "lease_file E = Some path" "length path \<le> 121" "temp_ok E" "rename_ok E"
    and "lease_data st = Some (concat ls)" "list_all (is_line 511) ls"
  shows "lease_file_remove E eport proto st
    = (0, st\<lparr>lease_data := Some (concat (filter (\<lambda>l. \<not> lease_of eport proto l) ls))\<rparr>)"
proof -
  have "take (length p) b \<noteq> p" if "length b < length p" for b p :: string using that by auto
  then have "(length b < length p \<or> take (length p) b \<noteq> p) \<longleftrightarrow> take (length p) b \<noteq> p" for b p :: string by blast
  with assms fgets_all_lines [OF assms(6)] show ?thesis
    by (simp add: lease_file_remove_def lease_of_def Let_def)
qed

end
