(* ===== verification/Wire.thy ===== *)
theory Wire
  imports Prelude
begin

text \<open>
  Bytes on the wire: the network-order accessors of \<open>rw_unaligned.h\<close> and the variable-length
  integers of \<open>codelength.h\<close> (7 bits per byte, the top bit of a byte says that another one
  follows), which the SSDP and minissdpd protocols use.

  A byte buffer is a list of bytes and a pointer into it the remaining suffix. Shown: the accessors
  and the length code are inverse to each other for every 16- and 32-bit number, an encoded length
  takes one to five bytes, and the checked decoder never reads past its limit and never loses bits
  of the accumulated number to the shift.
\<close>

type_synonym bytes = "u8 list"

section \<open>Unaligned accessors\<close>

definition readnu32 :: "bytes \<Rightarrow> u32" where
  "readnu32 p = push_bit 24 (ucast (p ! 0)) OR push_bit 16 (ucast (p ! 1))
     OR push_bit 8 (ucast (p ! 2)) OR ucast (p ! 3)"

definition readnu16 :: "bytes \<Rightarrow> u16" where
  "readnu16 p = push_bit 8 (ucast (p ! 0)) OR ucast (p ! 1)"

text \<open>The four and two bytes that the writers store.\<close>

definition writenu32 :: "u32 \<Rightarrow> bytes" where
  "writenu32 n = [ucast (drop_bit 24 (n AND 0xff000000)), ucast (drop_bit 16 (n AND 0xff0000)),
     ucast (drop_bit 8 (n AND 0xff00)), ucast (n AND 0xff)]"

definition writenu16 :: "u16 \<Rightarrow> bytes" where
  "writenu16 n = [ucast (drop_bit 8 (n AND 0xff00)), ucast (n AND 0xff)]"

lemma length_writenu [simp]: "length (writenu32 n) = 4" "length (writenu16 m) = 2"
  by (simp_all add: writenu32_def writenu16_def)

lemma bytes_of_masks:
  "(0xff000000::u32) = push_bit 24 (mask 8)" "(0xff0000::u32) = push_bit 16 (mask 8)"
  "(0xff00::u32) = push_bit 8 (mask 8)" "(0xff::u32) = mask 8"
  "(0xff00::u16) = push_bit 8 (mask 8)" "(0xff::u16) = mask 8"
  by (simp_all add: mask_eq_exp_minus_1)

lemma bit_byte [simp]:
  "bit (ucast (drop_bit k (n AND push_bit k (mask 8)) :: u32) :: u8) i = (i < 8 \<and> bit n (k + i))"
  "bit (ucast (n AND mask 8 :: u32) :: u8) i = (i < 8 \<and> bit n i)"
  "bit (ucast (drop_bit k (m AND push_bit k (mask 8)) :: u16) :: u8) i = (i < 8 \<and> bit m (k + i))"
  "bit (ucast (m AND mask 8 :: u16) :: u8) i = (i < 8 \<and> bit m i)"
  by (auto simp: bit_simps dest: bit_imp_le_length)

lemma join_bytes32:
  assumes "\<And>i. bit d i = (i < 8 \<and> bit n i)" "\<And>i. bit c i = (i < 8 \<and> bit n (8 + i))"
    "\<And>i. bit b i = (i < 8 \<and> bit n (16 + i))" "\<And>i. bit a i = (i < 8 \<and> bit n (24 + i))"
  shows "push_bit 24 (ucast (a :: u8)) OR push_bit 16 (ucast (b :: u8))
     OR push_bit 8 (ucast (c :: u8)) OR ucast (d :: u8) = (n :: u32)" (is "?w = n")
proof (rule bit_word_eqI)
  fix i assume i: "i < LENGTH(32)"
  consider "i < 8" | "8 \<le> i" "i < 16" | "16 \<le> i" "i < 24" | "24 \<le> i" by linarith
  then show "bit ?w i = bit n i"
    using i by cases (auto simp: bit_simps assms)
qed

lemma join_bytes16:
  assumes "\<And>i. bit d i = (i < 8 \<and> bit n i)" "\<And>i. bit c i = (i < 8 \<and> bit n (8 + i))"
  shows "push_bit 8 (ucast (c :: u8)) OR ucast (d :: u8) = (n :: u16)" (is "?w = n")
proof (rule bit_word_eqI)
  fix i assume i: "i < LENGTH(16)"
  consider "i < 8" | "8 \<le> i" by linarith
  then show "bit ?w i = bit n i"
    using i by cases (auto simp: bit_simps assms)
qed

lemma nth_four: "(a # b # c # d # r) ! 0 = a" "(a # b # c # d # r) ! 1 = b"
  "(a # b # c # d # r) ! 2 = c" "(a # b # c # d # r) ! 3 = d"
  by simp_all

lemma nth_two: "(a # b # r) ! 0 = a" "(a # b # r) ! 1 = b"
  by simp_all

lemma readnu32_writenu32_append: "readnu32 (writenu32 n @ r) = n"
  unfolding readnu32_def writenu32_def bytes_of_masks append_Cons append_Nil nth_four
  by (rule join_bytes32) (rule bit_byte)+

lemma readnu16_writenu16_append: "readnu16 (writenu16 n @ r) = n"
  unfolding readnu16_def writenu16_def bytes_of_masks append_Cons append_Nil nth_two
  by (rule join_bytes16) (rule bit_byte)+

lemma readnu32_writenu32 [simp]: "readnu32 (writenu32 n) = n"
  using readnu32_writenu32_append [of n "[]"] by simp

lemma readnu16_writenu16 [simp]: "readnu16 (writenu16 n) = n"
  using readnu16_writenu16_append [of n "[]"] by simp

section \<open>Variable-length integers\<close>

definition CODELENGTH :: "u32 \<Rightarrow> bytes" where
  "CODELENGTH n =
     (if n \<ge> 268435456 then [ucast (drop_bit 28 n OR 0x80)] else [])
   @ (if n \<ge> 2097152 then [ucast (drop_bit 21 n OR 0x80)] else [])
   @ (if n \<ge> 16384 then [ucast (drop_bit 14 n OR 0x80)] else [])
   @ (if n \<ge> 128 then [ucast (drop_bit 7 n OR 0x80)] else [])
   @ [ucast (n AND 0x7f)]"

text \<open>
  The loop of the decoders from the number read so far, giving the number and the rest of the
  buffer. \<open>DECODELENGTH_CHECKLIMIT\<close> stops at the limit, here the end of the list;
  \<open>DECODELENGTH\<close> and \<open>DECODELENGTH_READ\<close> have no limit, and \<^const>\<open>None\<close> is a read past the end.
\<close>

fun decode_checklimit :: "u32 \<Rightarrow> bytes \<Rightarrow> u32 \<times> bytes" where
  "decode_checklimit n [] = (n, [])"
| "decode_checklimit n (b # p) =
     (let n' = push_bit 7 n OR ucast (b AND 0x7f)
      in if b AND 0x80 \<noteq> 0 \<and> n' < 33554432 then decode_checklimit n' p else (n', p))"

definition DECODELENGTH_CHECKLIMIT :: "bytes \<Rightarrow> u32 \<times> bytes" where
  "DECODELENGTH_CHECKLIMIT p = decode_checklimit 0 p"

fun decode_nolimit :: "u32 \<Rightarrow> bytes \<Rightarrow> (u32 \<times> bytes) option" where
  "decode_nolimit n [] = None"
| "decode_nolimit n (b # p) =
     (let n' = push_bit 7 n OR ucast (b AND 0x7f)
      in if b AND 0x80 \<noteq> 0 \<and> n' < 33554432 then decode_nolimit n' p else Some (n', p))"

definition DECODELENGTH :: "bytes \<Rightarrow> (u32 \<times> bytes) option" where
  "DECODELENGTH p = decode_nolimit 0 p"

lemma decode_nolimit_checklimit:
  "decode_nolimit n p = Some x \<Longrightarrow> decode_checklimit n p = x"
  by (induction p arbitrary: n) (auto simp: Let_def split: if_splits)

lemma bit_low7 [simp]: "bit (0x7f :: int) i = (i < 7)"
proof -
  have "(0x7f :: int) = mask 7" by (simp add: mask_eq_exp_minus_1)
  then show ?thesis by (simp only: bit_mask_iff) simp
qed

lemma bit_top8 [simp]: "bit (0x80 :: int) i = (i = 7)"
proof -
  have "(0x80 :: int) = 2 ^ 7" by simp
  then show ?thesis by (simp only: bit_exp_iff) auto
qed

lemma append7:
  assumes "\<And>i. i < 7 \<Longrightarrow> bit (b :: u8) i = bit (n :: u32) (k + i)"
  shows "push_bit 7 (drop_bit (k + 7) n) OR ucast (b AND 0x7f) = drop_bit k n"
proof (rule bit_word_eqI)
  fix i assume i: "i < LENGTH(32)"
  show "bit (push_bit 7 (drop_bit (k + 7) n) OR ucast (b AND 0x7f)) i = bit (drop_bit k n) i"
    using i assms [of i] by (cases "i < 7") (auto simp: bit_simps dest: bit_imp_le_length)
qed

lemma drop_small: "unat n < 2 ^ k \<Longrightarrow> drop_bit k (n :: u32) = 0"
  using unat_drop_bit [of k n] by (simp add: unat_eq_0 flip: unat_eq_zero)

lemma cont_byte: "(ucast (drop_bit k n OR 0x80 :: u32) :: u8) AND 0x80 \<noteq> 0"
proof -
  have "bit ((ucast (drop_bit k n OR 0x80 :: u32) :: u8) AND 0x80) 7"
    by (simp add: bit_simps)
  then show ?thesis by (metis bit_0_eq bot_apply bot_bool_def)
qed

lemma decode_step:
  assumes "7 \<le> k"
  shows "decode_nolimit (drop_bit (k + 7) n) (ucast (drop_bit k n OR 0x80) # p)
    = decode_nolimit (drop_bit k n) p"
proof -
  have "drop_bit k n < (33554432 :: u32)"
  proof -
    have "unat n div 2 ^ k \<le> unat n div 2 ^ 7"
      using assms power_increasing [of 7 k "2 :: nat"] by (intro div_le_mono2) simp_all
    also have "\<dots> < 33554432" using unsigned_less [of n, where 'a = nat] by (simp add: less_mult_imp_div_less)
    finally show ?thesis by (simp only: word_less_nat_alt unat_drop_bit) simp
  qed
  moreover have "push_bit 7 (drop_bit (k + 7) n) OR ucast ((ucast (drop_bit k n OR 0x80) :: u8) AND 0x7f) = drop_bit k n"
    by (rule append7) (auto simp: bit_simps dest: bit_imp_le_length)
  ultimately show ?thesis using cont_byte [of k n] by (simp add: Let_def del: drop_bit_drop_bit)
qed

lemma decode_last: "decode_nolimit (drop_bit 7 n) (ucast (n AND 0x7f) # p) = Some (n, p)"
proof -
  have "push_bit 7 (drop_bit (0 + 7) n) OR ucast ((ucast (n AND 0x7f) :: u8) AND 0x7f) = drop_bit 0 n"
    by (rule append7) (auto simp: bit_simps)
  moreover have "(ucast (n AND 0x7f) :: u8) AND 0x80 = 0"
    by (rule bit_word_eqI) (auto simp: bit_simps)
  ultimately show ?thesis by (simp add: Let_def)
qed

lemma DECODELENGTH_CODELENGTH: "DECODELENGTH (CODELENGTH n @ r) = Some (n, r)"
proof -
  have z: "n < 268435456 \<Longrightarrow> drop_bit 28 n = 0" "n < 2097152 \<Longrightarrow> drop_bit 21 n = 0"
    "n < 16384 \<Longrightarrow> drop_bit 14 n = 0" "n < 128 \<Longrightarrow> drop_bit 7 n = 0"
    by (auto intro!: drop_small simp: word_less_nat_alt)
  have z35: "drop_bit 35 n = 0"
    using unsigned_less [of n, where 'a = nat] by (intro drop_small) simp
  have step: "decode_nolimit (drop_bit 35 n) (ucast (drop_bit 28 n OR 0x80) # p) = decode_nolimit (drop_bit 28 n) p"
    "decode_nolimit (drop_bit 28 n) (ucast (drop_bit 21 n OR 0x80) # p) = decode_nolimit (drop_bit 21 n) p"
    "decode_nolimit (drop_bit 21 n) (ucast (drop_bit 14 n OR 0x80) # p) = decode_nolimit (drop_bit 14 n) p"
    "decode_nolimit (drop_bit 14 n) (ucast (drop_bit 7 n OR 0x80) # p) = decode_nolimit (drop_bit 7 n) p" for p
    using decode_step [of 28 n p] decode_step [of 21 n p] decode_step [of 14 n p] decode_step [of 7 n p]
    by simp_all
  consider "n < 128" "n < 16384" "n < 2097152" "n < 268435456"
    | "128 \<le> n" "n < 16384" "n < 2097152" "n < 268435456"
    | "128 \<le> n" "16384 \<le> n" "n < 2097152" "n < 268435456"
    | "128 \<le> n" "16384 \<le> n" "2097152 \<le> n" "n < 268435456"
    | "128 \<le> n" "16384 \<le> n" "2097152 \<le> n" "268435456 \<le> n"
    by (simp add: word_less_nat_alt word_le_nat_alt) linarith
  then show ?thesis
    by cases (use step decode_last [of n r] z z35 in
      \<open>simp_all add: DECODELENGTH_def CODELENGTH_def leD linorder_not_le [symmetric] del: decode_nolimit.simps\<close>)
qed

text \<open>The number that a list of bytes stands for, without a bound on its size.\<close>

definition len_val :: "nat \<Rightarrow> bytes \<Rightarrow> nat" where
  "len_val a p = foldl (\<lambda>a b. 128 * a + unat b mod 128) a p"

lemma unat_low7: "unat (ucast (b AND 0x7f :: u8) :: u32) = unat b mod 128"
proof -
  have "b AND 0x7f = take_bit 7 b"
    by (rule bit_word_eqI) (auto simp: bit_simps)
  then have "unat (b AND 0x7f) = unat b mod 128"
    by (simp only: unsigned_take_bit_eq) (simp add: take_bit_eq_mod)
  then show ?thesis by (simp add: unsigned_ucast_eq take_bit_eq_mod)
qed

lemma unat_append7:
  assumes "n < (33554432 :: u32)"
  shows "unat (push_bit 7 n OR ucast (b AND 0x7f :: u8)) = 128 * unat n + unat b mod 128"
proof -
  have "push_bit 7 n OR ucast (b AND 0x7f :: u8) = push_bit 7 n + ucast (b AND 0x7f :: u8)"
    by (rule disjunctive_add [symmetric]) (auto simp: bit_simps)
  moreover have "push_bit 7 n = n * 128" by (simp add: push_bit_eq_mult)
  ultimately have "push_bit 7 n OR ucast (b AND 0x7f :: u8) = n * 128 + ucast (b AND 0x7f :: u8)" by (simp only:)
  then show ?thesis using assms unat_low7 [of b]
    by (simp only: unat_word_ariths word_less_nat_alt) simp
qed

lemma decode_checklimit_val:
  "n < 33554432 \<Longrightarrow> decode_checklimit n p = (m, r) \<Longrightarrow>
    \<exists>c. p = c @ r \<and> unat m = len_val (unat n) c"
proof (induction p arbitrary: n)
  case Nil
  then show ?case by (simp add: len_val_def)
next
  case (Cons b p)
  let ?n = "push_bit 7 n OR ucast (b AND 0x7f)"
  have u: "unat ?n = 128 * unat n + unat b mod 128" using Cons.prems(1) by (rule unat_append7)
  show ?case
  proof (cases "b AND 0x80 \<noteq> 0 \<and> ?n < 33554432")
    case True
    with Cons.prems obtain c where "p = c @ r" "unat m = len_val (unat ?n) c"
      using Cons.IH [of ?n] by (auto simp: Let_def)
    then have "b # p = (b # c) @ r \<and> unat m = len_val (unat n) (b # c)"
      by (simp add: u len_val_def)
    then show ?thesis by blast
  next
    case False
    with Cons.prems have "b # p = [b] @ r \<and> unat m = len_val (unat n) [b]"
      using u by (auto simp: Let_def len_val_def)
    then show ?thesis by blast
  qed
qed
lemma length_CODELENGTH: "1 \<le> length (CODELENGTH n)" "length (CODELENGTH n) \<le> 5"
  by (simp_all add: CODELENGTH_def)

text \<open>
  every 32-bit length, encoded in front of any data, is read back by both decoders, with the
  data as what is left of the buffer, and takes one to five bytes.
\<close>

theorem CODELENGTH_roundtrip:
  "DECODELENGTH (CODELENGTH n @ r) = Some (n, r)
    \<and> DECODELENGTH_CHECKLIMIT (CODELENGTH n @ r) = (n, r)
    \<and> 1 \<le> length (CODELENGTH n) \<and> length (CODELENGTH n) \<le> 5"
proof -
  have d: "DECODELENGTH (CODELENGTH n @ r) = Some (n, r)" by (rule DECODELENGTH_CODELENGTH)
  then show ?thesis
    using decode_nolimit_checklimit [of 0 "CODELENGTH n @ r"] length_CODELENGTH [of n]
    by (simp add: DECODELENGTH_def DECODELENGTH_CHECKLIMIT_def)
qed

text \<open>
  on any bytes at all, the checked decoder consumes a prefix of the buffer and gives the exact
  value of the 7-bit digits it consumed: the 32-bit accumulator never wraps.
\<close>

theorem DECODELENGTH_CHECKLIMIT_exact:
  "\<exists>c. p = c @ snd (DECODELENGTH_CHECKLIMIT p) \<and> unat (fst (DECODELENGTH_CHECKLIMIT p)) = len_val 0 c"
  using decode_checklimit_val [of 0 p "fst (DECODELENGTH_CHECKLIMIT p)" "snd (DECODELENGTH_CHECKLIMIT p)"]
  by (simp add: DECODELENGTH_CHECKLIMIT_def)

end
