(* ===== verification/Inet6.thy ===== *)
theory Inet6
  imports Wire
begin

text \<open>
  IPv6 addresses (\<open>struct in6_addr\<close>) as their sixteen bytes, the tests of \<open>netinet/in.h\<close> on them, and
  their text: \<open>inet_pton\<close> and \<open>inet_ntop\<close> as the GNU C library has them for both families.
\<close>

type_synonym in6_addr = bytes

section \<open>Tests\<close>

definition in6_is_loopback :: "in6_addr \<Rightarrow> bool" where
  "in6_is_loopback a = (a = replicate 15 0 @ [1])"

definition in6_is_linklocal :: "in6_addr \<Rightarrow> bool" where
  "in6_is_linklocal a = (a ! 0 = 0xfe \<and> (a ! 1) AND 0xc0 = 0x80)"

definition in6_is_unspecified :: "in6_addr \<Rightarrow> bool" where
  "in6_is_unspecified a = (a = replicate 16 0)"

definition in6_is_v4mapped :: "in6_addr \<Rightarrow> bool" where
  "in6_is_v4mapped a = (take 12 a = replicate 10 0 @ [0xff, 0xff])"

text \<open>The address \<open>::ffff:a.b.c.d\<close> and the IPv4 address in the last four bytes.\<close>

definition v4_mapped :: "in_addr \<Rightarrow> in6_addr" where
  "v4_mapped a = replicate 10 0 @ [0xff, 0xff] @ writenu32 a"

definition in6_v4 :: "in6_addr \<Rightarrow> in_addr" where
  "in6_v4 a = readnu32 (drop 12 a)"

lemma v4_mapped_simps [simp]:
  "length (v4_mapped a) = 16" "in6_is_v4mapped (v4_mapped a)" "in6_v4 (v4_mapped a) = a"
  by (simp_all add: v4_mapped_def in6_is_v4mapped_def in6_v4_def)

lemma v4_mapped_inj [simp]: "v4_mapped a = v4_mapped b \<longleftrightarrow> a = b"
  by (metis v4_mapped_simps(3))

section \<open>Text to IPv4 address\<close>

text \<open>\<open>inet_pton(AF_INET, ...)\<close> of the C library: four decimal numbers up to 255 without leading zeros.\<close>

fun inet_pton_loop :: "bool \<Rightarrow> nat \<Rightarrow> nat \<Rightarrow> nat \<Rightarrow> string \<Rightarrow> nat option" where
  "inet_pton_loop saw_digit octets acc cur [] = (if octets < 4 then None else Some (256 * acc + cur))"
| "inet_pton_loop saw_digit octets acc cur (c # s) =
     (if isdigit c
      then let new = cur * 10 + digit_val c
           in if saw_digit \<and> cur = 0 then None
              else if new > 255 then None
              else if saw_digit then inet_pton_loop True octets acc new s
              else if octets + 1 > 4 then None else inet_pton_loop True (octets + 1) acc new s
      else if c = CHR ''.'' \<and> saw_digit
      then if octets = 4 then None else inet_pton_loop False octets (256 * acc + cur) 0 s
      else None)"

definition inet_pton :: "string \<Rightarrow> in_addr option" where
  "inet_pton s = map_option of_nat (inet_pton_loop False 0 0 0 s)"

text \<open>It reads what \<open>inet_ntop\<close> wrote.\<close>

lemma pton_dec:
  "n \<le> 255 \<Longrightarrow> k < 4 \<Longrightarrow> inet_pton_loop False k acc 0 (dec n @ r) = inet_pton_loop True (Suc k) acc n r"
proof (induction n arbitrary: r rule: dec.induct)
  case (1 n)
  show ?case
  proof (cases "n < 10")
    case True
    then show ?thesis using 1 by (subst dec.simps) simp
  next
    case False
    then have "n div 10 \<noteq> 0" "n div 10 \<le> 255" "n mod 10 < 10" "n div 10 * 10 + n mod 10 = n" using 1 by auto
    with False 1 show ?thesis by (subst dec.simps) simp
  qed
qed

lemma inet_pton_ntop [simp]: "inet_pton (inet_ntop a) = Some a"
proof -
  have o: "octet k a \<le> 255" for k using octet_less [of k a] by linarith
  have "inet_pton_loop False 0 0 0 (inet_ntop a) = Some (unat a)"
    using o octets_sum [of a] pton_dec [where r = "[]"] by (simp add: inet_ntop_def pton_dec)
  then show ?thesis by (simp add: inet_pton_def)
qed

section \<open>Text to IPv6 address\<close>

text \<open>
  \<open>curtok\<close> is the text from the last colon (for a dotted tail), \<open>tp\<close> the bytes written so far and
  \<open>colonp\<close> how many of them came before the \<open>::\<close>.
\<close>

definition put_group :: "nat \<Rightarrow> bytes \<Rightarrow> bytes" where
  "put_group val tp = tp @ [of_nat (val div 256), of_nat (val mod 256)]"

definition pton6_end :: "nat option \<Rightarrow> bytes \<Rightarrow> in6_addr option" where
  "pton6_end colonp tp =
     (case colonp of None \<Rightarrow> if length tp = 16 then Some tp else None
      | Some k \<Rightarrow> if length tp = 16 then None
                 else Some (take k tp @ replicate (16 - length tp) 0 @ drop k tp))"

fun pton6_loop :: "string \<Rightarrow> nat \<Rightarrow> nat \<Rightarrow> nat option \<Rightarrow> bytes \<Rightarrow> string \<Rightarrow> in6_addr option" where
  "pton6_loop curtok seen val colonp tp [] =
     (if seen > 0
      then if length tp + 2 > 16 then None else pton6_end colonp (put_group val tp)
      else pton6_end colonp tp)"
| "pton6_loop curtok seen val colonp tp (c # s) =
     (if isxdigit c
      then if seen = 4 then None else pton6_loop curtok (seen + 1) (16 * val + digit_val c) colonp tp s
      else if c = CHR '':''
      then if seen = 0 then (if colonp \<noteq> None then None else pton6_loop s 0 val (Some (length tp)) tp s)
           else if s = [] then None
           else if length tp + 2 > 16 then None
           else pton6_loop s 0 0 colonp (put_group val tp) s
      else if c = CHR ''.'' \<and> length tp + 4 \<le> 16
      then (case inet_pton curtok of None \<Rightarrow> None | Some a \<Rightarrow> pton6_end colonp (tp @ writenu32 a))
      else None)"

definition inet_pton6 :: "string \<Rightarrow> in6_addr option" where
  "inet_pton6 s =
     (if s = [] then None
      else if hd s = CHR '':''
      then if tl s = [] \<or> hd (tl s) \<noteq> CHR '':'' then None else pton6_loop (tl s) 0 0 None [] (tl s)
      else pton6_loop s 0 0 None [] s)"

section \<open>IPv6 address to text\<close>

definition hex_digit :: "nat \<Rightarrow> char" where
  "hex_digit d = (if d < 10 then char_of (48 + d) else char_of (87 + d))"

fun hex :: "nat \<Rightarrow> string" where
  "hex n = (if n < 16 then [hex_digit n] else hex (n div 16) @ [hex_digit (n mod 16)])"

declare hex.simps [simp del]

definition group_at :: "in6_addr \<Rightarrow> nat \<Rightarrow> nat" where
  "group_at a i = 256 * unat (a ! (2 * i)) + unat (a ! (2 * i + 1))"

text \<open>The first longest run of zero groups, as its start and length.\<close>

definition better_run :: "(nat \<times> nat) option \<Rightarrow> (nat \<times> nat) option \<Rightarrow> (nat \<times> nat) option" where
  "better_run cur best =
     (case cur of None \<Rightarrow> best
      | Some (b, l) \<Rightarrow> (case best of None \<Rightarrow> cur | Some (b', l') \<Rightarrow> if l > l' then cur else best))"

fun zero_run :: "nat \<Rightarrow> nat list \<Rightarrow> (nat \<times> nat) option \<Rightarrow> (nat \<times> nat) option \<Rightarrow> (nat \<times> nat) option" where
  "zero_run i [] cur best =
     (case better_run cur best of None \<Rightarrow> None | Some (b, l) \<Rightarrow> if l < 2 then None else Some (b, l))"
| "zero_run i (w # ws) cur best =
     (if w = 0
      then zero_run (i + 1) ws (case cur of None \<Rightarrow> Some (i, 1) | Some (b, l) \<Rightarrow> Some (b, l + 1)) best
      else zero_run (i + 1) ws None (better_run cur best))"

definition in_run :: "(nat \<times> nat) option \<Rightarrow> nat \<Rightarrow> bool" where
  "in_run best i = (case best of None \<Rightarrow> False | Some (b, l) \<Rightarrow> b \<le> i \<and> i < b + l)"

fun ntop6_groups :: "in6_addr \<Rightarrow> (nat \<times> nat) option \<Rightarrow> nat \<Rightarrow> nat list \<Rightarrow> string" where
  "ntop6_groups a best i [] = (case best of Some (b, l) \<Rightarrow> if b + l = 8 then '':'' else [] | None \<Rightarrow> [])"
| "ntop6_groups a best i (w # ws) =
     (if in_run best i
      then (if \<not> (i > 0 \<and> in_run best (i - 1)) then '':'' else []) @ ntop6_groups a best (i + 1) ws
      else (if i \<noteq> 0 then '':'' else [])
           @ (if i = 6 \<and> (best = Some (0, 6) \<or> (best = Some (0, 5) \<and> group_at a 5 = 0xffff))
              then inet_ntop (in6_v4 a)
              else hex w @ ntop6_groups a best (i + 1) ws))"

definition inet_ntop6 :: "in6_addr \<Rightarrow> string" where
  "inet_ntop6 a =
     (let ws = map (group_at a) [0..<8] in ntop6_groups a (zero_run 0 ws None None) 0 ws)"

end
