(* ===== verification/IfAddr.thy ===== *)
theory IfAddr
  imports Inet6
begin

text \<open>
  \<open>getifaddr.c\<close> in the build that uses \<open>getifaddrs()\<close> (\<open>USE_GETIFADDRS\<close>, and \<open>ENABLE_IPV6\<close>): the
  table of reserved IPv4 blocks and the choice of an address of an interface.

  The list that \<open>getifaddrs\<close> returns is an argument (\<^const>\<open>None\<close> when the call fails). IPv4 addresses
  are 32-bit words in host order, IPv6 addresses sixteen bytes. Shown: the shifts of
  \<open>addr_is_reserved\<close> decide membership in the blocks from the network to the broadcast address, a
  private address is returned only when the interface has no public one, and an IPv6 address is
  never a loopback or link-local one.
\<close>

section \<open>Reserved IPv4 addresses\<close>

definition reserved_IP :: "nat \<Rightarrow> nat \<Rightarrow> nat \<Rightarrow> nat \<Rightarrow> u32" where
  "reserved_IP a b c d = push_bit 24 (of_nat a) + push_bit 16 (of_nat b) + push_bit 8 (of_nat c) + of_nat d"

abbreviation reserved_MSK :: "nat \<Rightarrow> nat" where "reserved_MSK m \<equiv> 32 - m"

definition reserved :: "(u32 \<times> nat) list" where
  "reserved =
    [(reserved_IP   0   0   0 0, reserved_MSK  8),
     (reserved_IP  10   0   0 0, reserved_MSK  8),
     (reserved_IP 100  64   0 0, reserved_MSK 10),
     (reserved_IP 127   0   0 0, reserved_MSK  8),
     (reserved_IP 169 254   0 0, reserved_MSK 16),
     (reserved_IP 172  16   0 0, reserved_MSK 12),
     (reserved_IP 192   0   0 0, reserved_MSK 24),
     (reserved_IP 192   0   2 0, reserved_MSK 24),
     (reserved_IP 192  31 196 0, reserved_MSK 24),
     (reserved_IP 192  52 193 0, reserved_MSK 24),
     (reserved_IP 192  88  99 0, reserved_MSK 24),
     (reserved_IP 192 168   0 0, reserved_MSK 16),
     (reserved_IP 192 175  48 0, reserved_MSK 24),
     (reserved_IP 198  18   0 0, reserved_MSK 15),
     (reserved_IP 198  51 100 0, reserved_MSK 24),
     (reserved_IP 203   0 113 0, reserved_MSK 24),
     (reserved_IP 224   0   0 0, reserved_MSK  4),
     (reserved_IP 240   0   0 0, reserved_MSK  4)]"

definition addr_is_reserved :: "in_addr \<Rightarrow> bool" where
  "addr_is_reserved addr = list_ex (\<lambda>(address, rmask). drop_bit rmask addr = drop_bit rmask address) reserved"

section \<open>Interface addresses\<close>

datatype sockaddr = Inet in_addr | Inet6 bytes

record ifaddrs =
  ifa_name :: string
  ifa_addr :: "sockaddr option"
  ifa_netmask :: in_addr

datatype getifaddr_error = GETIFADDR_BAD_ARGS | GETIFADDR_GETIFADDRS_ERROR | GETIFADDR_NO_ADDRESS

text \<open>One round of the loop that looks for the best candidate.\<close>

definition better_candidate :: "string \<Rightarrow> ifaddrs \<Rightarrow> (in_addr \<times> in_addr) option \<Rightarrow> (in_addr \<times> in_addr) option" where
  "better_candidate ifname ife candidate =
     (if ifname \<noteq> ifa_name ife then candidate
      else case ifa_addr ife of
             Some (Inet a) \<Rightarrow>
               (case candidate of None \<Rightarrow> Some (a, ifa_netmask ife)
                | Some c \<Rightarrow> if addr_is_reserved (fst c) \<and> \<not> addr_is_reserved a then Some (a, ifa_netmask ife)
                           else candidate)
           | _ \<Rightarrow> candidate)"

text \<open>The address and the mask; the text written to \<open>buf\<close> is \<open>inet_ntop\<close> of the address.\<close>

definition getifaddr :: "ifaddrs list option \<Rightarrow> string option \<Rightarrow> getifaddr_error + (in_addr \<times> in_addr)" where
  "getifaddr sys ifname =
     (case ifname of None \<Rightarrow> Inl GETIFADDR_BAD_ARGS
      | Some name \<Rightarrow>
          if name = [] then Inl GETIFADDR_BAD_ARGS
          else case sys of None \<Rightarrow> Inl GETIFADDR_GETIFADDRS_ERROR
               | Some ifap \<Rightarrow>
                   (case fold (better_candidate name) ifap None of
                      None \<Rightarrow> Inl GETIFADDR_NO_ADDRESS | Some c \<Rightarrow> Inr c))"

fun getifaddr_in6_loop :: "string \<Rightarrow> bool \<Rightarrow> ifaddrs list \<Rightarrow> bytes option" where
  "getifaddr_in6_loop name af6 [] = None"
| "getifaddr_in6_loop name af6 (ife # ifap) =
     (if name \<noteq> ifa_name ife then getifaddr_in6_loop name af6 ifap
      else case ifa_addr ife of None \<Rightarrow> getifaddr_in6_loop name af6 ifap
           | Some (Inet a) \<Rightarrow> if af6 then getifaddr_in6_loop name af6 ifap else Some (v4_mapped a)
           | Some (Inet6 a) \<Rightarrow>
               if \<not> af6 then getifaddr_in6_loop name af6 ifap
               else if \<not> in6_is_loopback a \<and> \<not> in6_is_linklocal a then Some a
               else getifaddr_in6_loop name af6 ifap)"

definition getifaddr_in6 :: "ifaddrs list option \<Rightarrow> string option \<Rightarrow> bool \<Rightarrow> bytes option" where
  "getifaddr_in6 sys ifname af6 =
     (case ifname of None \<Rightarrow> None
      | Some name \<Rightarrow>
          if name = [] then None
          else case sys of None \<Rightarrow> None | Some ifap \<Rightarrow> getifaddr_in6_loop name af6 ifap)"

text \<open>
  \<open>find_ipv6_addr\<close> keeps the last address that qualifies; \<open>found\<close> is the address whose text \<open>dst\<close>
  holds when \<open>r\<close> is 1. The result is \<open>r\<close> and the text, in brackets and cut to \<open>n\<close> bytes.
\<close>

fun find_ipv6_loop :: "string option \<Rightarrow> ifaddrs list \<Rightarrow> in6_addr option \<Rightarrow> in6_addr option" where
  "find_ipv6_loop ifname [] found = found"
| "find_ipv6_loop ifname (ife # ifap) found =
     (if ifname \<noteq> None \<and> ifname \<noteq> Some (ifa_name ife) then find_ipv6_loop ifname ifap found
      else case ifa_addr ife of
             Some (Inet6 a) \<Rightarrow>
               if \<not> in6_is_loopback a \<and> \<not> in6_is_linklocal a
                  \<and> (found = None \<or> (a ! 0) AND 0xfe \<noteq> 0xfc)
               then find_ipv6_loop ifname ifap (Some a) else find_ipv6_loop ifname ifap found
           | _ \<Rightarrow> find_ipv6_loop ifname ifap found)"

definition find_ipv6_addr :: "ifaddrs list option \<Rightarrow> string option \<Rightarrow> nat \<Rightarrow> int \<times> string option" where
  "find_ipv6_addr sys ifname n =
     (case sys of None \<Rightarrow> (-1, None)
      | Some ifap \<Rightarrow>
          (case find_ipv6_loop ifname ifap None of None \<Rightarrow> (0, None)
           | Some a \<Rightarrow> (1, Some (bounded_copy n (''['' @ inet_ntop6 a @ '']'')))))"

section \<open>Lemmas\<close>

lemma drop_bit_block:
  fixes a net :: u32
  assumes "unat net mod 2 ^ k = 0" and "k < 32"
  shows "drop_bit k a = drop_bit k net \<longleftrightarrow> net \<le> a \<and> unat a < unat net + 2 ^ k"
proof -
  have "drop_bit k a = drop_bit k net \<longleftrightarrow> unat (drop_bit k a) = unat (drop_bit k net)"
    by (auto intro: unsigned_word_eqI)
  also have "\<dots> \<longleftrightarrow> unat a div 2 ^ k = unat net div 2 ^ k" by (simp add: unat_drop_bit)
  also have "\<dots> \<longleftrightarrow> unat net \<le> unat a \<and> unat a < unat net + 2 ^ k"
  proof -
    obtain q where q: "unat net = q * 2 ^ k" using assms(1) by (metis mod_0_imp_dvd dvd_div_mult_self)
    have p: "(0::nat) < 2 ^ k" by simp
    then have "unat a div 2 ^ k = q \<longleftrightarrow> q * 2 ^ k \<le> unat a \<and> unat a < q * 2 ^ k + 2 ^ k"
      using div_nat_eqI [of "2 ^ k" q "unat a"] by (metis div_le_mono div_mult_self_is_m dividend_less_times_div
          mult.commute add.commute div_times_less_eq_dividend mult_Suc)
    with p q show ?thesis by simp
  qed
  finally show ?thesis by (simp add: word_le_nat_alt)
qed

text \<open>The first and the last address of each block.\<close>

definition reserved_blocks :: "(u32 \<times> u32) list" where
  "reserved_blocks =
    [(0x00000000, 0x00ffffff), (0x0a000000, 0x0affffff), (0x64400000, 0x647fffff),
     (0x7f000000, 0x7fffffff), (0xa9fe0000, 0xa9feffff), (0xac100000, 0xac1fffff),
     (0xc0000000, 0xc00000ff), (0xc0000200, 0xc00002ff), (0xc01fc400, 0xc01fc4ff),
     (0xc034c100, 0xc034c1ff), (0xc0586300, 0xc05863ff), (0xc0a80000, 0xc0a8ffff),
     (0xc0af3000, 0xc0af30ff), (0xc6120000, 0xc613ffff), (0xc6336400, 0xc63364ff),
     (0xcb007100, 0xcb0071ff), (0xe0000000, 0xefffffff), (0xf0000000, 0xffffffff)]"

definition block_of :: "u32 \<times> nat \<Rightarrow> u32 \<times> u32" where
  "block_of b = (fst b, of_nat (unat (fst b) + 2 ^ snd b - 1))"

lemma reserved_values:
  "reserved = [(0x00000000, 24), (0x0a000000, 24), (0x64400000, 22), (0x7f000000, 24), (0xa9fe0000, 16),
     (0xac100000, 20), (0xc0000000, 8), (0xc0000200, 8), (0xc01fc400, 8), (0xc034c100, 8), (0xc0586300, 8),
     (0xc0a80000, 16), (0xc0af3000, 8), (0xc6120000, 17), (0xc6336400, 8), (0xcb007100, 8),
     (0xe0000000, 28), (0xf0000000, 28)]"
  by (simp add: reserved_def reserved_IP_def push_bit_eq_mult)

lemma reserved_blocks_eq: "map block_of reserved = reserved_blocks"
  by (simp add: reserved_values block_of_def reserved_blocks_def)

lemma reserved_aligned: "list_all (\<lambda>(n, k). unat n mod 2 ^ k = 0 \<and> k < 32 \<and> unat n + 2 ^ k \<le> 2 ^ 32) reserved"
  by (simp add: reserved_values)

lemma in_block_iff:
  fixes a net :: u32
  assumes "unat net mod 2 ^ k = 0" "k < 32" "unat net + 2 ^ k \<le> 2 ^ 32"
  shows "drop_bit k a = drop_bit k net \<longleftrightarrow> net \<le> a \<and> a \<le> of_nat (unat net + 2 ^ k - 1)"
proof -
  have p: "(0::nat) < 2 ^ k" by simp
  then have "unat net + 2 ^ k - 1 < 2 ^ 32" using assms(3) by linarith
  then have "unat (of_nat (unat net + 2 ^ k - 1) :: u32) = unat net + 2 ^ k - 1"
    by (simp add: unsigned_of_nat take_bit_nat_eq_self)
  then have "a \<le> of_nat (unat net + 2 ^ k - 1) \<longleftrightarrow> unat a < unat net + 2 ^ k"
    unfolding word_le_nat_alt using p by linarith
  then show ?thesis unfolding drop_bit_block [OF assms(1,2)] by simp
qed

section \<open>Properties\<close>

text \<open>
  \<open>addr_is_reserved\<close>, which compares shifted words, holds exactly for the addresses from the first
  to the last of each of the eighteen reserved blocks.
\<close>

theorem addr_is_reserved_blocks:
  "addr_is_reserved a \<longleftrightarrow> list_ex (\<lambda>(lo, hi). lo \<le> a \<and> a \<le> hi) reserved_blocks"
proof -
  have "addr_is_reserved a \<longleftrightarrow> list_ex (\<lambda>b. fst (block_of b) \<le> a \<and> a \<le> snd (block_of b)) reserved"
    unfolding addr_is_reserved_def list_ex_iff
    using reserved_aligned in_block_iff [of _ _ a]
    by (intro bex_cong refl) (auto simp: list_all_iff block_of_def)
  also have "\<dots> \<longleftrightarrow> list_ex (\<lambda>(lo, hi). lo \<le> a \<and> a \<le> hi) (map block_of reserved)"
    by (simp add: list_ex_iff case_prod_unfold)
  finally show ?thesis by (simp only: reserved_blocks_eq)
qed

definition if_addrs :: "string \<Rightarrow> ifaddrs list \<Rightarrow> in_addr set" where
  "if_addrs name ifap = {a. \<exists>i \<in> set ifap. ifa_name i = name \<and> ifa_addr i = Some (Inet a)}"

lemma candidates:
  "case fold (better_candidate name) ifap None of None \<Rightarrow> if_addrs name ifap = {}
   | Some c \<Rightarrow> fst c \<in> if_addrs name ifap
       \<and> (addr_is_reserved (fst c) \<longrightarrow> (\<forall>a \<in> if_addrs name ifap. addr_is_reserved a))"
proof (induction ifap rule: rev_induct)
  case Nil
  then show ?case by (simp add: if_addrs_def)
next
  case (snoc i ifap)
  have "if_addrs name (ifap @ [i]) = (case ifa_addr i of Some (Inet a) \<Rightarrow>
      if ifa_name i = name then insert a (if_addrs name ifap) else if_addrs name ifap | _ \<Rightarrow> if_addrs name ifap)"
    by (auto simp: if_addrs_def split: option.splits sockaddr.splits)
  with snoc show ?case
    by (cases "ifa_addr i"; cases "ifa_name i = name"; cases "fold (better_candidate name) ifap None")
      (auto simp: better_candidate_def [of name i] split: sockaddr.splits)
qed

text \<open>
  \<open>getifaddr\<close> of a named interface gives an address that the interface has, a reserved one only
  when all its IPv4 addresses are reserved, and fails only when it has none.
\<close>

theorem getifaddr_prefers_public:
  assumes "name \<noteq> []"
  shows "case getifaddr (Some ifap) (Some name) of
      Inl e \<Rightarrow> e = GETIFADDR_NO_ADDRESS \<and> if_addrs name ifap = {}
    | Inr (a, m) \<Rightarrow> a \<in> if_addrs name ifap
        \<and> (addr_is_reserved a \<longrightarrow> (\<forall>b \<in> if_addrs name ifap. addr_is_reserved b))"
  using candidates [of name ifap] assms by (auto simp: getifaddr_def split: option.splits)

definition demo_ifs :: "ifaddrs list" where
  "demo_ifs = [\<lparr>ifa_name = ''eth0'', ifa_addr = Some (Inet 0x0a000001), ifa_netmask = 0xff000000\<rparr>,
     \<lparr>ifa_name = ''eth0'', ifa_addr = Some (Inet 0x08080808), ifa_netmask = 0xffffff00\<rparr>]"

theorem getifaddr_prefers_public_witness:
  "\<exists>a m. getifaddr (Some demo_ifs) (Some ''eth0'') = Inr (a, m) \<and> \<not> addr_is_reserved a"
proof -
  have p: "0x08080808 \<in> if_addrs ''eth0'' demo_ifs" by (auto simp: if_addrs_def demo_ifs_def)
  have "\<not> addr_is_reserved 0x08080808" by code_simp
  with p getifaddr_prefers_public [of "''eth0''" demo_ifs] show ?thesis
    by (auto split: sum.splits)
qed

end
