(* ===== verification/NatPmp.thy ===== *)
theory NatPmp
  imports Redirect IfAddr
begin

text \<open>
  \<open>natpmp.c\<close>: the NAT-PMP requests (public address, mapping and unmapping) and the notification of a
  changed public address.

  A datagram is its list of bytes. \<open>ProcessIncomingNATPMPPacket\<close> gives the datagram that it sends
  (\<^const>\<open>None\<close> when the request is discarded) and the new state; the outer \<^const>\<open>None\<close> stands for the
  removal loop not ending, which cannot happen over a backend that keeps its contract. The settings
  are a record: those of \<open>upnpredirect.c\<close>, the build option \<open>MULTIPLE_EXTERNAL_IP\<close>, the external
  interface, the system's interface list and the LAN addresses. Opening and reading the sockets and
  the log lines are not modelled; the sender's address always has a text.
\<close>

record lan_addr_s =
  la_index :: u32
  la_addr :: in_addr
  la_mask :: in_addr
  la_ext_ip_addr :: in_addr

record ('s, 're) natpmp_env =
  redir :: "('s, 're) redirect_env"
  multiple_external_ip :: bool
  use_ext_ip_addr :: "string option"
  ext_if_name :: "string option"
  if_list :: "ifaddrs list option"
  allow_private_ipv4 :: bool
  lan_addrs :: "lan_addr_s list"
  startup_time :: u32

record 's natpmp_state =
  rst :: "'s redirect_state"
  epoch_origin :: u32

section \<open>Buffers\<close>

text \<open>Storing bytes at an offset of a buffer.\<close>

definition put :: "nat \<Rightarrow> bytes \<Rightarrow> bytes \<Rightarrow> bytes" where
  "put off bs buf = take off buf @ bs @ drop (off + length bs) buf"

definition put_addr :: "string \<Rightarrow> bytes \<Rightarrow> bytes" where
  "put_addr s resp = (case inet_pton s of None \<Rightarrow> resp | Some a \<Rightarrow> put 8 (writenu32 a) resp)"

definition FillPublicAddressResponse :: "('s, 're) natpmp_env \<Rightarrow> in_addr \<Rightarrow> bytes \<Rightarrow> bytes" where
  "FillPublicAddressResponse E senderaddr resp =
     (if \<not> multiple_external_ip E
      then case use_ext_ip_addr E of
             Some s \<Rightarrow> put_addr s resp
           | None \<Rightarrow>
               if ext_if_name E = None \<or> ext_if_name E = Some [] then resp[3 := 3]
               else case getifaddr (if_list E) (ext_if_name E) of
                      Inl _ \<Rightarrow> resp[3 := 3]
                    | Inr (addr, _) \<Rightarrow>
                        if \<not> allow_private_ipv4 E \<and> addr_is_reserved addr then resp[3 := 3]
                        else put_addr (inet_ntop addr) resp
      else case find (\<lambda>l. senderaddr AND la_mask l = la_addr l AND la_mask l) (lan_addrs E) of
             None \<Rightarrow> resp
           | Some l \<Rightarrow> put 8 (writenu32 (la_ext_ip_addr l)) resp)"

section \<open>Mapping requests\<close>

text \<open>
  The removal of mappings: \<open>index\<close> stays where it is after a deletion (\<open>index--; index++\<close>). The
  result is the result code and the state.
\<close>

partial_function (option) natpmp_delete_loop ::
  "('s, 're) redirect_env \<Rightarrow> string \<Rightarrow> u16 \<Rightarrow> u16 \<Rightarrow> nat \<Rightarrow> 's redirect_state \<Rightarrow> (u8 \<times> 's redirect_state) option" where
  [code]: "natpmp_delete_loop R senderaddrstr iport proto index st =
     (case be_get_redirect_rule_by_index (be_ops R) index 16 64 0 (fw st) of
        None \<Rightarrow> Some (0, st)
      | Some (eport2, proto2, info) \<Rightarrow>
          if info_iaddr info = senderaddrstr \<and> take 7 (info_desc info) = ''NAT-PMP''
             \<and> proto = proto2 \<and> (iport = 0 \<or> iport = info_iport info)
          then case upnp_delete_redir R eport2 proto2 st of
                 (r, st1) \<Rightarrow> if r < 0 then Some (2, st1)
                            else natpmp_delete_loop R senderaddrstr iport proto index st1
          else natpmp_delete_loop R senderaddrstr iport proto (index + 1) st)"

text \<open>
  What the loop over the external ports finds about one port: refused by the permissions, taken
  (in use on the host or mapped to someone else), held by a PCP mapping of the same client, mapped
  to the same client, or free.
\<close>

datatype port_choice = Denied | Taken | PcpOwned | Replace | Free

definition examine_port ::
  "('s, 're) redirect_env \<Rightarrow> in_addr \<Rightarrow> u16 \<Rightarrow> u16 \<Rightarrow> 's redirect_state \<Rightarrow> u16 \<Rightarrow> port_choice" where
  "examine_port R senderaddr iport proto st eport =
     (if \<not> check_upnp_rule_against_permissions (nomatch R) (upnppermlist R) eport senderaddr iport (Some ''NAT-PMP'')
      then Denied
      else if port_in_use R eport proto (inet_ntop senderaddr) iport (fw st) > 0 then Taken
      else case be_get_redirect_rule (be_ops R) eport proto 16 64 0 (fw st) of
             None \<Rightarrow> Free
           | Some info \<Rightarrow>
               if inet_ntop senderaddr = info_iaddr info \<and> iport = info_iport info
               then if take 4 (info_desc info) = ''PCP '' then PcpOwned else Replace
               else Taken)"

definition next_eport :: "u16 \<Rightarrow> u16" where
  "next_eport eport = (let e = eport + 1 in if e = 0 then e + 1 else e)"

text \<open>
  The loop itself, up to the port it settles on: the result code, the port, and what was found there.
  \<open>eport_first\<close> is 0 before the first round.
\<close>

definition port_distance :: "u16 \<Rightarrow> u16 \<Rightarrow> nat" where
  "port_distance eport_first eport =
     (if eport_first = 0 then (if eport = 0 then 65538 else 65537)
      else if eport \<le> eport_first then unat eport_first - unat eport
      else 65535 - unat eport + unat eport_first)"

function search_eport :: "(u16 \<Rightarrow> port_choice) \<Rightarrow> u16 \<Rightarrow> bool \<Rightarrow> u16 \<Rightarrow> u8 \<times> u16 \<times> port_choice option" where
  "search_eport examine eport_first any_eport_allowed eport =
     (if eport_first \<noteq> 0 \<and> eport = eport_first
      then (if any_eport_allowed then 4 else 2, eport, None)
      else let first = (if eport_first = 0 then eport else eport_first)
           in case examine eport of
                Denied \<Rightarrow> search_eport examine first any_eport_allowed (next_eport eport)
              | Taken \<Rightarrow> search_eport examine first True (next_eport eport)
              | c \<Rightarrow> (0, eport, Some c))"
  by pat_completeness auto

lemma unat_next_eport: "unat (next_eport e) = (if unat e = 65535 then 1 else unat e + 1)"
proof (cases "unat e = 65535")
  case True
  then have "unat e = unat (65535 :: u16)" by simp
  then have "e = 65535" by (rule unsigned_word_eqI)
  then show ?thesis by (simp add: next_eport_def)
next
  case False
  then have "unat e + 1 < 2 ^ LENGTH(16)" using unsigned_less [of e, where 'a = nat] by simp
  then have "unat (e + 1) = unat e + 1" by (simp add: unat_word_ariths)
  then show ?thesis using False by (auto simp: next_eport_def Let_def)
qed

lemma port_distance_next:
  assumes "\<not> (f \<noteq> 0 \<and> e = f)"
  shows "port_distance (if f = 0 then e else f) (next_eport e) < port_distance f e"
proof -
  have b: "unat e < 65536" "unat f < 65536" using unsigned_less [of e, where 'a = nat] unsigned_less [of f, where 'a = nat] by simp_all
  have z: "f \<noteq> 0 \<longleftrightarrow> unat f \<noteq> 0" "e \<noteq> 0 \<longleftrightarrow> unat e \<noteq> 0" "next_eport e \<noteq> 0"
    using unat_next_eport [of e] by (auto simp: unat_eq_0 split: if_splits)
  have "f \<noteq> 0 \<Longrightarrow> unat e \<noteq> unat f" using assms by (auto intro: unsigned_word_eqI)
  then show ?thesis using b z unat_next_eport [of e]
    by (auto simp: port_distance_def word_le_nat_alt split: if_splits)
qed

termination search_eport
  by (relation "measure (\<lambda>(x, f, a, e). port_distance f e)") (use port_distance_next in \<open>auto simp: Let_def\<close>)

declare search_eport.simps [simp del]

text \<open>A request with a lifetime and an internal port.\<close>

definition natpmp_desc :: "u16 \<Rightarrow> u16 \<Rightarrow> string" where
  "natpmp_desc eport proto = bounded_copy 64 (''NAT-PMP '' @ dec (unat eport) @ '' '' @ proto_itoa proto)"

definition natpmp_map ::
  "('s, 're) redirect_env \<Rightarrow> in_addr \<Rightarrow> u16 \<Rightarrow> u16 \<Rightarrow> u32 \<Rightarrow> u16 \<Rightarrow> 's redirect_state \<Rightarrow> u8 \<times> u16 \<times> 's redirect_state" where
  "natpmp_map R senderaddr iport proto lifetime eport0 st =
     (let (code, eport, choice) = search_eport (examine_port R senderaddr iport proto st) 0 False
                                    (if eport0 = 0 then iport else eport0)
      in case choice of
           None \<Rightarrow> (code, eport, st)
         | Some c \<Rightarrow>
             if c = PcpOwned then (2, eport, st)
             else let (r, st1) = (if c = Replace then upnp_delete_redir R eport proto st else (0, st))
                  in if r < 0 then (0, eport, st1)
                     else let (q, st2) = upnp_redirect_internal R None eport (inet_ntop senderaddr) iport proto
                                           (natpmp_desc eport proto) (upnp_time R + lifetime) st1
                          in (if q < 0 then 3 else 0, eport, st2))"

text \<open>Requests 1 and 2: the result code, the external port of the reply and the state.\<close>

definition natpmp_mapping_request ::
  "('s, 're) redirect_env \<Rightarrow> in_addr \<Rightarrow> u16 \<Rightarrow> u16 \<Rightarrow> u16 \<Rightarrow> u32 \<Rightarrow> 's redirect_state
   \<Rightarrow> (u8 \<times> u16 \<times> 's redirect_state) option" where
  "natpmp_mapping_request R senderaddr proto iport eport lifetime st =
     (if lifetime = 0
      then map_option (\<lambda>(code, st1). (code, 0, st1)) (natpmp_delete_loop R (inet_ntop senderaddr) iport proto 0 st)
      else if iport = 0 then Some (2, eport, st)
      else Some (natpmp_map R senderaddr iport proto lifetime eport st))"

section \<open>The request handler\<close>

definition natpmp_too_short :: "bytes \<Rightarrow> bool" where
  "natpmp_too_short req =
     (length req < 2 \<or> (((uint (req ! 1) - 1) AND NOT 1) = (0 :: int) \<and> length req < 12))"

definition ProcessIncomingNATPMPPacket ::
  "('s, 're) natpmp_env \<Rightarrow> bytes \<Rightarrow> in_addr \<Rightarrow> 's natpmp_state \<Rightarrow> (bytes option \<times> 's natpmp_state) option" where
  "ProcessIncomingNATPMPPacket E req senderaddr ns =
     (if natpmp_too_short req then Some (None, ns)
      else if (req ! 1) AND 128 \<noteq> 0 then Some (None, ns)
      else let ns1 = (if epoch_origin ns = 0 then ns\<lparr>epoch_origin := startup_time E\<rparr> else ns);
               resp = put 4 (writenu32 (upnp_time (redir E) - epoch_origin ns1)) ((replicate 32 0)[1 := 128 + req ! 1])
           in if req ! 0 > 0 then Some (Some (take 8 (resp[3 := 1])), ns1)
              else if req ! 1 = 0
              then Some (Some (take 12 (FillPublicAddressResponse E senderaddr resp)), ns1)
              else if req ! 1 = 1 \<or> req ! 1 = 2
              then let iport = readnu16 (drop 4 req); eport = readnu16 (drop 6 req); lifetime = readnu32 (drop 8 req);
                       proto = (if req ! 1 = 1 then IPPROTO_UDP else IPPROTO_TCP)
                   in map_option (\<lambda>(code, eport', st').
                          (Some (take 16 (put 12 (writenu32 lifetime) (put 10 (writenu16 eport')
                                   (put 8 (writenu16 iport) (resp[3 := code]))))),
                           ns1\<lparr>rst := st'\<rparr>))
                        (natpmp_mapping_request (redir E) senderaddr proto iport eport lifetime (rst ns1))
              else Some (Some (take 8 (resp[3 := 5])), ns1))"

section \<open>The notification of a new public address\<close>

abbreviation NATPMP_PORT :: u16 where "NATPMP_PORT \<equiv> 5351"
abbreviation NATPMP_NOTIF_PORT :: u16 where "NATPMP_NOTIF_PORT \<equiv> 5350"

text \<open>
  The datagrams sent to 224.0.0.1, as socket, port and contents. \<open>send_ok\<close> says whether a send
  succeeds; the first failure ends the function. Socket \<open>j\<close> belongs to the \<open>j\<close>-th LAN address.
\<close>

fun notify_sockets ::
  "('s, 're) natpmp_env \<Rightarrow> (int \<Rightarrow> u16 \<Rightarrow> bool) \<Rightarrow> bytes \<Rightarrow> nat \<Rightarrow> int list \<Rightarrow> (int \<times> u16 \<times> bytes) list" where
  "notify_sockets E send_ok notif j [] = []"
| "notify_sockets E send_ok notif j (s # ss) =
     (if s < 0 then notify_sockets E send_ok notif (j + 1) ss
      else let n = (if multiple_external_ip E
                    then FillPublicAddressResponse E (la_addr (lan_addrs E ! j)) notif else notif)
           in (s, NATPMP_PORT, n)
              # (if \<not> send_ok s NATPMP_PORT then []
                 else (s, NATPMP_NOTIF_PORT, n)
                      # (if \<not> send_ok s NATPMP_NOTIF_PORT then []
                         else notify_sockets E send_ok n (j + 1) ss)))"

text \<open>\<open>uninit\<close> are the four bytes of the buffer that the function does not initialise itself.\<close>

definition SendNATPMPPublicAddressChangeNotification ::
  "('s, 're) natpmp_env \<Rightarrow> (int \<Rightarrow> u16 \<Rightarrow> bool) \<Rightarrow> bytes \<Rightarrow> int list \<Rightarrow> 's natpmp_state
   \<Rightarrow> (int \<times> u16 \<times> bytes) list \<times> 's natpmp_state" where
  "SendNATPMPPublicAddressChangeNotification E send_ok uninit sockets ns =
     (let ns1 = (if epoch_origin ns = 0 then ns\<lparr>epoch_origin := startup_time E\<rparr> else ns);
          notif = [0, 128, 0, 0] @ writenu32 (upnp_time (redir E) - epoch_origin ns1) @ uninit;
          n = (if multiple_external_ip E then notif else FillPublicAddressResponse E 0 notif)
      in if \<not> multiple_external_ip E \<and> n ! 3 \<noteq> 0 then ([], ns1)
         else (notify_sockets E send_ok n 0 sockets, ns1))"

section \<open>Replies\<close>

lemma put_mid: "off = length a \<Longrightarrow> length c = length b \<Longrightarrow> put off b (a @ c @ d) = a @ b @ d"
  by (simp add: put_def)

definition reply_head :: "u8 \<Rightarrow> u8 \<Rightarrow> u32 \<Rightarrow> bytes" where
  "reply_head op code t = [0, 128 + op, 0, code] @ writenu32 t"

lemma length_reply_head [simp]: "length (reply_head op code t) = 8"
  by (simp add: reply_head_def)

lemma reply_head_update [simp]: "(reply_head op code t @ r)[3 := c] = reply_head op c t @ r"
  by (simp add: reply_head_def eval_nat_numeral)

lemma reply_head_init: "put 4 (writenu32 t) ((replicate 32 0)[1 := 128 + op]) = reply_head op 0 t @ replicate 24 0"
proof -
  have "(replicate 32 0)[1 := 128 + op] = [0, 128 + op, 0, 0] @ replicate 4 0 @ replicate 24 0"
    by (simp add: eval_nat_numeral)
  then show ?thesis using put_mid [of 4 "[0, 128 + op, 0, 0]" "replicate 4 0" "writenu32 t"] by (simp add: reply_head_def)
qed

lemma reply_body:
  "take 16 (put 12 (writenu32 l) (put 10 (writenu16 e) (put 8 (writenu16 i) (reply_head op c t @ replicate 24 0))))
     = reply_head op c t @ writenu16 i @ writenu16 e @ writenu32 l"
proof -
  let ?h = "reply_head op c t"
  have "replicate 24 0 = replicate 2 0 @ replicate 2 0 @ replicate 4 0 @ replicate 16 (0 :: u8)"
    by (simp add: eval_nat_numeral)
  then have "put 8 (writenu16 i) (?h @ replicate 24 0) = ?h @ writenu16 i @ replicate 2 0 @ replicate 4 0 @ replicate 16 0"
    by (simp add: put_mid)
  then show ?thesis
    using put_mid [of 10 "?h @ writenu16 i" "replicate 2 0" "writenu16 e"]
      put_mid [of 12 "?h @ writenu16 i @ writenu16 e" "replicate 4 0" "writenu32 l"] by simp
qed

lemma reply_addr: "put 8 (writenu32 a) (reply_head op c t @ replicate 24 0) = reply_head op c t @ writenu32 a @ replicate 20 0"
  using put_mid [of 8 "reply_head op c t" "replicate 4 0" "writenu32 a" "replicate 20 0"]
  by (simp flip: replicate_add)

section \<open>The search for an external port\<close>

definition nth_eport :: "u16 \<Rightarrow> nat \<Rightarrow> u16" where
  "nth_eport e n = (next_eport ^^ n) e"

lemma nth_eport_Suc: "nth_eport e (Suc n) = next_eport (nth_eport e n)"
  by (simp add: nth_eport_def)

lemma unat_nth_eport: "e \<noteq> 0 \<Longrightarrow> unat (nth_eport e n) = (unat e - 1 + n) mod 65535 + 1"
proof (induction n)
  case 0
  then have "0 < unat e" "unat e \<le> 65535" using unsigned_less [of e, where 'a = nat] by (simp_all add: unat_gt_0)
  then show ?case by (simp add: nth_eport_def)
next
  case (Suc n)
  let ?k = "unat e - 1 + n"
  have "Suc ?k mod 65535 = (if Suc (?k mod 65535) = 65535 then 0 else Suc (?k mod 65535))" by (rule mod_Suc)
  with Suc show ?case by (simp add: nth_eport_Suc unat_next_eport)
qed

lemma nth_eport_cycle: "e \<noteq> 0 \<Longrightarrow> nth_eport e n = e \<longleftrightarrow> n mod 65535 = 0"
proof -
  assume e: "e \<noteq> 0"
  then have b: "0 < unat e" "unat e - 1 < 65535" using unsigned_less [of e, where 'a = nat] by (simp_all add: unat_gt_0)
  have "nth_eport e n = e \<longleftrightarrow> unat (nth_eport e n) = unat e" by (auto intro: unsigned_word_eqI)
  also have "\<dots> \<longleftrightarrow> (unat e - 1 + n) mod 65535 = unat e - 1" using b unat_nth_eport [OF e, of n] by auto
  also have "\<dots> \<longleftrightarrow> (unat e - 1 + n) mod 65535 = (unat e - 1 + 0) mod 65535" using b by simp
  also have "\<dots> \<longleftrightarrow> n mod 65535 = 0"
    using mod_eq_dvd_iff_nat [of "unat e - 1 + 0" "unat e - 1 + n" 65535] by (simp add: mod_eq_0_iff_dvd)
  finally show ?thesis .
qed

lemma nth_eport_nonzero: "e \<noteq> 0 \<Longrightarrow> nth_eport e n \<noteq> 0"
  using unat_nth_eport [of e n] by auto

text \<open>Every port but 0 is reached within a turn.\<close>

lemma nth_eport_onto:
  assumes "e \<noteq> 0" "p \<noteq> 0"
  shows "\<exists>n < 65535. nth_eport e n = p"
proof -
  let ?n = "(unat p - 1 + (65535 - (unat e - 1))) mod 65535"
  have b: "0 < unat e" "unat e \<le> 65535" "0 < unat p" "unat p \<le> 65535"
    using assms unsigned_less [of e, where 'a = nat] unsigned_less [of p, where 'a = nat] by (simp_all add: unat_gt_0)
  have "(unat e - 1 + ?n) mod 65535 = (unat e - 1 + (unat p - 1 + (65535 - (unat e - 1)))) mod 65535"
    by (simp only: mod_add_right_eq)
  also have "unat e - 1 + (unat p - 1 + (65535 - (unat e - 1))) = unat p - 1 + 65535" using b by simp
  also have "(unat p - 1 + 65535) mod 65535 = unat p - 1" using b by (subst mod_add_self2) simp
  finally have "unat (nth_eport e ?n) = unat p" using b(3) unat_nth_eport [OF assms(1), of ?n] by linarith
  then show ?thesis by (intro exI [of _ ?n]) (auto intro: unsigned_word_eqI)
qed

definition skipped :: "port_choice \<Rightarrow> bool" where
  "skipped c = (c = Denied \<or> c = Taken)"

definition search_result :: "(u16 \<Rightarrow> port_choice) \<Rightarrow> u16 \<Rightarrow> u8 \<times> u16 \<times> port_choice option \<Rightarrow> bool" where
  "search_result f e res =
     (case res of
        (code, p, Some c) \<Rightarrow> code = 0 \<and> c = f p \<and> \<not> skipped c
          \<and> (\<exists>n < 65535. p = nth_eport e n \<and> (\<forall>i < n. skipped (f (nth_eport e i))))
      | (code, p, None) \<Rightarrow> p = e \<and> (\<forall>q. q \<noteq> 0 \<longrightarrow> skipped (f q))
          \<and> code = (if \<exists>q. q \<noteq> 0 \<and> f q = Taken then 4 else 2))"

lemma search_eport_turn:
  assumes "e \<noteq> 0"
  shows "0 < n \<Longrightarrow> n \<le> 65535 \<Longrightarrow> (\<And>i. i < n \<Longrightarrow> skipped (f (nth_eport e i))) \<Longrightarrow>
    any \<longleftrightarrow> (\<exists>i < n. f (nth_eport e i) = Taken) \<Longrightarrow> search_result f e (search_eport f e any (nth_eport e n))"
proof (induction "65535 - n" arbitrary: n any)
  case 0
  then have n: "n = 65535" by simp
  then have c: "nth_eport e n = e" using nth_eport_cycle [OF assms, of n] by simp
  have s: "skipped (f q)" if "q \<noteq> 0" for q using nth_eport_onto [OF assms that] 0 n by blast
  have "any \<longleftrightarrow> (\<exists>q. q \<noteq> 0 \<and> f q = Taken)"
    using 0 n nth_eport_onto [OF assms] nth_eport_nonzero [OF assms] by metis
  with s assms show ?case unfolding c by (subst search_eport.simps) (simp add: search_result_def)
next
  case (Suc k)
  let ?p = "nth_eport e n"
  have n: "n < 65535" using Suc.hyps(2) by linarith
  then have c: "?p \<noteq> e" using Suc.prems(1) nth_eport_cycle [OF assms, of n] by simp
  show ?case
  proof (cases "skipped (f ?p)")
    case True
    have "search_result f e (search_eport f e (any \<or> f ?p = Taken) (nth_eport e (Suc n)))"
    proof (rule Suc.hyps(1))
      show "any \<or> f ?p = Taken \<longleftrightarrow> (\<exists>i < Suc n. f (nth_eport e i) = Taken)"
        using Suc.prems(4) by (auto simp: less_Suc_eq)
    qed (use Suc n True in \<open>auto simp: less_Suc_eq\<close>)
    moreover have "search_eport f e any ?p = search_eport f e (any \<or> f ?p = Taken) (nth_eport e (Suc n))"
      using True c assms by (subst search_eport.simps) (auto simp: skipped_def nth_eport_Suc)
    ultimately show ?thesis by simp
  next
    case False
    then have "search_eport f e any ?p = (0, ?p, Some (f ?p))"
      using c assms by (subst search_eport.simps) (auto simp: skipped_def split: port_choice.splits)
    then show ?thesis using False Suc.prems(3) n by (auto simp: search_result_def)
  qed
qed

lemma search_eport_spec: "e \<noteq> 0 \<Longrightarrow> search_result f e (search_eport f 0 False e)"
proof -
  assume e: "e \<noteq> 0"
  have z: "nth_eport e 0 = e" by (simp add: nth_eport_def)
  show ?thesis
  proof (cases "skipped (f e)")
    case True
    then have "search_eport f 0 False e = search_eport f e (f e = Taken) (nth_eport e 1)"
      using e by (subst search_eport.simps) (auto simp: skipped_def nth_eport_def)
    with search_eport_turn [OF e, of 1 f "f e = Taken"] True z show ?thesis by simp
  next
    case False
    then have "search_eport f 0 False e = (0, e, Some (f e))"
      using e by (subst search_eport.simps) (auto simp: skipped_def split: port_choice.splits)
    with False z show ?thesis by (auto simp: search_result_def intro!: exI [of _ 0])
  qed
qed

section \<open>Over a backend that keeps its contract\<close>

text \<open>The mappings that a removal request of a client is about, and those it made by PCP.\<close>

definition natpmp_owned :: "in_addr \<Rightarrow> u16 \<Rightarrow> u16 \<Rightarrow> mapping \<Rightarrow> bool" where
  "natpmp_owned a iport proto m = (m_iaddr m = a \<and> take 7 (m_desc m) = ''NAT-PMP'' \<and> m_proto m = proto
     \<and> (iport = 0 \<or> m_iport m = iport))"

lemma drop_mapping_nth:
  assumes "distinct (map m_key ms)" "i < length ms"
  shows "drop_mapping (m_eport (ms ! i)) (m_proto (ms ! i)) ms = take i ms @ drop (Suc i) ms"
proof -
  let ?P = "\<lambda>m. m_key m \<noteq> (m_eport (ms ! i), m_proto (ms ! i))"
  have s: "ms = take i ms @ ms ! i # drop (Suc i) ms" using assms(2) by (rule id_take_nth_drop)
  have "distinct (map m_key (take i ms @ ms ! i # drop (Suc i) ms))" using assms(1) s by simp
  then have "filter ?P (take i ms) = take i ms" "filter ?P (drop (Suc i) ms) = drop (Suc i) ms"
    by (auto simp: filter_id_conv image_iff)
  then show ?thesis unfolding drop_mapping_def by (subst (3) s) simp
qed

context redirect_backend
begin

lemma natpmp_delete_spec:
  assumes "be_ops R = ops"
  shows "inv (fw st) \<Longrightarrow> index \<le> length (mappings (fw st)) \<Longrightarrow>
    \<exists>st'. natpmp_delete_loop R (inet_ntop a) iport proto index st = Some (0, st') \<and> inv (fw st')
      \<and> mappings (fw st') = take index (mappings (fw st))
          @ filter (\<lambda>m. \<not> natpmp_owned a iport proto m) (drop index (mappings (fw st)))"
proof (induction "length (mappings (fw st)) - index" arbitrary: index st)
  case 0
  then show ?case using assms by (subst natpmp_delete_loop.simps) (simp add: get_by_index_law)
next
  case (Suc k)
  let ?ms = "mappings (fw st)"
  let ?m = "?ms ! index"
  have i: "index < length ?ms" using Suc.hyps(2) by simp
  then have d: "drop index ?ms = ?m # drop (Suc index) ?ms" by (simp add: Cons_nth_drop_Suc)
  have own: "inet_ntop (m_iaddr ?m) = inet_ntop a \<and> take 7 (m_desc ?m) = ''NAT-PMP''
      \<and> proto = m_proto ?m \<and> (iport = 0 \<or> iport = m_iport ?m) \<longleftrightarrow> natpmp_owned a iport proto ?m"
    by (auto simp: natpmp_owned_def inet_ntop_inj)
  have step: "natpmp_delete_loop R (inet_ntop a) iport proto index st
    = (if natpmp_owned a iport proto ?m
       then (case upnp_delete_redir R (m_eport ?m) (m_proto ?m) st of
               (r, st1) \<Rightarrow> if r < 0 then Some (2, st1) else natpmp_delete_loop R (inet_ntop a) iport proto index st1)
       else natpmp_delete_loop R (inet_ntop a) iport proto (index + 1) st)"
    using i own assms Suc.prems(1)
    by (subst natpmp_delete_loop.simps)
      (simp add: get_by_index_law Let_def indexed_info_def mapping_info_def bounded_copy_def [of 64])
  show ?case
  proof (cases "natpmp_owned a iport proto ?m")
    case True
    obtain r st1 where u: "upnp_delete_redir R (m_eport ?m) (m_proto ?m) st = (r, st1)" by fastforce
    have "find_mapping (m_eport ?m) (m_proto ?m) ?ms \<noteq> None"
      using i keys_distinct [OF Suc.prems(1)] by (simp add: find_mapping_mem)
    with delete_redir_spec [OF assms Suc.prems(1) u] drop_mapping_nth [OF keys_distinct [OF Suc.prems(1)] i]
    have st1: "r = 0" "inv (fw st1)" "mappings (fw st1) = take index ?ms @ drop (Suc index) ?ms" by auto
    then have l: "k = length (mappings (fw st1)) - index" "index \<le> length (mappings (fw st1))"
      using Suc.hyps(2) i by auto
    from Suc.hyps(1) [OF l(1) st1(2) l(2)] st1 step True u d i show ?thesis by auto
  next
    case False
    have "k = length ?ms - (index + 1)" using Suc.hyps(2) by simp
    from Suc.hyps(1) [OF this Suc.prems(1)] i False step d show ?thesis
      by (simp add: take_Suc_conv_app_nth)
  qed
qed

lemma examine_port_spec:
  assumes "be_ops R = ops" "inv (fw st)"
  shows "examine_port R a iport proto st eport =
     (if \<not> check_upnp_rule_against_permissions (nomatch R) (upnppermlist R) eport a iport (Some ''NAT-PMP'') then Denied
      else if port_in_use R eport proto (inet_ntop a) iport (fw st) > 0 then Taken
      else case find_mapping eport proto (mappings (fw st)) of None \<Rightarrow> Free
           | Some m \<Rightarrow> if m_iaddr m = a \<and> m_iport m = iport
                       then if take 4 (m_desc m) = ''PCP '' then PcpOwned else Replace else Taken)"
  using get_redirect_rule_law [OF assms(2)] assms(1)
  by (auto simp: examine_port_def mapping_info_def bounded_copy_def [of 64] inet_ntop_inj split: option.splits)

text \<open>A mapping request: success installs the mapping, failure leaves the mappings alone.\<close>

lemma natpmp_map_spec:
  assumes R: "be_ops R = ops" and inv: "inv (fw st)" and ip: "iport \<noteq> 0"
    and m: "natpmp_map R a iport proto lifetime eport st = (code, e, st')"
  shows "inv (fw st') \<and> (code = 0 \<longrightarrow>
      mappings (fw st') = drop_mapping e proto (mappings (fw st))
         @ [new_mapping None e (inet_ntop a) iport proto (Some (natpmp_desc e proto)) (upnp_time R + lifetime)]
      \<and> (examine_port R a iport proto st e = Free \<or> examine_port R a iport proto st e = Replace))
    \<and> (code \<noteq> 0 \<longrightarrow> mappings (fw st') = mappings (fw st)
         \<or> code = 3 \<and> examine_port R a iport proto st e = Replace
            \<and> mappings (fw st') = drop_mapping e proto (mappings (fw st)))
    \<and> (code = 2 \<or> code = 4 \<or> code = 3 \<and> disable_port_forwarding R \<or> code = 0 \<and> \<not> disable_port_forwarding R)"
proof -
  let ?f = "examine_port R a iport proto st" and ?e = "if eport = 0 then iport else eport"
  obtain c p ch where s: "search_eport ?f 0 False ?e = (c, p, ch)" by (metis prod_cases3)
  have "search_result ?f ?e (c, p, ch)" unfolding s [symmetric] using ip by (intro search_eport_spec) simp
  then show ?thesis
  proof (cases ch)
    case None
    then have "c = 4 \<or> c = 2" using \<open>search_result ?f ?e (c, p, ch)\<close> unfolding search_result_def by (simp split: if_splits)
    moreover have "code = c" "st' = st" using s m None by (simp_all add: natpmp_map_def)
    ultimately show ?thesis using inv by auto
  next
    case (Some x)
    with \<open>search_result ?f ?e (c, p, ch)\<close> have x: "x = ?f p" "x \<noteq> Denied" "x \<noteq> Taken"
      by (auto simp: search_result_def skipped_def)
    show ?thesis
    proof (cases "x = PcpOwned")
      case True
      with Some s m inv show ?thesis by (auto simp: natpmp_map_def)
    next
      case False
      with x have fx: "?f p = Free \<or> ?f p = Replace" by (cases "?f p") auto
      define d where "d = (if x = Replace then upnp_delete_redir R p proto st else (0, st))"
      obtain r st1 where d1: "d = (r, st1)" by fastforce
      have st1: "r = 0" "inv (fw st1)" "mappings (fw st1) = drop_mapping p proto (mappings (fw st))"
        "find_mapping p proto (mappings (fw st1)) = None" "?f p = Free \<longrightarrow> mappings (fw st1) = mappings (fw st)"
        using d1 fx x(1) inv delete_redir_spec [OF R inv, of p proto r st1]
        by (auto simp: d_def examine_port_spec [OF R inv] find_mapping_drop drop_mapping_absent
            split: if_splits option.splits)
      obtain q st2 where u: "upnp_redirect_internal R None p (inet_ntop a) iport proto (natpmp_desc p proto)
          (upnp_time R + lifetime) st1 = (q, st2)" by fastforce
      from m Some s False d1 st1(1) u have res: "code = (if q < 0 then 3 else 0)" "e = p" "st' = st2"
        by (simp_all add: natpmp_map_def d_def)
      from redirect_internal_spec [OF R st1(2,4) u] res st1 fx show ?thesis by (auto split: if_splits)
    qed
  qed
qed

end

section \<open>The handler on a well-formed request\<close>

lemma and_not_1: "(x :: int) AND NOT 1 = 2 * (x div 2)"
proof (rule bit_eqI)
  fix n
  show "bit (x AND NOT 1) n = bit (2 * (x div 2)) n"
    unfolding bit_and_iff bit_not_iff bit_1_iff by (cases n) (simp_all add: bit_0 bit_Suc bit_double_iff)
qed

lemma not_too_short:
  "natpmp_too_short req \<longleftrightarrow> length req < 2 \<or> ((req ! 1 = 1 \<or> req ! 1 = 2) \<and> length req < 12)"
proof -
  have "((uint w - 1) AND NOT 1 = (0 :: int)) \<longleftrightarrow> w = 1 \<or> w = 2" for w :: u8
  proof -
    have "((uint w - 1) AND NOT 1 = 0) \<longleftrightarrow> uint w = 1 \<or> uint w = 2" unfolding and_not_1 by presburger
    also have "\<dots> \<longleftrightarrow> w = 1 \<or> w = 2"
      using unsigned_word_eqI [of w 1, where ?'a = int] unsigned_word_eqI [of w 2, where ?'a = int] by auto
    finally show ?thesis .
  qed
  then show ?thesis unfolding natpmp_too_short_def by blast
qed

definition natpmp_epoch :: "('s, 're) natpmp_env \<Rightarrow> 's natpmp_state \<Rightarrow> 's natpmp_state" where
  "natpmp_epoch E ns = (if epoch_origin ns = 0 then ns\<lparr>epoch_origin := startup_time E\<rparr> else ns)"

lemma rst_natpmp_epoch [simp]: "rst (natpmp_epoch E ns) = rst ns"
  by (simp add: natpmp_epoch_def)

lemma natpmp_handler_eq:
  "ProcessIncomingNATPMPPacket E req a ns =
     (if natpmp_too_short req \<or> (req ! 1) AND 128 \<noteq> 0 then Some (None, ns)
      else let ns1 = natpmp_epoch E ns; t = upnp_time (redir E) - epoch_origin ns1
           in if req ! 0 > 0 then Some (Some (reply_head (req ! 1) 1 t), ns1)
              else if req ! 1 = 0
              then Some (Some (take 12 (FillPublicAddressResponse E a (reply_head (req ! 1) 0 t @ replicate 24 0))), ns1)
              else if req ! 1 = 1 \<or> req ! 1 = 2
              then map_option (\<lambda>(code, e, st').
                       (Some (reply_head (req ! 1) code t
                          @ writenu16 (readnu16 (drop 4 req)) @ writenu16 e @ writenu32 (readnu32 (drop 8 req))),
                        ns1\<lparr>rst := st'\<rparr>))
                     (natpmp_mapping_request (redir E) a (if req ! 1 = 1 then IPPROTO_UDP else IPPROTO_TCP)
                        (readnu16 (drop 4 req)) (readnu16 (drop 6 req)) (readnu32 (drop 8 req)) (rst ns))
              else Some (Some (reply_head (req ! 1) 5 t), ns1))"
proof -
  have t: "take 8 (reply_head op c t @ r) = reply_head op c t" for op c t r by simp
  show ?thesis
    unfolding ProcessIncomingNATPMPPacket_def natpmp_epoch_def [symmetric] Let_def reply_head_init
      reply_head_update reply_body t rst_natpmp_epoch by presburger
qed

lemma fill_reply:
  "\<exists>c r. FillPublicAddressResponse E a (reply_head op 0 t @ replicate 24 0) = reply_head op c t @ r
     \<and> (c = 0 \<or> c = 3) \<and> length r = 24"
  unfolding FillPublicAddressResponse_def put_addr_def
  by (auto simp: reply_addr split: option.splits sum.splits)

text \<open>The result codes, whatever the backend does.\<close>

lemma natpmp_delete_code:
  "natpmp_delete_loop R sender iport proto index st = Some y \<Longrightarrow> fst y = 0 \<or> fst y = 2"
  by (erule natpmp_delete_loop.raw_induct [where P = "\<lambda>_ _ _ _ _ _ y. fst y = 0 \<or> fst y = 2", rotated])
    (fastforce split: option.splits if_splits prod.splits)

lemma search_eport_code: "fst (search_eport f first any e) \<in> {0, 2, 4}"
  by (induction f first any e rule: search_eport.induct)
    (subst search_eport.simps, auto simp: Let_def split: port_choice.splits)

lemma natpmp_request_code:
  assumes "natpmp_mapping_request R a proto iport eport lifetime st = Some (code, e, st')"
  shows "code \<in> {0, 2, 3, 4}"
proof (cases "lifetime = 0 \<or> iport = 0")
  case True
  with assms natpmp_delete_code show ?thesis
    by (fastforce simp: natpmp_mapping_request_def split: if_splits)
next
  case False
  let ?s = "search_eport (examine_port R a iport proto st) 0 False (if eport = 0 then iport else eport)"
  have "fst ?s \<in> {0, 2, 4}" by (rule search_eport_code)
  with False assms show ?thesis
    by (cases ?s) (auto simp: natpmp_mapping_request_def natpmp_map_def Let_def split: option.splits if_splits prod.splits)
qed

context redirect_backend
begin

text \<open>A mapping request keeps what belongs to other clients and what was made by PCP.\<close>

lemma natpmp_request_keeps:
  assumes R: "be_ops R = ops" and inv: "inv (fw st)"
  shows "\<exists>x. natpmp_mapping_request R a proto iport eport lifetime st = Some x \<and> inv (fw (snd (snd x)))
    \<and> {m \<in> set (mappings (fw st)). m_iaddr m \<noteq> a \<or> take 4 (m_desc m) = ''PCP ''} \<subseteq> set (mappings (fw (snd (snd x))))"
    (is "\<exists>x. _ \<and> _ \<and> ?K \<subseteq> _")
proof -
  consider (remove) "lifetime = 0" | (noport) "lifetime \<noteq> 0" "iport = 0" | (add) "lifetime \<noteq> 0" "iport \<noteq> 0" by blast
  then show ?thesis
  proof cases
    case remove
    have "\<not> natpmp_owned a iport proto m" if "take 4 (m_desc m) = ''PCP ''" for m
    proof
      assume "natpmp_owned a iport proto m"
      then have "take 4 (take 7 (m_desc m)) = take 4 ''NAT-PMP''" by (simp add: natpmp_owned_def)
      with that show False by simp
    qed
    then have "?K \<subseteq> set (filter (\<lambda>m. \<not> natpmp_owned a iport proto m) (mappings (fw st)))"
      by (auto simp: natpmp_owned_def)
    with remove natpmp_delete_spec [OF R inv, of 0 a iport proto] show ?thesis
      by (auto simp: natpmp_mapping_request_def)
  next
    case noport
    with inv show ?thesis by (auto simp: natpmp_mapping_request_def)
  next
    case add
    obtain code e st' where m: "natpmp_map R a iport proto lifetime eport st = (code, e, st')" by (metis prod_cases3)
    note spec = natpmp_map_spec [OF R inv add(2) m]
    have "?K \<subseteq> set (drop_mapping e proto (mappings (fw st)))"
      if "examine_port R a iport proto st e = Free \<or> examine_port R a iport proto st e = Replace"
      using that find_mapping_mem [OF keys_distinct [OF inv]]
      by (auto simp: examine_port_spec [OF R inv] drop_mapping_def split: if_splits option.splits)
    with spec have "?K \<subseteq> set (mappings (fw st'))" by (cases "code = 0") auto
    with spec add m show ?thesis by (auto simp: natpmp_mapping_request_def)
  qed
qed

end

end
