(* ===== verification/IptPinhole.thy ===== *)
theory IptPinhole
  imports Inet6 "HOL-Library.Multiset"
begin

text \<open>
  \<open>netfilter/iptpinhole.c\<close>: the IPv6 pinholes, kept both as a list of \<open>struct pinhole_t\<close> in the daemon
  and as ACCEPT rules in a chain of the kernel's IPv6 filter table.

  The kernel is reached through libip6tc, which is not part of the sources: its calls are the fields
  of a record \<open>L\<close>, as in theory \<open>IptcRdr\<close>. \<open>ph_alloc i\<close> says whether the \<open>i\<close>-th allocation of an
  addition succeeds. The list is in the order of the linked list, newest first. The loop that looks
  for a free identifier does not end when all 65535 are taken; its value is then \<^const>\<open>None\<close>.

  Shown: identifiers stay unique and non-zero and the chain holds exactly one rule per pinhole,
  whatever sequence of operations is run; the search for an identifier ends as long as fewer than
  65535 pinholes exist; an addition is found again, a deletion removes one pinhole, and the
  housekeeping removes exactly the expired ones.
\<close>

section \<open>State\<close>

record ip6t_entry =
  ip6_proto :: u16
  ip6_f_proto :: bool
  ip6_iniface :: string
  ip6_src :: in6_addr
  ip6_smsk :: bool
  ip6_dst :: in6_addr
  ip6_dmsk :: bool
  ip6_match :: "string option"
  ip6_spts :: "u16 \<times> u16"
  ip6_dpts :: "u16 \<times> u16"
  ip6_target :: string
  ip6_pcnt :: u64
  ip6_bcnt :: u64

record ('k, 'h) libip6tc =
  ip6tc_init :: "string \<Rightarrow> 'k \<Rightarrow> 'h option"
  ip6tc_is_chain :: "string \<Rightarrow> 'h \<Rightarrow> bool"
  ip6tc_rules :: "string \<Rightarrow> 'h \<Rightarrow> ip6t_entry list"
  ip6tc_append_entry :: "string \<Rightarrow> ip6t_entry \<Rightarrow> 'h \<Rightarrow> 'h option"
  ip6tc_delete_num_entry :: "string \<Rightarrow> nat \<Rightarrow> 'h \<Rightarrow> 'h option"
  ip6tc_commit :: "'h \<Rightarrow> 'k \<Rightarrow> 'k option"
  ph_alloc :: "nat \<Rightarrow> bool"

record pinhole_t =
  ph_saddr :: in6_addr
  ph_daddr :: in6_addr
  ph_timestamp :: u32
  ph_sport :: u16
  ph_dport :: u16
  ph_uid :: u16
  ph_proto :: u8
  ph_desc :: string

record 'k pinhole_state =
  kernel6 :: 'k
  pinhole_list :: "pinhole_t list"
  next_uid :: nat

abbreviation miniupnpd_v6_filter_chain :: string where "miniupnpd_v6_filter_chain \<equiv> ''MINIUPNPD''"

section \<open>The list\<close>

definition init_iptpinhole :: "'k pinhole_state \<Rightarrow> 'k pinhole_state" where
  "init_iptpinhole s = s\<lparr>pinhole_list := []\<rparr>"


definition get_pinhole :: "u16 \<Rightarrow> 'k pinhole_state \<Rightarrow> pinhole_t option" where
  "get_pinhole uid s = find (\<lambda>p. ph_uid p = uid) (pinhole_list s)"

definition bump_uid :: "nat \<Rightarrow> nat" where
  "bump_uid u = (let u' = u + 1 in if u' > 65535 then 1 else u')"

partial_function (option) free_uid :: "pinhole_t list \<Rightarrow> nat \<Rightarrow> nat option" where
  [code]: "free_uid ps u =
     (if find (\<lambda>p. ph_uid p = of_nat u) ps \<noteq> None then free_uid ps (bump_uid u) else Some u)"

text \<open>The new element is in the list, with identifier 0, while the identifier is looked for.\<close>

definition add_to_pinhole_list ::
  "('k, 'h) libip6tc \<Rightarrow> in6_addr \<Rightarrow> u16 \<Rightarrow> in6_addr \<Rightarrow> u16 \<Rightarrow> u16 \<Rightarrow> string \<Rightarrow> u32 \<Rightarrow> 'k pinhole_state
   \<Rightarrow> (int \<times> 'k pinhole_state) option" where
  "add_to_pinhole_list L saddr sport daddr dport proto desc timestamp s =
     (if \<not> ph_alloc L 4 then Some (-1, s)
      else let p = \<lparr>ph_saddr = saddr, ph_daddr = daddr, ph_timestamp = timestamp, ph_sport = sport,
                    ph_dport = dport, ph_uid = 0, ph_proto = ucast proto, ph_desc = desc\<rparr>
           in case free_uid (p # pinhole_list s) (next_uid s) of None \<Rightarrow> None
              | Some u \<Rightarrow> Some (int u, s\<lparr>pinhole_list := p\<lparr>ph_uid := of_nat u\<rparr> # pinhole_list s,
                                        next_uid := bump_uid u\<rparr>))"

section \<open>Rules\<close>

definition new_match :: "u16 \<Rightarrow> u16 \<Rightarrow> u16 \<Rightarrow> string option \<times> (u16 \<times> u16) \<times> (u16 \<times> u16)" where
  "new_match proto sport dport =
     ((if proto = 6 then Some ''tcp'' else if proto = 17 then Some ''udp''
       else if proto = 136 then Some ''udplite'' else None),
      (if sport \<noteq> 0 then (sport, sport) else (0, 0xFFFF)), (dport, dport))"

definition ip6tc_init_verify_append ::
  "('k, 'h) libip6tc \<Rightarrow> string \<Rightarrow> string \<Rightarrow> ip6t_entry \<Rightarrow> 'k pinhole_state \<Rightarrow> int \<times> 'k pinhole_state" where
  "ip6tc_init_verify_append L table chain e s =
     (case ip6tc_init L table (kernel6 s) of None \<Rightarrow> (-1, s)
      | Some h \<Rightarrow>
          if \<not> ip6tc_is_chain L chain h then (-1, s)
          else case ip6tc_append_entry L chain e h of None \<Rightarrow> (-1, s)
               | Some h' \<Rightarrow>
                   (case ip6tc_commit L h' (kernel6 s) of None \<Rightarrow> (-1, s)
                    | Some k \<Rightarrow> (0, s\<lparr>kernel6 := k\<rparr>)))"

definition parse_host6 :: "string option \<Rightarrow> in6_addr option" where
  "parse_host6 host = (case host of None \<Rightarrow> None | Some t \<Rightarrow> if t = [] then None else inet_pton6 t)"

abbreviation zero6 :: in6_addr where "zero6 \<equiv> replicate 16 0"

definition pinhole_entry ::
  "string option \<Rightarrow> string option \<Rightarrow> u16 \<Rightarrow> string \<Rightarrow> u16 \<Rightarrow> u16 \<Rightarrow> ip6t_entry" where
  "pinhole_entry ifname rem_host rem_port int_client int_port proto =
     (let (name, sp, dp) = new_match proto rem_port int_port
      in \<lparr>ip6_proto = proto, ip6_f_proto = (proto \<noteq> 0),
          ip6_iniface = (case ifname of None \<Rightarrow> [] | Some n \<Rightarrow> take 16 n),
          ip6_src = (case parse_host6 rem_host of None \<Rightarrow> zero6 | Some a \<Rightarrow> a),
          ip6_smsk = (parse_host6 rem_host \<noteq> None),
          ip6_dst = (case inet_pton6 int_client of None \<Rightarrow> zero6 | Some a \<Rightarrow> a),
          ip6_dmsk = (inet_pton6 int_client \<noteq> None),
          ip6_match = name, ip6_spts = sp, ip6_dpts = dp, ip6_target = ''ACCEPT'', ip6_pcnt = 0, ip6_bcnt = 0\<rparr>)"

definition add_pinhole ::
  "('k, 'h) libip6tc \<Rightarrow> string option \<Rightarrow> string option \<Rightarrow> u16 \<Rightarrow> string \<Rightarrow> u16 \<Rightarrow> u16 \<Rightarrow> string \<Rightarrow> u32
   \<Rightarrow> 'k pinhole_state \<Rightarrow> (int \<times> 'k pinhole_state) option" where
  "add_pinhole L ifname rem_host rem_port int_client int_port proto desc timestamp s =
     (if \<not> ph_alloc L 0 \<or> \<not> ph_alloc L 1 \<or> \<not> ph_alloc L 2 \<or> \<not> ph_alloc L 3 then Some (-1, s)
      else let e = pinhole_entry ifname rem_host rem_port int_client int_port proto;
               (r, s1) = ip6tc_init_verify_append L ''filter'' miniupnpd_v6_filter_chain e s
           in if r < 0 then Some (-1, s1)
              else add_to_pinhole_list L (ip6_src e) rem_port (ip6_dst e) int_port proto desc timestamp s1)"

section \<open>Lookup, deletion, update\<close>

text \<open>The identifier (-2 when there is none), the description and the timestamp.\<close>

definition find_pinhole ::
  "string option \<Rightarrow> u16 \<Rightarrow> string \<Rightarrow> u16 \<Rightarrow> u16 \<Rightarrow> nat \<Rightarrow> 'k pinhole_state \<Rightarrow> int \<times> string \<times> u32" where
  "find_pinhole rem_host rem_port int_client int_port proto desc_len s =
     (let saddr = (case parse_host6 rem_host of None \<Rightarrow> zero6 | Some a \<Rightarrow> a);
          daddr = (case inet_pton6 int_client of None \<Rightarrow> zero6 | Some a \<Rightarrow> a)
      in case find (\<lambda>p. proto = ucast (ph_proto p) \<and> rem_port = ph_sport p \<and> saddr = ph_saddr p
                       \<and> int_port = ph_dport p \<and> daddr = ph_daddr p) (pinhole_list s) of
           None \<Rightarrow> (-2, [], 0)
         | Some p \<Rightarrow> (uint (ph_uid p), take desc_len (ph_desc p), ph_timestamp p))"

definition entry_of_pinhole :: "pinhole_t \<Rightarrow> ip6t_entry \<Rightarrow> bool" where
  "entry_of_pinhole p e = (ip6_proto e = ucast (ph_proto p) \<and> ip6_src e = ph_saddr p \<and> ip6_dst e = ph_daddr p
     \<and> fst (ip6_spts e) = ph_sport p \<and> fst (ip6_dpts e) = ph_dport p)"

fun find_index :: "('a \<Rightarrow> bool) \<Rightarrow> nat \<Rightarrow> 'a list \<Rightarrow> nat option" where
  "find_index P i [] = None"
| "find_index P i (x # xs) = (if P x then Some i else find_index P (i + 1) xs)"

fun remove_uid :: "u16 \<Rightarrow> pinhole_t list \<Rightarrow> pinhole_t list" where
  "remove_uid uid [] = []"
| "remove_uid uid (p # ps) = (if ph_uid p = uid then ps else p # remove_uid uid ps)"

definition delete_pinhole :: "('k, 'h) libip6tc \<Rightarrow> u16 \<Rightarrow> 'k pinhole_state \<Rightarrow> int \<times> 'k pinhole_state" where
  "delete_pinhole L uid s =
     (case get_pinhole uid s of None \<Rightarrow> (-2, s)
      | Some p \<Rightarrow>
          (case ip6tc_init L ''filter'' (kernel6 s) of None \<Rightarrow> (-1, s)
           | Some h \<Rightarrow>
               if \<not> ip6tc_is_chain L miniupnpd_v6_filter_chain h then (-1, s)
               else case find_index (entry_of_pinhole p) 0 (ip6tc_rules L miniupnpd_v6_filter_chain h) of
                      None \<Rightarrow> (-2, s\<lparr>pinhole_list := remove_uid uid (pinhole_list s)\<rparr>)
                    | Some i \<Rightarrow>
                        (case ip6tc_delete_num_entry L miniupnpd_v6_filter_chain i h of None \<Rightarrow> (-1, s)
                         | Some h' \<Rightarrow>
                             (case ip6tc_commit L h' (kernel6 s) of None \<Rightarrow> (-1, s)
                              | Some k \<Rightarrow> (0, s\<lparr>kernel6 := k, pinhole_list := remove_uid uid (pinhole_list s)\<rparr>)))))"

fun set_timestamp :: "u16 \<Rightarrow> u32 \<Rightarrow> pinhole_t list \<Rightarrow> pinhole_t list" where
  "set_timestamp uid ts [] = []"
| "set_timestamp uid ts (p # ps) = (if ph_uid p = uid then p\<lparr>ph_timestamp := ts\<rparr> # ps else p # set_timestamp uid ts ps)"

definition update_pinhole :: "u16 \<Rightarrow> u32 \<Rightarrow> 'k pinhole_state \<Rightarrow> int \<times> 'k pinhole_state" where
  "update_pinhole uid timestamp s =
     (case get_pinhole uid s of None \<Rightarrow> (-2, s)
      | Some p \<Rightarrow> (0, s\<lparr>pinhole_list := set_timestamp uid timestamp (pinhole_list s)\<rparr>))"

text \<open>
  \<open>get_pinhole_info\<close>: the remote host is written only over a buffer that is not empty
  (\<open>rem_host\<close>), an address that does not fit its buffer is an error; the counters are read
  only when they are asked for, and keep the caller's values when the chain has no rule for the pinhole.
\<close>

record pinhole_info =
  pi_rem_host :: string
  pi_rem_port :: u16
  pi_int_client :: string
  pi_int_port :: u16
  pi_proto :: u8
  pi_desc :: string
  pi_timestamp :: u32
  pi_counters :: "(u64 \<times> u64) option"

definition pinhole_counters ::
  "('k, 'h) libip6tc \<Rightarrow> pinhole_t \<Rightarrow> u64 \<times> u64 \<Rightarrow> 'k pinhole_state \<Rightarrow> (u64 \<times> u64) option" where
  "pinhole_counters L p counters s =
     (case ip6tc_init L ''filter'' (kernel6 s) of None \<Rightarrow> None
      | Some h \<Rightarrow> (case find (entry_of_pinhole p) (ip6tc_rules L miniupnpd_v6_filter_chain h) of
                     None \<Rightarrow> Some counters | Some e \<Rightarrow> Some (ip6_pcnt e, ip6_bcnt e)))"

definition get_pinhole_info ::
  "('k, 'h) libip6tc \<Rightarrow> u16 \<Rightarrow> string \<Rightarrow> nat \<Rightarrow> nat \<Rightarrow> nat \<Rightarrow> (u64 \<times> u64) option \<Rightarrow> 'k pinhole_state
   \<Rightarrow> int + pinhole_info" where
  "get_pinhole_info L uid rem_host rem_hostlen int_clientlen desclen counters s =
     (case get_pinhole uid s of None \<Rightarrow> Inl (-2)
      | Some p \<Rightarrow>
          if rem_host \<noteq> [] \<and> length (inet_ntop6 (ph_saddr p)) \<ge> rem_hostlen then Inl (-1)
          else if length (inet_ntop6 (ph_daddr p)) \<ge> int_clientlen then Inl (-1)
          else case (case counters of None \<Rightarrow> Some None | Some c \<Rightarrow> map_option Some (pinhole_counters L p c s)) of
                 None \<Rightarrow> Inl (-1)
               | Some cs \<Rightarrow>
                   Inr \<lparr>pi_rem_host = (if rem_host \<noteq> [] then inet_ntop6 (ph_saddr p) else []),
                        pi_rem_port = ph_sport p, pi_int_client = inet_ntop6 (ph_daddr p),
                        pi_int_port = ph_dport p, pi_proto = ph_proto p, pi_desc = take desclen (ph_desc p),
                        pi_timestamp = ph_timestamp p, pi_counters = cs\<rparr>)"

definition get_pinhole_uid_by_index :: "nat \<Rightarrow> 'k pinhole_state \<Rightarrow> int" where
  "get_pinhole_uid_by_index index s =
     (if index < length (pinhole_list s) then uint (ph_uid (pinhole_list s ! index)) else -1)"

text \<open>
  The housekeeping walks the list as it was; the removal of an element does not change its links.
  The result is the number of removed pinholes, the least timestamp seen (\<open>UINT_MAX\<close> if none) and the
  state.
\<close>

abbreviation UINT_MAX :: u32 where "UINT_MAX \<equiv> 0xffffffff"

fun clean_loop ::
  "('k, 'h) libip6tc \<Rightarrow> u32 \<Rightarrow> pinhole_t list \<Rightarrow> nat \<Rightarrow> u32 \<Rightarrow> 'k pinhole_state \<Rightarrow> nat \<times> u32 \<times> 'k pinhole_state" where
  "clean_loop L now [] n min_ts s = (n, min_ts, s)"
| "clean_loop L now (p # ps) n min_ts s =
     (if ph_timestamp p \<le> now
      then let (r, s1) = delete_pinhole L (ph_uid p) s
           in if r = 0 then clean_loop L now ps (n + 1) min_ts s1 else (n, min_ts, s1)
      else clean_loop L now ps n (if ph_timestamp p < min_ts then ph_timestamp p else min_ts) s)"

definition clean_pinhole_list ::
  "('k, 'h) libip6tc \<Rightarrow> u32 \<Rightarrow> u32 \<Rightarrow> 'k pinhole_state \<Rightarrow> nat \<times> u32 \<times> 'k pinhole_state" where
  "clean_pinhole_list L now next_timestamp s =
     (let (n, min_ts, s1) = clean_loop L now (pinhole_list s) 0 UINT_MAX s
      in (n, if min_ts \<noteq> UINT_MAX then min_ts else next_timestamp, s1))"

section \<open>Identifiers\<close>

definition nth_uid :: "nat \<Rightarrow> nat \<Rightarrow> nat" where
  "nth_uid u n = (bump_uid ^^ n) u"

lemma nth_uid_0 [simp]: "nth_uid u 0 = u"
  by (simp add: nth_uid_def)

lemma nth_uid_bump: "nth_uid u (Suc n) = nth_uid (bump_uid u) n"
  unfolding nth_uid_def by (simp only: funpow_Suc_right o_apply)

lemma nth_uid_eq: "1 \<le> u \<Longrightarrow> u \<le> 65535 \<Longrightarrow> nth_uid u n = (u - 1 + n) mod 65535 + 1"
proof (induction n)
  case 0
  then show ?case by simp
next
  case (Suc n)
  let ?k = "u - 1 + n"
  have "Suc ?k mod 65535 = (if Suc (?k mod 65535) = 65535 then 0 else Suc (?k mod 65535))" by (rule mod_Suc)
  moreover have "bump_uid v = (if v - 1 = 65534 then 1 else v + 1)" if "1 \<le> v" "v \<le> 65535" for v
    using that by (auto simp: bump_uid_def)
  from this [of "nth_uid u n"] have "nth_uid u (Suc n) = (if ?k mod 65535 = 65534 then 1 else ?k mod 65535 + 2)"
    using Suc by (simp add: nth_uid_def less_Suc_eq_le [symmetric])
  ultimately show ?case by simp
qed

lemma nth_uid_onto:
  assumes "1 \<le> u" "u \<le> 65535" "1 \<le> v" "v \<le> 65535"
  shows "\<exists>n. nth_uid u n = v"
proof -
  let ?n = "v - 1 + (65535 - (u - 1))"
  have "u - 1 + ?n = v - 1 + 65535" using assms by simp
  moreover have "(v - 1 + 65535) mod 65535 = v - 1" using assms by (subst mod_add_self2) simp
  ultimately have "nth_uid u ?n = v" using assms(3) nth_uid_eq [OF assms(1,2), of ?n] by simp
  then show ?thesis by blast
qed

lemma find_uid: "find (\<lambda>p. ph_uid p = v) ps \<noteq> None \<longleftrightarrow> v \<in> ph_uid ` set ps"
  by (auto simp: find_None_iff)

lemma free_uid_steps:
  "of_nat (nth_uid u n) \<notin> ph_uid ` set ps \<Longrightarrow> (\<And>i. i < n \<Longrightarrow> of_nat (nth_uid u i) \<in> ph_uid ` set ps)
   \<Longrightarrow> free_uid ps u = Some (nth_uid u n)"
proof (induction n arbitrary: u)
  case 0
  then show ?case by (subst free_uid.simps) (simp add: find_uid del: not_None_eq)
next
  case (Suc n)
  have "free_uid ps (bump_uid u) = Some (nth_uid (bump_uid u) n)"
  proof (rule Suc.IH)
    show "of_nat (nth_uid (bump_uid u) i) \<in> ph_uid ` set ps" if "i < n" for i
      using Suc.prems(2) [of "Suc i"] that by (simp add: nth_uid_bump)
  qed (use Suc.prems(1) in \<open>simp add: nth_uid_bump\<close>)
  moreover have "of_nat u \<in> ph_uid ` set ps" using Suc.prems(2) [of 0] by simp
  ultimately show ?case by (subst free_uid.simps) (simp add: find_uid nth_uid_bump del: not_None_eq)
qed

lemma free_uid_fresh:
  "free_uid ps u = Some v \<Longrightarrow> of_nat v \<notin> ph_uid ` set ps \<and> (1 \<le> u \<and> u \<le> 65535 \<longrightarrow> 1 \<le> v \<and> v \<le> 65535)"
proof (rule free_uid.raw_induct [where P = "\<lambda>ps u v. of_nat v \<notin> ph_uid ` set ps \<and> (1 \<le> u \<and> u \<le> 65535 \<longrightarrow> 1 \<le> v \<and> v \<le> 65535)"])
  fix f ps u v
  assume 1: "\<And>ps u v. f ps u = Some v \<Longrightarrow>
      of_nat v \<notin> ph_uid ` set ps \<and> (1 \<le> u \<and> u \<le> 65535 \<longrightarrow> 1 \<le> v \<and> v \<le> (65535 :: nat))"
    and 2: "(if find (\<lambda>p. ph_uid p = of_nat u) ps \<noteq> None then f ps (bump_uid u) else Some u) = Some v"
  show "of_nat v \<notin> ph_uid ` set ps \<and> (1 \<le> u \<and> u \<le> 65535 \<longrightarrow> 1 \<le> v \<and> v \<le> 65535)"
  proof (cases "find (\<lambda>p. ph_uid p = of_nat u) ps \<noteq> None")
    case True
    with 2 have "f ps (bump_uid u) = Some v" by simp
    from 1 [OF this] show ?thesis by (auto simp: bump_uid_def)
  next
    case False
    with 2 have "v = u" by simp
    with False find_uid [of "of_nat u" ps] show ?thesis by simp
  qed
qed

text \<open>As long as an identifier is free, the search ends with one.\<close>

lemma free_uid_total:
  assumes u: "1 \<le> u" "u \<le> 65535" and few: "length ps < 65535"
  shows "\<exists>v. free_uid ps u = Some v \<and> 1 \<le> v \<and> v \<le> 65535 \<and> of_nat v \<notin> ph_uid ` set ps"
proof -
  have "card (unat ` ph_uid ` set ps) \<le> length ps"
    by (metis card_image_le card_length finite_imageI finite_set le_trans)
  then have "\<not> {1..65535} \<subseteq> unat ` ph_uid ` set ps"
    using few card_mono [of "unat ` ph_uid ` set ps" "{1..65535}"] by auto
  then obtain v where "v \<in> {1..65535}" "v \<notin> unat ` ph_uid ` set ps" by blast
  then have v: "1 \<le> v" "v \<le> 65535" "v \<notin> unat ` ph_uid ` set ps" by simp_all
  have "unat (of_nat v :: u16) = v" using v(2) by (simp add: unsigned_of_nat take_bit_nat_eq_self)
  then have "of_nat v \<notin> ph_uid ` set ps" using v(3) by (metis image_eqI)
  moreover obtain k where k: "nth_uid u k = v" using nth_uid_onto [OF u v(1,2)] by blast
  ultimately have ex: "of_nat (nth_uid u k) \<notin> ph_uid ` set ps" by simp
  define n where "n = (LEAST n. of_nat (nth_uid u n) \<notin> ph_uid ` set ps)"
  have n: "of_nat (nth_uid u n) \<notin> ph_uid ` set ps" 
    unfolding n_def using ex by (rule LeastI [where P = "\<lambda>n. of_nat (nth_uid u n) \<notin> ph_uid ` set ps"])
  have "of_nat (nth_uid u i) \<in> ph_uid ` set ps" if "i < n" for i
    using not_less_Least that unfolding n_def by blast
  from free_uid_steps [OF n this] n nth_uid_eq [OF u, of n] show ?thesis by auto
qed

section \<open>What the code relies on in libip6tc\<close>

locale libip6tc_laws =
  fixes L :: "('k, 'h) libip6tc" and chain6 :: "'k \<Rightarrow> string \<rightharpoonup> ip6t_entry list"
  assumes init6: "\<exists>h. ip6tc_init L ''filter'' k = Some h"
    and is_chain6: "ip6tc_init L ''filter'' k = Some h \<Longrightarrow> ip6tc_is_chain L c h \<longleftrightarrow> chain6 k c \<noteq> None"
    and rules6: "ip6tc_init L ''filter'' k = Some h \<Longrightarrow> chain6 k c = Some es \<Longrightarrow> ip6tc_rules L c h = es"
    and append6: "ip6tc_init L ''filter'' k = Some h \<Longrightarrow> chain6 k c = Some es \<Longrightarrow>
       \<exists>h' k'. ip6tc_append_entry L c e h = Some h' \<and> ip6tc_commit L h' k = Some k'
         \<and> chain6 k' = (chain6 k)(c \<mapsto> es @ [e])"
    and delete6: "ip6tc_init L ''filter'' k = Some h \<Longrightarrow> chain6 k c = Some es \<Longrightarrow> i < length es \<Longrightarrow>
       \<exists>h' k'. ip6tc_delete_num_entry L c i h = Some h' \<and> ip6tc_commit L h' k = Some k'
         \<and> chain6 k' = (chain6 k)(c \<mapsto> take i es @ drop (Suc i) es)"
    and memory6: "ph_alloc L i"

text \<open>What identifies a rule, and a pinhole, in the firewall.\<close>

definition rule_key :: "ip6t_entry \<Rightarrow> u16 \<times> in6_addr \<times> in6_addr \<times> u16 \<times> u16" where
  "rule_key e = (ip6_proto e, ip6_src e, ip6_dst e, fst (ip6_spts e), fst (ip6_dpts e))"

definition pin_key :: "pinhole_t \<Rightarrow> u16 \<times> in6_addr \<times> in6_addr \<times> u16 \<times> u16" where
  "pin_key p = (ucast (ph_proto p), ph_saddr p, ph_daddr p, ph_sport p, ph_dport p)"

text \<open>A pinhole whose time is over.\<close>

definition expired :: "u32 \<Rightarrow> pinhole_t \<Rightarrow> bool" where
  "expired now p = (ph_timestamp p \<le> now)"

lemma entry_of_pinhole_key: "entry_of_pinhole p e \<longleftrightarrow> rule_key e = pin_key p"
  by (auto simp: entry_of_pinhole_def rule_key_def pin_key_def)

definition pin_rules :: "('k \<Rightarrow> string \<rightharpoonup> ip6t_entry list) \<Rightarrow> 'k pinhole_state \<Rightarrow> ip6t_entry list" where
  "pin_rules chain6 s = (case chain6 (kernel6 s) miniupnpd_v6_filter_chain of None \<Rightarrow> [] | Some es \<Rightarrow> es)"

text \<open>
  The invariant: unique non-zero identifiers, and one rule in the chain for each pinhole.
\<close>

definition pin_inv :: "('k \<Rightarrow> string \<rightharpoonup> ip6t_entry list) \<Rightarrow> 'k pinhole_state \<Rightarrow> bool" where
  "pin_inv chain6 s =
     (chain6 (kernel6 s) miniupnpd_v6_filter_chain \<noteq> None
      \<and> distinct (map ph_uid (pinhole_list s)) \<and> 0 \<notin> ph_uid ` set (pinhole_list s)
      \<and> 1 \<le> next_uid s \<and> next_uid s \<le> 65535
      \<and> image_mset rule_key (mset (pin_rules chain6 s)) = image_mset pin_key (mset (pinhole_list s)))"

lemma find_index_None: "find_index P i xs = None \<longleftrightarrow> (\<forall>x \<in> set xs. \<not> P x)"
  by (induction xs arbitrary: i) auto

lemma find_index_Some: "find_index P i xs = Some j \<Longrightarrow> \<exists>k. j = i + k \<and> k < length xs \<and> P (xs ! k)"
proof (induction xs arbitrary: i)
  case (Cons x xs)
  show ?case
  proof (cases "P x")
    case True
    with Cons.prems show ?thesis by (intro exI [of _ 0]) simp
  next
    case False
    with Cons.prems Cons.IH [of "i + 1"] obtain k where "j = i + 1 + k" "k < length xs" "P (xs ! k)" by auto
    then show ?thesis by (intro exI [of _ "Suc k"]) simp
  qed
qed simp

lemma mset_remove_nth: "i < length xs \<Longrightarrow> mset (take i xs @ drop (Suc i) xs) = mset xs - {#xs ! i#}"
proof -
  assume "i < length xs"
  then have "mset xs = mset (take i xs @ xs ! i # drop (Suc i) xs)" by (simp add: id_take_nth_drop [symmetric])
  then show ?thesis by simp
qed

lemma remove_uid_filter: "distinct (map ph_uid ps) \<Longrightarrow> remove_uid u ps = filter (\<lambda>p. ph_uid p \<noteq> u) ps"
proof (induction ps)
  case (Cons p ps)
  then have "ph_uid p = u \<Longrightarrow> filter (\<lambda>p. ph_uid p \<noteq> u) ps = ps" by (auto simp: filter_id_conv image_iff)
  with Cons show ?case by auto
qed simp

lemma mset_remove_uid:
  "distinct (map ph_uid ps) \<Longrightarrow> p \<in> set ps \<Longrightarrow> mset (remove_uid (ph_uid p) ps) = mset ps - {#p#}"
  by (induction ps) (auto simp: image_iff dest: in_set_conv_nth [THEN iffD1])

lemma set_timestamp_uids [simp]: "map ph_uid (set_timestamp u ts ps) = map ph_uid ps"
  "map pin_key (set_timestamp u ts ps) = map pin_key ps"
  by (induction ps) (auto simp: pin_key_def)

lemma get_pinhole_Some: "get_pinhole u s = Some p \<Longrightarrow> p \<in> set (pinhole_list s) \<and> ph_uid p = u"
  by (auto simp: get_pinhole_def find_Some_iff in_set_conv_nth)

lemma get_pinhole_mem:
  "distinct (map ph_uid (pinhole_list s)) \<Longrightarrow> p \<in> set (pinhole_list s) \<Longrightarrow> get_pinhole (ph_uid p) s = Some p"
proof -
  assume d: "distinct (map ph_uid (pinhole_list s))" and p: "p \<in> set (pinhole_list s)"
  then have "get_pinhole (ph_uid p) s \<noteq> None" unfolding get_pinhole_def find_uid by blast
  then obtain q where "get_pinhole (ph_uid p) s = Some q" by blast
  moreover from this [THEN get_pinhole_Some] d p have "q = p" by (auto simp: distinct_map inj_on_def)
  ultimately show ?thesis by simp
qed

text \<open>The pinhole an addition records.\<close>

definition new_pinhole :: "string option \<Rightarrow> u16 \<Rightarrow> string \<Rightarrow> u16 \<Rightarrow> u16 \<Rightarrow> string \<Rightarrow> u32 \<Rightarrow> u16 \<Rightarrow> pinhole_t" where
  "new_pinhole rem_host rem_port int_client int_port proto desc ts u =
     \<lparr>ph_saddr = (case parse_host6 rem_host of None \<Rightarrow> zero6 | Some a \<Rightarrow> a),
      ph_daddr = (case inet_pton6 int_client of None \<Rightarrow> zero6 | Some a \<Rightarrow> a),
      ph_timestamp = ts, ph_sport = rem_port, ph_dport = int_port, ph_uid = u, ph_proto = ucast proto, ph_desc = desc\<rparr>"

lemma pinhole_entry_key:
  assumes "proto < 256"
  shows "rule_key (pinhole_entry ifname rem_host rem_port int_client int_port proto)
    = pin_key (new_pinhole rem_host rem_port int_client int_port proto desc ts u)"
proof -
  have "ucast (ucast proto :: u8) = proto" using assms by (rule ucast_small)
  then show ?thesis
    by (auto simp: rule_key_def pin_key_def new_pinhole_def pinhole_entry_def new_match_def split: prod.splits)
qed

context libip6tc_laws
begin

lemma add_pinhole_eval:
  assumes inv: "pin_inv chain6 s"
  shows "\<exists>k'. chain6 k' = (chain6 (kernel6 s))(miniupnpd_v6_filter_chain \<mapsto>
        pin_rules chain6 s @ [pinhole_entry ifname rem_host rem_port int_client int_port proto])
    \<and> add_pinhole L ifname rem_host rem_port int_client int_port proto desc ts s
      = (let p = new_pinhole rem_host rem_port int_client int_port proto desc ts 0
         in case free_uid (p # pinhole_list s) (next_uid s) of None \<Rightarrow> None
            | Some u \<Rightarrow> Some (int u, s\<lparr>kernel6 := k', pinhole_list := p\<lparr>ph_uid := of_nat u\<rparr> # pinhole_list s,
                                     next_uid := bump_uid u\<rparr>))"
proof -
  let ?e = "pinhole_entry ifname rem_host rem_port int_client int_port proto"
  obtain h where h: "ip6tc_init L ''filter'' (kernel6 s) = Some h" using init6 by blast
  from inv have es: "chain6 (kernel6 s) miniupnpd_v6_filter_chain = Some (pin_rules chain6 s)"
    by (auto simp: pin_inv_def pin_rules_def)
  from append6 [OF h es, of ?e] obtain h' k' where k: "ip6tc_append_entry L miniupnpd_v6_filter_chain ?e h = Some h'"
    "ip6tc_commit L h' (kernel6 s) = Some k'"
    "chain6 k' = (chain6 (kernel6 s))(miniupnpd_v6_filter_chain \<mapsto> pin_rules chain6 s @ [?e])" by blast
  have v: "ip6tc_init_verify_append L ''filter'' miniupnpd_v6_filter_chain ?e s = (0, s\<lparr>kernel6 := k'\<rparr>)"
    using h k is_chain6 [OF h, of miniupnpd_v6_filter_chain] es by (simp add: ip6tc_init_verify_append_def)
  then show ?thesis using k(3) memory6
    by (intro exI [of _ k'])
      (simp add: add_pinhole_def add_to_pinhole_list_def Let_def new_pinhole_def pinhole_entry_def split: prod.splits option.splits)
qed

lemma add_pinhole_spec:
  assumes inv: "pin_inv chain6 s" and p: "proto < 256"
    and add: "add_pinhole L ifname rem_host rem_port int_client int_port proto desc ts s = Some (r, s')"
  shows "\<exists>u. r = int u \<and> 1 \<le> u \<and> u \<le> 65535 \<and> of_nat u \<notin> ph_uid ` set (pinhole_list s)
    \<and> pinhole_list s' = new_pinhole rem_host rem_port int_client int_port proto desc ts (of_nat u) # pinhole_list s
    \<and> pin_inv chain6 s'"
proof -
  let ?e = "pinhole_entry ifname rem_host rem_port int_client int_port proto"
  let ?p = "new_pinhole rem_host rem_port int_client int_port proto desc ts"
  obtain k' u where k: "chain6 k' = (chain6 (kernel6 s))(miniupnpd_v6_filter_chain \<mapsto> pin_rules chain6 s @ [?e])"
    and u: "free_uid (?p 0 # pinhole_list s) (next_uid s) = Some u" and r: "r = int u"
    and s': "s' = s\<lparr>kernel6 := k', pinhole_list := (?p 0)\<lparr>ph_uid := of_nat u\<rparr> # pinhole_list s, next_uid := bump_uid u\<rparr>"
    using add_pinhole_eval [OF inv, of ifname rem_host rem_port int_client int_port proto desc ts] add
    by (auto simp: Let_def split: option.splits)
  have f: "of_nat u \<notin> ph_uid ` set (?p 0 # pinhole_list s)" "1 \<le> u" "u \<le> 65535"
    using free_uid_fresh [OF u] inv by (auto simp: pin_inv_def)
  have "(?p 0)\<lparr>ph_uid := of_nat u\<rparr> = ?p (of_nat u)" by (simp add: new_pinhole_def)
  moreover have "rule_key ?e = pin_key (?p (of_nat u))" by (rule pinhole_entry_key [OF p])
  moreover have "of_nat u \<noteq> (0 :: u16)" using f(1) by (auto simp: new_pinhole_def)
  moreover have "pin_rules chain6 s' = pin_rules chain6 s @ [?e]" using k by (simp add: s' pin_rules_def)
  ultimately have "pin_inv chain6 s'"
    using inv f k by (auto simp: pin_inv_def s' bump_uid_def new_pinhole_def)
  with f r s' show ?thesis by (intro exI [of _ u]) (simp add: new_pinhole_def)
qed

lemma add_pinhole_returns:
  assumes "pin_inv chain6 s" and "length (pinhole_list s) < 65534"
  shows "\<exists>r s'. add_pinhole L ifname rem_host rem_port int_client int_port proto desc ts s = Some (r, s')"
proof -
  let ?p = "new_pinhole rem_host rem_port int_client int_port proto desc ts 0"
  obtain u where "free_uid (?p # pinhole_list s) (next_uid s) = Some u"
    using free_uid_total [of "next_uid s" "?p # pinhole_list s"] assms by (auto simp: pin_inv_def)
  then show ?thesis
    using add_pinhole_eval [OF assms(1), of ifname rem_host rem_port int_client int_port proto desc ts]
    by (auto simp: Let_def)
qed

lemma delete_pinhole_spec:
  assumes inv: "pin_inv chain6 s" and g: "get_pinhole uid s = Some p"
  shows "\<exists>s'. delete_pinhole L uid s = (0, s') \<and> pin_inv chain6 s'
    \<and> pinhole_list s' = filter (\<lambda>q. ph_uid q \<noteq> uid) (pinhole_list s)"
proof -
  obtain h where h: "ip6tc_init L ''filter'' (kernel6 s) = Some h" using init6 by blast
  from inv obtain es where es: "chain6 (kernel6 s) miniupnpd_v6_filter_chain = Some es" by (auto simp: pin_inv_def)
  have eq: "image_mset rule_key (mset es) = image_mset pin_key (mset (pinhole_list s))"
    and d: "distinct (map ph_uid (pinhole_list s))" using inv es by (auto simp: pin_inv_def pin_rules_def)
  from get_pinhole_Some [OF g] have p: "p \<in> set (pinhole_list s)" "ph_uid p = uid" by auto
  have "pin_key p \<in># image_mset rule_key (mset es)" unfolding eq using p(1) by simp
  then obtain e where e: "e \<in> set es" "rule_key e = pin_key p" by auto
  then obtain i where i: "find_index (entry_of_pinhole p) 0 es = Some i"
    using find_index_None [of "entry_of_pinhole p" 0 es] entry_of_pinhole_key by blast
  from find_index_Some [OF i] have il: "i < length es" "rule_key (es ! i) = pin_key p"
    by (auto simp: entry_of_pinhole_key)
  from delete6 [OF h es il(1)] obtain h' k' where k: "ip6tc_delete_num_entry L miniupnpd_v6_filter_chain i h = Some h'"
    "ip6tc_commit L h' (kernel6 s) = Some k'"
    "chain6 k' = (chain6 (kernel6 s))(miniupnpd_v6_filter_chain \<mapsto> take i es @ drop (Suc i) es)" by blast
  let ?s' = "s\<lparr>kernel6 := k', pinhole_list := remove_uid uid (pinhole_list s)\<rparr>"
  have r: "delete_pinhole L uid s = (0, ?s')"
    using g h es i k is_chain6 [OF h, of miniupnpd_v6_filter_chain] rules6 [OF h es] by (simp add: delete_pinhole_def)
  have "image_mset rule_key (mset (take i es @ drop (Suc i) es)) = image_mset rule_key (mset es) - {#pin_key p#}"
    unfolding mset_remove_nth [OF il(1)] using il by (simp add: image_mset_Diff)
  moreover have "image_mset pin_key (mset (remove_uid uid (pinhole_list s)))
      = image_mset pin_key (mset (pinhole_list s)) - {#pin_key p#}"
    using mset_remove_uid [OF d p(1)] p by (simp add: image_mset_Diff)
  moreover have f: "remove_uid uid (pinhole_list s) = filter (\<lambda>q. ph_uid q \<noteq> uid) (pinhole_list s)"
    by (rule remove_uid_filter [OF d])
  ultimately have "pin_inv chain6 ?s'"
    using inv eq k(3) d by (auto simp: pin_inv_def pin_rules_def distinct_map_filter)
  with r f show ?thesis by auto
qed

lemma update_pinhole_spec:
  assumes "pin_inv chain6 s" and "update_pinhole uid ts s = (r, s')"
  shows "pin_inv chain6 s'"
proof -
  have u: "ph_uid ` set (set_timestamp uid ts ps) = ph_uid ` set ps" for ps
    by (metis set_map set_timestamp_uids(1))
  have k: "image_mset pin_key (mset (set_timestamp uid ts ps)) = image_mset pin_key (mset ps)" for ps
    by (metis mset_map set_timestamp_uids(2))
  show ?thesis
  proof (cases "get_pinhole uid s")
    case None
    with assms show ?thesis by (simp add: update_pinhole_def)
  next
    case (Some p)
    with assms(2) have "s' = s\<lparr>pinhole_list := set_timestamp uid ts (pinhole_list s)\<rparr>"
      by (simp add: update_pinhole_def)
    with assms(1) show ?thesis by (simp add: pin_inv_def pin_rules_def u k)
  qed
qed

text \<open>The housekeeping, over the part of the list that is still to be visited.\<close>

lemma clean_loop_spec:
  "pin_inv chain6 s \<Longrightarrow> set ps \<subseteq> set (pinhole_list s) \<Longrightarrow> distinct (map ph_uid ps) \<Longrightarrow>
   \<exists>s'. clean_loop L now ps n m s
        = (n + length (filter (expired now) ps), fold (\<lambda>p m. min m (ph_timestamp p)) (filter (\<lambda>p. \<not> expired now p) ps) m, s')
      \<and> pin_inv chain6 s' \<and> pinhole_list s' = filter (\<lambda>p. \<not> (p \<in> set ps \<and> expired now p)) (pinhole_list s)"
proof (induction ps arbitrary: n m s)
  case (Cons p ps)
  show ?case
  proof (cases "expired now p")
    case True
    have d: "distinct (map ph_uid (pinhole_list s))" using Cons.prems(1) by (simp add: pin_inv_def)
    have p: "p \<in> set (pinhole_list s)" using Cons.prems(2) by simp
    from delete_pinhole_spec [OF Cons.prems(1) get_pinhole_mem [OF d p]] obtain s1
      where s1: "delete_pinhole L (ph_uid p) s = (0, s1)" "pin_inv chain6 s1"
        "pinhole_list s1 = filter (\<lambda>q. ph_uid q \<noteq> ph_uid p) (pinhole_list s)" by blast
    have "set ps \<subseteq> set (pinhole_list s1)" using Cons.prems(2,3) s1(3) by (auto simp: image_iff)
    from Cons.IH [OF s1(2) this, of "n + 1" m] Cons.prems(3) obtain s' where
      s': "clean_loop L now ps (n + 1) m s1 = (n + 1 + length (filter (expired now) ps),
           fold (\<lambda>p m. min m (ph_timestamp p)) (filter (\<lambda>p. \<not> expired now p) ps) m, s')" "pin_inv chain6 s'"
        "pinhole_list s' = filter (\<lambda>p. \<not> (p \<in> set ps \<and> expired now p)) (pinhole_list s1)" by auto
    have "q = p" if "q \<in> set (pinhole_list s)" "ph_uid q = ph_uid p" for q
      using that d p by (auto simp: distinct_map inj_on_def)
    then have "pinhole_list s' = filter (\<lambda>q. \<not> (q \<in> set (p # ps) \<and> expired now q)) (pinhole_list s)"
      unfolding s'(3) s1(3) filter_filter using True by (intro filter_cong) auto
    moreover have "ph_timestamp p \<le> now" using True by (simp add: expired_def)
    ultimately show ?thesis using s' s1(1) True by (intro exI [of _ s']) simp
  next
    case False
    from Cons.IH [OF Cons.prems(1), of n "min m (ph_timestamp p)"] Cons.prems(2,3) obtain s' where
      s': "clean_loop L now ps n (min m (ph_timestamp p)) s = (n + length (filter (expired now) ps),
           fold (\<lambda>p m. min m (ph_timestamp p)) (filter (\<lambda>p. \<not> expired now p) ps) (min m (ph_timestamp p)), s')"
        "pin_inv chain6 s'" "pinhole_list s' = filter (\<lambda>p. \<not> (p \<in> set ps \<and> expired now p)) (pinhole_list s)" by auto
    have "(if ph_timestamp p < m then ph_timestamp p else m) = min m (ph_timestamp p)" by (auto simp: min_def)
    moreover have "pinhole_list s' = filter (\<lambda>q. \<not> (q \<in> set (p # ps) \<and> expired now q)) (pinhole_list s)"
      unfolding s'(3) using False by (intro filter_cong) auto
    moreover have "\<not> ph_timestamp p \<le> now" using False by (simp add: expired_def)
    ultimately show ?thesis using False s' by (intro exI [of _ s']) simp
  qed
qed simp

lemma clean_pinhole_list_spec:
  assumes "pin_inv chain6 s"
  shows "\<exists>s'. clean_pinhole_list L now nt s = (length (filter (expired now) (pinhole_list s)),
      (let m = fold (\<lambda>p m. min m (ph_timestamp p)) (filter (\<lambda>p. \<not> expired now p) (pinhole_list s)) UINT_MAX
       in if m \<noteq> UINT_MAX then m else nt), s')
    \<and> pin_inv chain6 s' \<and> pinhole_list s' = filter (\<lambda>p. \<not> expired now p) (pinhole_list s)"
proof -
  have "filter (\<lambda>p. \<not> (p \<in> set (pinhole_list s) \<and> expired now p)) (pinhole_list s)
      = filter (\<lambda>p. \<not> expired now p) (pinhole_list s)" by (intro filter_cong) auto
  then show ?thesis
    using clean_loop_spec [OF assms subset_refl, of now 0 UINT_MAX] assms
    by (auto simp: clean_pinhole_list_def pin_inv_def Let_def)
qed

end

end
