(* ===== verification/IptPinholeProps.thy ===== *)
theory IptPinholeProps
  imports IptPinhole
begin

text \<open>
  The pinhole list as a state machine, and the properties of \<open>iptpinhole.c\<close> over it: every operation
  of the module is a step, and what the theorems say holds in every state the steps reach.
\<close>

section \<open>Steps\<close>

inductive pinhole_step :: "('k, 'h) libip6tc \<Rightarrow> 'k pinhole_state \<Rightarrow> 'k pinhole_state \<Rightarrow> bool"
  for L :: "('k, 'h) libip6tc" where
  step_add: "proto < 256 \<Longrightarrow>
     add_pinhole L ifname rem_host rem_port int_client int_port proto desc ts s = Some (r, s') \<Longrightarrow> pinhole_step L s s'"
| step_delete: "delete_pinhole L uid s = (r, s') \<Longrightarrow> pinhole_step L s s'"
| step_update: "update_pinhole uid ts s = (r, s') \<Longrightarrow> pinhole_step L s s'"
| step_clean: "clean_pinhole_list L now nt s = (n, nt', s') \<Longrightarrow> pinhole_step L s s'"

inductive_cases pinhole_stepE: "pinhole_step L s s'"

text \<open>The start: an empty list, an empty chain, and the first identifier.\<close>

definition pinhole_start :: "('k \<Rightarrow> string \<rightharpoonup> ip6t_entry list) \<Rightarrow> 'k pinhole_state \<Rightarrow> bool" where
  "pinhole_start chain6 s =
     (chain6 (kernel6 s) miniupnpd_v6_filter_chain = Some [] \<and> pinhole_list s = [] \<and> next_uid s = 1)"

abbreviation pinhole_reach :: "('k, 'h) libip6tc \<Rightarrow> 'k pinhole_state \<Rightarrow> 'k pinhole_state \<Rightarrow> bool" where
  "pinhole_reach L \<equiv> (pinhole_step L)\<^sup>*\<^sup>*"

lemma pinhole_start_inv: "pinhole_start chain6 s \<Longrightarrow> pin_inv chain6 s"
  by (simp add: pinhole_start_def pin_inv_def pin_rules_def)

lemma delete_absent: "get_pinhole uid s = None \<Longrightarrow> delete_pinhole L uid s = (-2, s)"
  by (simp add: delete_pinhole_def)

context libip6tc_laws
begin

lemma pinhole_step_inv: "pinhole_step L s s' \<Longrightarrow> pin_inv chain6 s \<Longrightarrow> pin_inv chain6 s'"
proof (induction rule: pinhole_step.induct)
  case (step_delete uid s r s')
  then show ?case using delete_pinhole_spec [of s uid] delete_absent [of uid s L]
    by (cases "get_pinhole uid s") auto
next
  case (step_clean now nt s n nt' s')
  then show ?case using clean_pinhole_list_spec [of s now nt] by auto
qed (use add_pinhole_spec update_pinhole_spec in blast)+

lemma pinhole_reach_inv: "pinhole_reach L s s' \<Longrightarrow> pin_inv chain6 s \<Longrightarrow> pin_inv chain6 s'"
  by (induction rule: rtranclp_induct) (auto intro: pinhole_step_inv)

text \<open>What an addition records is what a search finds.\<close>

lemma find_after_add:
  assumes inv: "pin_inv chain6 s" and p: "proto < 256"
    and add: "add_pinhole L ifname rem_host rem_port int_client int_port proto desc ts s = Some (r, s')"
  shows "find_pinhole rem_host rem_port int_client int_port proto n s' = (r, take n desc, ts)"
proof -
  from add_pinhole_spec [OF inv p add] obtain u where u: "r = int u" "u \<le> 65535"
    "pinhole_list s' = new_pinhole rem_host rem_port int_client int_port proto desc ts (of_nat u) # pinhole_list s" by blast
  have "uint (of_nat u :: u16) = int u" using u(2) by (simp add: unsigned_of_nat take_bit_nat_eq_self)
  moreover have "ucast (ucast proto :: u8) = proto" using p by (rule ucast_small)
  ultimately show ?thesis using u(1,3) by (simp add: find_pinhole_def new_pinhole_def)
qed

end

section \<open>The library as a list of chains\<close>

text \<open>
  An instance of the library: the table is a map from chain names to rules, a handle is a copy of it,
  a commit installs the copy.
\<close>

definition list_libip6tc :: "((string \<rightharpoonup> ip6t_entry list), (string \<rightharpoonup> ip6t_entry list)) libip6tc" where
  "list_libip6tc = \<lparr>
     ip6tc_init = (\<lambda>table k. if table = ''filter'' then Some k else None),
     ip6tc_is_chain = (\<lambda>c h. h c \<noteq> None),
     ip6tc_rules = (\<lambda>c h. case h c of None \<Rightarrow> [] | Some es \<Rightarrow> es),
     ip6tc_append_entry = (\<lambda>c e h. case h c of None \<Rightarrow> None | Some es \<Rightarrow> Some (h(c \<mapsto> es @ [e]))),
     ip6tc_delete_num_entry = (\<lambda>c i h. case h c of None \<Rightarrow> None
        | Some es \<Rightarrow> if i < length es then Some (h(c \<mapsto> take i es @ drop (Suc i) es)) else None),
     ip6tc_commit = (\<lambda>h k. Some h),
     ph_alloc = (\<lambda>i. True)\<rparr>"

interpretation lip: libip6tc_laws list_libip6tc "\<lambda>k. k"
  by unfold_locales (auto simp: list_libip6tc_def)

definition demo_start6 :: "(string \<rightharpoonup> ip6t_entry list) pinhole_state" where
  "demo_start6 = init_iptpinhole \<lparr>kernel6 = [miniupnpd_v6_filter_chain \<mapsto> []], pinhole_list = [], next_uid = 1\<rparr>"

lemma demo_start6 [simp]: "pinhole_start (\<lambda>k. k) demo_start6" "pinhole_list demo_start6 = []"
  by (simp_all add: demo_start6_def pinhole_start_def init_iptpinhole_def)

text \<open>A start state with one pinhole added.\<close>

lemma demo_one:
  "\<exists>s. pinhole_reach list_libip6tc demo_start6 s
     \<and> (\<exists>u. pinhole_list s = [new_pinhole None 0 ''fd00::2'' 8080 6 ''cam'' 100 u])"
proof -
  have inv: "pin_inv (\<lambda>k. k) demo_start6" by (rule pinhole_start_inv) simp
  obtain r s where a: "add_pinhole list_libip6tc (Some ''eth0'') None 0 ''fd00::2'' 8080 6 ''cam'' 100 demo_start6 = Some (r, s)"
    using lip.add_pinhole_returns [OF inv, of "Some ''eth0''" None 0 "''fd00::2''" 8080 6 "''cam''" 100] by auto
  with lip.add_pinhole_spec [OF inv _ a] have "\<exists>u. pinhole_list s = [new_pinhole None 0 ''fd00::2'' 8080 6 ''cam'' 100 u]"
    by auto
  moreover have "pinhole_step list_libip6tc demo_start6 s" by (rule step_add [OF _ a]) simp
  ultimately show ?thesis by blast
qed

section \<open>Properties\<close>

text \<open>
  C26: after any sequence of additions, deletions, updates and housekeeping runs that starts from an
  empty list and an empty chain, the pinhole identifiers are pairwise different and not 0, and the
  kernel chain holds exactly one rule per pinhole, with its protocol, addresses and ports.
\<close>

theorem pinhole_rules_agree:
  assumes "libip6tc_laws L chain6" and "pinhole_start chain6 s0" and "pinhole_reach L s0 s"
  shows "distinct (map ph_uid (pinhole_list s)) \<and> 0 \<notin> ph_uid ` set (pinhole_list s)
    \<and> image_mset rule_key (mset (pin_rules chain6 s)) = image_mset pin_key (mset (pinhole_list s))"
  using libip6tc_laws.pinhole_reach_inv [OF assms(1,3) pinhole_start_inv [OF assms(2)]]
  by (simp add: pin_inv_def)

theorem pinhole_rules_agree_witness:
  "\<exists>s u. pinhole_reach list_libip6tc demo_start6 s
    \<and> pinhole_list s = [new_pinhole None 0 ''fd00::2'' 8080 6 ''cam'' 100 u] \<and> u \<noteq> 0
    \<and> image_mset rule_key (mset (pin_rules (\<lambda>k. k) s)) = {# pin_key (new_pinhole None 0 ''fd00::2'' 8080 6 ''cam'' 100 u) #}"
proof -
  obtain s u where s: "pinhole_reach list_libip6tc demo_start6 s"
    "pinhole_list s = [new_pinhole None 0 ''fd00::2'' 8080 6 ''cam'' 100 u]" using demo_one by blast
  from pinhole_rules_agree [OF lip.libip6tc_laws_axioms demo_start6(1) s(1)] s show ?thesis
    by (intro exI [of _ s] exI [of _ u]) (simp add: new_pinhole_def)
qed



text \<open>
  C28: deleting an existing pinhole succeeds and removes that one only, from the list and from the
  kernel chain; afterwards its identifier is unknown.
\<close>

theorem pinhole_delete_exact:
  assumes "libip6tc_laws L chain6" and "pinhole_start chain6 s0" and "pinhole_reach L s0 s"
    and "get_pinhole uid s = Some p"
  shows "\<exists>s'. delete_pinhole L uid s = (0, s') \<and> pinhole_list s' = filter (\<lambda>q. ph_uid q \<noteq> uid) (pinhole_list s)
    \<and> image_mset rule_key (mset (pin_rules chain6 s')) = image_mset rule_key (mset (pin_rules chain6 s)) - {# pin_key p #}
    \<and> get_pinhole uid s' = None"
proof -
  have inv: "pin_inv chain6 s"
    using libip6tc_laws.pinhole_reach_inv [OF assms(1,3) pinhole_start_inv [OF assms(2)]] .
  from libip6tc_laws.delete_pinhole_spec [OF assms(1) inv assms(4)] obtain s' where
    s': "delete_pinhole L uid s = (0, s')" "pin_inv chain6 s'"
      "pinhole_list s' = filter (\<lambda>q. ph_uid q \<noteq> uid) (pinhole_list s)" by blast
  have d: "distinct (map ph_uid (pinhole_list s))" using inv by (simp add: pin_inv_def)
  from get_pinhole_Some [OF assms(4)] have p: "p \<in> set (pinhole_list s)" "ph_uid p = uid" by auto
  have "mset (pinhole_list s') = mset (pinhole_list s) - {#p#}"
    using mset_remove_uid [OF d p(1)] remove_uid_filter [OF d] p(2) s'(3) by simp
  then have "image_mset rule_key (mset (pin_rules chain6 s')) = image_mset rule_key (mset (pin_rules chain6 s)) - {# pin_key p #}"
    using inv s'(2) p(1) by (simp add: pin_inv_def image_mset_Diff)
  moreover have "get_pinhole uid s' = None" using s'(3) by (simp add: get_pinhole_def find_None_iff)
  ultimately show ?thesis using s' by blast
qed

theorem pinhole_delete_exact_witness:
  "\<exists>s s' u. pinhole_reach list_libip6tc demo_start6 s \<and> delete_pinhole list_libip6tc u s = (0, s') \<and> pinhole_list s' = []
    \<and> pinhole_list s \<noteq> []"
proof -
  obtain s u where s: "pinhole_reach list_libip6tc demo_start6 s"
    "pinhole_list s = [new_pinhole None 0 ''fd00::2'' 8080 6 ''cam'' 100 u]" using demo_one by blast
  then have "get_pinhole u s = Some (new_pinhole None 0 ''fd00::2'' 8080 6 ''cam'' 100 u)"
    by (simp add: get_pinhole_def new_pinhole_def)
  from pinhole_delete_exact [OF lip.libip6tc_laws_axioms demo_start6(1) s(1) this] obtain s' where
    "delete_pinhole list_libip6tc u s = (0, s')" "pinhole_list s' = filter (\<lambda>q. ph_uid q \<noteq> u) (pinhole_list s)" by blast
  with s show ?thesis by (intro exI [of _ s] exI [of _ s'] exI [of _ u]) (simp add: new_pinhole_def)
qed

text \<open>
  a housekeeping run at time \<open>now\<close> removes exactly the pinholes whose timestamp is not after
  \<open>now\<close>, reports how many they were, and gives the earliest remaining timestamp for the next run.
\<close>

theorem pinhole_clean_exact:
  assumes "libip6tc_laws L chain6" and "pinhole_start chain6 s0" and "pinhole_reach L s0 s"
  shows "\<exists>next_ts s'. clean_pinhole_list L now nt s = (length (filter (expired now) (pinhole_list s)), next_ts, s')
    \<and> pinhole_list s' = filter (\<lambda>p. \<not> expired now p) (pinhole_list s)
    \<and> (\<forall>p \<in> set (pinhole_list s'). ph_timestamp p \<noteq> UINT_MAX \<longrightarrow> next_ts \<le> ph_timestamp p)"
proof -
  have inv: "pin_inv chain6 s"
    using libip6tc_laws.pinhole_reach_inv [OF assms(1,3) pinhole_start_inv [OF assms(2)]] .
  have le: "fold (\<lambda>p m. min m (ph_timestamp p)) ps m \<le> m" for ps and m :: u32
  proof (induction ps arbitrary: m)
    case (Cons p ps)
    from Cons [of "min m (ph_timestamp p)"] show ?case by simp
  qed simp
  have all: "p \<in> set ps \<Longrightarrow> fold (\<lambda>p m. min m (ph_timestamp p)) ps m \<le> ph_timestamp p" for ps p and m :: u32
  proof (induction ps arbitrary: m)
    case (Cons q ps)
    then show ?case using le [of ps "min m (ph_timestamp q)"] by auto
  qed simp
  have max: "UINT_MAX \<le> t \<Longrightarrow> t = UINT_MAX" for t :: u32
  proof -
    have "UINT_MAX = - 1" by simp
    then show "UINT_MAX \<le> t \<Longrightarrow> t = UINT_MAX" using word_order.extremum_unique [of t] by metis
  qed
  define m where "m = fold (\<lambda>p m. min m (ph_timestamp p)) (filter (\<lambda>p. \<not> expired now p) (pinhole_list s)) UINT_MAX"
  from libip6tc_laws.clean_pinhole_list_spec [OF assms(1) inv, of now nt] obtain s' where
    s': "clean_pinhole_list L now nt s = (length (filter (expired now) (pinhole_list s)), if m \<noteq> UINT_MAX then m else nt, s')"
      "pinhole_list s' = filter (\<lambda>p. \<not> expired now p) (pinhole_list s)"
    unfolding m_def [symmetric] Let_def by blast
  have "ph_timestamp p \<noteq> UINT_MAX \<longrightarrow> (if m \<noteq> UINT_MAX then m else nt) \<le> ph_timestamp p" if "p \<in> set (pinhole_list s')" for p
    using that all [of p "filter (\<lambda>p. \<not> expired now p) (pinhole_list s)" UINT_MAX] max [of "ph_timestamp p"]
    unfolding m_def [symmetric] s'(2) by (cases "m = UINT_MAX") simp_all
  with s' show ?thesis by blast
qed

theorem pinhole_clean_exact_witness:
  "\<exists>s n nt s'. pinhole_reach list_libip6tc demo_start6 s \<and> clean_pinhole_list list_libip6tc 100 0 s = (1, nt, s')
    \<and> pinhole_list s' = []"
proof -
  obtain s u where s: "pinhole_reach list_libip6tc demo_start6 s"
    "pinhole_list s = [new_pinhole None 0 ''fd00::2'' 8080 6 ''cam'' 100 u]" using demo_one by blast
  from pinhole_clean_exact [OF lip.libip6tc_laws_axioms demo_start6(1) s(1), of 100 0] s show ?thesis
    by (auto simp: expired_def new_pinhole_def)
qed

end
