(* ===== verification/UpnpPinhole.thy ===== *)
theory UpnpPinhole
  imports IptPinholeProps Redirect
begin

text \<open>
  \<open>upnppinhole.c\<close>: the IPv6 firewall pinholes of the UPnP and PCP services over \<open>iptpinhole.c\<close>, and
  the IPv6 lease file.

  The settings, the clocks and the outcome of the file operations are a record \<open>E\<close>; the state has the
  pinholes and the contents of the lease file (\<^const>\<open>None\<close> when it does not exist). The build is
  one for Linux with \<open>ENABLE_LEASEFILE\<close>. A call that does not return normally has the value
  \<^const>\<open>None\<close>: the search for an identifier has no end, or \<open>lease_file6_remove\<close> dereferences the
  null pointer \<open>strchr\<close> gave it.
\<close>

record pinhole_env =
  lease_file6 :: "string option"
  ext_if_name6 :: string
  upnp_time6 :: u32
  unix_time6 :: u32
  append6_ok :: bool
  temp6_ok :: bool
  rename6_ok :: bool
  unlink6_ok :: bool

record 'k upnp6_state =
  pins :: "'k pinhole_state"
  lease6_data :: "string option"

section \<open>The lease file\<close>

definition lease6_time :: "pinhole_env \<Rightarrow> u32 \<Rightarrow> u32" where
  "lease6_time E leaseduration =
     (let timestamp = (if leaseduration > 0 then unix_time6 E + leaseduration else 0)
      in if timestamp \<noteq> 0 then timestamp - upnp_time6 E else timestamp)"

abbreviation newline :: string where "newline \<equiv> [CHR 0x0A]"

definition lease6_text :: "string \<Rightarrow> string \<Rightarrow> u16 \<Rightarrow> string \<Rightarrow> u16 \<Rightarrow> int \<Rightarrow> u32 \<Rightarrow> string \<Rightarrow> string" where
  "lease6_text proto int_client int_port rem_client rem_port uid timestamp desc =
     proto @ '';'' @ int_client @ '';'' @ dec (unat int_port) @ '';'' @ rem_client @ '';'' @ dec (unat rem_port)
     @ '';'' @ dec (unat (word_of_int uid :: u32)) @ '';'' @ dec (unat timestamp) @ '';'' @ desc @ newline"

definition lease_file6_add ::
  "pinhole_env \<Rightarrow> string option \<Rightarrow> u16 \<Rightarrow> string \<Rightarrow> u16 \<Rightarrow> u16 \<Rightarrow> int \<Rightarrow> string option \<Rightarrow> u32 \<Rightarrow> 'k upnp6_state
   \<Rightarrow> int \<times> 'k upnp6_state" where
  "lease_file6_add E rem_client rem_port int_client int_port proto uid desc leaseduration st =
     (if lease_file6 E = None then (0, st)
      else if \<not> append6_ok E then (-1, st)
      else (0, st\<lparr>lease6_data := Some ((case lease6_data st of None \<Rightarrow> [] | Some d \<Rightarrow> d)
             @ lease6_text (proto_itoa proto) int_client int_port
                 (case rem_client of None \<Rightarrow> [] | Some h \<Rightarrow> filter (\<lambda>c. schar c \<ge> 32 \<and> c \<noteq> CHR '';'') h) rem_port uid
                 (lease6_time E leaseduration)
                 (case desc of None \<Rightarrow> [] | Some t \<Rightarrow> filter (\<lambda>c. schar c \<ge> 32) t))\<rparr>))"

text \<open>The fields of a line, cut at the first seven semicolons.\<close>

record lease6_entry =
  l6_proto :: string
  l6_int_client :: string
  l6_int_port :: u16
  l6_rem_client :: string
  l6_rem_port :: u16
  l6_uid :: int
  l6_timestamp :: u32
  l6_desc :: string

definition split_semi :: "string \<Rightarrow> (string \<times> string) option" where
  "split_semi s =
     (let a = takeWhile (\<lambda>c. c \<noteq> CHR '';'') s
      in if length a < length s then Some (a, drop (length a + 1) s) else None)"

fun split_fields :: "nat \<Rightarrow> string \<Rightarrow> string list option" where
  "split_fields 0 s = Some [s]"
| "split_fields (Suc n) s =
     (case split_semi s of None \<Rightarrow> None
      | Some (a, r) \<Rightarrow> map_option ((#) a) (split_fields n r))"

definition parse_lease6 :: "string \<Rightarrow> lease6_entry option" where
  "parse_lease6 line =
     (case split_fields 7 line of
        Some [proto, int_client, int_port, rem_client, rem_port, uid, ts, desc] \<Rightarrow>
          Some \<lparr>l6_proto = proto, l6_int_client = int_client, l6_int_port = word_of_int (atoi int_port),
                l6_rem_client = rem_client, l6_rem_port = word_of_int (atoi rem_port), l6_uid = atoi uid,
                l6_timestamp = of_nat (fst (strtoul10 ts)), l6_desc = desc\<rparr>
      | _ \<Rightarrow> None)"

text \<open>
  \<open>lease_file6_update\<close> copies the file line by line; every line that is copied gets the identifier
  \<open>uid\<close>, and the newline that the description still ends with is followed by another.
\<close>

definition update6_line :: "int \<Rightarrow> u32 \<Rightarrow> string \<Rightarrow> string" where
  "update6_line uid timestamp line =
     (case parse_lease6 line of None \<Rightarrow> []
      | Some l \<Rightarrow>
          lease6_text (l6_proto l) (l6_int_client l) (l6_int_port l) (l6_rem_client l) (l6_rem_port l) uid
            (if uid = l6_uid l then timestamp else l6_timestamp l) (l6_desc l))"

text \<open>The three functions that write the file anew share the temporary file and the renaming.\<close>

definition rewrite_lease6 :: "pinhole_env \<Rightarrow> (string \<Rightarrow> string) \<Rightarrow> 'k upnp6_state \<Rightarrow> int \<times> 'k upnp6_state" where
  "rewrite_lease6 E f st =
     (case lease_file6 E of None \<Rightarrow> (0, st)
      | Some name \<Rightarrow>
          if length name + 7 > 128 then (-1, st)
          else case lease6_data st of None \<Rightarrow> (0, st)
               | Some d \<Rightarrow> if \<not> temp6_ok E then (-1, st)
                   else (0, if rename6_ok E then st\<lparr>lease6_data := Some (f d)\<rparr> else st))"

definition lease_file6_update :: "pinhole_env \<Rightarrow> int \<Rightarrow> u32 \<Rightarrow> 'k upnp6_state \<Rightarrow> int \<times> 'k upnp6_state" where
  "lease_file6_update E uid leaseduration st =
     rewrite_lease6 E (\<lambda>d. concat (map (update6_line uid (lease6_time E leaseduration)) (fgets_all 128 d))) st"

text \<open>
  \<open>lease_file6_remove\<close> by identifier: each line is copied over the start of \<open>buf2\<close>, without a final NUL,
  and cut there; what an earlier line left in \<open>buf2\<close> follows it.
\<close>

abbreviation NUL :: char where "NUL \<equiv> CHR 0x00"

definition strchr_at :: "string \<Rightarrow> nat \<Rightarrow> nat option" where
  "strchr_at buf i =
     (let j = i + length (takeWhile (\<lambda>c. c \<noteq> CHR '';'' \<and> c \<noteq> NUL) (drop i buf))
      in if j < length buf \<and> buf ! j = CHR '';'' then Some j else None)"

fun cut_fields :: "nat \<Rightarrow> nat \<Rightarrow> string \<Rightarrow> (nat \<times> string) option" where
  "cut_fields 0 p buf = Some (p, buf)"
| "cut_fields (Suc n) p buf =
     (case strchr_at buf p of None \<Rightarrow> None | Some j \<Rightarrow> cut_fields n (j + 1) (buf[j := NUL]))"

definition remove6_line :: "int \<Rightarrow> string \<Rightarrow> string \<Rightarrow> (bool \<times> string) option" where
  "remove6_line uid buf2 line =
     (case cut_fields 5 0 (line @ drop (length line) buf2) of None \<Rightarrow> None
      | Some (p, b) \<Rightarrow>
          (case strchr_at b p of None \<Rightarrow> None
           | Some j \<Rightarrow> let b' = b[j := NUL]
                       in Some (uid \<noteq> atoi (takeWhile (\<lambda>c. c \<noteq> NUL) (drop p b')), b')))"

fun remove6_lines :: "int \<Rightarrow> string \<Rightarrow> string list \<Rightarrow> string option" where
  "remove6_lines uid buf2 [] = Some []"
| "remove6_lines uid buf2 (line # ls) =
     (case remove6_line uid buf2 line of None \<Rightarrow> None
      | Some (keep, b) \<Rightarrow> map_option ((@) (if keep then line else [])) (remove6_lines uid b ls))"

definition lease6_prefix :: "string \<Rightarrow> u16 \<Rightarrow> u16 \<Rightarrow> string" where
  "lease6_prefix int_client int_port proto =
     bounded_copy 32 (proto_itoa proto @ '';'' @ int_client @ '';'' @ dec (unat int_port))"

definition remove6_data :: "string \<Rightarrow> string \<Rightarrow> u16 \<Rightarrow> u16 \<Rightarrow> int \<Rightarrow> string \<Rightarrow> string option" where
  "remove6_data buf2 int_client int_port proto uid d =
     (if uid > 0 then remove6_lines uid buf2 (fgets_all 511 d)
      else let str = lease6_prefix int_client int_port proto
           in Some (concat (filter (\<lambda>b. length b < length str \<or> take (length str) b \<noteq> str) (fgets_all 511 d))))"

text \<open>\<open>buf2\<close> is the content the local array happens to have when the function is entered.\<close>

definition lease_file6_remove ::
  "pinhole_env \<Rightarrow> string \<Rightarrow> string \<Rightarrow> u16 \<Rightarrow> u16 \<Rightarrow> int \<Rightarrow> 'k upnp6_state \<Rightarrow> (int \<times> 'k upnp6_state) option" where
  "lease_file6_remove E buf2 int_client int_port proto uid st =
     (case lease_file6 E of None \<Rightarrow> Some (0, st)
      | Some name \<Rightarrow>
          if length name + 7 > 128 then Some (-1, st)
          else case lease6_data st of None \<Rightarrow> Some (0, st)
               | Some d \<Rightarrow> if \<not> temp6_ok E then Some (-1, st)
                   else (case remove6_data buf2 int_client int_port proto uid d of None \<Rightarrow> None
                         | Some d' \<Rightarrow> Some (0, if rename6_ok E then st\<lparr>lease6_data := Some d'\<rparr> else st)))"

definition expire6_line :: "u32 \<Rightarrow> string \<Rightarrow> string" where
  "expire6_line now line =
     (case parse_lease6 line of None \<Rightarrow> []
      | Some l \<Rightarrow> if (l6_timestamp l > 0 \<and> l6_timestamp l \<le> now) \<or> l6_timestamp l \<le> 0 then [] else line)"

definition lease_file6_expire :: "pinhole_env \<Rightarrow> 'k upnp6_state \<Rightarrow> int \<times> 'k upnp6_state" where
  "lease_file6_expire E st =
     rewrite_lease6 E (\<lambda>d. concat (map (expire6_line (unix_time6 E)) (fgets_all 512 d))) st"

section \<open>Pinholes\<close>

definition upnp_find_inboundpinhole ::
  "string option \<Rightarrow> u16 \<Rightarrow> string \<Rightarrow> u16 \<Rightarrow> u16 \<Rightarrow> nat \<Rightarrow> 'k upnp6_state \<Rightarrow> int \<times> string \<times> u32" where
  "upnp_find_inboundpinhole raddr rport iaddr iport proto desc_len st =
     find_pinhole raddr rport iaddr iport proto desc_len (pins st)"

definition upnp_update_inboundpinhole ::
  "pinhole_env \<Rightarrow> u16 \<Rightarrow> u32 \<Rightarrow> 'k upnp6_state \<Rightarrow> int \<times> 'k upnp6_state" where
  "upnp_update_inboundpinhole E uid leasetime st =
     (let timestamp = upnp_time6 E + leasetime;
          (ret, ps) = update_pinhole uid timestamp (pins st);
          st1 = st\<lparr>pins := ps\<rparr>
      in (ret, if ret = 0 then snd (lease_file6_update E (uint uid) timestamp st1) else st1))"

text \<open>The result of an addition: its return value, \<open>*uid\<close>, and the state.\<close>

definition record_lease6 ::
  "pinhole_env \<Rightarrow> string \<Rightarrow> string option \<Rightarrow> u16 \<Rightarrow> string \<Rightarrow> u16 \<Rightarrow> u16 \<Rightarrow> int \<Rightarrow> string option \<Rightarrow> u32
   \<Rightarrow> 'k upnp6_state \<Rightarrow> 'k upnp6_state option" where
  "record_lease6 E buf2 raddr rport iaddr iport proto uid desc timestamp st =
     (case lease_file6_remove E buf2 iaddr iport proto (-1) st of None \<Rightarrow> None
      | Some (_, st1) \<Rightarrow> Some (snd (lease_file6_add E raddr rport iaddr iport proto uid desc timestamp st1)))"

definition upnp_add_inboundpinhole ::
  "('k, 'h) libip6tc \<Rightarrow> pinhole_env \<Rightarrow> string \<Rightarrow> string option \<Rightarrow> u16 \<Rightarrow> string \<Rightarrow> u16 \<Rightarrow> u16 \<Rightarrow> string \<Rightarrow> u32 \<Rightarrow> int
   \<Rightarrow> 'k upnp6_state \<Rightarrow> (int \<times> int \<times> 'k upnp6_state) option" where
  "upnp_add_inboundpinhole L E buf2 raddr rport iaddr iport proto desc leasetime uid0 st =
     (if inet_pton6 iaddr = None then Some (-4, uid0, st)
      else let timestamp = upnp_time6 E + leasetime;
               uid = fst (upnp_find_inboundpinhole raddr rport iaddr iport proto 0 st)
           in if uid \<ge> 0
              then let (r, st1) = upnp_update_inboundpinhole E (word_of_int uid) leasetime st
                   in if r \<ge> 0
                      then map_option (\<lambda>st2. (1, uid, st2))
                             (record_lease6 E buf2 raddr rport iaddr iport proto uid (Some desc) timestamp st1)
                      else Some (r, uid, st1)
              else case add_pinhole L (Some (ext_if_name6 E)) raddr rport iaddr iport proto desc timestamp (pins st) of
                     None \<Rightarrow> None
                   | Some (uid', ps) \<Rightarrow>
                       if uid' \<ge> 0
                       then map_option (\<lambda>st2. (1, uid', st2))
                              (record_lease6 E buf2 raddr rport iaddr iport proto uid' (Some desc) timestamp (st\<lparr>pins := ps\<rparr>))
                       else Some (-1, uid', st\<lparr>pins := ps\<rparr>))"

definition upnp_get_pinhole_info ::
  "('k, 'h) libip6tc \<Rightarrow> pinhole_env \<Rightarrow> u16 \<Rightarrow> string \<Rightarrow> nat \<Rightarrow> nat \<Rightarrow> nat \<Rightarrow> u64 option \<Rightarrow> 'k upnp6_state
   \<Rightarrow> int + (pinhole_info \<times> u32 \<times> u32 option)" where
  "upnp_get_pinhole_info L E uid raddr raddrlen iaddrlen desclen packets st =
     (case get_pinhole_info L uid raddr raddrlen iaddrlen desclen (map_option (\<lambda>p. (p, 0)) packets) (pins st) of
        Inl r \<Rightarrow> Inl r
      | Inr info \<Rightarrow>
          Inr (info, if pi_timestamp info > upnp_time6 E then pi_timestamp info - upnp_time6 E else 0,
               map_option (\<lambda>c. ucast (fst c)) (pi_counters info)))"

definition upnp_get_pinhole_uid_by_index :: "nat \<Rightarrow> 'k upnp6_state \<Rightarrow> int" where
  "upnp_get_pinhole_uid_by_index index st = get_pinhole_uid_by_index index (pins st)"

definition upnp_delete_inboundpinhole ::
  "('k, 'h) libip6tc \<Rightarrow> pinhole_env \<Rightarrow> string \<Rightarrow> u16 \<Rightarrow> 'k upnp6_state \<Rightarrow> (int \<times> 'k upnp6_state) option" where
  "upnp_delete_inboundpinhole L E buf2 uid st =
     (let (ret, ps) = delete_pinhole L uid (pins st); st1 = st\<lparr>pins := ps\<rparr>
      in if ret = 0 then map_option (\<lambda>(_, st2). (ret, st2)) (lease_file6_remove E buf2 ''*'' 0 0 (uint uid) st1)
         else Some (ret, st1))"

section \<open>Reloading the lease file\<close>

definition reload6_valid :: "pinhole_env \<Rightarrow> lease6_entry \<Rightarrow> bool" where
  "reload6_valid E l =
     (\<not> l6_int_port l < 1024
      \<and> (l6_rem_client l = [] \<or> hd (l6_rem_client l) = CHR ''*'' \<or> inet_pton6 (l6_rem_client l) \<noteq> None)
      \<and> \<not> (l6_timestamp l > 0 \<and> l6_timestamp l \<le> unix_time6 E))"

definition reload6_lease ::
  "('k, 'h) libip6tc \<Rightarrow> pinhole_env \<Rightarrow> string \<Rightarrow> lease6_entry \<Rightarrow> 'k upnp6_state \<Rightarrow> 'k upnp6_state option" where
  "reload6_lease L E buf2 l st =
     (if \<not> reload6_valid E l then Some st
      else let leaseduration = (if l6_timestamp l > 0 then l6_timestamp l - unix_time6 E else 0);
               timestamp = (if l6_timestamp l > 0 then leaseduration + upnp_time6 E else 0);
               desc = trim (l6_desc l);
               proto = proto_atoi (l6_proto l)
           in case upnp_add_inboundpinhole L E buf2 (Some (l6_rem_client l)) (l6_rem_port l) (l6_int_client l)
                     (l6_int_port l) proto desc leaseduration (l6_uid l) st of
                None \<Rightarrow> None
              | Some (r, uid, st1) \<Rightarrow>
                  Some (if r = -2
                        then snd (lease_file6_add E (Some (l6_rem_client l)) (l6_rem_port l) (l6_int_client l)
                               (l6_int_port l) proto uid (Some desc) timestamp st1)
                        else st1))"

fun reload6_lines ::
  "('k, 'h) libip6tc \<Rightarrow> pinhole_env \<Rightarrow> string \<Rightarrow> string list \<Rightarrow> 'k upnp6_state \<Rightarrow> 'k upnp6_state option" where
  "reload6_lines L E buf2 [] st = Some st"
| "reload6_lines L E buf2 (line # ls) st =
     (case parse_lease6 line of None \<Rightarrow> reload6_lines L E buf2 ls st
      | Some l \<Rightarrow> (case reload6_lease L E buf2 l st of None \<Rightarrow> None
                   | Some st1 \<Rightarrow> reload6_lines L E buf2 ls st1))"

definition reload_from_lease_file6 ::
  "('k, 'h) libip6tc \<Rightarrow> pinhole_env \<Rightarrow> string \<Rightarrow> 'k upnp6_state \<Rightarrow> (int \<times> 'k upnp6_state) option" where
  "reload_from_lease_file6 L E buf2 st =
     (if lease_file6 E = None then Some (-1, st)
      else case lease6_data st of None \<Rightarrow> Some (-1, st)
           | Some d \<Rightarrow> map_option (Pair 0)
               (reload6_lines L E buf2 (fgets_all 128 d) (if unlink6_ok E then st\<lparr>lease6_data := None\<rparr> else st)))"

definition upnp_clean_expired_pinholes ::
  "('k, 'h) libip6tc \<Rightarrow> pinhole_env \<Rightarrow> u32 \<Rightarrow> 'k upnp6_state \<Rightarrow> nat \<times> u32 \<times> 'k upnp6_state" where
  "upnp_clean_expired_pinholes L E next_timestamp st =
     (let (n, ts, ps) = clean_pinhole_list L (upnp_time6 E) next_timestamp (pins st)
      in (n, ts, snd (lease_file6_expire E (st\<lparr>pins := ps\<rparr>))))"

section \<open>Lines of the lease file\<close>

definition entry6_line :: "lease6_entry \<Rightarrow> string" where
  "entry6_line l = lease6_text (l6_proto l) (l6_int_client l) (l6_int_port l) (l6_rem_client l) (l6_rem_port l)
     (l6_uid l) (l6_timestamp l) (l6_desc l)"

definition plain :: "string \<Rightarrow> bool" where
  "plain s = list_all (\<lambda>c. c \<noteq> CHR '';'' \<and> c \<noteq> CHR 0x0A \<and> c \<noteq> NUL) s"

text \<open>The entries that a line can carry; pinhole identifiers are less than \<open>2^16\<close>.\<close>

definition lease6_ok :: "lease6_entry \<Rightarrow> bool" where
  "lease6_ok l = (plain (l6_proto l) \<and> plain (l6_int_client l) \<and> plain (l6_rem_client l)
     \<and> CHR 0x0A \<notin> set (l6_desc l) \<and> NUL \<notin> set (l6_desc l) \<and> 0 \<le> l6_uid l \<and> l6_uid l < 65536
     \<and> length (entry6_line l) < 128)"

lemma plain_dec [simp]: "plain (dec n)"
  using dec_set_isdigit [of _ n] by (force simp: plain_def list_all_iff isdigit_def)

lemma split_semi_append: "plain a \<Longrightarrow> split_semi (a @ CHR '';'' # r) = Some (a, r)"
proof -
  assume "plain a"
  then have "takeWhile (\<lambda>c. c \<noteq> CHR '';'') (a @ CHR '';'' # r) = a"
    by (auto simp: plain_def list_all_iff takeWhile_append takeWhile_eq_all_conv)
  then show ?thesis by (simp add: split_semi_def)
qed

lemma uid_text: "0 \<le> u \<Longrightarrow> u < 65536 \<Longrightarrow> unat (word_of_int u :: u32) = nat u"
  by (simp add: unsigned_of_int take_bit_int_eq_self)

lemma atoi_dec_u16: "(word_of_int (atoi (dec (unat (p :: u16)))) :: u16) = p"
  using atoi_dec [of "unat p" "[]"] unsigned_less [of p, where 'a = nat] by simp

lemma strtoul_dec_u32: "(of_nat (fst (strtoul10 (dec (unat (t :: u32))))) :: u32) = t"
  using strtoul10_dec [of "unat t" "[]"] unsigned_less [of t, where 'a = nat] by (simp add: ULONG_MAX_def)

lemma atoi_dec_uid: "0 \<le> u \<Longrightarrow> u < 65536 \<Longrightarrow> atoi (dec (unat (word_of_int u :: u32))) = u"
  using atoi_dec [of "nat u" "[]"] by (simp add: uid_text)

lemma parse_entry6_line:
  assumes "lease6_ok l"
  shows "parse_lease6 (entry6_line l) = Some (l\<lparr>l6_desc := l6_desc l @ newline\<rparr>)"
proof -
  have p: "plain (l6_proto l)" "plain (l6_int_client l)" "plain (l6_rem_client l)" "0 \<le> l6_uid l" "l6_uid l < 65536"
    using assms by (auto simp: lease6_ok_def)
  have "split_fields 7 (entry6_line l) = Some [l6_proto l, l6_int_client l, dec (unat (l6_int_port l)), l6_rem_client l,
      dec (unat (l6_rem_port l)), dec (unat (word_of_int (l6_uid l) :: u32)), dec (unat (l6_timestamp l)), l6_desc l @ newline]"
    using p by (simp add: entry6_line_def lease6_text_def split_semi_append eval_nat_numeral)
  then show ?thesis using p by (simp add: parse_lease6_def atoi_dec_u16 strtoul_dec_u32 atoi_dec_uid)
qed

lemma plain_newline: "plain s \<Longrightarrow> CHR 0x0A \<notin> set s"
  by (auto simp: plain_def list_all_iff)

lemma entry6_line_is_line:
  assumes "lease6_ok l" "n \<ge> 128"
  shows "is_line n (entry6_line l)"
proof -
  have "\<exists>body. entry6_line l = body @ newline \<and> CHR 0x0A \<notin> set body"
    using assms plain_newline [OF plain_dec] plain_newline [of "l6_proto l"] plain_newline [of "l6_int_client l"]
      plain_newline [of "l6_rem_client l"]
    by (intro exI [of _ "butlast (entry6_line l)"])
      (simp add: entry6_line_def lease6_text_def lease6_ok_def butlast_append)
  with assms show ?thesis by (auto simp: is_line_def lease6_ok_def)
qed

lemma fgets_entries6:
  assumes "list_all lease6_ok ls" "n \<ge> 128"
  shows "fgets_all n (concat (map entry6_line ls)) = map entry6_line ls"
  using assms entry6_line_is_line by (intro fgets_all_lines) (auto simp: list_all_iff)

section \<open>Removal by identifier\<close>

lemma strchr_at_field:
  assumes "plain a"
  shows "strchr_at (pre @ a @ CHR '';'' # r) (length pre) = Some (length pre + length a)"
proof -
  have "takeWhile (\<lambda>c. c \<noteq> CHR '';'' \<and> c \<noteq> NUL) (a @ CHR '';'' # r) = a"
    using assms by (auto simp: plain_def list_all_iff takeWhile_append takeWhile_eq_all_conv)
  then show ?thesis by (simp add: strchr_at_def nth_append)
qed

lemma cut_field:
  assumes "plain a"
  shows "cut_fields (Suc n) (length pre) (pre @ a @ CHR '';'' # r) = cut_fields n (length (pre @ a @ [NUL])) ((pre @ a @ [NUL]) @ r)"
proof -
  have "(pre @ a @ CHR '';'' # r)[length pre + length a := NUL] = pre @ a @ NUL # r"
    by (simp add: list_update_append)
  then show ?thesis by (simp add: strchr_at_field [OF assms])
qed

lemma cut_five:
  assumes "plain a" "plain b" "plain c" "plain d" "plain e"
  shows "cut_fields 5 0 (a @ CHR '';'' # b @ CHR '';'' # c @ CHR '';'' # d @ CHR '';'' # e @ CHR '';'' # r)
    = (let pre = a @ NUL # b @ NUL # c @ NUL # d @ NUL # e @ [NUL] in Some (length pre, pre @ r))"
  using cut_field [OF assms(1), of 4 "[]"] cut_field [OF assms(2), of 3 "a @ [NUL]"]
    cut_field [OF assms(3), of 2 "a @ NUL # b @ [NUL]"] cut_field [OF assms(4), of 1 "a @ NUL # b @ NUL # c @ [NUL]"]
    cut_field [OF assms(5), of 0 "a @ NUL # b @ NUL # c @ NUL # d @ [NUL]"]
  by (simp add: eval_nat_numeral)

lemma remove6_entry:
  assumes "lease6_ok l"
  shows "\<exists>r. remove6_line uid buf2 (entry6_line l) = Some (uid \<noteq> l6_uid l, l6_proto l @ NUL # r)"
proof -
  let ?u = "dec (unat (word_of_int (l6_uid l) :: u32))"
  let ?t = "dec (unat (l6_timestamp l)) @ '';'' @ l6_desc l @ newline"
  let ?pre = "l6_proto l @ NUL # l6_int_client l @ NUL # dec (unat (l6_int_port l)) @ NUL # l6_rem_client l
     @ NUL # dec (unat (l6_rem_port l)) @ [NUL]"
  let ?rest = "drop (length (entry6_line l)) buf2"
  have p: "plain (l6_proto l)" "plain (l6_int_client l)" "plain (l6_rem_client l)" "0 \<le> l6_uid l" "l6_uid l < 65536"
    using assms by (auto simp: lease6_ok_def)
  have "entry6_line l = l6_proto l @ CHR '';'' # l6_int_client l @ CHR '';'' # dec (unat (l6_int_port l)) @ CHR '';'' #
      l6_rem_client l @ CHR '';'' # dec (unat (l6_rem_port l)) @ CHR '';'' # ?u @ CHR '';'' # ?t"
    by (simp add: entry6_line_def lease6_text_def)
  then have c: "cut_fields 5 0 (entry6_line l @ ?rest) = Some (length ?pre, ?pre @ ?u @ CHR '';'' # ?t @ ?rest)"
    using cut_five [OF p(1,2) plain_dec p(3) plain_dec, of _ _ "?u @ CHR '';'' # ?t @ ?rest"]
    by (simp del: cut_fields.simps add: Let_def)
  have j: "strchr_at (?pre @ ?u @ CHR '';'' # ?t @ ?rest) (length ?pre) = Some (length ?pre + length ?u)"
    by (rule strchr_at_field [OF plain_dec])
  have b: "(?pre @ ?u @ CHR '';'' # ?t @ ?rest)[length ?pre + length ?u := NUL] = ?pre @ ?u @ NUL # ?t @ ?rest"
    by (simp add: list_update_append)
  have "takeWhile (\<lambda>c. c \<noteq> NUL) (drop (length pre) (pre @ ?u @ NUL # ?t @ ?rest)) = ?u" for pre
    using plain_dec [of "unat (word_of_int (l6_uid l) :: u32)"]
    by (simp add: plain_def list_all_iff takeWhile_append takeWhile_eq_all_conv)
  from this [of ?pre] have "takeWhile (\<lambda>c. c \<noteq> NUL) (drop (length ?pre) (?pre @ ?u @ NUL # ?t @ ?rest)) = ?u" .
  then have "remove6_line uid buf2 (entry6_line l) = Some (uid \<noteq> l6_uid l, ?pre @ ?u @ NUL # ?t @ ?rest)"
    unfolding remove6_line_def c using p j b by (simp add: Let_def atoi_dec_uid del: append_assoc)
  then show ?thesis by simp
qed

lemma remove6_entries:
  "list_all lease6_ok ls \<Longrightarrow>
   remove6_lines uid buf2 (map entry6_line ls) = Some (concat (map entry6_line (filter (\<lambda>l. l6_uid l \<noteq> uid) ls)))"
proof (induction ls arbitrary: buf2)
  case (Cons l ls)
  then obtain r where "remove6_line uid buf2 (entry6_line l) = Some (uid \<noteq> l6_uid l, r)" using remove6_entry by fastforce
  with Cons show ?case by auto
qed simp

end
