(* ===== verification/IptcRdr.thy ===== *)
theory IptcRdr
  imports RdrBackend
begin

text \<open>
  \<open>netfilter/iptcrdr.c\<close>: the Linux iptables implementation of the redirections.

  The kernel tables are reached through libiptc, which is not part of the sources: its calls are
  the fields of a record \<open>L\<close> that every operation takes, over a type \<open>'k\<close> of kernel states and a
  type \<open>'h\<close> of handles (a snapshot of one table). \<open>iptc_rules\<close> stands for the iteration with
  \<open>iptc_first_rule\<close> and \<open>iptc_next_rule\<close>; the other fields are the calls of the same name, with
  \<^const>\<open>None\<close> for an error. \<open>alloc_ok\<close> says whether \<open>calloc\<close>, \<open>realloc\<close> and \<open>malloc\<close> succeed,
  \<open>probe_dnat2\<close> whether the kernel reports revision 2 of the DNAT target, \<open>port_triggering\<close> is
  \<open>ENABLE_PORT_TRIGGERING\<close>. \<open>iptc_free\<close> and the log lines have no effect here. Chains hold entries of
  the form the program creates: one tcp or udp match and a target; \<open>struct ipt_tcp\<close> and
  \<open>struct ipt_udp\<close> have their port ranges at the same place, so the two branches of the source
  read the same fields. Protocol numbers are 16 bits, as in \<open>struct ipt_ip\<close>.
\<close>

section \<open>Entries\<close>

datatype target_data =
    NatMultiRange (min_ip: in_addr) (max_ip: in_addr) (min_port: u16) (max_port: u16)
  | NatRange2 (min_ip: in_addr) (max_ip: in_addr) (min_port: u16) (max_port: u16)
  | DscpInfo u8
  | NoData

record ipt_entry_target =
  target_name :: string
  revision :: u8
  target_data :: target_data

record ipt_entry_match =
  match_name :: string
  spts :: "u16 \<times> u16"
  dpts :: "u16 \<times> u16"

record ipt_entry =
  ip_proto :: u16
  ip_src :: in_addr
  ip_smsk :: in_addr
  ip_dst :: in_addr
  ip_dmsk :: in_addr
  elem_match :: ipt_entry_match
  elem_target :: ipt_entry_target
  pcnt :: u64
  bcnt :: u64

record ('k, 'h) libiptc =
  iptc_init :: "string \<Rightarrow> 'k \<Rightarrow> 'h option"
  iptc_is_chain :: "string \<Rightarrow> 'h \<Rightarrow> bool"
  iptc_rules :: "string \<Rightarrow> 'h \<Rightarrow> ipt_entry list"
  iptc_append_entry :: "string \<Rightarrow> ipt_entry \<Rightarrow> 'h \<Rightarrow> 'h option"
  iptc_delete_num_entry :: "string \<Rightarrow> nat \<Rightarrow> 'h \<Rightarrow> 'h option"
  iptc_replace_entry :: "string \<Rightarrow> ipt_entry \<Rightarrow> nat \<Rightarrow> 'h \<Rightarrow> 'h option"
  iptc_commit :: "'h \<Rightarrow> 'k \<Rightarrow> 'k option"
  alloc_ok :: bool
  probe_dnat2 :: bool
  port_triggering :: bool

text \<open>\<open>struct rdr_desc\<close>, and the state: the tables and the static variables.\<close>

record rdr_desc =
  rd_timestamp :: u32
  rd_eport :: u16
  rd_proto :: u16
  rd_str :: string

record 'k rdr_state =
  kernel :: 'k
  rdr_desc_list :: "rdr_desc list"
  miniupnpd_nat_chain :: string
  miniupnpd_nat_postrouting_chain :: string
  miniupnpd_forward_chain :: string
  dnat_revision :: int


section \<open>Chain names, DNAT revision, descriptions\<close>

datatype rdr_name_type = RDR_NAT_PREROUTING_CHAIN_NAME | RDR_NAT_POSTROUTING_CHAIN_NAME
  | RDR_FORWARD_CHAIN_NAME | RDR_OTHER_NAME

definition set_rdr_name :: "rdr_name_type \<Rightarrow> string option \<Rightarrow> 'k rdr_state \<Rightarrow> int \<times> 'k rdr_state" where
  "set_rdr_name param str s =
     (case str of None \<Rightarrow> (-1, s)
      | Some n \<Rightarrow>
          if length n > 30 \<or> n = [] then (-1, s)
          else case param of
                 RDR_NAT_PREROUTING_CHAIN_NAME \<Rightarrow> (0, s\<lparr>miniupnpd_nat_chain := n\<rparr>)
               | RDR_NAT_POSTROUTING_CHAIN_NAME \<Rightarrow> (0, s\<lparr>miniupnpd_nat_postrouting_chain := n\<rparr>)
               | RDR_FORWARD_CHAIN_NAME \<Rightarrow> (0, s\<lparr>miniupnpd_forward_chain := n\<rparr>)
               | RDR_OTHER_NAME \<Rightarrow> (-2, s))"

definition get_dnat_revision :: "('k, 'h) libiptc \<Rightarrow> 'k rdr_state \<Rightarrow> int \<times> 'k rdr_state" where
  "get_dnat_revision L s =
     (if dnat_revision s \<ge> 0 then (dnat_revision s, s)
      else let v = (if probe_dnat2 L then 2 else 0) in (v, s\<lparr>dnat_revision := v\<rparr>))"

text \<open>The layout that the revision does not select is not read.\<close>

fun get_dnat_target_addr_port :: "ipt_entry_target \<Rightarrow> in_addr \<times> u16" where
  "get_dnat_target_addr_port t =
     (case target_data t of
        NatRange2 a _ p _ \<Rightarrow> if revision t = 2 then (a, p) else (0, 0)
      | NatMultiRange a _ p _ \<Rightarrow> if revision t = 2 then (0, 0) else (a, p)
      | _ \<Rightarrow> (0, 0))"

definition set_dnat_target_port :: "ipt_entry_target \<Rightarrow> u16 \<Rightarrow> ipt_entry_target" where
  "set_dnat_target_port t p =
     (case target_data t of
        NatRange2 a b _ _ \<Rightarrow> if revision t = 2 then t\<lparr>target_data := NatRange2 a b p p\<rparr> else t
      | NatMultiRange a b _ _ \<Rightarrow> if revision t = 2 then t else t\<lparr>target_data := NatMultiRange a b p p\<rparr>
      | _ \<Rightarrow> t)"

text \<open>\<open>ntohs(mr->range[0].min.all)\<close> of an SNAT or MASQUERADE target.\<close>

definition range_min_port :: "ipt_entry_target \<Rightarrow> u16" where
  "range_min_port t = (case target_data t of NatMultiRange _ _ p _ \<Rightarrow> p | _ \<Rightarrow> 0)"

definition init_redirect :: "('k, 'h) libiptc \<Rightarrow> 'k rdr_state \<Rightarrow> int" where
  "init_redirect L s = (case iptc_init L ''nat'' (kernel s) of None \<Rightarrow> -1 | Some h \<Rightarrow> 0)"

definition snprintip :: "nat \<Rightarrow> in_addr \<Rightarrow> string" where
  "snprintip sz ip = bounded_copy sz
     (dec (unat (drop_bit 24 ip)) @ ''.'' @ dec (unat (drop_bit 16 ip) mod 256) @ ''.''
      @ dec (unat (drop_bit 8 ip) mod 256) @ ''.'' @ dec (unat ip mod 256))"

definition add_redirect_desc ::
  "('k, 'h) libiptc \<Rightarrow> u16 \<Rightarrow> u16 \<Rightarrow> string option \<Rightarrow> u32 \<Rightarrow> 'k rdr_state \<Rightarrow> 'k rdr_state" where
  "add_redirect_desc L eport proto desc timestamp s =
     (if alloc_ok L
      then s\<lparr>rdr_desc_list := \<lparr>rd_timestamp = timestamp, rd_eport = eport, rd_proto = proto,
               rd_str = (case desc of None \<Rightarrow> ''miniupnpd'' | Some d \<Rightarrow> d)\<rparr> # rdr_desc_list s\<rparr>
      else s)"

fun del_desc :: "u16 \<Rightarrow> u16 \<Rightarrow> rdr_desc list \<Rightarrow> rdr_desc list" where
  "del_desc eport proto [] = []"
| "del_desc eport proto (p # ps) =
     (if rd_eport p = eport \<and> rd_proto p = proto then ps else p # del_desc eport proto ps)"

definition del_redirect_desc :: "u16 \<Rightarrow> u16 \<Rightarrow> 'k rdr_state \<Rightarrow> 'k rdr_state" where
  "del_redirect_desc eport proto s = s\<lparr>rdr_desc_list := del_desc eport proto (rdr_desc_list s)\<rparr>"

fun find_desc :: "u16 \<Rightarrow> u16 \<Rightarrow> rdr_desc list \<Rightarrow> string \<times> u32" where
  "find_desc eport proto [] = (''miniupnpd'', 0)"
| "find_desc eport proto (p # ps) =
     (if rd_eport p = eport \<and> rd_proto p = proto then (rd_str p, rd_timestamp p)
      else find_desc eport proto ps)"

definition get_redirect_desc :: "u16 \<Rightarrow> u16 \<Rightarrow> nat \<Rightarrow> 'k rdr_state \<Rightarrow> string \<times> u32" where
  "get_redirect_desc eport proto desclen s =
     (let (d, t) = find_desc eport proto (rdr_desc_list s) in (bounded_copy desclen d, t))"

section \<open>Building and appending entries\<close>

definition port_range :: "u16 \<Rightarrow> u16 \<times> u16" where
  "port_range p = (if p = 0 then (0, 0xFFFF) else (p, p))"

definition get_tcp_match :: "('k, 'h) libiptc \<Rightarrow> u16 \<Rightarrow> u16 \<Rightarrow> ipt_entry_match option" where
  "get_tcp_match L dport sport =
     (if alloc_ok L
      then Some \<lparr>match_name = ''tcp'', spts = port_range sport, dpts = port_range dport\<rparr> else None)"

definition get_udp_match :: "('k, 'h) libiptc \<Rightarrow> u16 \<Rightarrow> u16 \<Rightarrow> ipt_entry_match option" where
  "get_udp_match L dport sport =
     (if alloc_ok L
      then Some \<lparr>match_name = ''udp'', spts = port_range sport, dpts = port_range dport\<rparr> else None)"

definition get_proto_match :: "('k, 'h) libiptc \<Rightarrow> u16 \<Rightarrow> u16 \<Rightarrow> u16 \<Rightarrow> ipt_entry_match option" where
  "get_proto_match L proto dport sport =
     (if proto = IPPROTO_TCP then get_tcp_match L dport sport else get_udp_match L dport sport)"

definition get_dnat_target ::
  "('k, 'h) libiptc \<Rightarrow> string \<Rightarrow> u16 \<Rightarrow> 'k rdr_state \<Rightarrow> ipt_entry_target option \<times> 'k rdr_state" where
  "get_dnat_target L daddr dport s =
     (let (rev, s') = get_dnat_revision L s; a = inet_addr daddr
      in if \<not> alloc_ok L then (None, s')
         else if rev = 2
         then (Some \<lparr>target_name = ''DNAT'', revision = 2, target_data = NatRange2 a a dport dport\<rparr>, s')
         else (Some \<lparr>target_name = ''DNAT'', revision = 0, target_data = NatMultiRange a a dport dport\<rparr>, s'))"

definition get_snat_target :: "('k, 'h) libiptc \<Rightarrow> string \<Rightarrow> u16 \<Rightarrow> ipt_entry_target option" where
  "get_snat_target L saddr sport =
     (let a = inet_addr saddr
      in if alloc_ok L
         then Some \<lparr>target_name = ''SNAT'', revision = 0, target_data = NatMultiRange a a sport sport\<rparr>
         else None)"

definition get_dscp_target :: "('k, 'h) libiptc \<Rightarrow> u8 \<Rightarrow> ipt_entry_target option" where
  "get_dscp_target L dscp =
     (if alloc_ok L then Some \<lparr>target_name = ''DSCP'', revision = 0, target_data = DscpInfo dscp\<rparr> else None)"

definition get_masquerade_target :: "('k, 'h) libiptc \<Rightarrow> u16 \<Rightarrow> ipt_entry_target option" where
  "get_masquerade_target L port =
     (if alloc_ok L
      then Some \<lparr>target_name = ''MASQUERADE'', revision = 0, target_data = NatMultiRange 0 0 port port\<rparr>
      else None)"

definition get_accept_target :: "('k, 'h) libiptc \<Rightarrow> ipt_entry_target option" where
  "get_accept_target L =
     (if alloc_ok L then Some \<lparr>target_name = ''ACCEPT'', revision = 0, target_data = NoData\<rparr> else None)"

definition iptc_init_verify_and_append ::
  "('k, 'h) libiptc \<Rightarrow> string \<Rightarrow> string \<Rightarrow> ipt_entry \<Rightarrow> 'k rdr_state \<Rightarrow> int \<times> 'k rdr_state" where
  "iptc_init_verify_and_append L table chain e s =
     (case iptc_init L table (kernel s) of None \<Rightarrow> (-1, s)
      | Some h \<Rightarrow>
          if \<not> iptc_is_chain L chain h then (-1, s)
          else case iptc_append_entry L chain e h of None \<Rightarrow> (-1, s)
               | Some h' \<Rightarrow>
                   (case iptc_commit L h' (kernel s) of None \<Rightarrow> (-1, s)
                    | Some k \<Rightarrow> (0, s\<lparr>kernel := k\<rparr>)))"

text \<open>The host of a rule: absent, empty or \<open>*\<close> matches every host.\<close>

definition host_match :: "string option \<Rightarrow> in_addr \<times> in_addr" where
  "host_match host =
     (case host of None \<Rightarrow> (0, 0)
      | Some a \<Rightarrow> if a = [] \<or> a = ''*'' then (0, 0) else (inet_addr a, INADDR_NONE))"

definition addnatrule ::
  "('k, 'h) libiptc \<Rightarrow> u16 \<Rightarrow> u16 \<Rightarrow> string \<Rightarrow> u16 \<Rightarrow> string option \<Rightarrow> 'k rdr_state
   \<Rightarrow> int \<times> 'k rdr_state" where
  "addnatrule L proto eport iaddr iport rhost s =
     (if \<not> alloc_ok L then (-1, s)
      else let mt = get_proto_match L proto eport 0;
               (tg, s') = get_dnat_target L iaddr iport s
           in case (mt, tg) of
                (Some m, Some t) \<Rightarrow>
                  iptc_init_verify_and_append L ''nat'' (miniupnpd_nat_chain s')
                    \<lparr>ip_proto = proto, ip_src = fst (host_match rhost), ip_smsk = snd (host_match rhost),
                     ip_dst = 0, ip_dmsk = 0, elem_match = m, elem_target = t, pcnt = 0, bcnt = 0\<rparr> s'
              | _ \<Rightarrow> (-1, s'))"

definition addmasqueraderule ::
  "('k, 'h) libiptc \<Rightarrow> u16 \<Rightarrow> u16 \<Rightarrow> string option \<Rightarrow> u16 \<Rightarrow> string option \<Rightarrow> 'k rdr_state
   \<Rightarrow> int \<times> 'k rdr_state" where
  "addmasqueraderule L proto eport iaddr iport rhost s =
     (if \<not> alloc_ok L then (-1, s)
      else case (get_proto_match L proto 0 iport, get_masquerade_target L eport) of
             (Some m, Some t) \<Rightarrow>
               iptc_init_verify_and_append L ''nat'' (miniupnpd_nat_postrouting_chain s)
                 \<lparr>ip_proto = proto, ip_src = fst (host_match iaddr), ip_smsk = snd (host_match iaddr),
                  ip_dst = fst (host_match rhost), ip_dmsk = snd (host_match rhost),
                  elem_match = m, elem_target = t, pcnt = 0, bcnt = 0\<rparr> s
           | _ \<Rightarrow> (-1, s))"

definition addpeernatrule ::
  "('k, 'h) libiptc \<Rightarrow> u16 \<Rightarrow> string \<Rightarrow> u16 \<Rightarrow> string option \<Rightarrow> u16 \<Rightarrow> string option \<Rightarrow> u16
   \<Rightarrow> 'k rdr_state \<Rightarrow> int \<times> 'k rdr_state" where
  "addpeernatrule L proto eaddr eport iaddr iport rhost rport s =
     (if \<not> alloc_ok L then (-1, s)
      else case (get_proto_match L proto rport iport, get_snat_target L eaddr eport) of
             (Some m, Some t) \<Rightarrow>
               iptc_init_verify_and_append L ''nat'' (miniupnpd_nat_postrouting_chain s)
                 \<lparr>ip_proto = proto, ip_src = fst (host_match iaddr), ip_smsk = snd (host_match iaddr),
                  ip_dst = fst (host_match rhost), ip_dmsk = snd (host_match rhost),
                  elem_match = m, elem_target = t, pcnt = 0, bcnt = 0\<rparr> s
           | _ \<Rightarrow> (-1, s))"

definition addpeerdscprule ::
  "('k, 'h) libiptc \<Rightarrow> u16 \<Rightarrow> u8 \<Rightarrow> string option \<Rightarrow> u16 \<Rightarrow> string option \<Rightarrow> u16
   \<Rightarrow> 'k rdr_state \<Rightarrow> int \<times> 'k rdr_state" where
  "addpeerdscprule L proto dscp iaddr iport rhost rport s =
     (if \<not> alloc_ok L then (-1, s)
      else case (get_proto_match L proto rport iport, get_dscp_target L dscp) of
             (Some m, Some t) \<Rightarrow>
               iptc_init_verify_and_append L ''mangle'' (miniupnpd_nat_chain s)
                 \<lparr>ip_proto = proto, ip_src = fst (host_match iaddr), ip_smsk = snd (host_match iaddr),
                  ip_dst = fst (host_match rhost), ip_dmsk = snd (host_match rhost),
                  elem_match = m, elem_target = t, pcnt = 0, bcnt = 0\<rparr> s
           | _ \<Rightarrow> (-1, s))"

definition add_filter_rule ::
  "('k, 'h) libiptc \<Rightarrow> u16 \<Rightarrow> string option \<Rightarrow> string \<Rightarrow> u16 \<Rightarrow> 'k rdr_state \<Rightarrow> int \<times> 'k rdr_state" where
  "add_filter_rule L proto rhost iaddr iport s =
     (if \<not> alloc_ok L then (-1, s)
      else case (get_proto_match L proto iport 0, get_accept_target L) of
             (Some m, Some t) \<Rightarrow>
               iptc_init_verify_and_append L ''filter'' (miniupnpd_forward_chain s)
                 \<lparr>ip_proto = proto, ip_src = fst (host_match rhost), ip_smsk = snd (host_match rhost),
                  ip_dst = inet_addr iaddr, ip_dmsk = INADDR_NONE,
                  elem_match = m, elem_target = t, pcnt = 0, bcnt = 0\<rparr> s
           | _ \<Rightarrow> (-1, s))"

definition add_redirect_rule2 ::
  "('k, 'h) libiptc \<Rightarrow> string option \<Rightarrow> u16 \<Rightarrow> string \<Rightarrow> u16 \<Rightarrow> u16 \<Rightarrow> string option \<Rightarrow> u32
   \<Rightarrow> 'k rdr_state \<Rightarrow> int \<times> 'k rdr_state" where
  "add_redirect_rule2 L rhost eport iaddr iport proto desc timestamp s =
     (let (r, s1) = addnatrule L proto eport iaddr iport rhost s
      in if r \<ge> 0
         then let s2 = add_redirect_desc L eport proto desc timestamp s1
              in if port_triggering L then addmasqueraderule L proto eport (Some iaddr) iport rhost s2
                 else (r, s2)
         else (r, s1))"

definition add_peer_redirect_rule2 ::
  "('k, 'h) libiptc \<Rightarrow> string option \<Rightarrow> u16 \<Rightarrow> string \<Rightarrow> u16 \<Rightarrow> string option \<Rightarrow> u16 \<Rightarrow> u16
   \<Rightarrow> string option \<Rightarrow> u32 \<Rightarrow> 'k rdr_state \<Rightarrow> int \<times> 'k rdr_state" where
  "add_peer_redirect_rule2 L rhost rport eaddr eport iaddr iport proto desc timestamp s =
     (let (r, s1) = addpeernatrule L proto eaddr eport iaddr iport rhost rport s
      in (r, if r \<ge> 0 then add_redirect_desc L eport proto desc timestamp s1 else s1))"

definition add_peer_dscp_rule2 ::
  "('k, 'h) libiptc \<Rightarrow> string option \<Rightarrow> u16 \<Rightarrow> u8 \<Rightarrow> string option \<Rightarrow> u16 \<Rightarrow> u16
   \<Rightarrow> 'k rdr_state \<Rightarrow> int \<times> 'k rdr_state" where
  "add_peer_dscp_rule2 L rhost rport dscp iaddr iport proto s =
     addpeerdscprule L proto dscp iaddr iport rhost rport s"

definition add_filter_rule2 ::
  "('k, 'h) libiptc \<Rightarrow> string option \<Rightarrow> string \<Rightarrow> u16 \<Rightarrow> u16 \<Rightarrow> u16 \<Rightarrow> 'k rdr_state \<Rightarrow> int \<times> 'k rdr_state" where
  "add_filter_rule2 L rhost iaddr eport iport proto s = add_filter_rule L proto rhost iaddr iport s"

section \<open>Lookups\<close>

text \<open>The loops over a chain: the first entry that satisfies the tests, with its index.\<close>

fun find_rule :: "(ipt_entry \<Rightarrow> bool) \<Rightarrow> nat \<Rightarrow> ipt_entry list \<Rightarrow> (nat \<times> ipt_entry) option" where
  "find_rule P i [] = None"
| "find_rule P i (e # es) = (if P e then Some (i, e) else find_rule P (i + 1) es)"

definition rdr_match :: "u16 \<Rightarrow> u16 \<Rightarrow> ipt_entry \<Rightarrow> bool" where
  "rdr_match eport proto e = (proto = ip_proto e \<and> eport = fst (dpts (elem_match e)))"

definition get_nat_redirect_rule ::
  "('k, 'h) libiptc \<Rightarrow> string \<Rightarrow> u16 \<Rightarrow> u16 \<Rightarrow> nat \<Rightarrow> nat \<Rightarrow> nat \<Rightarrow> 'k rdr_state \<Rightarrow> rdr_info option" where
  "get_nat_redirect_rule L nat_chain_name eport proto iaddrlen desclen rhostlen s =
     (case iptc_init L ''nat'' (kernel s) of None \<Rightarrow> None
      | Some h \<Rightarrow>
          if \<not> iptc_is_chain L nat_chain_name h then None
          else case find_rule (rdr_match eport proto) 0 (iptc_rules L nat_chain_name h) of None \<Rightarrow> None
               | Some (_, e) \<Rightarrow>
                   let (daddr, iport) = get_dnat_target_addr_port (elem_target e);
                       (desc, ts) = get_redirect_desc eport proto desclen s
                   in Some \<lparr>info_iaddr = snprintip iaddrlen daddr, info_iport = iport, info_desc = desc,
                        info_timestamp = ts, info_packets = pcnt e, info_bytes = bcnt e,
                        info_rhost = (if ip_src e \<noteq> 0 then Some (snprintip rhostlen (ip_src e)) else None)\<rparr>)"

definition get_redirect_rule ::
  "('k, 'h) libiptc \<Rightarrow> u16 \<Rightarrow> u16 \<Rightarrow> nat \<Rightarrow> nat \<Rightarrow> nat \<Rightarrow> 'k rdr_state \<Rightarrow> rdr_info option" where
  "get_redirect_rule L eport proto iaddrlen desclen rhostlen s =
     get_nat_redirect_rule L (miniupnpd_nat_chain s) eport proto iaddrlen desclen rhostlen s"

text \<open>The entry at an index of a chain: the loop with the counter \<open>i\<close>.\<close>

fun nth_rule :: "nat \<Rightarrow> nat \<Rightarrow> ipt_entry list \<Rightarrow> ipt_entry option" where
  "nth_rule index i [] = None"
| "nth_rule index i (e # es) = (if i = index then Some e else nth_rule index (i + 1) es)"

text \<open>The result has the external port, the protocol and the rest. \<open>rhostlen\<close> is positive.\<close>

definition get_redirect_rule_by_index ::
  "('k, 'h) libiptc \<Rightarrow> nat \<Rightarrow> nat \<Rightarrow> nat \<Rightarrow> nat \<Rightarrow> 'k rdr_state \<Rightarrow> (u16 \<times> u16 \<times> rdr_info) option" where
  "get_redirect_rule_by_index L index iaddrlen desclen rhostlen s =
     (case iptc_init L ''nat'' (kernel s) of None \<Rightarrow> None
      | Some h \<Rightarrow>
          if \<not> iptc_is_chain L (miniupnpd_nat_chain s) h then None
          else case nth_rule index 0 (iptc_rules L (miniupnpd_nat_chain s) h) of None \<Rightarrow> None
               | Some e \<Rightarrow>
                   let proto = ip_proto e; eport = fst (dpts (elem_match e));
                       (daddr, iport) = get_dnat_target_addr_port (elem_target e);
                       (desc, ts) = get_redirect_desc eport proto desclen s
                   in Some (eport, proto, \<lparr>info_iaddr = snprintip iaddrlen daddr, info_iport = iport,
                        info_desc = desc, info_timestamp = ts, info_packets = pcnt e, info_bytes = bcnt e,
                        info_rhost = Some (if ip_src e \<noteq> 0 then snprintip rhostlen (ip_src e) else [])\<rparr>))"

text \<open>
  The peer rules of the postrouting chain. For a rule without a source address the code clears
  \<open>rhost\<close> instead of \<open>iaddr\<close>: the result then has an empty \<open>rhost\<close> and no \<open>iaddr\<close> (\<open>peer_iaddr\<close> is
  \<^const>\<open>None\<close>, the buffer is not written).
\<close>

record peer_info =
  peer_eport :: u16
  peer_proto :: u16
  peer_rport :: u16
  peer_iport :: u16
  peer_desc :: string
  peer_timestamp :: u32
  peer_packets :: u64
  peer_bytes :: u64
  peer_rhost :: string
  peer_iaddr :: "string option"

definition get_peer_rule_by_index ::
  "('k, 'h) libiptc \<Rightarrow> nat \<Rightarrow> nat \<Rightarrow> nat \<Rightarrow> nat \<Rightarrow> 'k rdr_state \<Rightarrow> peer_info option" where
  "get_peer_rule_by_index L index iaddrlen desclen rhostlen s =
     (case iptc_init L ''nat'' (kernel s) of None \<Rightarrow> None
      | Some h \<Rightarrow>
          if \<not> iptc_is_chain L (miniupnpd_nat_postrouting_chain s) h then None
          else case nth_rule index 0 (iptc_rules L (miniupnpd_nat_postrouting_chain s) h) of None \<Rightarrow> None
               | Some e \<Rightarrow>
                   let proto = ip_proto e; eport = range_min_port (elem_target e);
                       (desc, ts) = get_redirect_desc eport proto desclen s;
                       rh = (if ip_dst e \<noteq> 0 then snprintip rhostlen (ip_dst e) else [])
                   in Some \<lparr>peer_eport = eport, peer_proto = proto,
                        peer_rport = fst (dpts (elem_match e)), peer_iport = fst (spts (elem_match e)),
                        peer_desc = desc, peer_timestamp = ts, peer_packets = pcnt e, peer_bytes = bcnt e,
                        peer_rhost = (if ip_src e \<noteq> 0 then rh else []),
                        peer_iaddr = (if ip_src e \<noteq> 0 then Some (snprintip iaddrlen (ip_src e)) else None)\<rparr>)"

text \<open>
  The array of ports grows as needed; \<^const>\<open>None\<close> is the NULL of an error.
\<close>

fun ports_in_range :: "u16 \<Rightarrow> u16 \<Rightarrow> u16 \<Rightarrow> ipt_entry list \<Rightarrow> u16 list \<Rightarrow> u16 list" where
  "ports_in_range startport endport proto [] a = a"
| "ports_in_range startport endport proto (e # es) a =
     (let eport = fst (dpts (elem_match e))
      in if proto = ip_proto e \<and> startport \<le> eport \<and> eport \<le> endport
         then ports_in_range startport endport proto es (a @ [eport])
         else ports_in_range startport endport proto es a)"

definition get_portmappings_in_range ::
  "('k, 'h) libiptc \<Rightarrow> u16 \<Rightarrow> u16 \<Rightarrow> u16 \<Rightarrow> 'k rdr_state \<Rightarrow> u16 list option" where
  "get_portmappings_in_range L startport endport proto s =
     (if \<not> alloc_ok L then None
      else case iptc_init L ''nat'' (kernel s) of None \<Rightarrow> None
           | Some h \<Rightarrow>
               if \<not> iptc_is_chain L (miniupnpd_nat_chain s) h then None
               else Some (ports_in_range startport endport proto (iptc_rules L (miniupnpd_nat_chain s) h) []))"

section \<open>Deletion\<close>

definition delete_rule_and_commit ::
  "('k, 'h) libiptc \<Rightarrow> nat \<Rightarrow> 'h \<Rightarrow> string \<Rightarrow> 'k rdr_state \<Rightarrow> int \<times> 'k rdr_state" where
  "delete_rule_and_commit L index h chain s =
     (case iptc_delete_num_entry L chain index h of None \<Rightarrow> (-1, s)
      | Some h' \<Rightarrow> (case iptc_commit L h' (kernel s) of None \<Rightarrow> (-1, s)
                   | Some k \<Rightarrow> (0, s\<lparr>kernel := k\<rparr>)))"

text \<open>The search of a chain of a table for an entry, and its deletion; \<open>r\<close> is kept when none is found.\<close>

definition find_and_delete ::
  "('k, 'h) libiptc \<Rightarrow> string \<Rightarrow> string \<Rightarrow> (ipt_entry \<Rightarrow> bool) \<Rightarrow> int \<Rightarrow> 'k rdr_state \<Rightarrow> int \<times> 'k rdr_state" where
  "find_and_delete L table chain P r s =
     (case iptc_init L table (kernel s) of None \<Rightarrow> (r, s)
      | Some h \<Rightarrow>
          (case find_rule P 0 (iptc_rules L chain h) of None \<Rightarrow> (r, s)
           | Some (i, _) \<Rightarrow> delete_rule_and_commit L i h chain s))"

definition delete_filter_rule :: "('k, 'h) libiptc \<Rightarrow> u16 \<Rightarrow> u16 \<Rightarrow> 'k rdr_state \<Rightarrow> int \<times> 'k rdr_state" where
  "delete_filter_rule L port proto s =
     find_and_delete L ''filter'' (miniupnpd_forward_chain s) (rdr_match port proto) (-1) s"

definition filter_match :: "u16 \<Rightarrow> u16 \<Rightarrow> in_addr \<Rightarrow> ipt_entry \<Rightarrow> bool" where
  "filter_match iport proto iaddr e = (rdr_match iport proto e \<and> iaddr = ip_dst e)"

definition peer_match :: "u16 \<Rightarrow> u16 \<Rightarrow> ipt_entry \<Rightarrow> bool" where
  "peer_match eport proto e = (proto = ip_proto e \<and> eport = range_min_port (elem_target e))"

definition dscp_match :: "u16 \<Rightarrow> u16 \<Rightarrow> in_addr \<Rightarrow> ipt_entry \<Rightarrow> bool" where
  "dscp_match iport proto iaddr e =
     (proto = ip_proto e \<and> iport = fst (spts (elem_match e)) \<and> iaddr = ip_src e)"

text \<open>First part of \<open>delete_redirect_and_filter_rules\<close>: the nat rule and its filter rule.\<close>

definition delete_nat_and_filter ::
  "('k, 'h) libiptc \<Rightarrow> nat \<Rightarrow> u16 \<Rightarrow> in_addr \<Rightarrow> u16 \<Rightarrow> 'k rdr_state \<Rightarrow> int \<times> 'k rdr_state" where
  "delete_nat_and_filter L index proto iaddr iport s =
     (let (r, s1) = (case iptc_init L ''nat'' (kernel s) of None \<Rightarrow> (0, s)
                     | Some h \<Rightarrow> delete_rule_and_commit L index h (miniupnpd_nat_chain s) s)
      in if r = 0
         then find_and_delete L ''filter'' (miniupnpd_forward_chain s1) (filter_match iport proto iaddr) r s1
         else (r, s1))"

text \<open>Second part: the peer rule, and the DSCP rule of the same source.\<close>

definition delete_peer_and_dscp ::
  "('k, 'h) libiptc \<Rightarrow> u16 \<Rightarrow> u16 \<Rightarrow> 'k rdr_state \<Rightarrow> int \<times> 'k rdr_state" where
  "delete_peer_and_dscp L eport proto s =
     (case iptc_init L ''nat'' (kernel s) of None \<Rightarrow> (-1, s)
      | Some h \<Rightarrow>
          (case find_rule (peer_match eport proto) 0 (iptc_rules L (miniupnpd_nat_postrouting_chain s) h) of
             None \<Rightarrow> (-1, s)
           | Some (i, e) \<Rightarrow>
               let (r2, s1) = delete_rule_and_commit L i h (miniupnpd_nat_postrouting_chain s) s
               in if r2 = 0
                  then find_and_delete L ''mangle'' (miniupnpd_nat_chain s1)
                         (dscp_match (fst (spts (elem_match e))) proto (ip_src e)) r2 s1
                  else (r2, s1)))"

definition delete_redirect_and_filter_rules ::
  "('k, 'h) libiptc \<Rightarrow> u16 \<Rightarrow> u16 \<Rightarrow> 'k rdr_state \<Rightarrow> int \<times> 'k rdr_state" where
  "delete_redirect_and_filter_rules L eport proto s =
     (case iptc_init L ''nat'' (kernel s) of None \<Rightarrow> (-1, s)
      | Some h \<Rightarrow>
          let found = (if \<not> iptc_is_chain L (miniupnpd_nat_chain s) h then None
                       else find_rule (rdr_match eport proto) 0 (iptc_rules L (miniupnpd_nat_chain s) h));
              (r, s1) = (case found of None \<Rightarrow> (-1, s)
                         | Some (index, e) \<Rightarrow>
                             let (iaddr, iport) = get_dnat_target_addr_port (elem_target e)
                             in delete_nat_and_filter L index proto iaddr iport s);
              (r2, s2) = delete_peer_and_dscp L eport proto s1
          in (r * r2, del_redirect_desc eport proto s2))"

section \<open>Updates\<close>

definition update_portmapping_desc_timestamp ::
  "('k, 'h) libiptc \<Rightarrow> u16 \<Rightarrow> u16 \<Rightarrow> string option \<Rightarrow> u32 \<Rightarrow> 'k rdr_state \<Rightarrow> int \<times> 'k rdr_state" where
  "update_portmapping_desc_timestamp L eport proto desc timestamp s =
     (0, add_redirect_desc L eport proto desc timestamp (del_redirect_desc eport proto s))"

definition update_rule_and_commit ::
  "('k, 'h) libiptc \<Rightarrow> string \<Rightarrow> string \<Rightarrow> nat \<Rightarrow> ipt_entry \<Rightarrow> 'k rdr_state \<Rightarrow> int \<times> 'k rdr_state" where
  "update_rule_and_commit L table chain index e s =
     (case iptc_init L table (kernel s) of None \<Rightarrow> (-1, s)
      | Some h \<Rightarrow>
          (case iptc_replace_entry L chain e index h of None \<Rightarrow> (-1, s)
           | Some h' \<Rightarrow> (case iptc_commit L h' (kernel s) of None \<Rightarrow> (-1, s)
                        | Some k \<Rightarrow> (0, s\<lparr>kernel := k\<rparr>))))"

text \<open>
  A step of \<open>update_portmapping\<close>: the first entry of a chain that satisfies the tests, copied,
  changed and written back; \<^const>\<open>None\<close> when the table, the chain, the entry or memory is missing.
\<close>

definition find_in_chain ::
  "('k, 'h) libiptc \<Rightarrow> string \<Rightarrow> string \<Rightarrow> (ipt_entry \<Rightarrow> bool) \<Rightarrow> 'k rdr_state \<Rightarrow> (nat \<times> ipt_entry) option" where
  "find_in_chain L table chain P s =
     (case iptc_init L table (kernel s) of None \<Rightarrow> None
      | Some h \<Rightarrow>
          if \<not> iptc_is_chain L chain h then None
          else case find_rule P 0 (iptc_rules L chain h) of None \<Rightarrow> None
               | Some (i, e) \<Rightarrow> if alloc_ok L then Some (i, e) else None)"

definition update_snat_rule ::
  "('k, 'h) libiptc \<Rightarrow> u16 \<Rightarrow> u16 \<Rightarrow> u16 \<Rightarrow> in_addr \<Rightarrow> u16 \<Rightarrow> 'k rdr_state \<Rightarrow> 'k rdr_state" where
  "update_snat_rule L eport proto old_iport iaddr iport s =
     (case find_in_chain L ''nat'' (miniupnpd_nat_postrouting_chain s)
             (\<lambda>e. peer_match eport proto e \<and> dscp_match old_iport proto iaddr e) s of
        None \<Rightarrow> s
      | Some (i, e) \<Rightarrow>
          snd (update_rule_and_commit L ''nat'' (miniupnpd_nat_postrouting_chain s) i
                 (e\<lparr>elem_match := (elem_match e)\<lparr>spts := (iport, iport)\<rparr>\<rparr>) s))"

definition update_filter_rule ::
  "('k, 'h) libiptc \<Rightarrow> u16 \<Rightarrow> u16 \<Rightarrow> in_addr \<Rightarrow> u16 \<Rightarrow> 'k rdr_state \<Rightarrow> int \<times> 'k rdr_state" where
  "update_filter_rule L proto old_iport iaddr iport s =
     (case find_in_chain L ''filter'' (miniupnpd_forward_chain s) (filter_match old_iport proto iaddr) s of
        None \<Rightarrow> (-1, s)
      | Some (i, e) \<Rightarrow>
          update_rule_and_commit L ''filter'' (miniupnpd_forward_chain s) i
            (e\<lparr>elem_match := (elem_match e)\<lparr>dpts := (iport, iport)\<rparr>\<rparr>) s)"

definition update_portmapping ::
  "('k, 'h) libiptc \<Rightarrow> u16 \<Rightarrow> u16 \<Rightarrow> u16 \<Rightarrow> string option \<Rightarrow> u32 \<Rightarrow> 'k rdr_state \<Rightarrow> int \<times> 'k rdr_state" where
  "update_portmapping L eport proto iport desc timestamp s =
     (case find_in_chain L ''nat'' (miniupnpd_nat_chain s) (rdr_match eport proto) s of
        None \<Rightarrow> (-1, s)
      | Some (i, e) \<Rightarrow>
          let (iaddr, old_iport) = get_dnat_target_addr_port (elem_target e);
              (r1, s1) = update_rule_and_commit L ''nat'' (miniupnpd_nat_chain s) i
                           (e\<lparr>elem_target := set_dnat_target_port (elem_target e) iport\<rparr>) s
          in if r1 < 0 then (r1, s1)
             else let (r2, s2) = update_filter_rule L proto old_iport iaddr iport s1
                  in if r2 < 0 then (r2, s2)
                     else let s3 = (if port_triggering L
                                    then update_snat_rule L eport proto old_iport iaddr iport s2 else s2)
                          in update_portmapping_desc_timestamp L eport proto desc timestamp s3)"

end
