(* ===== verification/Pcp.thy ===== *)
theory Pcp
  imports NatPmp UpnpPinhole IptcRdr
begin

text \<open>
  \<open>pcpserver.c\<close>: the Port Control Protocol, versions 1 and 2.

  The daemon parses a request into \<open>struct pcp_info\<close>, validates it, creates or deletes a mapping (NAT)
  or a pinhole (IPv6 firewall), and writes the answer over the request in the same buffer. A pointer
  of \<open>pcp_info\<close> into the request is the address it points to: the answer is written after the last
  use of the request, and \<open>ext_ip\<close> points where the answer puts it. \<open>nonce\<close> is three 32-bit integers of
  a little-endian host.

  The settings are a record: those of the NAT-PMP and pinhole modules, the build options
  \<open>ENABLE_UPNPPINHOLE\<close>, \<open>PCP_FLOWP\<close>, \<open>PCP_SADSCP\<close> (\<open>PCP_PEER\<close> is \<open>pcp_peer\<close> of \<open>upnpredirect.c\<close>), the
  lifetimes, and the calls of a \<open>PCP_PEER\<close> build: the peer rules of the netfilter backend and
  \<open>get_nat_ext_addr\<close>, which reads the kernel's connection table. \<open>get_src_for_route_to\<close> asks the kernel
  for a route. Opening sockets, sending and logging are not modelled.
\<close>

section \<open>Settings and state\<close>

record 's peer_ops =
  po_add_peer_redirect_rule2 ::
    "string \<Rightarrow> u16 \<Rightarrow> string \<Rightarrow> u16 \<Rightarrow> string \<Rightarrow> u16 \<Rightarrow> u16 \<Rightarrow> string \<Rightarrow> u32 \<Rightarrow> 's \<Rightarrow> int \<times> 's"
  po_add_peer_dscp_rule2 :: "string \<Rightarrow> u16 \<Rightarrow> u8 \<Rightarrow> string \<Rightarrow> u16 \<Rightarrow> u16 \<Rightarrow> 's \<Rightarrow> int \<times> 's"
  po_get_peer_rule_by_index :: "nat \<Rightarrow> nat \<Rightarrow> nat \<Rightarrow> nat \<Rightarrow> 's \<Rightarrow> peer_info option"
  po_get_nat_ext_addr :: "sockaddr \<times> u16 \<Rightarrow> sockaddr \<times> u16 \<Rightarrow> u8 \<Rightarrow> 's \<Rightarrow> (sockaddr \<times> u16) option option"

record dscp_values =
  dv_app_name :: "string option"
  dv_app_name_len :: nat
  dv_delay :: u8
  dv_loss :: u8
  dv_jitter :: u8
  dv_dscp_value :: u8

record ('s, 're, 'k, 'h) pcp_env =
  pe_nat :: "('s, 're) natpmp_env"
  pe_pin :: pinhole_env
  pe_ip6 :: "('k, 'h) libip6tc"
  pe_peer :: "'s peer_ops"
  enable_upnppinhole :: bool
  pcp_flowp :: bool
  pcp_sadscp :: bool
  max_lifetime :: u32
  min_lifetime :: u32
  pcp_allow_third_party :: bool
  dscp_values_list :: "dscp_values list"
  get_src_for_route_to :: "in6_addr \<Rightarrow> int option"
  buf2_stack :: string

abbreviation pe_redir :: "('s, 're, 'k, 'h) pcp_env \<Rightarrow> ('s, 're) redirect_env" where
  "pe_redir E \<equiv> redir (pe_nat E)"

record ('s, 'k) pcp_state =
  nat_state :: "'s natpmp_state"
  pin_state :: "'k upnp6_state"

record pcp_info =
  pc_version :: u8
  pc_opcode :: u8
  pc_result_code :: u8
  pc_lifetime :: u32
  pc_error_lifetime :: u32
  pc_nonce :: "u32 list"
  pc_protocol :: u8
  pc_int_port :: u16
  pc_int_ip :: in6_addr
  pc_ext_port :: u16
  pc_ext_ip :: "in6_addr option"
  pc_peer_port :: u16
  pc_peer_ip :: in6_addr
  pc_delay_tolerance :: u8
  pc_loss_tolerance :: u8
  pc_jitter_tolerance :: u8
  pc_app_name_len :: u8
  pc_app_name :: string
  pc_sadscp_dscp :: u8
  pc_matched_name :: u8
  pc_dscp_up :: u8
  pc_dscp_down :: u8
  pc_flowp_present :: bool
  pc_is_map_op :: bool
  pc_is_peer_op :: bool
  pc_thirdp_ip :: "in6_addr option"
  pc_mapped_ip :: in6_addr
  pc_mapped_str :: string
  pc_pfailure_present :: bool
  pc_sender_ip :: in6_addr
  pc_is_fw :: bool
  pc_desc :: string

text \<open>\<open>memset(&pcp_msg_info, 0, sizeof(pcp_info_t))\<close>.\<close>

definition pcp_info_zero :: pcp_info where
  "pcp_info_zero = \<lparr>pc_version = 0, pc_opcode = 0, pc_result_code = 0, pc_lifetime = 0, pc_error_lifetime = 0,
     pc_nonce = [0, 0, 0], pc_protocol = 0, pc_int_port = 0, pc_int_ip = zero6, pc_ext_port = 0, pc_ext_ip = None,
     pc_peer_port = 0, pc_peer_ip = zero6, pc_delay_tolerance = 0, pc_loss_tolerance = 0, pc_jitter_tolerance = 0,
     pc_app_name_len = 0, pc_app_name = [], pc_sadscp_dscp = 0, pc_matched_name = 0, pc_dscp_up = 0, pc_dscp_down = 0,
     pc_flowp_present = False, pc_is_map_op = False, pc_is_peer_op = False, pc_thirdp_ip = None, pc_mapped_ip = zero6,
     pc_mapped_str = [], pc_pfailure_present = False, pc_sender_ip = zero6, pc_is_fw = False, pc_desc = []\<rparr>"

abbreviation (input) PCP_MIN_LEN :: nat where "PCP_MIN_LEN \<equiv> 24"
abbreviation (input) PCP_MAX_LEN :: nat where "PCP_MAX_LEN \<equiv> 1100"
abbreviation (input) PCP_COMMON_REQUEST_SIZE :: nat where "PCP_COMMON_REQUEST_SIZE \<equiv> 24"
abbreviation (input) PCP_COMMON_RESPONSE_SIZE :: nat where "PCP_COMMON_RESPONSE_SIZE \<equiv> 24"
abbreviation (input) PCP_MAP_V1_SIZE :: nat where "PCP_MAP_V1_SIZE \<equiv> 24"
abbreviation (input) PCP_MAP_V2_SIZE :: nat where "PCP_MAP_V2_SIZE \<equiv> 36"
abbreviation (input) PCP_PEER_V1_SIZE :: nat where "PCP_PEER_V1_SIZE \<equiv> 44"
abbreviation (input) PCP_PEER_V2_SIZE :: nat where "PCP_PEER_V2_SIZE \<equiv> 56"
abbreviation (input) PCP_SADSCP_REQ_SIZE :: nat where "PCP_SADSCP_REQ_SIZE \<equiv> 14"

abbreviation (input) PCP_OPCODE_ANNOUNCE :: u8 where "PCP_OPCODE_ANNOUNCE \<equiv> 0"
abbreviation (input) PCP_OPCODE_MAP :: u8 where "PCP_OPCODE_MAP \<equiv> 1"
abbreviation (input) PCP_OPCODE_PEER :: u8 where "PCP_OPCODE_PEER \<equiv> 2"
abbreviation (input) PCP_OPCODE_SADSCP :: u8 where "PCP_OPCODE_SADSCP \<equiv> 3"

abbreviation (input) PCP_SUCCESS :: u8 where "PCP_SUCCESS \<equiv> 0"
abbreviation (input) PCP_ERR_UNSUPP_VERSION :: u8 where "PCP_ERR_UNSUPP_VERSION \<equiv> 1"
abbreviation (input) PCP_ERR_NOT_AUTHORIZED :: u8 where "PCP_ERR_NOT_AUTHORIZED \<equiv> 2"
abbreviation (input) PCP_ERR_MALFORMED_REQUEST :: u8 where "PCP_ERR_MALFORMED_REQUEST \<equiv> 3"
abbreviation (input) PCP_ERR_UNSUPP_OPCODE :: u8 where "PCP_ERR_UNSUPP_OPCODE \<equiv> 4"
abbreviation (input) PCP_ERR_UNSUPP_OPTION :: u8 where "PCP_ERR_UNSUPP_OPTION \<equiv> 5"
abbreviation (input) PCP_ERR_MALFORMED_OPTION :: u8 where "PCP_ERR_MALFORMED_OPTION \<equiv> 6"
abbreviation (input) PCP_ERR_NETWORK_FAILURE :: u8 where "PCP_ERR_NETWORK_FAILURE \<equiv> 7"
abbreviation (input) PCP_ERR_NO_RESOURCES :: u8 where "PCP_ERR_NO_RESOURCES \<equiv> 8"
abbreviation (input) PCP_ERR_UNSUPP_PROTOCOL :: u8 where "PCP_ERR_UNSUPP_PROTOCOL \<equiv> 9"
abbreviation (input) PCP_ERR_USER_EX_QUOTA :: u8 where "PCP_ERR_USER_EX_QUOTA \<equiv> 10"
abbreviation (input) PCP_ERR_CANNOT_PROVIDE_EXTERNAL :: u8 where "PCP_ERR_CANNOT_PROVIDE_EXTERNAL \<equiv> 11"
abbreviation (input) PCP_ERR_ADDRESS_MISMATCH :: u8 where "PCP_ERR_ADDRESS_MISMATCH \<equiv> 12"
abbreviation (input) PCP_ERR_EXCESSIVE_REMOTE_PEERS :: u8 where "PCP_ERR_EXCESSIVE_REMOTE_PEERS \<equiv> 13"

abbreviation (input) INET6_ADDRSTRLEN :: nat where "INET6_ADDRSTRLEN \<equiv> 46"

text \<open>The highest version served, \<open>this_server_info.server_version\<close>.\<close>

abbreviation (input) server_version :: u8 where "server_version \<equiv> 2"

section \<open>Parsing\<close>

definition getPCPOpCodeStr :: "bool \<Rightarrow> u8 \<Rightarrow> string" where
  "getPCPOpCodeStr sadscp opcode =
     (if opcode = PCP_OPCODE_ANNOUNCE then ''ANNOUNCE'' else if opcode = PCP_OPCODE_MAP then ''MAP''
      else if opcode = PCP_OPCODE_PEER then ''PEER'' else if sadscp \<and> opcode = PCP_OPCODE_SADSCP then ''SADSCP''
      else ''UNKNOWN'')"

definition addr_at :: "nat \<Rightarrow> bytes \<Rightarrow> in6_addr" where
  "addr_at off buf = take 16 (drop off buf)"

text \<open>The result is the return value (an error) and the message.\<close>

definition parseCommonRequestHeader ::
  "('s, 're, 'k, 'h) pcp_env \<Rightarrow> bytes \<Rightarrow> pcp_info \<Rightarrow> bool \<times> pcp_info" where
  "parseCommonRequestHeader E common_req m =
     (let m1 = m\<lparr>pc_version := common_req ! 0, pc_opcode := common_req ! 1 AND 0x7f,
                 pc_lifetime := readnu32 (drop 4 common_req), pc_int_ip := addr_at 8 common_req,
                 pc_mapped_ip := addr_at 8 common_req\<rparr>
      in if pc_version m1 > server_version then (True, m1\<lparr>pc_result_code := PCP_ERR_UNSUPP_VERSION\<rparr>)
         else let m2 = (if pc_lifetime m1 > max_lifetime E then m1\<lparr>pc_lifetime := max_lifetime E\<rparr> else m1);
                  m3 = (if pc_lifetime m2 < min_lifetime E \<and> pc_lifetime m2 \<noteq> 0
                        then m2\<lparr>pc_lifetime := min_lifetime E\<rparr> else m2)
              in (False, m3))"

definition parsePCPMAP_version1 :: "bytes \<Rightarrow> pcp_info \<Rightarrow> pcp_info" where
  "parsePCPMAP_version1 map_v1 m =
     m\<lparr>pc_is_map_op := True, pc_protocol := map_v1 ! 0, pc_int_port := readnu16 (drop 4 map_v1),
       pc_ext_port := readnu16 (drop 6 map_v1), pc_ext_ip := Some (addr_at 8 map_v1)\<rparr>"

definition read_nonce :: "bytes \<Rightarrow> u32 list" where
  "read_nonce buf = map (\<lambda>i. readnu32 (rev (take 4 (drop (4 * i) buf)))) [0, 1, 2]"

definition parsePCPMAP_version2 :: "bytes \<Rightarrow> pcp_info \<Rightarrow> pcp_info" where
  "parsePCPMAP_version2 map_v2 m =
     m\<lparr>pc_is_map_op := True, pc_nonce := read_nonce map_v2, pc_protocol := map_v2 ! 12,
       pc_int_port := readnu16 (drop 16 map_v2), pc_ext_port := readnu16 (drop 18 map_v2),
       pc_ext_ip := Some (addr_at 20 map_v2)\<rparr>"

definition parsePCPPEER_version1 :: "bytes \<Rightarrow> pcp_info \<Rightarrow> pcp_info" where
  "parsePCPPEER_version1 buf m =
     m\<lparr>pc_is_peer_op := True, pc_protocol := buf ! 0, pc_int_port := readnu16 (drop 4 buf),
       pc_ext_port := readnu16 (drop 6 buf), pc_peer_port := readnu16 (drop 24 buf),
       pc_ext_ip := Some (addr_at 8 buf), pc_peer_ip := addr_at 28 buf\<rparr>"

definition parsePCPPEER_version2 :: "bytes \<Rightarrow> pcp_info \<Rightarrow> pcp_info" where
  "parsePCPPEER_version2 buf m =
     m\<lparr>pc_is_peer_op := True, pc_nonce := read_nonce buf, pc_protocol := buf ! 12,
       pc_int_port := readnu16 (drop 16 buf), pc_ext_port := readnu16 (drop 18 buf),
       pc_peer_port := readnu16 (drop 36 buf), pc_ext_ip := Some (addr_at 20 buf), pc_peer_ip := addr_at 40 buf\<rparr>"

text \<open>
  The DSCP opcode. The application name is compared as a C string, so it runs to the next zero byte
  of the buffer and not to the length that the request gives.
\<close>

definition parseSADSCP :: "bytes \<Rightarrow> pcp_info \<Rightarrow> bool \<times> pcp_info" where
  "parseSADSCP buf m =
     (let m1 = m\<lparr>pc_delay_tolerance := drop_bit 6 (buf ! 12) AND 3, pc_loss_tolerance := drop_bit 4 (buf ! 12) AND 3,
                 pc_jitter_tolerance := drop_bit 2 (buf ! 12) AND 3\<rparr>
      in if pc_delay_tolerance m1 = 3 \<or> pc_loss_tolerance m1 = 3 \<or> pc_jitter_tolerance m1 = 3
         then (True, m1\<lparr>pc_result_code := PCP_ERR_MALFORMED_REQUEST\<rparr>)
         else (False, m1\<lparr>pc_app_name := map (\<lambda>b. char_of (unat b)) (takeWhile (\<lambda>b. b \<noteq> 0) (drop 14 buf)),
                        pc_app_name_len := buf ! 13\<rparr>))"

definition same_tolerance :: "pcp_info \<Rightarrow> dscp_values \<Rightarrow> bool" where
  "same_tolerance m d = (pc_delay_tolerance m = dv_delay d \<and> pc_loss_tolerance m = dv_loss d
     \<and> pc_jitter_tolerance m = dv_jitter d)"

fun get_dscp_loop :: "dscp_values list \<Rightarrow> pcp_info \<Rightarrow> pcp_info" where
  "get_dscp_loop [] m = m\<lparr>pc_sadscp_dscp := 0, pc_matched_name := 0\<rparr>"
| "get_dscp_loop (d # ds) m =
     (if dv_app_name d = Some (pc_app_name m) \<and> same_tolerance m d
      then m\<lparr>pc_sadscp_dscp := dv_dscp_value d, pc_matched_name := 1\<rparr>
      else if dv_app_name_len d = 0 \<and> same_tolerance m d
      then m\<lparr>pc_sadscp_dscp := dv_dscp_value d, pc_matched_name := 0\<rparr>
      else get_dscp_loop ds m)"

definition get_dscp_value :: "('s, 're, 'k, 'h) pcp_env \<Rightarrow> pcp_info \<Rightarrow> pcp_info" where
  "get_dscp_value E m = get_dscp_loop (dscp_values_list E) m"

text \<open>
  One option: the number of bytes it takes (0 ends the loop) and the message. \<open>buf\<close> starts at the
  option and \<open>remain\<close> counts the bytes of the request that are left.
\<close>

definition parsePCPOption ::
  "('s, 're, 'k, 'h) pcp_env \<Rightarrow> bytes \<Rightarrow> int \<Rightarrow> pcp_info \<Rightarrow> nat \<times> pcp_info" where
  "parsePCPOption E buf remain m =
     (if remain < 4 then (0, m\<lparr>pc_result_code := PCP_ERR_MALFORMED_OPTION\<rparr>)
      else let option_length = unat (readnu16 (drop 2 buf)); code = buf ! 0;
               size = 4 + (option_length + 3) div 4 * 4
           in if remain - 4 < int option_length then (0, m\<lparr>pc_result_code := PCP_ERR_MALFORMED_OPTION\<rparr>)
              else if code = 1
              then if option_length \<noteq> 16 then (0, m\<lparr>pc_result_code := PCP_ERR_MALFORMED_OPTION\<rparr>)
                   else if pc_thirdp_ip m \<noteq> None then (0, m\<lparr>pc_result_code := PCP_ERR_MALFORMED_OPTION\<rparr>)
                   else (size, m\<lparr>pc_thirdp_ip := Some (addr_at 4 buf), pc_mapped_ip := addr_at 4 buf\<rparr>)
              else if code = 2
              then if pc_opcode m = PCP_OPCODE_PEER then (0, m\<lparr>pc_result_code := PCP_ERR_MALFORMED_REQUEST\<rparr>)
                   else if option_length \<noteq> 0 \<or> pc_lifetime m = 0
                   then (0, m\<lparr>pc_result_code := PCP_ERR_MALFORMED_OPTION\<rparr>)
                   else let m1 = (if pc_opcode m \<noteq> PCP_OPCODE_MAP
                                  then m\<lparr>pc_result_code := PCP_ERR_MALFORMED_REQUEST\<rparr> else m)
                        in (size, if pc_pfailure_present m1 then m1\<lparr>pc_result_code := PCP_ERR_MALFORMED_OPTION\<rparr>
                                  else m1\<lparr>pc_pfailure_present := True\<rparr>)
              else if code = 3
              then if option_length \<noteq> 20 \<or> pc_lifetime m = 0
                   then (0, m\<lparr>pc_result_code := PCP_ERR_MALFORMED_OPTION\<rparr>)
                   else if buf ! 5 > 128 \<or> (take 12 (drop 8 buf) = replicate 10 0 @ [0xff, 0xff] \<and> buf ! 5 < 96)
                   then (0, m\<lparr>pc_result_code := PCP_ERR_MALFORMED_OPTION\<rparr>)
                   else if pc_opcode m \<noteq> PCP_OPCODE_MAP then (0, m\<lparr>pc_result_code := PCP_ERR_MALFORMED_REQUEST\<rparr>)
                   else (size, m)
              else if pcp_flowp E \<and> code = 4
              then if option_length \<noteq> 4 then (0, m\<lparr>pc_result_code := PCP_ERR_MALFORMED_OPTION\<rparr>)
                   else (size, m\<lparr>pc_dscp_up := buf ! 4, pc_dscp_down := buf ! 5, pc_flowp_present := True\<rparr>)
              else if code < 128 then (size, m\<lparr>pc_result_code := PCP_ERR_UNSUPP_OPTION\<rparr>)
              else (size, m))"

function parsePCPOptions :: "('s, 're, 'k, 'h) pcp_env \<Rightarrow> bytes \<Rightarrow> int \<Rightarrow> pcp_info \<Rightarrow> pcp_info" where
  "parsePCPOptions E buf remain m =
     (if remain > 0
      then let (n, m1) = parsePCPOption E buf remain m
           in if n = 0 then m1 else parsePCPOptions E (drop n buf) (remain - int n) m1
      else m)"
  by pat_completeness auto
termination
  by (relation "measure (\<lambda>(E, buf, remain, m). nat remain)") auto

declare parsePCPOptions.simps [simp del]

section \<open>Addresses\<close>

definition inet_n46top :: "in6_addr \<Rightarrow> string" where
  "inet_n46top a = (if in6_is_v4mapped a then inet_ntop (in6_v4 a) else inet_ntop6 a)"

text \<open>The external address of a mapping, \<^const>\<open>None\<close> when there is none.\<close>

definition pcp_external_addr :: "('s, 're, 'k, 'h) pcp_env \<Rightarrow> pcp_info \<Rightarrow> in6_addr option" where
  "pcp_external_addr E m =
     (if \<not> in6_is_v4mapped (pc_mapped_ip m) then Some (pc_mapped_ip m)
      else case use_ext_ip_addr (pe_nat E) of
             Some s \<Rightarrow> (case inet_pton s of Some a \<Rightarrow> Some (v4_mapped a) | None \<Rightarrow> inet_pton6 s)
           | None \<Rightarrow> getifaddr_in6 (if_list (pe_nat E)) (ext_if_name (pe_nat E)) False)"

text \<open>The result is the return value (0 for a valid address) and the message.\<close>

definition CheckExternalAddress :: "('s, 're, 'k, 'h) pcp_env \<Rightarrow> pcp_info \<Rightarrow> int \<times> pcp_info" where
  "CheckExternalAddress E m0 =
     (let m = m0\<lparr>pc_is_fw := \<not> in6_is_v4mapped (pc_mapped_ip m0)\<rparr>
      in case pcp_external_addr E m of None \<Rightarrow> (-1, m\<lparr>pc_result_code := PCP_ERR_NETWORK_FAILURE\<rparr>)
         | Some external_addr \<Rightarrow>
             (case pc_ext_ip m of None \<Rightarrow> (0, m\<lparr>pc_ext_ip := Some external_addr\<rparr>)
              | Some ext_ip \<Rightarrow>
                  if in6_is_unspecified ext_ip \<or> (in6_is_v4mapped ext_ip \<and> in6_v4 ext_ip = 0)
                  then (0, m\<lparr>pc_ext_ip := Some external_addr\<rparr>)
                  else if ext_ip \<noteq> external_addr
                  then if pc_pfailure_present m then (-1, m\<lparr>pc_result_code := PCP_ERR_CANNOT_PROVIDE_EXTERNAL\<rparr>)
                       else (0, m\<lparr>pc_ext_ip := Some external_addr\<rparr>)
                  else (0, m)))"

definition FillSA :: "in6_addr \<Rightarrow> u16 \<Rightarrow> sockaddr \<times> u16" where
  "FillSA in6 port = (if in6_is_v4mapped in6 then Inet (in6_v4 in6) else Inet6 in6, port)"

definition inet_satop :: "sockaddr \<Rightarrow> string" where
  "inet_satop sa = (case sa of Inet a \<Rightarrow> inet_ntop a | Inet6 a \<Rightarrow> inet_ntop6 a)"

section \<open>Port mappings\<close>

text \<open>
  The loop over the external ports: an error code, or \<^const>\<open>None\<close> when it settles on the port. With
  \<open>PREFER_FAILURE\<close> the loop fails at the first port that cannot be had, except for one that is in use
  on the gateway itself.
\<close>

definition pcp_allowed :: "('s, 're) redirect_env \<Rightarrow> pcp_info \<Rightarrow> u16 \<Rightarrow> bool" where
  "pcp_allowed R m eport = (\<not> in6_is_v4mapped (pc_mapped_ip m)
     \<or> check_upnp_rule_against_permissions (nomatch R) (upnppermlist R) eport (in6_v4 (pc_mapped_ip m))
         (pc_int_port m) (Some (pc_desc m)))"

definition pcp_reserved :: "pcp_info \<Rightarrow> u16 \<Rightarrow> bool" where
  "pcp_reserved m eport = (pc_protocol m = 17 \<and> (eport = 5350 \<or> eport = 5351))"

function pcp_map_loop ::
  "('s, 're) redirect_env \<Rightarrow> pcp_info \<Rightarrow> u16 \<Rightarrow> bool \<Rightarrow> u16 \<Rightarrow> 's redirect_state \<Rightarrow> u8 option \<times> u16 \<times> 's redirect_state" where
  "pcp_map_loop R m eport_first any_eport_allowed eport st =
     (if eport_first \<noteq> 0 \<and> eport = eport_first
      then (Some (if any_eport_allowed then PCP_ERR_NO_RESOURCES else PCP_ERR_NOT_AUTHORIZED), eport, st)
      else let first = (if eport_first = 0 then eport else eport_first)
           in if pcp_reserved m eport
              then if pc_pfailure_present m then (Some PCP_ERR_CANNOT_PROVIDE_EXTERNAL, eport, st)
                   else pcp_map_loop R m first any_eport_allowed (eport + 1) st
              else if \<not> pcp_allowed R m eport
              then if pc_pfailure_present m then (Some PCP_ERR_CANNOT_PROVIDE_EXTERNAL, eport, st)
                   else pcp_map_loop R m first any_eport_allowed (next_eport eport) st
              else if port_in_use R eport (ucast (pc_protocol m)) (pc_mapped_str m) (pc_int_port m) (fw st) > 0
              then pcp_map_loop R m first True (next_eport eport) st
              else case be_get_redirect_rule (be_ops R) eport (ucast (pc_protocol m)) INET6_ADDRSTRLEN 0 0 (fw st) of
                     None \<Rightarrow> (None, eport, st)
                   | Some info \<Rightarrow>
                       if pc_mapped_str m \<noteq> info_iaddr info \<or> pc_int_port m \<noteq> info_iport info
                       then if pc_pfailure_present m then (Some PCP_ERR_CANNOT_PROVIDE_EXTERNAL, eport, st)
                            else pcp_map_loop R m first True (next_eport eport) st
                       else case upnp_delete_redir R eport (ucast (pc_protocol m)) st of
                              (r, st1) \<Rightarrow>
                                if r = 0 then (None, eport, st1)
                                else if pc_pfailure_present m then (Some PCP_ERR_CANNOT_PROVIDE_EXTERNAL, eport, st1)
                                else pcp_map_loop R m first True (next_eport eport) st1)"
  by pat_completeness auto

lemma reserved_next: "pcp_reserved m eport \<Longrightarrow> eport + 1 = next_eport eport"
  by (auto simp: pcp_reserved_def next_eport_def)

termination pcp_map_loop
  by (relation "measure (\<lambda>(R, m, f, a, e, st). port_distance f e)")
    (use port_distance_next in \<open>auto simp: reserved_next\<close>)

declare pcp_map_loop.simps [simp del]

text \<open>The result code, the message (with the external port) and the state.\<close>

definition CreatePCPMap_NAT ::
  "('s, 're) redirect_env \<Rightarrow> pcp_info \<Rightarrow> 's redirect_state \<Rightarrow> u8 \<times> pcp_info \<times> 's redirect_state" where
  "CreatePCPMap_NAT R m st =
     (let timestamp = upnp_time R + pc_lifetime m;
          eport0 = (if pc_ext_port m = 0 then pc_int_port m else pc_ext_port m)
      in if eport0 = 0 then (PCP_ERR_MALFORMED_REQUEST, m\<lparr>pc_ext_port := eport0\<rparr>, st)
         else case pcp_map_loop R m 0 False eport0 st of
                (Some err, eport, st1) \<Rightarrow> (err, m\<lparr>pc_ext_port := eport\<rparr>, st1)
              | (None, eport, st1) \<Rightarrow>
                  let (r, st2) = upnp_redirect_internal R None eport (pc_mapped_str m) (pc_int_port m)
                                   (ucast (pc_protocol m)) (pc_desc m) timestamp st1
                  in (if r < 0 then PCP_ERR_NO_RESOURCES else PCP_SUCCESS, m\<lparr>pc_ext_port := eport\<rparr>, st2))"

definition CreatePCPMap_FW ::
  "('s, 're, 'k, 'h) pcp_env \<Rightarrow> pcp_info \<Rightarrow> 'k upnp6_state \<Rightarrow> (u8 \<times> pcp_info \<times> 'k upnp6_state) option" where
  "CreatePCPMap_FW E m st =
     (if \<not> enable_upnppinhole E then Some (PCP_ERR_NO_RESOURCES, m, st)
      else let (uid, desc, timestamp) = upnp_find_inboundpinhole None 0 (pc_mapped_str m) (pc_int_port m)
                                          (ucast (pc_protocol m)) 64 st
           in if uid \<ge> 0
              then if desc \<noteq> pc_desc m
                   then Some (PCP_ERR_NOT_AUTHORIZED,
                              (if timestamp > upnp_time6 (pe_pin E)
                               then m\<lparr>pc_error_lifetime := timestamp - upnp_time6 (pe_pin E)\<rparr> else m), st)
                   else let (r, st1) = upnp_update_inboundpinhole (pe_pin E) (word_of_int uid) (pc_lifetime m) st
                        in if r < 0 then Some (PCP_ERR_NO_RESOURCES, m, st1)
                           else Some (PCP_SUCCESS, m\<lparr>pc_ext_port := pc_int_port m\<rparr>, st1)
              else case upnp_add_inboundpinhole (pe_ip6 E) (pe_pin E) (buf2_stack E) None 0 (pc_mapped_str m)
                          (pc_int_port m) (ucast (pc_protocol m)) (pc_desc m) (pc_lifetime m) uid st of
                     None \<Rightarrow> None
                   | Some (r, _, st1) \<Rightarrow>
                       if r < 0 then Some (PCP_ERR_NO_RESOURCES, m, st1)
                       else Some (PCP_SUCCESS, m\<lparr>pc_ext_port := pc_int_port m\<rparr>, st1))"

abbreviation rst_of :: "('s, 'k) pcp_state \<Rightarrow> 's redirect_state" where
  "rst_of ps \<equiv> rst (nat_state ps)"

definition set_rst :: "'s redirect_state \<Rightarrow> ('s, 'k) pcp_state \<Rightarrow> ('s, 'k) pcp_state" where
  "set_rst st ps = ps\<lparr>nat_state := (nat_state ps)\<lparr>rst := st\<rparr>\<rparr>"

definition CreatePCPMap ::
  "('s, 're, 'k, 'h) pcp_env \<Rightarrow> pcp_info \<Rightarrow> ('s, 'k) pcp_state \<Rightarrow> (pcp_info \<times> ('s, 'k) pcp_state) option" where
  "CreatePCPMap E m ps =
     (if pc_is_fw m
      then map_option (\<lambda>(r, m1, st1). (m1\<lparr>pc_result_code := r\<rparr>, ps\<lparr>pin_state := st1\<rparr>)) (CreatePCPMap_FW E m (pin_state ps))
      else let (r, m1, st1) = CreatePCPMap_NAT (pe_redir E) m (rst_of ps)
           in Some (m1\<lparr>pc_result_code := r\<rparr>, set_rst st1 ps))"

text \<open>
  The search of a deletion among the redirections: the first one to the client, with the protocol and
  internal port of the request (0 for any port).
\<close>

partial_function (option) find_redirect_of ::
  "('s, 're) redirect_env \<Rightarrow> pcp_info \<Rightarrow> nat \<Rightarrow> 's redirect_state \<Rightarrow> (u16 \<times> u16 \<times> string) option option" where
  [code]: "find_redirect_of R m index st =
     (case be_get_redirect_rule_by_index (be_ops R) index INET6_ADDRSTRLEN 64 0 (fw st) of
        None \<Rightarrow> Some None
      | Some (eport2, proto2, info) \<Rightarrow>
          if info_iaddr info = pc_mapped_str m \<and> proto2 = ucast (pc_protocol m)
             \<and> (info_iport info = pc_int_port m \<or> pc_int_port m = 0)
          then Some (Some (eport2, proto2, info_desc info))
          else find_redirect_of R m (index + 1) st)"

definition DeletePCPMap_NAT ::
  "('s, 're) redirect_env \<Rightarrow> pcp_info \<Rightarrow> 's redirect_state \<Rightarrow> (pcp_info \<times> 's redirect_state) option" where
  "DeletePCPMap_NAT R m st =
     (case find_redirect_of R m 0 st of None \<Rightarrow> None
      | Some None \<Rightarrow> Some (m, st)
      | Some (Some (eport2, proto2, desc)) \<Rightarrow>
          if desc \<noteq> pc_desc m then Some (m\<lparr>pc_result_code := PCP_ERR_NOT_AUTHORIZED\<rparr>, st)
          else let (r, st1) = upnp_delete_redir R eport2 proto2 st
               in Some (if r \<ge> 0 then m else m\<lparr>pc_result_code := PCP_ERR_NO_RESOURCES\<rparr>, st1))"

definition DeletePCPMap_FW ::
  "('s, 're, 'k, 'h) pcp_env \<Rightarrow> pcp_info \<Rightarrow> 'k upnp6_state \<Rightarrow> (pcp_info \<times> 'k upnp6_state) option" where
  "DeletePCPMap_FW E m st =
     (if \<not> enable_upnppinhole E then Some (m\<lparr>pc_result_code := PCP_ERR_NO_RESOURCES\<rparr>, st)
      else let (uid, desc, _) = upnp_find_inboundpinhole None 0 (pc_mapped_str m) (pc_int_port m)
                                  (ucast (pc_protocol m)) 64 st
           in if uid < 0 then Some (m, st)
              else if desc \<noteq> pc_desc m then Some (m\<lparr>pc_result_code := PCP_ERR_NOT_AUTHORIZED\<rparr>, st)
              else map_option (\<lambda>(r, st1). (if r \<ge> 0 then m else m\<lparr>pc_result_code := PCP_ERR_NO_RESOURCES\<rparr>, st1))
                     (upnp_delete_inboundpinhole (pe_ip6 E) (pe_pin E) (buf2_stack E) (word_of_int uid) st))"

definition DeletePCPMap ::
  "('s, 're, 'k, 'h) pcp_env \<Rightarrow> pcp_info \<Rightarrow> ('s, 'k) pcp_state \<Rightarrow> (pcp_info \<times> ('s, 'k) pcp_state) option" where
  "DeletePCPMap E m ps =
     (if \<not> pc_is_fw m
      then map_option (\<lambda>(m1, st1). (m1, set_rst st1 ps)) (DeletePCPMap_NAT (pe_redir E) m (rst_of ps))
      else map_option (\<lambda>(m1, st1). (m1, ps\<lparr>pin_state := st1\<rparr>)) (DeletePCPMap_FW E m (pin_state ps)))"

section \<open>Peer mappings\<close>

text \<open>
  \<open>get_nat_ext_addr\<close> gives the external side of an established connection, \<^const>\<open>None\<close> when there is
  none, and \<open>Some None\<close> for one of another family. The interface name goes to backend calls that do
  not use it.
\<close>

definition CreatePCPPeer_NAT ::
  "('s, 're, 'k, 'h) pcp_env \<Rightarrow> pcp_info \<Rightarrow> 's redirect_state \<Rightarrow> u8 \<times> pcp_info \<times> 's redirect_state" where
  "CreatePCPPeer_NAT E m st =
     (let timestamp = upnp_time (pe_redir E) + pc_lifetime m;
          intip = FillSA (pc_mapped_ip m) (pc_int_port m);
          peerip = FillSA (pc_peer_ip m) (pc_peer_port m);
          extip = FillSA (case pc_ext_ip m of None \<Rightarrow> zero6 | Some a \<Rightarrow> a) (pc_ext_port m);
          peerip_s = inet_satop (fst peerip); extip_s = inet_satop (fst extip);
          found = po_get_nat_ext_addr (pe_peer E) intip peerip (pc_protocol m) (fw st)
      in if found = Some None then (PCP_ERR_CANNOT_PROVIDE_EXTERNAL, m, st)
         else let eport1 = (case found of Some (Some (_, p)) \<Rightarrow> p | _ \<Rightarrow> pc_ext_port m);
                  eport = (if eport1 = 0 then pc_int_port m else eport1);
                  (r1, f1) = (if pcp_flowp E \<and> pc_flowp_present m \<and> pc_dscp_up m \<noteq> 0
                              then po_add_peer_dscp_rule2 (pe_peer E) peerip_s (pc_peer_port m) (pc_dscp_up m)
                                     (pc_mapped_str m) (pc_int_port m) (ucast (pc_protocol m)) (fw st)
                              else (0, fw st))
              in if r1 < 0 then (PCP_ERR_NO_RESOURCES, m, st\<lparr>fw := f1\<rparr>)
                 else let (r2, f2) = (if pcp_flowp E \<and> pc_flowp_present m \<and> pc_dscp_down m \<noteq> 0
                                      then po_add_peer_dscp_rule2 (pe_peer E) (pc_mapped_str m) (pc_int_port m)
                                             (pc_dscp_down m) peerip_s (pc_peer_port m) (ucast (pc_protocol m)) f1
                                      else (0, f1))
                      in if r2 < 0 then (PCP_ERR_NO_RESOURCES, m\<lparr>pc_result_code := PCP_ERR_NO_RESOURCES\<rparr>, st\<lparr>fw := f2\<rparr>)
                         else let (r, f3) = po_add_peer_redirect_rule2 (pe_peer E) peerip_s (pc_peer_port m) extip_s eport
                                              (pc_mapped_str m) (pc_int_port m) (ucast (pc_protocol m)) (pc_desc m)
                                              timestamp f2
                              in if r < 0 then (PCP_ERR_NO_RESOURCES, m, st\<lparr>fw := f3\<rparr>)
                                 else (PCP_SUCCESS, m\<lparr>pc_ext_port := eport\<rparr>, st\<lparr>fw := f3\<rparr>))"

definition CreatePCPPeer ::
  "('s, 're, 'k, 'h) pcp_env \<Rightarrow> pcp_info \<Rightarrow> ('s, 'k) pcp_state \<Rightarrow> pcp_info \<times> ('s, 'k) pcp_state" where
  "CreatePCPPeer E m ps =
     (if pc_is_fw m then (m\<lparr>pc_result_code := PCP_ERR_UNSUPP_OPCODE\<rparr>, ps)
      else let (r, m1, st1) = CreatePCPPeer_NAT E m (rst_of ps)
           in (m1\<lparr>pc_result_code := r\<rparr>, set_rst st1 ps))"

text \<open>
  The deletion of a peer mapping. The backend leaves the buffer of the internal address as it was for
  a rule without one, so the loop carries its content.
\<close>

partial_function (option) DeletePCPPeer_loop ::
  "('s, 're, 'k, 'h) pcp_env \<Rightarrow> pcp_info \<Rightarrow> string \<Rightarrow> nat \<Rightarrow> string \<Rightarrow> 's redirect_state
   \<Rightarrow> (pcp_info \<times> 's redirect_state) option" where
  [code]: "DeletePCPPeer_loop E m rhost index iaddr0 st =
     (case po_get_peer_rule_by_index (pe_peer E) index INET6_ADDRSTRLEN 64 INET6_ADDRSTRLEN (fw st) of
        None \<Rightarrow> Some (m\<lparr>pc_result_code := PCP_ERR_NO_RESOURCES\<rparr>, st)
      | Some p \<Rightarrow>
          (let iaddr2 = (case peer_iaddr p of None \<Rightarrow> iaddr0 | Some a \<Rightarrow> a)
           in if iaddr2 = pc_mapped_str m \<and> peer_rhost p = rhost \<and> peer_proto p = ucast (pc_protocol m)
                 \<and> peer_desc p = pc_desc m \<and> peer_iport p = pc_int_port m \<and> peer_rport p = pc_peer_port m
              then Some (m, snd (upnp_delete_redir (pe_redir E) (peer_eport p) (peer_proto p) st))
              else DeletePCPPeer_loop E m rhost (index + 1) iaddr2 st))"

definition DeletePCPPeer ::
  "('s, 're, 'k, 'h) pcp_env \<Rightarrow> pcp_info \<Rightarrow> ('s, 'k) pcp_state \<Rightarrow> (pcp_info \<times> ('s, 'k) pcp_state) option" where
  "DeletePCPPeer E m ps =
     (if pc_is_fw m then Some (m\<lparr>pc_result_code := PCP_ERR_UNSUPP_OPCODE\<rparr>, ps)
      else map_option (\<lambda>(m1, st1). (m1, set_rst st1 ps))
             (DeletePCPPeer_loop E m (inet_n46top (pc_peer_ip m)) 0 (buf2_stack E) (rst_of ps)))"

section \<open>Requests\<close>

text \<open>\<open>%08x\<close>, and the description that carries the nonce.\<close>

definition hex8 :: "u32 \<Rightarrow> string" where
  "hex8 w = map (\<lambda>i. hex_digit (unat (drop_bit (4 * i) w AND 15))) (rev [0..<8])"

definition pcp_desc_text :: "bool \<Rightarrow> pcp_info \<Rightarrow> string" where
  "pcp_desc_text sadscp m =
     bounded_copy 64 (''PCP '' @ getPCPOpCodeStr sadscp (pc_opcode m) @ '' '' @ concat (map hex8 (pc_nonce m)))"

definition ValidatePCPMsg :: "('s, 're, 'k, 'h) pcp_env \<Rightarrow> pcp_info \<Rightarrow> bool \<times> pcp_info" where
  "ValidatePCPMsg E m =
     (if pc_result_code m \<noteq> 0 then (False, m)
      else if pc_int_ip m \<noteq> pc_sender_ip m then (False, m\<lparr>pc_result_code := PCP_ERR_ADDRESS_MISMATCH\<rparr>)
      else if pc_thirdp_ip m \<noteq> None \<and> \<not> pcp_allow_third_party E
      then (False, m\<lparr>pc_result_code := PCP_ERR_UNSUPP_OPTION\<rparr>)
      else if pc_thirdp_ip m = Some (pc_sender_ip m) then (False, m\<lparr>pc_result_code := PCP_ERR_MALFORMED_REQUEST\<rparr>)
      else let m1 = m\<lparr>pc_mapped_str := inet_n46top (pc_mapped_ip m)\<rparr>
           in if pc_protocol m1 = 0 \<and> pc_int_port m1 \<noteq> 0 then (False, m1\<lparr>pc_result_code := PCP_ERR_MALFORMED_REQUEST\<rparr>)
              else if pc_pfailure_present m1 \<and> pc_ext_port m1 = 0
              then (False, m1\<lparr>pc_result_code := PCP_ERR_MALFORMED_OPTION\<rparr>)
              else case CheckExternalAddress E m1 of
                     (r, m2) \<Rightarrow>
                       if r \<noteq> 0 then (False, m2)
                       else (True, if pc_opcode m2 = PCP_OPCODE_MAP \<or> pc_opcode m2 = PCP_OPCODE_PEER
                                   then m2\<lparr>pc_desc := pcp_desc_text (pcp_sadscp E) m2\<rparr> else m2))"

text \<open>The outcome of a request: whether an answer is sent, the message and the state.\<close>

definition handle_map ::
  "('s, 're, 'k, 'h) pcp_env \<Rightarrow> bytes \<Rightarrow> int \<Rightarrow> pcp_info \<Rightarrow> ('s, 'k) pcp_state
   \<Rightarrow> (bool \<times> pcp_info \<times> ('s, 'k) pcp_state) option" where
  "handle_map E opts remain m ps =
     (case ValidatePCPMsg E (parsePCPOptions E opts remain m) of
        (False, m1) \<Rightarrow> Some (pc_result_code m1 \<noteq> 0, m1, ps)
      | (True, m1) \<Rightarrow> map_option (Pair True) (if pc_lifetime m1 = 0 then DeletePCPMap E m1 ps else CreatePCPMap E m1 ps))"

definition handle_peer ::
  "('s, 're, 'k, 'h) pcp_env \<Rightarrow> bool \<Rightarrow> bytes \<Rightarrow> int \<Rightarrow> pcp_info \<Rightarrow> ('s, 'k) pcp_state
   \<Rightarrow> (bool \<times> pcp_info \<times> ('s, 'k) pcp_state) option" where
  "handle_peer E v2 opts remain m ps =
     (case ValidatePCPMsg E (parsePCPOptions E opts remain m) of
        (False, m1) \<Rightarrow> Some (v2 \<or> pc_result_code m1 \<noteq> 0, m1, ps)
      | (True, m1) \<Rightarrow>
          map_option (Pair True) (if pc_lifetime m1 = 0 then DeletePCPPeer E m1 ps else Some (CreatePCPPeer E m1 ps)))"

definition handle_sadscp ::
  "('s, 're, 'k, 'h) pcp_env \<Rightarrow> bytes \<Rightarrow> int \<Rightarrow> pcp_info \<Rightarrow> pcp_info" where
  "handle_sadscp E req remain m =
     (if remain < int PCP_SADSCP_REQ_SIZE then m\<lparr>pc_result_code := PCP_ERR_MALFORMED_REQUEST\<rparr>
      else if remain - int PCP_SADSCP_REQ_SIZE < uint (req ! 13) then m\<lparr>pc_result_code := PCP_ERR_MALFORMED_OPTION\<rparr>
      else case parseSADSCP req m of
             (_, m1) \<Rightarrow> if pc_result_code m1 \<noteq> 0 then m1 else get_dscp_value E m1)"

text \<open>The two switches over the opcode; \<open>req\<close> starts after the common header.\<close>

definition process_v1 ::
  "('s, 're, 'k, 'h) pcp_env \<Rightarrow> bytes \<Rightarrow> int \<Rightarrow> pcp_info \<Rightarrow> ('s, 'k) pcp_state
   \<Rightarrow> (bool \<times> pcp_info \<times> ('s, 'k) pcp_state) option" where
  "process_v1 E req remain m ps =
     (if pc_opcode m = PCP_OPCODE_MAP
      then if remain < int PCP_MAP_V1_SIZE then Some (True, m\<lparr>pc_result_code := PCP_ERR_MALFORMED_REQUEST\<rparr>, ps)
           else handle_map E (drop PCP_MAP_V1_SIZE req) (remain - int PCP_MAP_V1_SIZE) (parsePCPMAP_version1 req m) ps
      else if pcp_peer (pe_redir E) \<and> pc_opcode m = PCP_OPCODE_PEER
      then if remain < int PCP_PEER_V1_SIZE then Some (True, m\<lparr>pc_result_code := PCP_ERR_MALFORMED_REQUEST\<rparr>, ps)
           else handle_peer E False (drop PCP_PEER_V1_SIZE req) (remain - int PCP_PEER_V1_SIZE)
                  (parsePCPPEER_version1 req m) ps
      else Some (True, m\<lparr>pc_result_code := PCP_ERR_UNSUPP_OPCODE\<rparr>, ps))"

definition process_v2 ::
  "('s, 're, 'k, 'h) pcp_env \<Rightarrow> bytes \<Rightarrow> int \<Rightarrow> pcp_info \<Rightarrow> ('s, 'k) pcp_state
   \<Rightarrow> (bool \<times> pcp_info \<times> ('s, 'k) pcp_state) option" where
  "process_v2 E req remain m ps =
     (if pc_opcode m = PCP_OPCODE_ANNOUNCE
      then let m2 = m\<lparr>pc_lifetime := 0\<rparr>
           in Some (True, if pc_int_ip m2 \<noteq> pc_sender_ip m2 then m2\<lparr>pc_result_code := PCP_ERR_ADDRESS_MISMATCH\<rparr>
                          else parsePCPOptions E req remain m2, ps)
      else if pc_opcode m = PCP_OPCODE_MAP
      then if remain < int PCP_MAP_V2_SIZE then Some (True, m\<lparr>pc_result_code := PCP_ERR_MALFORMED_REQUEST\<rparr>, ps)
           else handle_map E (drop PCP_MAP_V2_SIZE req) (remain - int PCP_MAP_V2_SIZE) (parsePCPMAP_version2 req m) ps
      else if pcp_peer (pe_redir E) \<and> pc_opcode m = PCP_OPCODE_PEER
      then if remain < int PCP_PEER_V2_SIZE then Some (True, m\<lparr>pc_result_code := PCP_ERR_MALFORMED_REQUEST\<rparr>, ps)
           else handle_peer E True (drop PCP_PEER_V2_SIZE req) (remain - int PCP_PEER_V2_SIZE)
                  (parsePCPPEER_version2 req m) ps
      else if pcp_sadscp E \<and> pc_opcode m = PCP_OPCODE_SADSCP
      then Some (True, handle_sadscp E req remain m, ps)
      else Some (True, m\<lparr>pc_result_code := PCP_ERR_UNSUPP_OPCODE\<rparr>, ps))"

text \<open>
  \<open>processPCPRequest\<close>. \<open>buf\<close> is the whole receive buffer and \<open>req_size\<close> the length of the datagram.
\<close>

definition processPCPRequest ::
  "('s, 're, 'k, 'h) pcp_env \<Rightarrow> bytes \<Rightarrow> nat \<Rightarrow> pcp_info \<Rightarrow> ('s, 'k) pcp_state
   \<Rightarrow> (bool \<times> pcp_info \<times> ('s, 'k) pcp_state) option" where
  "processPCPRequest E buf req_size m0 ps =
     (let m = m0\<lparr>pc_result_code := PCP_SUCCESS\<rparr>
      in if req_size < 3 then Some (False, m, ps)
         else if req_size < PCP_MIN_LEN then Some (True, m\<lparr>pc_result_code := PCP_ERR_MALFORMED_REQUEST\<rparr>, ps)
         else if req_size > PCP_MAX_LEN \<or> req_size mod 4 \<noteq> 0
         then Some (True, m\<lparr>pc_result_code := PCP_ERR_MALFORMED_REQUEST\<rparr>, ps)
         else case parseCommonRequestHeader E buf m of
                (True, m1) \<Rightarrow> Some (True, m1, ps)
              | (False, m1) \<Rightarrow>
                  let remain = int req_size - int PCP_COMMON_REQUEST_SIZE; req = drop PCP_COMMON_REQUEST_SIZE buf
                  in if pc_version m1 = 1 then process_v1 E req remain m1 ps
                     else if pc_version m1 = 2 then process_v2 E req remain m1 ps
                     else Some (True, m1\<lparr>pc_result_code := PCP_ERR_UNSUPP_VERSION\<rparr>, ps))"

section \<open>Answers\<close>

definition long_lifetime_error :: "u8 \<Rightarrow> bool" where
  "long_lifetime_error code = (code \<in> {PCP_ERR_UNSUPP_VERSION, PCP_ERR_NOT_AUTHORIZED, PCP_ERR_MALFORMED_REQUEST,
     PCP_ERR_UNSUPP_OPCODE, PCP_ERR_UNSUPP_OPTION, PCP_ERR_MALFORMED_OPTION, PCP_ERR_UNSUPP_PROTOCOL,
     PCP_ERR_ADDRESS_MISMATCH, PCP_ERR_CANNOT_PROVIDE_EXTERNAL, PCP_ERR_EXCESSIVE_REMOTE_PEERS})"

definition response_lifetime :: "pcp_info \<Rightarrow> u32" where
  "response_lifetime m =
     (if long_lifetime_error (pc_result_code m) then (if pc_error_lifetime m \<noteq> 0 then pc_error_lifetime m else 1800)
      else if pc_result_code m \<in> {PCP_ERR_NETWORK_FAILURE, PCP_ERR_NO_RESOURCES, PCP_ERR_USER_EX_QUOTA} then 30
      else pc_lifetime m)"

definition copyIPv6IfDifferent :: "nat \<Rightarrow> in6_addr option \<Rightarrow> bytes \<Rightarrow> bytes" where
  "copyIPv6IfDifferent off src buf = (case src of None \<Rightarrow> buf | Some a \<Rightarrow> put off a buf)"

text \<open>The part after the common header; \<open>off\<close> is where a version 1 or version 2 body has its ports.\<close>

definition map_response :: "pcp_info \<Rightarrow> nat \<Rightarrow> bytes \<Rightarrow> bytes" where
  "map_response m off resp =
     copyIPv6IfDifferent (off + 4) (pc_ext_ip m)
       (put (off + 2) (writenu16 (pc_ext_port m)) (put off (writenu16 (pc_int_port m)) (put (off - 3) [0, 0, 0] resp)))"

definition peer_response :: "pcp_info \<Rightarrow> nat \<Rightarrow> bytes \<Rightarrow> bytes" where
  "peer_response m off resp =
     copyIPv6IfDifferent (off + 4) (pc_ext_ip m)
       (put (off + 22) [0, 0] (put (off + 20) (writenu16 (pc_peer_port m))
         (put (off + 2) (writenu16 (pc_ext_port m)) (put off (writenu16 (pc_int_port m)) (put (off - 3) [0, 0, 0] resp)))))"

text \<open>The answer written over the request, and the state with the origin of the epoch.\<close>

definition pcp_header :: "pcp_info \<Rightarrow> u32 \<Rightarrow> bytes" where
  "pcp_header m epoch =
     [if pc_result_code m = PCP_ERR_UNSUPP_VERSION then server_version else pc_version m, pc_opcode m OR 0x80, 0,
      pc_result_code m] @ writenu32 (response_lifetime m) @ writenu32 epoch @ replicate 12 0"

definition createPCPResponse ::
  "('s, 're, 'k, 'h) pcp_env \<Rightarrow> bytes \<Rightarrow> pcp_info \<Rightarrow> 's natpmp_state \<Rightarrow> bytes \<times> 's natpmp_state" where
  "createPCPResponse E response m ns =
     (let ns1 = (if epoch_origin ns = 0 then ns\<lparr>epoch_origin := startup_time (pe_nat E)\<rparr> else ns);
          resp = put 0 (pcp_header m (upnp_time (pe_redir E) - epoch_origin ns1)) response;
          off = (if resp ! 0 = 1 then PCP_COMMON_RESPONSE_SIZE + 4 else PCP_COMMON_RESPONSE_SIZE + 16)
      in (if resp ! 1 = 0x81
          then if resp ! 0 = 1 \<or> resp ! 0 = 2 then map_response m off resp else resp
          else if pcp_peer (pe_redir E) \<and> resp ! 1 = 0x82
          then if resp ! 0 = 1 \<or> resp ! 0 = 2 then peer_response m off resp else resp
          else if pcp_sadscp E \<and> resp ! 1 = 0x83
          then put (PCP_COMMON_RESPONSE_SIZE + 13) [0, 0, 0]
                 (resp[PCP_COMMON_RESPONSE_SIZE + 12 :=
                    (push_bit 7 (pc_matched_name m) AND NOT 0x40) OR (pc_sadscp_dscp m AND 0x3f)])
          else resp, ns1))"

section \<open>Datagrams\<close>

text \<open>
  \<open>get_lan_for_peer\<close> of \<open>upnputils.c\<close>: the LAN that an address belongs to. \<open>scope_id\<close> is the interface
  index that an IPv6 sender address carries.
\<close>

definition lan_of_ipv4 :: "lan_addr_s list \<Rightarrow> in_addr \<Rightarrow> lan_addr_s option" where
  "lan_of_ipv4 lans a = find (\<lambda>l. a AND la_mask l = la_addr l AND la_mask l) lans"

definition get_lan_for_peer ::
  "('s, 're, 'k, 'h) pcp_env \<Rightarrow> sockaddr \<Rightarrow> u32 \<Rightarrow> lan_addr_s option" where
  "get_lan_for_peer E peer scope_id =
     (case peer of
        Inet a \<Rightarrow> lan_of_ipv4 (lan_addrs (pe_nat E)) a
      | Inet6 a \<Rightarrow>
          if in6_is_v4mapped a then lan_of_ipv4 (lan_addrs (pe_nat E)) (in6_v4 a)
          else case (if scope_id > 0 then Some (sint scope_id) else get_src_for_route_to E a) of
                 None \<Rightarrow> None
               | Some index \<Rightarrow> find (\<lambda>l. index = sint (la_index l)) (lan_addrs (pe_nat E)))"

definition sender_in6 :: "sockaddr \<Rightarrow> in6_addr" where
  "sender_in6 sa = (case sa of Inet a \<Rightarrow> v4_mapped a | Inet6 a \<Rightarrow> a)"

definition response_len :: "pcp_info \<Rightarrow> nat \<Rightarrow> nat" where
  "response_len m len =
     (if pc_opcode m = PCP_OPCODE_ANNOUNCE \<and> pc_result_code m = PCP_SUCCESS then PCP_COMMON_RESPONSE_SIZE
      else if len < PCP_MIN_LEN then PCP_MIN_LEN
      else if len > PCP_MAX_LEN then PCP_MAX_LEN
      else (len + 3) div 4 * 4)"

definition ProcessIncomingPCPPacket ::
  "('s, 're, 'k, 'h) pcp_env \<Rightarrow> bytes \<Rightarrow> nat \<Rightarrow> sockaddr \<Rightarrow> u32 \<Rightarrow> ('s, 'k) pcp_state
   \<Rightarrow> (bytes option \<times> ('s, 'k) pcp_state) option" where
  "ProcessIncomingPCPPacket E buff len senderaddr scope_id ps =
     (if len < 2 \<or> (buff ! 1) AND 128 \<noteq> 0 then Some (None, ps)
      else if \<not> pcp_allow_third_party E \<and> get_lan_for_peer E senderaddr scope_id = None then Some (None, ps)
      else let m = pcp_info_zero\<lparr>pc_sender_ip := sender_in6 senderaddr, pc_version := buff ! 0,
                                 pc_opcode := (buff ! 1) AND 0x7f\<rparr>
           in case processPCPRequest E buff len m ps of None \<Rightarrow> None
              | Some (answer, m1, ps1) \<Rightarrow>
                  if answer
                  then let (resp, ns) = createPCPResponse E buff m1 (nat_state ps1)
                       in Some (Some (take (response_len m1 len) resp), ps1\<lparr>nat_state := ns\<rparr>)
                  else Some (None, ps1))"

text \<open>
  The receive buffer of the main loop: one byte more than the protocol's limit, cleared before the
  datagram is read. Version 0 is NAT-PMP, everything else PCP.
\<close>

definition receive_buffer :: "bytes \<Rightarrow> bytes" where
  "receive_buffer d = (let r = take (PCP_MAX_LEN + 1) d in r @ replicate (PCP_MAX_LEN + 1 - length r) 0)"

definition process_natpmp_or_pcp ::
  "('s, 're, 'k, 'h) pcp_env \<Rightarrow> bytes \<Rightarrow> in_addr \<Rightarrow> ('s, 'k) pcp_state \<Rightarrow> (bytes option \<times> ('s, 'k) pcp_state) option" where
  "process_natpmp_or_pcp E d senderaddr ps =
     (let msg_buff = receive_buffer d; len = min (length d) (PCP_MAX_LEN + 1)
      in if len < 1 then Some (None, ps)
         else if msg_buff ! 0 = 0
         then if get_lan_for_peer E (Inet senderaddr) 0 = None then Some (None, ps)
              else map_option (\<lambda>(answer, ns). (answer, ps\<lparr>nat_state := ns\<rparr>))
                     (ProcessIncomingNATPMPPacket (pe_nat E) (take len msg_buff) senderaddr (nat_state ps))
         else ProcessIncomingPCPPacket E msg_buff len (Inet senderaddr) 0 ps)"

definition process_pcp_v6 ::
  "('s, 're, 'k, 'h) pcp_env \<Rightarrow> bytes \<Rightarrow> in6_addr \<Rightarrow> u32 \<Rightarrow> ('s, 'k) pcp_state
   \<Rightarrow> (bytes option \<times> ('s, 'k) pcp_state) option" where
  "process_pcp_v6 E d senderaddr scope_id ps =
     (let len = min (length d) (PCP_MAX_LEN + 1)
      in if len \<ge> 1 then ProcessIncomingPCPPacket E (receive_buffer d) len (Inet6 senderaddr) scope_id ps
         else Some (None, ps))"

text \<open>The announcements: the sockets, the port and the datagram; the buffer has \<open>uninit\<close> before.\<close>

definition PCPSendUnsolicitedAnnounce ::
  "('s, 're, 'k, 'h) pcp_env \<Rightarrow> bytes \<Rightarrow> int list \<Rightarrow> int \<Rightarrow> 's natpmp_state \<Rightarrow> (int \<times> u16 \<times> bytes) list \<times> 's natpmp_state" where
  "PCPSendUnsolicitedAnnounce E uninit sockets socket6 ns =
     (let info = pcp_info_zero\<lparr>pc_version := server_version, pc_opcode := PCP_OPCODE_ANNOUNCE,
                               pc_result_code := PCP_SUCCESS, pc_lifetime := 0\<rparr>;
          (buff, ns1) = createPCPResponse E uninit info ns
      in (map (\<lambda>s. (s, 5350, take PCP_MIN_LEN buff)) (filter (\<lambda>s. s \<ge> 0) sockets)
          @ (if socket6 \<ge> 0 then [(socket6, 5350, take PCP_MIN_LEN buff)] else []), ns1))"

definition PCPPublicAddressChanged ::
  "('s, 're, 'k, 'h) pcp_env \<Rightarrow> bytes \<Rightarrow> int list \<Rightarrow> int \<Rightarrow> 's natpmp_state \<Rightarrow> (int \<times> u16 \<times> bytes) list \<times> 's natpmp_state" where
  "PCPPublicAddressChanged E uninit sockets socket6 ns =
     PCPSendUnsolicitedAnnounce E uninit sockets socket6 (ns\<lparr>epoch_origin := upnp_time (pe_redir E)\<rparr>)"

end
