(* ===== verification/IptcBackend.thy ===== *)
theory IptcBackend
  imports IptcRdr
begin

text \<open>
  The iptables backend keeps the contract of \<open>RdrBackend\<close>.

  The locale \<open>libiptc_laws\<close> states what the code relies on in libiptc, over an abstraction
  \<open>chain_of\<close> of a kernel state to its tables and chains: a table opens, a handle shows the rules of
  its table, and an append, a deletion by number or a replacement that is committed changes that
  one chain and nothing else. In it, every operation of \<open>IptcRdr\<close> is shown to do to the list of
  mappings what the contract says, and the locale becomes a \<open>sublocale\<close> of the contract. The
  concrete tables at the end of the theory (lists of rules under table and chain names) interpret it.
\<close>

section \<open>Searching a chain\<close>

lemma find_rule_Some:
  "find_rule P i es = Some (j, e) \<Longrightarrow>
     i \<le> j \<and> j - i < length es \<and> es ! (j - i) = e \<and> P e \<and> (\<forall>n < j - i. \<not> P (es ! n))"
proof (induction es arbitrary: i)
  case (Cons x es)
  show ?case
  proof (cases "P x")
    case True
    with Cons.prems show ?thesis by auto
  next
    case False
    with Cons.prems have "find_rule P (i + 1) es = Some (j, e)" by simp
    from Cons.IH [OF this] have "Suc i \<le> j" "j - Suc i < length es" "es ! (j - Suc i) = e" "P e"
      "\<forall>n < j - Suc i. \<not> P (es ! n)" by auto
    moreover from this(1) have "j - i = Suc (j - Suc i)" by simp
    ultimately show ?thesis using False by (auto simp: less_Suc_eq_0_disj)
  qed
qed simp

lemma find_rule_find: "map_option snd (find_rule P i es) = find P es"
  by (induction es arbitrary: i) auto

lemma find_rule_None: "find_rule P i es = None \<longleftrightarrow> (\<forall>e \<in> set es. \<not> P e)"
  by (induction es arbitrary: i) auto

lemma find_rule_0:
  "find_rule P 0 es = Some (j, e) \<Longrightarrow> j < length es \<and> es ! j = e \<and> P e \<and> find P es = Some e"
  using find_rule_Some [of P 0 es j e] find_rule_find [of P 0 es] by simp

lemma nth_rule_eq: "nth_rule index i es = (if i \<le> index \<and> index - i < length es then Some (es ! (index - i)) else None)"
  by (induction es arbitrary: i) (auto simp: nth_Cons' Suc_diff_le less_Suc_eq_le)

lemma ports_in_range_eq:
  "ports_in_range startport endport proto es a = a @ map (\<lambda>e. fst (dpts (elem_match e)))
     (filter (\<lambda>e. proto = ip_proto e \<and> startport \<le> fst (dpts (elem_match e)) \<and> fst (dpts (elem_match e)) \<le> endport) es)"
  by (induction es arbitrary: a) (auto simp: Let_def)

lemma fst_port_range [simp]: "fst (port_range p) = p"
  by (simp add: port_range_def)

lemma snprintip_ntop [simp]: "snprintip n a = bounded_copy n (inet_ntop a)"
proof -
  have "unat a div 16777216 mod 256 = unat a div 16777216"
    using unsigned_less [of a, where 'a = nat] by simp
  then show ?thesis
    by (simp add: snprintip_def inet_ntop_def octet_def unat_drop_bit)
qed

section \<open>Descriptions\<close>

lemma find_desc_del: "(e, p) \<noteq> (e', p') \<Longrightarrow> find_desc e p (del_desc e' p' ds) = find_desc e p ds"
  by (induction ds) auto

section \<open>What the code relies on in libiptc\<close>

type_synonym chains = "string \<Rightarrow> string \<Rightarrow> ipt_entry list option"

definition upd_chain :: "chains \<Rightarrow> string \<Rightarrow> string \<Rightarrow> ipt_entry list \<Rightarrow> chains" where
  "upd_chain k t c es = (\<lambda>t' c'. if t' = t \<and> c' = c then Some es else k t' c')"

lemma upd_chain_apply:
  "upd_chain k t c es t' c' = (if t' = t \<and> c' = c then Some es else k t' c')"
  by (simp add: upd_chain_def)

definition tables :: "string list" where
  "tables = [''nat'', ''filter'', ''mangle'']"

locale libiptc_laws =
  fixes L :: "('k, 'h) libiptc" and chain_of :: "'k \<Rightarrow> chains"
  assumes init_ok: "t \<in> set tables \<Longrightarrow> \<exists>h. iptc_init L t k = Some h"
    and is_chain_iff: "iptc_init L t k = Some h \<Longrightarrow> iptc_is_chain L c h \<longleftrightarrow> chain_of k t c \<noteq> None"
    and rules_eq: "iptc_init L t k = Some h \<Longrightarrow>
       iptc_rules L c h = (case chain_of k t c of None \<Rightarrow> [] | Some es \<Rightarrow> es)"
    and append_commit: "iptc_init L t k = Some h \<Longrightarrow> chain_of k t c = Some es \<Longrightarrow>
       \<exists>h' k'. iptc_append_entry L c e h = Some h' \<and> iptc_commit L h' k = Some k'
         \<and> chain_of k' = upd_chain (chain_of k) t c (es @ [e])"
    and delete_commit: "iptc_init L t k = Some h \<Longrightarrow> chain_of k t c = Some es \<Longrightarrow> i < length es \<Longrightarrow>
       \<exists>h' k'. iptc_delete_num_entry L c i h = Some h' \<and> iptc_commit L h' k = Some k'
         \<and> chain_of k' = upd_chain (chain_of k) t c (take i es @ drop (Suc i) es)"
    and replace_commit: "iptc_init L t k = Some h \<Longrightarrow> chain_of k t c = Some es \<Longrightarrow> i < length es \<Longrightarrow>
       \<exists>h' k'. iptc_replace_entry L c e i h = Some h' \<and> iptc_commit L h' k = Some k'
         \<and> chain_of k' = upd_chain (chain_of k) t c (es[i := e])"
    and memory: "alloc_ok L"

section \<open>The mappings of a state\<close>

definition entry_mapping :: "rdr_desc list \<Rightarrow> ipt_entry \<Rightarrow> mapping" where
  "entry_mapping ds e =
     (let eport = fst (dpts (elem_match e)); proto = ip_proto e;
          (a, p) = get_dnat_target_addr_port (elem_target e); (d, ts) = find_desc eport proto ds
      in \<lparr>m_eport = eport, m_proto = proto, m_iaddr = a, m_iport = p, m_rhost = ip_src e,
          m_desc = d, m_time = ts, m_packets = pcnt e, m_bytes = bcnt e\<rparr>)"

definition nat_entries :: "('k \<Rightarrow> chains) \<Rightarrow> 'k rdr_state \<Rightarrow> ipt_entry list" where
  "nat_entries chain_of s =
     (case chain_of (kernel s) ''nat'' (miniupnpd_nat_chain s) of None \<Rightarrow> [] | Some es \<Rightarrow> es)"

definition iptc_mappings :: "('k \<Rightarrow> chains) \<Rightarrow> 'k rdr_state \<Rightarrow> mapping list" where
  "iptc_mappings chain_of s = map (entry_mapping (rdr_desc_list s)) (nat_entries chain_of s)"

definition dnat_wf :: "ipt_entry_target \<Rightarrow> bool" where
  "dnat_wf t = (case target_data t of NatRange2 _ _ _ _ \<Rightarrow> revision t = 2
                | NatMultiRange _ _ _ _ \<Rightarrow> revision t \<noteq> 2 | _ \<Rightarrow> False)"

definition chains_exist :: "('k \<Rightarrow> chains) \<Rightarrow> 'k rdr_state \<Rightarrow> bool" where
  "chains_exist chain_of s =
     (chain_of (kernel s) ''nat'' (miniupnpd_nat_chain s) \<noteq> None
      \<and> chain_of (kernel s) ''nat'' (miniupnpd_nat_postrouting_chain s) \<noteq> None
      \<and> chain_of (kernel s) ''filter'' (miniupnpd_forward_chain s) \<noteq> None
      \<and> miniupnpd_nat_chain s \<noteq> miniupnpd_nat_postrouting_chain s)"

definition iptc_inv :: "('k \<Rightarrow> chains) \<Rightarrow> 'k rdr_state \<Rightarrow> bool" where
  "iptc_inv chain_of s =
     (chains_exist chain_of s
      \<and> distinct (map m_key (iptc_mappings chain_of s))
      \<and> list_all (\<lambda>e. dnat_wf (elem_target e)) (nat_entries chain_of s))"

definition iptc_ops :: "('k, 'h) libiptc \<Rightarrow> 'k rdr_state rdr_ops" where
  "iptc_ops L =
     \<lparr>be_add_redirect_rule2 = add_redirect_rule2 L,
      be_add_filter_rule2 = add_filter_rule2 L,
      be_get_redirect_rule = get_redirect_rule L,
      be_get_redirect_rule_by_index = get_redirect_rule_by_index L,
      be_delete_redirect_and_filter_rules = delete_redirect_and_filter_rules L,
      be_update_portmapping = update_portmapping L,
      be_update_portmapping_desc_timestamp = update_portmapping_desc_timestamp L,
      be_get_portmappings_in_range = get_portmappings_in_range L,
      be_get_peer_rule_by_index = (\<lambda>i s. map_option (\<lambda>q. (peer_eport q, peer_proto q, peer_timestamp q,
        peer_packets q, peer_bytes q)) (get_peer_rule_by_index L i 0 0 0 s))\<rparr>"

lemma entry_mapping_key [simp]:
  "m_eport (entry_mapping ds e) = fst (dpts (elem_match e))" "m_proto (entry_mapping ds e) = ip_proto e"
  by (simp_all add: entry_mapping_def Let_def split: prod.splits)

lemma rdr_match_key: "rdr_match eport proto e \<longleftrightarrow> m_key (entry_mapping ds e) = (eport, proto)"
  by (auto simp: rdr_match_def)

lemma find_mapping_entries:
  "find_mapping eport proto (map (entry_mapping ds) es) = map_option (entry_mapping ds) (find (rdr_match eport proto) es)"
  by (induction es) (auto simp: find_mapping_def rdr_match_def)

section \<open>The operations on the mappings\<close>

context libiptc_laws
begin

lemma table_mem: "''nat'' \<in> set tables" "''filter'' \<in> set tables" "''mangle'' \<in> set tables"
  by (simp_all add: tables_def)

lemma append_effect:
  assumes "t \<in> set tables" "chain_of (kernel s) t c = Some es"
  shows "\<exists>k'. iptc_init_verify_and_append L t c e s = (0, s\<lparr>kernel := k'\<rparr>)
    \<and> chain_of k' = upd_chain (chain_of (kernel s)) t c (es @ [e])"
proof -
  obtain h where h: "iptc_init L t (kernel s) = Some h" using init_ok [OF assms(1)] by blast
  from append_commit [OF h assms(2), of e] obtain h' k' where
    "iptc_append_entry L c e h = Some h'" "iptc_commit L h' (kernel s) = Some k'"
    "chain_of k' = upd_chain (chain_of (kernel s)) t c (es @ [e])" by blast
  with h is_chain_iff [OF h, of c] assms(2) show ?thesis
    by (intro exI [of _ k']) (simp add: iptc_init_verify_and_append_def)
qed

lemma replace_effect:
  assumes "t \<in> set tables" "chain_of (kernel s) t c = Some es" "i < length es"
  shows "\<exists>k'. update_rule_and_commit L t c i e s = (0, s\<lparr>kernel := k'\<rparr>)
    \<and> chain_of k' = upd_chain (chain_of (kernel s)) t c (es[i := e])"
proof -
  obtain h where h: "iptc_init L t (kernel s) = Some h" using init_ok [OF assms(1)] by blast
  from replace_commit [OF h assms(2,3), of e] show ?thesis
    by (auto simp: update_rule_and_commit_def h)
qed

lemma delete_effect:
  assumes "iptc_init L t (kernel s) = Some h" "chain_of (kernel s) t c = Some es" "i < length es"
  shows "\<exists>k'. delete_rule_and_commit L i h c s = (0, s\<lparr>kernel := k'\<rparr>)
    \<and> chain_of k' = upd_chain (chain_of (kernel s)) t c (take i es @ drop (Suc i) es)"
  using delete_commit [OF assms] by (auto simp: delete_rule_and_commit_def)

text \<open>A deletion in a chain: at most that chain changes, and it stays.\<close>

definition changes_only :: "string \<Rightarrow> string \<Rightarrow> 'k \<Rightarrow> 'k \<Rightarrow> bool" where
  "changes_only t c k k' = (\<forall>t' c'. (t', c') \<noteq> (t, c) \<longrightarrow> chain_of k' t' c' = chain_of k t' c')"

lemma changes_only_upd: "chain_of k' = upd_chain (chain_of k) t c es \<Longrightarrow> changes_only t c k k'"
  by (auto simp: changes_only_def upd_chain_apply)

lemma find_and_delete_effect:
  assumes "t \<in> set tables" "find_and_delete L t c P r s = (r', s')"
  shows "\<exists>k'. s' = s\<lparr>kernel := k'\<rparr> \<and> r' \<in> {r, 0} \<and> changes_only t c (kernel s) k'
    \<and> (chain_of k' t c = None \<longleftrightarrow> chain_of (kernel s) t c = None)"
proof -
  obtain h where h: "iptc_init L t (kernel s) = Some h" using init_ok [OF assms(1)] by blast
  show ?thesis
  proof (cases "find_rule P 0 (iptc_rules L c h)")
    case None
    with h assms(2) show ?thesis
      by (intro exI [of _ "kernel s"]) (simp add: find_and_delete_def changes_only_def)
  next
    case (Some x)
    then obtain i e where x: "find_rule P 0 (iptc_rules L c h) = Some (i, e)" by (cases x) auto
    from find_rule_0 [OF x] rules_eq [OF h, of c] obtain es where es: "chain_of (kernel s) t c = Some es" "i < length es"
      by (cases "chain_of (kernel s) t c") auto
    from delete_effect [OF h es] obtain k' where
      k: "delete_rule_and_commit L i h c s = (0, s\<lparr>kernel := k'\<rparr>)"
        "chain_of k' = upd_chain (chain_of (kernel s)) t c (take i es @ drop (Suc i) es)" by blast
    with x h assms(2) es(1) show ?thesis
      by (intro exI [of _ k']) (simp add: find_and_delete_def changes_only_upd upd_chain_apply)
  qed
qed

lemma find_in_chain_eq:
  assumes "t \<in> set tables"
  shows "find_in_chain L t c P s = (case chain_of (kernel s) t c of None \<Rightarrow> None | Some es \<Rightarrow> find_rule P 0 es)"
proof -
  obtain h where h: "iptc_init L t (kernel s) = Some h" using init_ok [OF assms(1)] by blast
  show ?thesis
    using is_chain_iff [OF h, of c] rules_eq [OF h, of c] h memory
    by (auto simp: find_in_chain_def split: option.splits)
qed

text \<open>The lookups.\<close>

lemma nat_chain_rules:
  assumes "chains_exist chain_of s"
  shows "\<exists>h. iptc_init L ''nat'' (kernel s) = Some h \<and> iptc_is_chain L (miniupnpd_nat_chain s) h
    \<and> iptc_rules L (miniupnpd_nat_chain s) h = nat_entries chain_of s"
proof -
  obtain h where h: "iptc_init L ''nat'' (kernel s) = Some h" using init_ok [OF table_mem(1)] by blast
  with is_chain_iff [OF h] rules_eq [OF h] assms show ?thesis
    by (auto simp: chains_exist_def nat_entries_def)
qed

lemma get_redirect_rule_spec:
  assumes "chains_exist chain_of s"
  shows "get_redirect_rule L eport proto il dl rl s
    = map_option (mapping_info il dl rl) (find_mapping eport proto (iptc_mappings chain_of s))"
proof -
  from nat_chain_rules [OF assms] obtain h where h: "iptc_init L ''nat'' (kernel s) = Some h"
    "iptc_is_chain L (miniupnpd_nat_chain s) h"
    "iptc_rules L (miniupnpd_nat_chain s) h = nat_entries chain_of s" by blast
  let ?P = "rdr_match eport proto" and ?es = "nat_entries chain_of s"
  show ?thesis
  proof (cases "find_rule ?P 0 ?es")
    case None
    with find_rule_find [of ?P 0 ?es] have "find ?P ?es = None" by (metis option.map_disc_iff)
    with h None show ?thesis
      by (simp add: get_redirect_rule_def get_nat_redirect_rule_def iptc_mappings_def find_mapping_entries)
  next
    case (Some x)
    then obtain i e where x: "find_rule ?P 0 ?es = Some (i, e)" by (cases x) auto
    from find_rule_0 [OF x] have e: "rdr_match eport proto e" "find ?P ?es = Some e" by auto
    with h x show ?thesis
      by (auto simp: get_redirect_rule_def get_nat_redirect_rule_def iptc_mappings_def find_mapping_entries
          mapping_info_def entry_mapping_def get_redirect_desc_def rdr_match_def Let_def split: prod.splits)
  qed
qed

lemma get_by_index_spec:
  assumes "chains_exist chain_of s"
  shows "get_redirect_rule_by_index L index il dl rl s
    = (if index < length (iptc_mappings chain_of s)
       then let m = iptc_mappings chain_of s ! index in Some (m_eport m, m_proto m, indexed_info il dl rl m)
       else None)"
proof -
  from nat_chain_rules [OF assms] obtain h where "iptc_init L ''nat'' (kernel s) = Some h"
    "iptc_is_chain L (miniupnpd_nat_chain s) h"
    "iptc_rules L (miniupnpd_nat_chain s) h = nat_entries chain_of s" by blast
  then show ?thesis
    by (auto simp: get_redirect_rule_by_index_def nth_rule_eq iptc_mappings_def Let_def indexed_info_def
        mapping_info_def entry_mapping_def get_redirect_desc_def split: prod.splits)
qed

lemma get_in_range_spec:
  assumes "chains_exist chain_of s"
  shows "get_portmappings_in_range L startport endport proto s
    = Some (map m_eport (filter (\<lambda>m. m_proto m = proto \<and> startport \<le> m_eport m \<and> m_eport m \<le> endport)
             (iptc_mappings chain_of s)))"
proof -
  from nat_chain_rules [OF assms] obtain h where "iptc_init L ''nat'' (kernel s) = Some h"
    "iptc_is_chain L (miniupnpd_nat_chain s) h"
    "iptc_rules L (miniupnpd_nat_chain s) h = nat_entries chain_of s" by blast
  then show ?thesis using memory
    by (auto simp: get_portmappings_in_range_def ports_in_range_eq iptc_mappings_def filter_map comp_def
        intro!: arg_cong [where f = "map _"] filter_cong)
qed

end

lemma entry_mapping_desc_cons:
  "(fst (dpts (elem_match e)), ip_proto e) \<noteq> (rd_eport d, rd_proto d)
   \<Longrightarrow> entry_mapping (d # ds) e = entry_mapping ds e"
  by (auto simp: entry_mapping_def Let_def)

lemma entry_mapping_desc_del:
  "(fst (dpts (elem_match e)), ip_proto e) \<noteq> (eport, proto)
   \<Longrightarrow> entry_mapping (del_desc eport proto ds) e = entry_mapping ds e"
  by (simp add: entry_mapping_def find_desc_del)

lemma find_rule_distinct_delete:
  assumes "find_rule (rdr_match eport proto) 0 es = Some (i, e)"
    and "distinct (map m_key (map (entry_mapping ds) es))"
  shows "take i es @ drop (Suc i) es = filter (\<lambda>e. \<not> rdr_match eport proto e) es"
proof -
  from find_rule_0 [OF assms(1)] have i: "i < length es" "es ! i = e" "rdr_match eport proto e" by auto
  then have es: "es = take i es @ e # drop (Suc i) es" by (metis id_take_nth_drop)
  have "\<not> rdr_match eport proto x" if "x \<in> set (take i es) \<union> set (drop (Suc i) es)" for x
  proof
    assume m: "rdr_match eport proto x"
    have "distinct (map (\<lambda>e. (fst (dpts (elem_match e)), ip_proto e)) (take i es @ e # drop (Suc i) es))"
      using assms(2) es by (simp add: comp_def)
    with that m i(3) show False by (auto simp: rdr_match_def image_iff)
  qed
  then have "filter (\<lambda>e. \<not> rdr_match eport proto e) (take i es) = take i es"
    "filter (\<lambda>e. \<not> rdr_match eport proto e) (drop (Suc i) es) = drop (Suc i) es"
    by (auto intro: filter_True)
  with i(3) show ?thesis by (subst (3) es) simp
qed

context libiptc_laws
begin

lemma get_proto_match_ok:
  "\<exists>m. get_proto_match L proto dport sport = Some m \<and> fst (dpts m) = dport \<and> fst (spts m) = sport"
  using memory by (simp add: get_proto_match_def get_tcp_match_def get_udp_match_def)

lemma get_dnat_target_ok:
  "get_dnat_revision L s = (v, s1) \<Longrightarrow> \<exists>t. get_dnat_target L iaddr iport s = (Some t, s1) \<and> dnat_wf t
    \<and> get_dnat_target_addr_port t = (inet_addr iaddr, iport)"
  using memory by (cases "v = 2") (simp_all add: get_dnat_target_def dnat_wf_def Let_def)

lemma addnatrule_effect:
  assumes "iptc_inv chain_of s"
  shows "\<exists>s' e. addnatrule L proto eport iaddr iport rhost s = (0, s')
    \<and> chains_exist chain_of s' \<and> rdr_desc_list s' = rdr_desc_list s
    \<and> nat_entries chain_of s' = nat_entries chain_of s @ [e]
    \<and> dnat_wf (elem_target e) \<and> pcnt e = 0 \<and> bcnt e = 0 \<and> ip_src e = rhost_addr rhost
    \<and> fst (dpts (elem_match e)) = eport \<and> ip_proto e = proto
    \<and> get_dnat_target_addr_port (elem_target e) = (inet_addr iaddr, iport)"
proof -
  obtain rev s1 where r: "get_dnat_revision L s = (rev, s1)" by (cases "get_dnat_revision L s")
  then have s1: "kernel s1 = kernel s" "rdr_desc_list s1 = rdr_desc_list s"
    "miniupnpd_nat_chain s1 = miniupnpd_nat_chain s" "miniupnpd_forward_chain s1 = miniupnpd_forward_chain s"
    "miniupnpd_nat_postrouting_chain s1 = miniupnpd_nat_postrouting_chain s"
    by (auto simp: get_dnat_revision_def Let_def split: if_splits)
  obtain m where m: "get_proto_match L proto eport 0 = Some m" "fst (dpts m) = eport"
    using get_proto_match_ok by blast
  obtain t where t: "get_dnat_target L iaddr iport s = (Some t, s1)" "dnat_wf t"
    "get_dnat_target_addr_port t = (inet_addr iaddr, iport)"
    using get_dnat_target_ok [OF r] by blast
  have rh: "fst (host_match rhost) = rhost_addr rhost"
    by (auto simp: host_match_def rhost_addr_def split: option.splits)
  let ?e = "\<lparr>ip_proto = proto, ip_src = fst (host_match rhost), ip_smsk = snd (host_match rhost),
     ip_dst = 0, ip_dmsk = 0, elem_match = m, elem_target = t, pcnt = 0, bcnt = 0\<rparr>"
  have ce: "chains_exist chain_of s" using assms by (simp add: iptc_inv_def)
  then obtain es where es: "chain_of (kernel s1) ''nat'' (miniupnpd_nat_chain s1) = Some es"
    by (auto simp: chains_exist_def s1)
  from append_effect [OF table_mem(1) es, of ?e] obtain k' where
    k: "iptc_init_verify_and_append L ''nat'' (miniupnpd_nat_chain s1) ?e s1 = (0, s1\<lparr>kernel := k'\<rparr>)"
      "chain_of k' = upd_chain (chain_of (kernel s1)) ''nat'' (miniupnpd_nat_chain s1) (es @ [?e])" by blast
  have "addnatrule L proto eport iaddr iport rhost s = (0, s1\<lparr>kernel := k'\<rparr>)"
    using memory m(1) t(1) k(1) by (simp add: addnatrule_def)
  moreover have "chains_exist chain_of (s1\<lparr>kernel := k'\<rparr>)"
    using ce k(2) by (simp add: chains_exist_def upd_chain_apply s1)
  moreover have "nat_entries chain_of (s1\<lparr>kernel := k'\<rparr>) = nat_entries chain_of s @ [?e]"
    using es k(2) by (simp add: nat_entries_def upd_chain_apply s1)
  ultimately show ?thesis using m t s1 rh by (intro exI [of _ "s1\<lparr>kernel := k'\<rparr>"] exI [of _ ?e]) simp
qed

text \<open>Changes outside the nat chain do not touch the mappings.\<close>

lemma mappings_frame:
  assumes "iptc_inv chain_of s" "changes_only t c (kernel s) k'" "(t, c) \<noteq> (''nat'', miniupnpd_nat_chain s)"
    "chain_of k' t c = None \<longrightarrow> chain_of (kernel s) t c = None"
  shows "iptc_inv chain_of (s\<lparr>kernel := k'\<rparr>)
    \<and> nat_entries chain_of (s\<lparr>kernel := k'\<rparr>) = nat_entries chain_of s
    \<and> iptc_mappings chain_of (s\<lparr>kernel := k'\<rparr>) = iptc_mappings chain_of s"
proof -
  have n: "nat_entries chain_of (s\<lparr>kernel := k'\<rparr>) = nat_entries chain_of s"
    using assms(2,3) by (auto simp: nat_entries_def changes_only_def)
  moreover have "chain_of (kernel s) t' c' \<noteq> None \<Longrightarrow> chain_of k' t' c' \<noteq> None" for t' c'
    using assms(2,4) by (cases "(t', c') = (t, c)") (auto simp: changes_only_def)
  ultimately show ?thesis
    using assms(1) by (auto simp: iptc_inv_def chains_exist_def iptc_mappings_def)
qed

lemma add_filter_rule2_spec:
  assumes "iptc_inv chain_of s" "add_filter_rule2 L rhost iaddr eport iport proto s = (r, s')"
  shows "r = 0 \<and> iptc_inv chain_of s' \<and> iptc_mappings chain_of s' = iptc_mappings chain_of s"
proof -
  obtain m t where mt: "get_proto_match L proto iport 0 = Some m" "get_accept_target L = Some t"
    using memory get_proto_match_ok [of proto iport 0] by (auto simp: get_accept_target_def)
  obtain es where "chain_of (kernel s) ''filter'' (miniupnpd_forward_chain s) = Some es"
    using assms(1) by (auto simp: iptc_inv_def chains_exist_def)
  from append_effect [OF table_mem(2) this, of "\<lparr>ip_proto = proto, ip_src = fst (host_match rhost),
       ip_smsk = snd (host_match rhost), ip_dst = inet_addr iaddr, ip_dmsk = INADDR_NONE,
       elem_match = m, elem_target = t, pcnt = 0, bcnt = 0\<rparr>"] mt memory assms(2)
  obtain k' e where "r = 0" "s' = s\<lparr>kernel := k'\<rparr>"
    "chain_of k' = upd_chain (chain_of (kernel s)) ''filter'' (miniupnpd_forward_chain s) (es @ [e])"
    by (auto simp: add_filter_rule2_def add_filter_rule_def)
  with mappings_frame [OF assms(1) changes_only_upd [OF this(3)]] show ?thesis
    by (simp add: upd_chain_apply)
qed

lemma add_redirect_rule2_spec:
  assumes inv: "iptc_inv chain_of s" and new: "find_mapping eport proto (iptc_mappings chain_of s) = None"
    and add: "add_redirect_rule2 L rhost eport iaddr iport proto desc ts s = (r, s')"
  shows "r = 0 \<and> iptc_inv chain_of s'
    \<and> iptc_mappings chain_of s' = iptc_mappings chain_of s @ [new_mapping rhost eport iaddr iport proto desc ts]"
proof -
  from addnatrule_effect [OF inv, of proto eport iaddr iport rhost] obtain s1 e where
    a: "addnatrule L proto eport iaddr iport rhost s = (0, s1)"
    and ce: "chains_exist chain_of s1" and d: "rdr_desc_list s1 = rdr_desc_list s"
    and n: "nat_entries chain_of s1 = nat_entries chain_of s @ [e]"
    and e: "dnat_wf (elem_target e)" "pcnt e = 0" "bcnt e = 0" "ip_src e = rhost_addr rhost"
      "fst (dpts (elem_match e)) = eport" "ip_proto e = proto"
      "get_dnat_target_addr_port (elem_target e) = (inet_addr iaddr, iport)" by blast
  let ?s2 = "add_redirect_desc L eport proto desc ts s1"
  let ?d = "\<lparr>rd_timestamp = ts, rd_eport = eport, rd_proto = proto, rd_str = desc_text desc\<rparr>"
  have s2: "?s2 = s1\<lparr>rdr_desc_list := ?d # rdr_desc_list s\<rparr>"
    using memory d by (simp add: add_redirect_desc_def desc_text_def)
  have fresh: "\<forall>x \<in> set (nat_entries chain_of s). (fst (dpts (elem_match x)), ip_proto x) \<noteq> (eport, proto)"
    using new by (auto simp: iptc_mappings_def find_mapping_None_iff image_iff)
  then have old: "map (entry_mapping (?d # rdr_desc_list s)) (nat_entries chain_of s) = iptc_mappings chain_of s"
    unfolding iptc_mappings_def by (intro map_cong refl entry_mapping_desc_cons) auto
  have m2: "iptc_mappings chain_of ?s2 = iptc_mappings chain_of s @ [new_mapping rhost eport iaddr iport proto desc ts]"
    using old n e s2
    by (simp add: iptc_mappings_def nat_entries_def entry_mapping_def new_mapping_def Let_def)
  have i2: "iptc_inv chain_of ?s2"
    using inv ce n e(1) s2 m2 new
    by (auto simp: iptc_inv_def chains_exist_def nat_entries_def new_mapping_def find_mapping_None_iff)
  show ?thesis
  proof (cases "port_triggering L")
    case False
    with add a m2 i2 show ?thesis by (simp add: add_redirect_rule2_def)
  next
    case True
    then have "addmasqueraderule L proto eport (Some iaddr) iport rhost ?s2 = (r, s')"
      using add a by (simp add: add_redirect_rule2_def)
    moreover from get_proto_match_ok obtain m where "get_proto_match L proto 0 iport = Some m" by blast
    moreover obtain t where "get_masquerade_target L eport = Some t"
      using memory by (auto simp: get_masquerade_target_def)
    ultimately obtain e' where ap: "iptc_init_verify_and_append L ''nat'' (miniupnpd_nat_postrouting_chain ?s2) e' ?s2 = (r, s')"
      using memory by (auto simp: addmasqueraderule_def)
    obtain es where "chain_of (kernel ?s2) ''nat'' (miniupnpd_nat_postrouting_chain ?s2) = Some es"
      using i2 by (auto simp: iptc_inv_def chains_exist_def)
    from append_effect [OF table_mem(1) this, of e'] ap obtain k' where k: "r = 0" "s' = ?s2\<lparr>kernel := k'\<rparr>"
      "chain_of k' = upd_chain (chain_of (kernel ?s2)) ''nat'' (miniupnpd_nat_postrouting_chain ?s2) (es @ [e'])" by auto
    have "miniupnpd_nat_postrouting_chain ?s2 \<noteq> miniupnpd_nat_chain ?s2"
      using i2 by (auto simp: iptc_inv_def chains_exist_def)
    with mappings_frame [OF i2 changes_only_upd [OF k(3)]] k m2 show ?thesis
      by (simp add: upd_chain_apply)
  qed
qed

lemma delete_nat_and_filter_spec:
  assumes inv: "iptc_inv chain_of s" and f: "find_rule (rdr_match eport proto) 0 (nat_entries chain_of s) = Some (i, e)"
    and d: "delete_nat_and_filter L i proto iaddr iport s = (r, s')"
  shows "r = 0 \<and> iptc_inv chain_of s' \<and> rdr_desc_list s' = rdr_desc_list s
    \<and> nat_entries chain_of s' = filter (\<lambda>e. \<not> rdr_match eport proto e) (nat_entries chain_of s)"
proof -
  obtain es where es: "chain_of (kernel s) ''nat'' (miniupnpd_nat_chain s) = Some es" "nat_entries chain_of s = es"
    using inv by (auto simp: iptc_inv_def chains_exist_def nat_entries_def)
  obtain h where h: "iptc_init L ''nat'' (kernel s) = Some h" using init_ok [OF table_mem(1)] by blast
  have i: "i < length es" using find_rule_0 [OF f] es(2) by simp
  have dist: "distinct (map m_key (map (entry_mapping (rdr_desc_list s)) es))"
    using inv es(2) by (simp add: iptc_inv_def iptc_mappings_def)
  have fl: "take i es @ drop (Suc i) es = filter (\<lambda>e. \<not> rdr_match eport proto e) es"
    using find_rule_distinct_delete [OF _ dist] f es(2) by simp
  from delete_effect [OF h es(1) i] obtain k1 where
    k1: "delete_rule_and_commit L i h (miniupnpd_nat_chain s) s = (0, s\<lparr>kernel := k1\<rparr>)"
      "chain_of k1 = upd_chain (chain_of (kernel s)) ''nat'' (miniupnpd_nat_chain s) (take i es @ drop (Suc i) es)" by blast
  let ?s1 = "s\<lparr>kernel := k1\<rparr>"
  have n1: "nat_entries chain_of ?s1 = filter (\<lambda>e. \<not> rdr_match eport proto e) es"
    using k1(2) fl by (simp add: nat_entries_def upd_chain_apply)
  have i1: "iptc_inv chain_of ?s1"
    using inv k1(2) n1 dist es
    by (auto simp: iptc_inv_def chains_exist_def upd_chain_apply iptc_mappings_def list_all_iff intro: distinct_map_filter)
  have "find_and_delete L ''filter'' (miniupnpd_forward_chain ?s1) (filter_match iport proto iaddr) 0 ?s1 = (r, s')"
    using d h k1(1) by (simp add: delete_nat_and_filter_def)
  from find_and_delete_effect [OF table_mem(2) this] obtain k2 where k2: "r = 0" "s' = ?s1\<lparr>kernel := k2\<rparr>"
    "changes_only ''filter'' (miniupnpd_forward_chain ?s1) (kernel ?s1) k2"
    "chain_of k2 ''filter'' (miniupnpd_forward_chain ?s1) = None \<longleftrightarrow> chain_of (kernel ?s1) ''filter'' (miniupnpd_forward_chain ?s1) = None"
    by auto
  from mappings_frame [OF i1 k2(3)] k2 n1 es(2) show ?thesis by simp
qed

lemma delete_peer_and_dscp_spec:
  assumes inv: "iptc_inv chain_of s" and d: "delete_peer_and_dscp L eport proto s = (r, s')"
  shows "iptc_inv chain_of s' \<and> rdr_desc_list s' = rdr_desc_list s \<and> nat_entries chain_of s' = nat_entries chain_of s"
proof -
  obtain h where h: "iptc_init L ''nat'' (kernel s) = Some h" using init_ok [OF table_mem(1)] by blast
  let ?c = "miniupnpd_nat_postrouting_chain s"
  obtain es where es: "chain_of (kernel s) ''nat'' ?c = Some es" and ne: "?c \<noteq> miniupnpd_nat_chain s"
    using inv by (auto simp: iptc_inv_def chains_exist_def)
  then have ru: "iptc_rules L ?c h = es" using rules_eq [OF h, of ?c] by simp
  show ?thesis
  proof (cases "find_rule (peer_match eport proto) 0 es")
    case None
    with d h ru inv show ?thesis by (simp add: delete_peer_and_dscp_def)
  next
    case (Some x)
    then obtain i e where x: "find_rule (peer_match eport proto) 0 es = Some (i, e)" by (cases x) auto
    from find_rule_0 [OF x] have "i < length es" by simp
    from delete_effect [OF h es this] obtain k1 where
      k1: "delete_rule_and_commit L i h ?c s = (0, s\<lparr>kernel := k1\<rparr>)"
        "chain_of k1 = upd_chain (chain_of (kernel s)) ''nat'' ?c (take i es @ drop (Suc i) es)" by blast
    let ?s1 = "s\<lparr>kernel := k1\<rparr>"
    from mappings_frame [OF inv changes_only_upd [OF k1(2)]] ne k1(2) have i1: "iptc_inv chain_of ?s1"
      "nat_entries chain_of ?s1 = nat_entries chain_of s" by (auto simp: upd_chain_apply)
    have "find_and_delete L ''mangle'' (miniupnpd_nat_chain ?s1)
        (dscp_match (fst (spts (elem_match e))) proto (ip_src e)) 0 ?s1 = (r, s')"
      using d h k1(1) ru x by (simp add: delete_peer_and_dscp_def)
    from find_and_delete_effect [OF table_mem(3) this] obtain k2 where k2: "s' = ?s1\<lparr>kernel := k2\<rparr>"
      "changes_only ''mangle'' (miniupnpd_nat_chain ?s1) (kernel ?s1) k2"
      "chain_of k2 ''mangle'' (miniupnpd_nat_chain ?s1) = None \<longleftrightarrow> chain_of (kernel ?s1) ''mangle'' (miniupnpd_nat_chain ?s1) = None"
      by auto
    from mappings_frame [OF i1(1) k2(2)] k2 i1 show ?thesis by simp
  qed
qed

lemma iptc_inv_desc [simp]: "iptc_inv chain_of (s\<lparr>rdr_desc_list := ds\<rparr>) = iptc_inv chain_of s"
  by (simp add: iptc_inv_def chains_exist_def nat_entries_def iptc_mappings_def comp_def)

lemma nat_entries_desc [simp]: "nat_entries chain_of (s\<lparr>rdr_desc_list := ds\<rparr>) = nat_entries chain_of s"
  by (simp add: nat_entries_def)

lemma delete_spec:
  assumes inv: "iptc_inv chain_of s" and d: "delete_redirect_and_filter_rules L eport proto s = (r, s')"
  shows "iptc_inv chain_of s' \<and> iptc_mappings chain_of s' = drop_mapping eport proto (iptc_mappings chain_of s)
    \<and> (find_mapping eport proto (iptc_mappings chain_of s) \<noteq> None \<longrightarrow> r = 0)"
proof -
  let ?P = "rdr_match eport proto" and ?es = "nat_entries chain_of s"
  from inv nat_chain_rules obtain h where h: "iptc_init L ''nat'' (kernel s) = Some h"
    "iptc_is_chain L (miniupnpd_nat_chain s) h" "iptc_rules L (miniupnpd_nat_chain s) h = ?es"
    by (auto simp: iptc_inv_def)
  define q where "q = (case find_rule ?P 0 ?es of None \<Rightarrow> (-1, s)
      | Some (i, e) \<Rightarrow> delete_nat_and_filter L i proto (fst (get_dnat_target_addr_port (elem_target e)))
          (snd (get_dnat_target_addr_port (elem_target e))) s)"
  obtain r1 s1 where q: "q = (r1, s1)" by (cases q)
  obtain r2 s2 where p: "delete_peer_and_dscp L eport proto s1 = (r2, s2)" by (cases "delete_peer_and_dscp L eport proto s1")
  have f: "iptc_inv chain_of s1 \<and> rdr_desc_list s1 = rdr_desc_list s
      \<and> nat_entries chain_of s1 = filter (\<lambda>e. \<not> ?P e) ?es \<and> (find ?P ?es \<noteq> None \<longrightarrow> r1 = 0)"
  proof (cases "find_rule ?P 0 ?es")
    case None
    then have "find ?P ?es = None" "\<forall>e \<in> set ?es. \<not> ?P e"
      using find_rule_find [of ?P 0 ?es] by (auto simp: find_rule_None find_None_iff)
    with None q inv show ?thesis by (simp add: q_def filter_True)
  next
    case (Some x)
    then obtain i e where x: "find_rule ?P 0 ?es = Some (i, e)" by (cases x) auto
    with q delete_nat_and_filter_spec [OF inv x] show ?thesis by (simp add: q_def)
  qed
  from delete_peer_and_dscp_spec [OF _ p] f have g: "iptc_inv chain_of s2" "rdr_desc_list s2 = rdr_desc_list s"
    "nat_entries chain_of s2 = filter (\<lambda>e. \<not> ?P e) ?es" by auto
  have res: "r = r1 * r2" "s' = s2\<lparr>rdr_desc_list := del_desc eport proto (rdr_desc_list s)\<rparr>"
    using d h q p g(2) by (auto simp: delete_redirect_and_filter_rules_def q_def del_redirect_desc_def Let_def
        case_prod_unfold split: option.splits)
  have "iptc_mappings chain_of s' = map (entry_mapping (rdr_desc_list s)) (filter (\<lambda>e. \<not> ?P e) ?es)"
    unfolding iptc_mappings_def res(2) using g(3)
    by (auto simp: rdr_match_def intro!: entry_mapping_desc_del)
  also have "\<dots> = drop_mapping eport proto (iptc_mappings chain_of s)"
    by (auto simp: drop_mapping_def iptc_mappings_def filter_map rdr_match_def comp_def
        intro!: arg_cong [where f = "map _"] filter_cong)
  finally show ?thesis
    using f g(1) res by (auto simp: iptc_mappings_def find_mapping_entries)
qed

lemma update_desc_spec:
  assumes "iptc_inv chain_of s" "update_portmapping_desc_timestamp L eport proto desc ts s = (r, s')"
  shows "r = 0 \<and> iptc_inv chain_of s' \<and> nat_entries chain_of s' = nat_entries chain_of s
    \<and> iptc_mappings chain_of s' = change_mapping eport proto
        (\<lambda>m. m\<lparr>m_desc := desc_text desc, m_time := ts\<rparr>) (iptc_mappings chain_of s)"
proof -
  let ?d = "\<lparr>rd_timestamp = ts, rd_eport = eport, rd_proto = proto, rd_str = desc_text desc\<rparr>"
  have s': "r = 0" "s' = s\<lparr>rdr_desc_list := ?d # del_desc eport proto (rdr_desc_list s)\<rparr>"
    using assms(2) memory
    by (auto simp: update_portmapping_desc_timestamp_def add_redirect_desc_def del_redirect_desc_def desc_text_def)
  have "entry_mapping (?d # del_desc eport proto (rdr_desc_list s)) e
     = (if m_key (entry_mapping (rdr_desc_list s) e) = (eport, proto)
        then (entry_mapping (rdr_desc_list s) e)\<lparr>m_desc := desc_text desc, m_time := ts\<rparr>
        else entry_mapping (rdr_desc_list s) e)" for e
    by (auto simp: entry_mapping_def Let_def find_desc_del split: prod.splits)
  with s' assms(1) show ?thesis by (simp add: iptc_mappings_def change_mapping_def)
qed

text \<open>Replacing an entry of another chain keeps the mappings.\<close>

lemma replace_frame:
  assumes inv: "iptc_inv chain_of s" and t: "t \<in> set tables" "(t, c) \<noteq> (''nat'', miniupnpd_nat_chain s)"
    and f: "find_in_chain L t c P s = Some (i, e)" and u: "update_rule_and_commit L t c i e' s = (r, s')"
  shows "r = 0 \<and> iptc_inv chain_of s' \<and> rdr_desc_list s' = rdr_desc_list s
    \<and> iptc_mappings chain_of s' = iptc_mappings chain_of s"
proof -
  from f find_in_chain_eq [OF t(1)] obtain es where es: "chain_of (kernel s) t c = Some es"
    "find_rule P 0 es = Some (i, e)" by (auto split: option.splits)
  then have "i < length es" using find_rule_0 by blast
  from replace_effect [OF t(1) es(1) this, of e'] u obtain k' where k: "r = 0" "s' = s\<lparr>kernel := k'\<rparr>"
    "chain_of k' = upd_chain (chain_of (kernel s)) t c (es[i := e'])" by auto
  from mappings_frame [OF inv changes_only_upd [OF k(3)]] t(2) k show ?thesis by (simp add: upd_chain_apply)
qed

lemma update_filter_frame:
  assumes inv: "iptc_inv chain_of s" and u: "update_filter_rule L proto old_iport iaddr iport s = (r, s')"
  shows "(r = 0 \<or> r = -1) \<and> iptc_inv chain_of s' \<and> rdr_desc_list s' = rdr_desc_list s
    \<and> iptc_mappings chain_of s' = iptc_mappings chain_of s"
proof (cases "find_in_chain L ''filter'' (miniupnpd_forward_chain s) (filter_match old_iport proto iaddr) s")
  case None
  with inv u show ?thesis by (auto simp: update_filter_rule_def)
next
  case (Some x)
  then obtain i e where x: "find_in_chain L ''filter'' (miniupnpd_forward_chain s)
      (filter_match old_iport proto iaddr) s = Some (i, e)" by (cases x) auto
  with u replace_frame [OF inv table_mem(2) _ x] show ?thesis by (simp add: update_filter_rule_def)
qed

lemma update_snat_frame:
  assumes inv: "iptc_inv chain_of s"
  shows "iptc_inv chain_of (update_snat_rule L eport proto old_iport iaddr iport s)
    \<and> rdr_desc_list (update_snat_rule L eport proto old_iport iaddr iport s) = rdr_desc_list s
    \<and> iptc_mappings chain_of (update_snat_rule L eport proto old_iport iaddr iport s) = iptc_mappings chain_of s"
proof (cases "find_in_chain L ''nat'' (miniupnpd_nat_postrouting_chain s)
    (\<lambda>e. peer_match eport proto e \<and> dscp_match old_iport proto iaddr e) s")
  case None
  with inv show ?thesis by (simp add: update_snat_rule_def)
next
  case (Some x)
  then obtain i e where x: "find_in_chain L ''nat'' (miniupnpd_nat_postrouting_chain s)
      (\<lambda>e. peer_match eport proto e \<and> dscp_match old_iport proto iaddr e) s = Some (i, e)" by (cases x) auto
  let ?e = "e\<lparr>elem_match := (elem_match e)\<lparr>spts := (iport, iport)\<rparr>\<rparr>"
  obtain r s' where u: "update_rule_and_commit L ''nat'' (miniupnpd_nat_postrouting_chain s) i ?e s = (r, s')"
    by fastforce
  have "(''nat'', miniupnpd_nat_postrouting_chain s) \<noteq> (''nat'', miniupnpd_nat_chain s)"
    using inv by (auto simp: iptc_inv_def chains_exist_def)
  from replace_frame [OF inv table_mem(1) this x u] x u show ?thesis by (simp add: update_snat_rule_def)
qed

lemma update_nat_effect:
  assumes inv: "iptc_inv chain_of s"
    and f: "find_in_chain L ''nat'' (miniupnpd_nat_chain s) (rdr_match eport proto) s = Some (i, e)"
    and u: "update_rule_and_commit L ''nat'' (miniupnpd_nat_chain s) i
       (e\<lparr>elem_target := set_dnat_target_port (elem_target e) iport\<rparr>) s = (r, s')"
  shows "r = 0 \<and> iptc_inv chain_of s' \<and> rdr_desc_list s' = rdr_desc_list s
    \<and> iptc_mappings chain_of s' = change_mapping eport proto (\<lambda>m. m\<lparr>m_iport := iport\<rparr>) (iptc_mappings chain_of s)"
proof -
  let ?e = "e\<lparr>elem_target := set_dnat_target_port (elem_target e) iport\<rparr>" and ?ds = "rdr_desc_list s"
  from f find_in_chain_eq [OF table_mem(1)] obtain es where
    es: "chain_of (kernel s) ''nat'' (miniupnpd_nat_chain s) = Some es" "nat_entries chain_of s = es"
      "find_rule (rdr_match eport proto) 0 es = Some (i, e)" by (auto simp: nat_entries_def split: option.splits)
  from find_rule_0 [OF es(3)] have i: "i < length es" "es ! i = e" "rdr_match eport proto e" by auto
  from replace_effect [OF table_mem(1) es(1) i(1), of ?e] u obtain k' where k: "r = 0" "s' = s\<lparr>kernel := k'\<rparr>"
    "chain_of k' = upd_chain (chain_of (kernel s)) ''nat'' (miniupnpd_nat_chain s) (es[i := ?e])" by auto
  have n: "nat_entries chain_of s' = es[i := ?e]" using k by (simp add: nat_entries_def upd_chain_apply)
  have wf: "dnat_wf (elem_target e)" using inv es(2) i by (auto simp: iptc_inv_def list_all_iff)
  then have e': "dnat_wf (elem_target ?e)" "entry_mapping ?ds ?e = (entry_mapping ?ds e)\<lparr>m_iport := iport\<rparr>"
    by (auto simp: dnat_wf_def set_dnat_target_port_def entry_mapping_def Let_def split: target_data.splits prod.splits)
  have dist: "distinct (map m_key (map (entry_mapping ?ds) es))"
    using inv es(2) by (simp add: iptc_inv_def iptc_mappings_def)
  have key: "m_key (map (entry_mapping ?ds) es ! n) = (eport, proto) \<longleftrightarrow> n = i" if "n < length es" for n
    using that i dist nth_eq_iff_index_eq [OF dist, of n i] by (auto simp: rdr_match_def)
  have ds': "rdr_desc_list s' = ?ds" using k(2) by simp
  have m: "iptc_mappings chain_of s' = change_mapping eport proto (\<lambda>m. m\<lparr>m_iport := iport\<rparr>) (iptc_mappings chain_of s)"
    unfolding iptc_mappings_def n es(2) change_mapping_def ds'
    using key i by (intro nth_equalityI) (auto simp: nth_list_update e')
  have "list_all (\<lambda>e. dnat_wf (elem_target e)) (es[i := ?e])"
    using inv es(2) e'(1) by (auto simp: iptc_inv_def list_all_iff dest: set_update_subset_insert [THEN subsetD])
  moreover have "map m_key (iptc_mappings chain_of s') = map m_key (iptc_mappings chain_of s)"
    unfolding m change_mapping_def by simp
  ultimately have "iptc_inv chain_of s'"
    using inv k n es by (simp add: iptc_inv_def chains_exist_def upd_chain_apply)
  with m k show ?thesis by simp
qed

lemma update_portmapping_spec:
  assumes inv: "iptc_inv chain_of s" and u: "update_portmapping L eport proto iport desc ts s = (r, s')"
  shows "iptc_inv chain_of s' \<and> (r = 0 \<or> r = -1) \<and> (r = 0 \<longrightarrow> iptc_mappings chain_of s' = change_mapping eport proto
       (\<lambda>m. m\<lparr>m_iport := iport, m_desc := desc_text desc, m_time := ts\<rparr>) (iptc_mappings chain_of s))
    \<and> (r \<noteq> 0 \<longrightarrow> iptc_mappings chain_of s' = iptc_mappings chain_of s \<or> iptc_mappings chain_of s'
          = change_mapping eport proto (\<lambda>m. m\<lparr>m_iport := iport\<rparr>) (iptc_mappings chain_of s))"
proof (cases "find_in_chain L ''nat'' (miniupnpd_nat_chain s) (rdr_match eport proto) s")
  case None
  with inv u show ?thesis by (simp add: update_portmapping_def)
next
  case (Some x)
  then obtain i e where x: "find_in_chain L ''nat'' (miniupnpd_nat_chain s) (rdr_match eport proto) s = Some (i, e)"
    by (cases x) auto
  obtain iaddr old where a: "get_dnat_target_addr_port (elem_target e) = (iaddr, old)" by fastforce
  obtain r1 s1 where u1: "update_rule_and_commit L ''nat'' (miniupnpd_nat_chain s) i
       (e\<lparr>elem_target := set_dnat_target_port (elem_target e) iport\<rparr>) s = (r1, s1)" by fastforce
  note e1 = update_nat_effect [OF inv x u1]
  obtain r2 s2 where u2: "update_filter_rule L proto old iaddr iport s1 = (r2, s2)" by fastforce
  with e1 have e2: "(r2 = 0 \<or> r2 = -1) \<and> iptc_inv chain_of s2 \<and> rdr_desc_list s2 = rdr_desc_list s
    \<and> iptc_mappings chain_of s2 = iptc_mappings chain_of s1" using update_filter_frame by metis
  show ?thesis
  proof (cases "r2 = 0")
    case False
    with u x a u1 u2 e1 e2 show ?thesis by (auto simp: update_portmapping_def)
  next
    case True
    define s3 where "s3 = (if port_triggering L then update_snat_rule L eport proto old iaddr iport s2 else s2)"
    have e3: "iptc_inv chain_of s3" "iptc_mappings chain_of s3 = iptc_mappings chain_of s1"
      using e2 update_snat_frame [of s2] by (auto simp: s3_def)
    have "update_portmapping_desc_timestamp L eport proto desc ts s3 = (r, s')"
      using u x a u1 u2 e1 True by (simp add: update_portmapping_def s3_def)
    from update_desc_spec [OF e3(1) this] e3(2) e1 show ?thesis
      by (auto simp: change_mapping_def)
  qed
qed

end

lemma iptc_ops_sel:
  "be_add_redirect_rule2 (iptc_ops L) = add_redirect_rule2 L"
  "be_add_filter_rule2 (iptc_ops L) = add_filter_rule2 L"
  "be_get_redirect_rule (iptc_ops L) = get_redirect_rule L"
  "be_get_redirect_rule_by_index (iptc_ops L) = get_redirect_rule_by_index L"
  "be_delete_redirect_and_filter_rules (iptc_ops L) = delete_redirect_and_filter_rules L"
  "be_update_portmapping (iptc_ops L) = update_portmapping L"
  "be_update_portmapping_desc_timestamp (iptc_ops L) = update_portmapping_desc_timestamp L"
  "be_get_portmappings_in_range (iptc_ops L) = get_portmappings_in_range L"
  by (simp_all add: iptc_ops_def)

context libiptc_laws
begin

lemma backend_contract: "redirect_backend (iptc_ops L) (iptc_inv chain_of) (iptc_mappings chain_of)"
proof (unfold_locales, goal_cases)
  case (1 s)
  then show ?case by (simp add: iptc_inv_def)
next
  case (2 s eport proto il dl rl)
  then have "chains_exist chain_of s" by (simp add: iptc_inv_def)
  then show ?case unfolding iptc_ops_sel by (rule get_redirect_rule_spec)
next
  case (3 s index il dl rl)
  then have "chains_exist chain_of s" by (simp add: iptc_inv_def)
  then show ?case unfolding iptc_ops_sel by (rule get_by_index_spec)
next
  case (4 s eport proto rhost iaddr iport desc ts r s')
  then show ?case unfolding iptc_ops_sel by (rule add_redirect_rule2_spec)
next
  case (5 s rhost iaddr eport iport proto r s')
  then show ?case unfolding iptc_ops_sel by (rule add_filter_rule2_spec)
next
  case (6 s eport proto r s')
  then show ?case unfolding iptc_ops_sel by (rule delete_spec)
next
  case (7 s eport proto iport desc ts r s')
  then show ?case unfolding iptc_ops_sel by (rule update_portmapping_spec)
next
  case (8 s eport proto desc ts r s')
  then show ?case unfolding iptc_ops_sel using update_desc_spec by blast
next
  case (9 s startport endport proto)
  then have "chains_exist chain_of s" by (simp add: iptc_inv_def)
  then show ?case unfolding iptc_ops_sel by (rule get_in_range_spec)
qed

end

sublocale libiptc_laws \<subseteq> redirect_backend "iptc_ops L" "iptc_inv chain_of" "iptc_mappings chain_of"
  by (rule backend_contract)

section \<open>Concrete tables\<close>

type_synonym list_tables = "((string \<times> string) \<times> ipt_entry list) list"

definition list_chain_of :: "list_tables \<Rightarrow> chains" where
  "list_chain_of k = (\<lambda>t c. map_of k (t, c))"

definition list_upd :: "string \<Rightarrow> string \<Rightarrow> (ipt_entry list \<Rightarrow> ipt_entry list) \<Rightarrow> list_tables \<Rightarrow> list_tables" where
  "list_upd t c f k = map (\<lambda>(key, es). (key, if key = (t, c) then f es else es)) k"

definition list_libiptc :: "bool \<Rightarrow> bool \<Rightarrow> (list_tables, string \<times> list_tables) libiptc" where
  "list_libiptc rev2 triggering =
     \<lparr>iptc_init = (\<lambda>t k. if t \<in> set tables then Some (t, k) else None),
      iptc_is_chain = (\<lambda>c (t, k). map_of k (t, c) \<noteq> None),
      iptc_rules = (\<lambda>c (t, k). case map_of k (t, c) of None \<Rightarrow> [] | Some es \<Rightarrow> es),
      iptc_append_entry = (\<lambda>c e (t, k). if map_of k (t, c) = None then None
                                        else Some (t, list_upd t c (\<lambda>es. es @ [e]) k)),
      iptc_delete_num_entry = (\<lambda>c i (t, k). case map_of k (t, c) of None \<Rightarrow> None
         | Some es \<Rightarrow> if i < length es then Some (t, list_upd t c (\<lambda>es. take i es @ drop (Suc i) es) k) else None),
      iptc_replace_entry = (\<lambda>c e i (t, k). case map_of k (t, c) of None \<Rightarrow> None
         | Some es \<Rightarrow> if i < length es then Some (t, list_upd t c (\<lambda>es. es[i := e]) k) else None),
      iptc_commit = (\<lambda>(t, k) _. Some k),
      alloc_ok = True, probe_dnat2 = rev2, port_triggering = triggering\<rparr>"

lemma list_libiptc_sel:
  "iptc_init (list_libiptc v g) t k = (if t \<in> set tables then Some (t, k) else None)"
  "iptc_is_chain (list_libiptc v g) c (t, k) = (map_of k (t, c) \<noteq> None)"
  "iptc_rules (list_libiptc v g) c (t, k) = (case map_of k (t, c) of None \<Rightarrow> [] | Some es \<Rightarrow> es)"
  "iptc_append_entry (list_libiptc v g) c e (t, k)
     = (if map_of k (t, c) = None then None else Some (t, list_upd t c (\<lambda>es. es @ [e]) k))"
  "iptc_commit (list_libiptc v g) (t, k) k' = Some k"
  "alloc_ok (list_libiptc v g)" "probe_dnat2 (list_libiptc v g) = v" "port_triggering (list_libiptc v g) = g"
  by (simp_all add: list_libiptc_def)

lemma map_of_list_upd: "map_of (list_upd t c f k) (t', c')
   = (if (t', c') = (t, c) then map_option f (map_of k (t', c')) else map_of k (t', c'))"
  by (induction k) (auto simp: list_upd_def)

lemma list_chain_upd:
  "map_of k (t, c) = Some es \<Longrightarrow> list_chain_of (list_upd t c f k) = upd_chain (list_chain_of k) t c (f es)"
  by (auto simp: list_chain_of_def upd_chain_def map_of_list_upd fun_eq_iff)

interpretation list_iptc: libiptc_laws "list_libiptc rev2 triggering" list_chain_of
  by unfold_locales
    (auto simp: list_libiptc_def list_chain_upd, auto simp: list_chain_of_def upd_chain_def
       map_of_list_upd fun_eq_iff split: if_splits)

section \<open>Properties\<close>

text \<open>
  C36: on any libiptc that behaves as documented, the iptables code keeps the backend contract: its
  lookups report the list of mappings held in the NAT chain, an addition appends the mapping, a
  deletion removes exactly the mapping of that port and protocol, and updates change only that one.
\<close>

theorem iptc_refines_backend:
  assumes "libiptc_laws L chain_of"
  shows "redirect_backend (iptc_ops L) (iptc_inv chain_of) (iptc_mappings chain_of)"
  by (rule libiptc_laws.backend_contract [OF assms])

theorem iptc_refines_backend_witness:
  "redirect_backend (iptc_ops (list_libiptc True True)) (iptc_inv list_chain_of) (iptc_mappings list_chain_of)"
  by (rule iptc_refines_backend [OF list_iptc.libiptc_laws_axioms])

lemma append_atomic:
  "iptc_init_verify_and_append L t c e s = (r, s') \<Longrightarrow> r < 0 \<Longrightarrow> kernel s' = kernel s"
  by (auto simp: iptc_init_verify_and_append_def split: option.splits if_splits)

lemma get_dnat_target_kernel: "kernel (snd (get_dnat_target L a p s)) = kernel s"
  by (auto simp: get_dnat_target_def get_dnat_revision_def Let_def)

text \<open>
  an addition that reports an error has not changed the kernel tables, whichever call of libiptc
  or allocation failed (for the NAT, peer, DSCP and filter rules).
\<close>

theorem add_rules_atomic:
  "(fst (addnatrule L proto eport iaddr iport rhost s) \<ge> 0
      \<or> kernel (snd (addnatrule L proto eport iaddr iport rhost s)) = kernel s)
   \<and> (fst (addpeernatrule L proto eaddr eport iaddr' iport rhost rport s) \<ge> 0
      \<or> kernel (snd (addpeernatrule L proto eaddr eport iaddr' iport rhost rport s)) = kernel s)
   \<and> (fst (addpeerdscprule L proto dscp iaddr' iport rhost rport s) \<ge> 0
      \<or> kernel (snd (addpeerdscprule L proto dscp iaddr' iport rhost rport s)) = kernel s)
   \<and> (fst (add_filter_rule L proto rhost iaddr iport s) \<ge> 0
      \<or> kernel (snd (add_filter_rule L proto rhost iaddr iport s)) = kernel s)"
proof (intro conjI)
  have a: "fst (iptc_init_verify_and_append L t c e s) \<ge> 0
      \<or> kernel (snd (iptc_init_verify_and_append L t c e s)) = kernel s" for t c e s
    using append_atomic [of L t c e s "fst (iptc_init_verify_and_append L t c e s)"
        "snd (iptc_init_verify_and_append L t c e s)"] by force
  show "fst (addnatrule L proto eport iaddr iport rhost s) \<ge> 0
      \<or> kernel (snd (addnatrule L proto eport iaddr iport rhost s)) = kernel s"
    using a [of "''nat''" "miniupnpd_nat_chain (snd (get_dnat_target L iaddr iport s))" _ "snd (get_dnat_target L iaddr iport s)"]
      get_dnat_target_kernel [of L iaddr iport s]
    by (simp add: addnatrule_def Let_def case_prod_unfold split: option.splits)
  show "fst (addpeernatrule L proto eaddr eport iaddr' iport rhost rport s) \<ge> 0
      \<or> kernel (snd (addpeernatrule L proto eaddr eport iaddr' iport rhost rport s)) = kernel s"
    using a by (simp add: addpeernatrule_def split: option.splits)
  show "fst (addpeerdscprule L proto dscp iaddr' iport rhost rport s) \<ge> 0
      \<or> kernel (snd (addpeerdscprule L proto dscp iaddr' iport rhost rport s)) = kernel s"
    using a by (simp add: addpeerdscprule_def split: option.splits)
  show "fst (add_filter_rule L proto rhost iaddr iport s) \<ge> 0
      \<or> kernel (snd (add_filter_rule L proto rhost iaddr iport s)) = kernel s"
    using a by (simp add: add_filter_rule_def split: option.splits)
qed

text \<open>
  deleting a port that has neither a redirection nor a peer rule returns the product of the two
  failures, 1, and leaves the mappings as they were: the callers, which test for a negative
  result, take it for a success.
\<close>

theorem delete_absent_reports_success:
  assumes "libiptc_laws L chain_of" and "iptc_inv chain_of s"
    and "find_mapping eport proto (iptc_mappings chain_of s) = None"
    and "chain_of (kernel s) ''nat'' (miniupnpd_nat_postrouting_chain s) = Some es"
    and "list_all (\<lambda>e. \<not> peer_match eport proto e) es"
  shows "fst (delete_redirect_and_filter_rules L eport proto s) = 1
    \<and> iptc_mappings chain_of (snd (delete_redirect_and_filter_rules L eport proto s)) = iptc_mappings chain_of s"
proof -
  from libiptc_laws.nat_chain_rules [OF assms(1), of s] assms(2) obtain h where
    h: "iptc_init L ''nat'' (kernel s) = Some h" "iptc_is_chain L (miniupnpd_nat_chain s) h"
      "iptc_rules L (miniupnpd_nat_chain s) h = nat_entries chain_of s" by (auto simp: iptc_inv_def)
  have "find_rule (rdr_match eport proto) 0 (nat_entries chain_of s) = None"
    using assms(3) by (auto simp: find_rule_None iptc_mappings_def find_mapping_None_iff rdr_match_def image_iff)
  moreover have "find_rule (peer_match eport proto) 0 (iptc_rules L (miniupnpd_nat_postrouting_chain s) h) = None"
    using libiptc_laws.rules_eq [OF assms(1) h(1)] assms(4,5) by (simp add: find_rule_None list_all_iff)
  ultimately have "fst (delete_redirect_and_filter_rules L eport proto s) = 1"
    using h by (simp add: delete_redirect_and_filter_rules_def delete_peer_and_dscp_def Let_def)
  moreover obtain r s' where d: "delete_redirect_and_filter_rules L eport proto s = (r, s')" by fastforce
  ultimately show ?thesis
    using libiptc_laws.delete_spec [OF assms(1,2) d] drop_mapping_absent [OF assms(3)] by simp
qed

definition empty_state :: "list_tables rdr_state" where
  "empty_state = \<lparr>kernel = [((''nat'', ''MINIUPNPD''), []), ((''nat'', ''MINIUPNPD-POSTROUTING''), []),
      ((''filter'', ''MINIUPNPD''), [])], rdr_desc_list = [], miniupnpd_nat_chain = ''MINIUPNPD'',
     miniupnpd_nat_postrouting_chain = ''MINIUPNPD-POSTROUTING'', miniupnpd_forward_chain = ''MINIUPNPD'',
     dnat_revision = -1\<rparr>"

lemma empty_state_inv: "iptc_inv list_chain_of empty_state"
  by (simp add: iptc_inv_def chains_exist_def empty_state_def list_chain_of_def iptc_mappings_def nat_entries_def)

lemma empty_state_mappings: "iptc_mappings list_chain_of empty_state = []"
  by (simp add: empty_state_def list_chain_of_def iptc_mappings_def nat_entries_def)

theorem delete_absent_reports_success_witness:
  "fst (delete_redirect_and_filter_rules (list_libiptc False False) 80 IPPROTO_TCP empty_state) = 1"
  using delete_absent_reports_success [OF list_iptc.libiptc_laws_axioms empty_state_inv,
      where eport = 80 and proto = IPPROTO_TCP and es = "[]"]
  by (simp add: empty_state_mappings find_mapping_def, simp add: empty_state_def list_chain_of_def)

text \<open>
  with port triggering, when the postrouting chain is missing, \<open>add_redirect_rule2\<close> reports an
  error although the redirection has been installed and stays.
\<close>

theorem add_redirect_rule2_partial:
  "let s = empty_state\<lparr>kernel := [((''nat'', ''MINIUPNPD''), []), ((''filter'', ''MINIUPNPD''), [])]\<rparr>;
       (r, s') = add_redirect_rule2 (list_libiptc False True) None 80 ''10.0.0.2'' 8080 IPPROTO_TCP None 0 s
   in r = -1 \<and> map m_key (iptc_mappings list_chain_of s') = [(80, IPPROTO_TCP)]"
  by (simp add: add_redirect_rule2_def addnatrule_def addmasqueraderule_def get_proto_match_def get_tcp_match_def
      get_dnat_target_def get_dnat_revision_def get_masquerade_target_def iptc_init_verify_and_append_def
      list_libiptc_sel empty_state_def tables_def list_upd_def add_redirect_desc_def iptc_mappings_def
      nat_entries_def list_chain_of_def Let_def)

end
