(* ===== verification/RedirectProps.thy ===== *)
theory RedirectProps
  imports Redirect IptcBackend
begin

text \<open>
  The properties of \<open>upnpredirect.c\<close>, over any backend that keeps the contract of \<open>RdrBackend\<close>,
  each with an instance on the iptables backend over concrete tables.
\<close>

section \<open>A concrete daemon\<close>

definition demo_env :: "(list_tables rdr_state, unit) redirect_env" where
  "demo_env = \<lparr>be_ops = iptc_ops (list_libiptc False False), nomatch = (\<lambda>_ _. False), upnppermlist = [],
     disable_port_forwarding = False, port_in_use = (\<lambda>_ _ _ _ _. 0), lease_file = None,
     support_remotehost = True, use_remaining_time = False, pcp_peer = False, upnp_time = 100,
     unix_time = 1000000, append_ok = True, temp_ok = True, rename_ok = True, unlink_ok = True\<rparr>"

definition demo_state :: "list_tables rdr_state redirect_state" where
  "demo_state = \<lparr>fw = empty_state, lease_data = None, nextruletoclean_timestamp = 0, events = 0\<rparr>"

lemmas list_backend = list_iptc.backend_contract [of False False]

lemma demo_inv: "iptc_inv list_chain_of (fw demo_state)" "iptc_mappings list_chain_of (fw demo_state) = []"
  by (simp_all add: demo_state_def empty_state_inv empty_state_mappings)

lemma demo_ops: "be_ops demo_env = iptc_ops (list_libiptc False False)"
  by (simp add: demo_env_def)

section \<open>Requests\<close>

text \<open>
  C35: whatever the request and its outcome, \<open>upnp_redirect\<close> keeps the backend's invariant (so no
  two mappings share an external port and protocol), does not touch the mapping of any other port
  and protocol, and never takes an existing mapping away from its internal client or remote host.
\<close>

theorem upnp_redirect_no_hijack:
  assumes "redirect_backend ops ok mappings" and "be_ops E = ops" and "ok (fw st)"
    and "upnp_redirect E rhost eport iaddr iport protocol desc d st = (r, st')"
  shows "ok (fw st')
    \<and> (\<forall>e p. (e, p) \<noteq> (eport, proto_atoi protocol) \<longrightarrow>
         find_mapping e p (mappings (fw st')) = find_mapping e p (mappings (fw st)))
    \<and> (\<forall>m. find_mapping eport (proto_atoi protocol) (mappings (fw st)) = Some m \<longrightarrow>
         (\<exists>m'. find_mapping eport (proto_atoi protocol) (mappings (fw st')) = Some m'
            \<and> m_iaddr m' = m_iaddr m \<and> m_rhost m' = m_rhost m))"
proof -
  have ch: "find_mapping e p (change_mapping eport q f ms)
      = (if (e, p) = (eport, q) then map_option f (find_mapping e p ms) else find_mapping e p ms)"
    if "\<And>m. m_key (f m) = m_key m" for e p q f ms using that by (rule find_mapping_change)
  show ?thesis
    using redirect_backend.redirect_cases [OF assms]
  proof cases
    case 6
    then show ?thesis by (auto simp: find_mapping_snoc split: option.splits)
  next
    case (7 m)
    then show ?thesis by (auto simp: ch)
  next
    case (8 m)
    then show ?thesis by (auto simp: ch)
  qed (use assms(3) in auto)
qed

theorem upnp_redirect_no_hijack_witness:
  "iptc_inv list_chain_of (fw (snd (upnp_redirect demo_env None 80 ''10.0.0.2'' 8080 ''TCP'' (Some ''web'') 0 demo_state)))"
  using upnp_redirect_no_hijack [OF list_backend demo_ops demo_inv(1) prod.collapse [symmetric]] by blast

text \<open>
  a permitted request for a port that is neither mapped nor in use succeeds: the mapping is
  appended with its expiry time, is found by a lookup, and the subscribers are notified.
\<close>

theorem upnp_redirect_adds:
  assumes "redirect_backend ops ok mappings" and "be_ops E = ops" and "ok (fw st)"
    and "allowed E eport iaddr iport desc" and "\<not> disable_port_forwarding E"
    and "find_mapping eport (proto_atoi protocol) (mappings (fw st)) = None"
    and "port_in_use E eport (proto_atoi protocol) iaddr iport (fw st) \<le> 0"
  shows "\<exists>st'. upnp_redirect E rhost eport iaddr iport protocol desc d st = (0, st') \<and> ok (fw st')
    \<and> mappings (fw st') = mappings (fw st) @ [new_mapping rhost eport iaddr iport (proto_atoi protocol)
          (Some (case desc of None \<Rightarrow> [] | Some t \<Rightarrow> t)) (lease_end E d)]
    \<and> events st' = events st + 1
    \<and> nextruletoclean_timestamp st' = next_clean (nextruletoclean_timestamp st) (lease_end E d)"
proof -
  obtain r st' where i: "upnp_redirect_internal E rhost eport iaddr iport (proto_atoi protocol)
      (case desc of None \<Rightarrow> [] | Some t \<Rightarrow> t) (lease_end E d) st = (r, st')" by fastforce
  from redirect_backend.redirect_internal_spec [OF assms(1,2,3,6) i] assms(5)
    redirect_backend.redirect_new [OF assms(1-4,6,7), of rhost d] i
  show ?thesis by simp
qed

theorem upnp_redirect_adds_witness:
  "\<exists>st'. upnp_redirect demo_env None 80 (inet_ntop 0x0a000002) 8080 ''TCP'' (Some ''web'') 3600 demo_state = (0, st')
     \<and> map m_key (iptc_mappings list_chain_of (fw st')) = [(80, IPPROTO_TCP)]"
proof -
  have "allowed demo_env 80 (inet_ntop 0x0a000002) 8080 (Some ''web'')" "\<not> disable_port_forwarding demo_env"
    "port_in_use demo_env 80 (proto_atoi ''TCP'') (inet_ntop 0x0a000002) 8080 (fw demo_state) \<le> 0"
    by (simp_all add: allowed_def demo_env_def)
  moreover have "find_mapping 80 (proto_atoi ''TCP'') (iptc_mappings list_chain_of (fw demo_state)) = None"
    by (simp add: demo_inv(2) find_mapping_def)
  moreover have "proto_atoi ''TCP'' = IPPROTO_TCP" by code_simp
  ultimately show ?thesis
    using upnp_redirect_adds [OF list_backend demo_ops demo_inv(1), of 80 "inet_ntop 0x0a000002" 8080
        "Some ''web''" "''TCP''" None 3600]
    by (auto simp: demo_inv(2) new_mapping_def)
qed

text \<open>
  the result codes mean what the header of \<open>upnp_redirect\<close> says and a rejection has no effect:
  \<open>-3\<close> exactly when the permission rules refuse a well-formed address, \<open>-2\<close> exactly when the port is
  mapped for another internal client or remote host, and with \<open>-2\<close>, \<open>-3\<close> and \<open>-4\<close> nothing changes.
\<close>

theorem upnp_redirect_rejections:
  assumes "redirect_backend ops ok mappings" and "be_ops E = ops" and "ok (fw st)"
    and "upnp_redirect E rhost eport iaddr iport protocol desc d st = (r, st')"
  shows "(r = -3 \<longleftrightarrow> inet_aton iaddr \<noteq> None \<and> \<not> allowed E eport iaddr iport desc)
    \<and> (r = -2 \<longleftrightarrow> allowed E eport iaddr iport desc
         \<and> (\<exists>m. find_mapping eport (proto_atoi protocol) (mappings (fw st)) = Some m \<and> \<not> owns iaddr rhost m))
    \<and> (r \<in> {-2, -3, -4} \<longrightarrow> st' = st)"
proof -
  have none: "\<not> allowed E eport iaddr iport desc" if "inet_aton iaddr = None" using that by (simp add: allowed_def)
  show ?thesis
    using redirect_backend.redirect_cases [OF assms]
  proof cases
    case 1
    with none show ?thesis by simp
  next
    case 2
    then show ?thesis by simp
  next
    case (3 m)
    with none show ?thesis by auto
  next
    case 6
    with none show ?thesis by auto
  next
    case (7 m)
    with none show ?thesis by auto
  next
    case (8 m)
    with none show ?thesis by auto
  qed (use none in auto)
qed

theorem upnp_redirect_rejections_witness:
  "fst (upnp_redirect demo_env None 80 ''10.0.0.2'' 8080 ''TCP'' None 0 demo_state) \<noteq> -2"
  using upnp_redirect_rejections [OF list_backend demo_ops demo_inv(1) prod.collapse [symmetric]]
  by (simp add: demo_inv(2) find_mapping_def)

text \<open>
  a client that repeats its request (same internal address and remote host) for a mapped port
  overwrites internal port, description and lease of that mapping, and of no other.
\<close>

theorem upnp_redirect_overwrites:
  assumes "redirect_backend ops ok mappings" and "be_ops E = ops" and "ok (fw st)"
    and "allowed E eport iaddr iport desc"
    and "find_mapping eport (proto_atoi protocol) (mappings (fw st)) = Some m" and "owns iaddr rhost m"
    and "upnp_redirect E rhost eport iaddr iport protocol desc d st = (0, st')"
  shows "find_mapping eport (proto_atoi protocol) (mappings (fw st')) = Some (m\<lparr>m_iport := iport,
      m_desc := (case desc of None \<Rightarrow> [] | Some t \<Rightarrow> t), m_time := lease_end E d\<rparr>)"
  using redirect_backend.redirect_cases [OF assms(1-3,7)]
proof cases
  case (7 m')
  with assms(5) show ?thesis by (subst 7(6)) (simp add: find_mapping_change)
qed (use assms(4-6) in \<open>auto simp: allowed_def split: option.splits\<close>)

text \<open>The second request of a client on the concrete tables.\<close>

definition demo_mapped :: "list_tables rdr_state redirect_state" where
  "demo_mapped = snd (upnp_redirect demo_env None 80 (inet_ntop 0x0a000002) 8080 ''TCP'' (Some ''web'') 3600 demo_state)"

lemma demo_first:
  "iptc_inv list_chain_of (fw demo_mapped)"
  "iptc_mappings list_chain_of (fw demo_mapped)
     = [new_mapping None 80 (inet_ntop 0x0a000002) 8080 IPPROTO_TCP (Some ''web'') 3700]"
proof -
  obtain r st' where c: "upnp_redirect demo_env None 80 (inet_ntop 0x0a000002) 8080 ''TCP'' (Some ''web'') 3600 demo_state = (r, st')"
    by fastforce
  have p: "proto_atoi ''TCP'' = IPPROTO_TCP" by code_simp
  have i: "upnp_redirect_internal demo_env None 80 (inet_ntop 0x0a000002) 8080 IPPROTO_TCP ''web'' 3700 demo_state = (r, st')"
    using c p redirect_backend.get_redirect_rule_law [OF list_backend demo_inv(1)]
    by (simp add: upnp_redirect_def demo_inv(2) find_mapping_def Let_def) (simp add: demo_env_def)
  have "find_mapping 80 IPPROTO_TCP (iptc_mappings list_chain_of (fw demo_state)) = None"
    by (simp add: demo_inv(2) find_mapping_def)
  note spec = redirect_backend.redirect_internal_spec [OF list_backend demo_ops demo_inv(1) this i]
  have nd: "\<not> disable_port_forwarding demo_env" by (simp add: demo_env_def)
  from spec c show "iptc_inv list_chain_of (fw demo_mapped)"
    "iptc_mappings list_chain_of (fw demo_mapped)
     = [new_mapping None 80 (inet_ntop 0x0a000002) 8080 IPPROTO_TCP (Some ''web'') 3700]"
    unfolding demo_mapped_def using nd by (simp_all add: demo_inv(2))
qed

theorem upnp_redirect_overwrites_witness:
  "\<exists>st'. upnp_redirect demo_env None 80 (inet_ntop 0x0a000002) 8080 ''TCP'' (Some ''new'') 0 demo_mapped = (0, st')
     \<and> map_option m_desc (find_mapping 80 IPPROTO_TCP (iptc_mappings list_chain_of (fw st'))) = Some ''new''"
proof -
  note st = demo_first
  let ?m = "new_mapping None 80 (inet_ntop 0x0a000002) 8080 IPPROTO_TCP (Some ''web'') 3700"
  have p: "proto_atoi ''TCP'' = IPPROTO_TCP" by code_simp
  have f: "find_mapping 80 (proto_atoi ''TCP'') (iptc_mappings list_chain_of (fw demo_mapped)) = Some ?m"
    by (simp add: st(2) p find_mapping_def)
  have o: "owns (inet_ntop 0x0a000002) None ?m"
    by (simp add: owns_def same_rhost_def rhost_text_def new_mapping_def rhost_addr_def)
  have al: "allowed demo_env 80 (inet_ntop 0x0a000002) 8080 (Some ''new'')"
    by (simp add: allowed_def demo_env_def)
  obtain r st' where c: "upnp_redirect demo_env None 80 (inet_ntop 0x0a000002) 8080 ''TCP'' (Some ''new'') 0 demo_mapped = (r, st')"
    by fastforce
  from redirect_backend.update_desc_law [OF list_backend st(1)]
  have "r = 0"
    using c al f o redirect_backend.get_redirect_rule_law [OF list_backend st(1)]
    by (auto simp: upnp_redirect_def allowed_def demo_ops mapping_info_owner owns_def Let_def split: prod.splits)
  with c upnp_redirect_overwrites [OF list_backend demo_ops st(1) al f o] p show ?thesis by auto
qed

text \<open>
  deleting a redirection removes the mapping of that port and protocol and no other, reports
  success when it existed, and notifies the subscribers.
\<close>

theorem upnp_delete_redirection_exact:
  assumes "redirect_backend ops ok mappings" and "be_ops E = ops" and "ok (fw st)"
    and "upnp_delete_redirection E eport protocol st = (r, st')"
  shows "ok (fw st') \<and> mappings (fw st') = drop_mapping eport (proto_atoi protocol) (mappings (fw st))
    \<and> (find_mapping eport (proto_atoi protocol) (mappings (fw st)) \<noteq> None \<longrightarrow> r = 0)
    \<and> events st' = events st + 1"
  using redirect_backend.delete_redir_spec [OF assms(1-3)] assms(4) by (simp add: upnp_delete_redirection_def)

theorem upnp_delete_redirection_exact_witness:
  "iptc_mappings list_chain_of (fw (snd (upnp_delete_redirection demo_env 80 ''TCP'' demo_mapped))) = []"
proof -
  note st = demo_first
  have p: "proto_atoi ''TCP'' = IPPROTO_TCP" by code_simp
  from upnp_delete_redirection_exact [OF list_backend demo_ops st(1) prod.collapse [symmetric], of 80 "''TCP''"]
  show ?thesis by (simp add: st(2) p drop_mapping_def)
qed

section \<open>Housekeeping\<close>



text \<open>
  \<open>remove_unused_rules\<close> deletes exactly the mappings of the list whose packet and byte counters
  have not changed since the list was taken.
\<close>

theorem unused_rules_removed:
  assumes "redirect_backend ops ok mappings" and "be_ops E = ops" and "ok (fw st)"
  shows "ok (fw (remove_unused_rules E list st))
    \<and> mappings (fw (remove_unused_rules E list st)) = filter (\<lambda>m. \<not> unused list m) (mappings (fw st))"
  by (rule redirect_backend.remove_unused_spec [OF assms])

theorem unused_rules_removed_witness:
  "iptc_mappings list_chain_of (fw (remove_unused_rules demo_env
     [\<lparr>rs_packets = 0, rs_bytes = 0, rs_eport = 80, rs_proto = 6, to_remove = False\<rparr>] demo_mapped)) = []"
proof -
  note st = demo_first
  from unused_rules_removed [OF list_backend demo_ops st(1),
      of "[\<lparr>rs_packets = 0, rs_bytes = 0, rs_eport = 80, rs_proto = 6, to_remove = False\<rparr>]"] st(2)
  show ?thesis by (auto simp: unused_def new_mapping_def)
qed

text \<open>
  \<open>upnp_get_portmapping_number_of_entries\<close> returns the number of mappings.
\<close>

theorem number_of_entries_correct:
  assumes "redirect_backend ops ok mappings" and "be_ops E = ops" and "ok (fw st)"
  shows "upnp_get_portmapping_number_of_entries E st = Some (length (mappings (fw st)))"
  unfolding upnp_get_portmapping_number_of_entries_def
  by (rule redirect_backend.count_entries_spec [OF assms]) simp

theorem number_of_entries_correct_witness:
  "upnp_get_portmapping_number_of_entries demo_env demo_state = Some 0"
  using number_of_entries_correct [OF list_backend demo_ops demo_inv(1)] by (simp add: demo_inv(2))

section \<open>The lease file\<close>

text \<open>
  what \<open>lease_file_add\<close> writes for a mapping is read back by \<open>reload_from_lease_file\<close> field by
  field: protocol, ports, remote host, internal client, time and description.
\<close>

theorem lease_line_roundtrip:
  assumes "list_all (\<lambda>c. schar c \<ge> 32 \<and> c \<noteq> CHR '':'') h" and "list_all (\<lambda>c. schar c \<ge> 32) desc"
    and "support_remotehost E"
    and "lease_ok True \<lparr>le_proto = proto_itoa proto, le_eport = eport, le_rhost = Some h,
        le_iaddr = iaddr, le_iport = iport, le_time = lease_time E ts, le_desc = desc\<rparr>"
  shows "parse_lease_line True (lease_line E (Some h) eport iaddr iport proto desc ts)
    = Some \<lparr>le_proto = proto_itoa proto, le_eport = eport, le_rhost = Some h,
        le_iaddr = iaddr, le_iport = iport, le_time = lease_time E ts, le_desc = desc\<rparr>"
  using parse_entry_line [OF assms(4)] lease_line_entry [OF assms(1,2), of E eport iaddr iport proto ts] assms(3)
  by simp

lemma field_ok_ntop [simp]: "field_ok (inet_ntop a)"
  by (auto simp: field_ok_def list_all_iff inet_ntop_def)

lemma lease_okI:
  assumes "field_ok (le_proto l)" and "field_ok (le_iaddr l)"
    and "le_rhost l = Some h" and "field_ok h" and "CHR 0x0A \<notin> set (le_desc l)"
    and "le_desc l \<noteq> [] \<Longrightarrow> \<not> isspace (hd (le_desc l)) \<and> \<not> isspace (last (le_desc l))"
    and "length (le_proto l) + length h + length (le_iaddr l) + length (le_desc l) < 290"
  shows "lease_ok True l"
proof -
  have "length (dec (unat (w :: u16))) \<le> 5" for w
    using length_dec [of "unat w" 5] unsigned_less [of w, where 'a = nat] by simp
  from this [of "le_eport l"] this [of "le_iport l"]
  have "length (entry_line True l) < 320"
    using assms(3,7) length_dec [of "unat (le_time l)" 10] unsigned_less [of "le_time l", where 'a = nat]
    by (simp add: entry_line_def)
  with assms show ?thesis by (simp add: lease_ok_def)
qed

theorem lease_line_roundtrip_witness:
  "map_option le_desc (parse_lease_line True (lease_line demo_env (Some []) 80 ''10.0.0.2'' 8080 IPPROTO_TCP ''my: web'' 0))
     = Some ''my: web''"
proof -
  have d: "list_all (\<lambda>c. schar c \<ge> 32) ''my: web''" by (simp add: schar_def)
  have s: "support_remotehost demo_env" by (simp add: demo_env_def)
  have "lease_ok True \<lparr>le_proto = proto_itoa IPPROTO_TCP, le_eport = 80, le_rhost = Some [],
      le_iaddr = ''10.0.0.2'', le_iport = 8080, le_time = lease_time demo_env 0, le_desc = ''my: web''\<rparr>"
    by (rule lease_okI [where h = "[]"]) (simp_all add: field_ok_def isspace_def proto_itoa_def)
  from lease_line_roundtrip [OF _ d s this] show ?thesis by simp
qed


definition demo_leases :: "lease_entry list" where
  "demo_leases = [\<lparr>le_proto = ''TCP'', le_eport = 80, le_rhost = Some [], le_iaddr = inet_ntop 0x0a000002,
     le_iport = 8080, le_time = 0, le_desc = ''web''\<rparr>]"


text \<open>
  removing a mapping from a lease file of lines of at most 509 characters drops exactly the
  lines that begin with its protocol and port, and keeps the others in order.
\<close>

theorem lease_file_remove_exact:
  assumes "lease_file E = Some path" and "length path \<le> 121" and "temp_ok E" and "rename_ok E"
    and "lease_data st = Some (concat ls)" and "list_all (is_line 511) ls"
  shows "lease_file_remove E eport proto st
    = (0, st\<lparr>lease_data := Some (concat (filter (\<lambda>l. \<not> lease_of eport proto l) ls))\<rparr>)"
  using assms by (rule lease_file_remove_lines)

theorem lease_file_remove_exact_witness:
  "lease_data (snd (lease_file_remove (demo_env\<lparr>lease_file := Some ''/tmp/l''\<rparr>) 80 IPPROTO_TCP
      (demo_state\<lparr>lease_data := Some (concat [''TCP:80:x'' @ [CHR 0x0A], ''UDP:80:x'' @ [CHR 0x0A]])\<rparr>)))
   = Some (concat (filter (\<lambda>l. \<not> lease_of 80 IPPROTO_TCP l) [''TCP:80:x'' @ [CHR 0x0A], ''UDP:80:x'' @ [CHR 0x0A]]))"
proof -
  let ?E = "demo_env\<lparr>lease_file := Some ''/tmp/l''\<rparr>"
  let ?ls = "[''TCP:80:x'' @ [CHR 0x0A], ''UDP:80:x'' @ [CHR 0x0A]]"
  have "lease_file ?E = Some ''/tmp/l''" "length ''/tmp/l'' \<le> 121" "temp_ok ?E" "rename_ok ?E"
    by (simp_all add: demo_env_def)
  moreover have "list_all (is_line 511) ?ls" by (simp add: is_line_def)
  ultimately show ?thesis
    using lease_file_remove_exact [of ?E "''/tmp/l''" "demo_state\<lparr>lease_data := Some (concat ?ls)\<rparr>" ?ls 80 IPPROTO_TCP]
    by simp
qed

section \<open>Defects\<close>

text \<open>
  in a build with \<open>PCP_PEER\<close> and no peer rules, \<open>get_upnp_rules_state_list\<close> counts only the peer
  rules, so it returns the empty list whatever the number of mappings: unused mappings are never
  found.
\<close>

theorem peer_build_lists_nothing:
  assumes "redirect_backend ops ok mappings" and "be_ops E = ops" and "ok (fw st)" and "pcp_peer E"
    and "be_get_peer_rule_by_index ops 0 (fw st) = None" and "0 \<le> target"
  shows "\<exists>st'. get_upnp_rules_state_list E target st = Some ([], st')"
proof -
  let ?f = "\<lambda>m. (m_eport m, m_proto m, m_time m, m_packets m, m_bytes m)"
  obtain i n l where c: "collect_rules (rule_at E (fw st)) (upnp_time E) 0 0 [] = Some (i, n, l)"
    using collect_rules_list [of "rule_at E (fw st)" "map ?f (mappings (fw st))" 0 "upnp_time E" 0 "[]"]
      redirect_backend.rule_at_law [OF assms(1-3)] by simp
  have p: "collect_rules (\<lambda>i. be_get_peer_rule_by_index (be_ops E) i (fw st)) (upnp_time E) 0 n l = Some (0, n, l)"
    using assms(2,5) by (subst collect_rules.simps) simp
  obtain l' i' st' where e: "expire_rules E l (int 0) (st\<lparr>nextruletoclean_timestamp := n\<rparr>) = (l', i', st')"
    by (metis prod_cases3)
  have "i' \<le> 0" using redirect_backend.expire_rules_spec [OF assms(1,2) _ e] assms(3) by simp
  with c p e assms(4,6) show ?thesis by (simp add: get_upnp_rules_state_list_def)
qed

lemmas iptc_eval = add_redirect_rule2_def addnatrule_def add_filter_rule2_def add_filter_rule_def
  get_proto_match_def get_tcp_match_def get_dnat_target_def get_dnat_revision_def get_accept_target_def
  iptc_init_verify_and_append_def list_libiptc_sel tables_def list_upd_def add_redirect_desc_def Let_def

lemma demo_no_peer:
  "be_get_peer_rule_by_index (iptc_ops (list_libiptc False False)) 0 (fw demo_mapped) = None"
proof -
  have p: "proto_atoi ''TCP'' = IPPROTO_TCP" by code_simp
  let ?s = "add_redirect_rule2 (list_libiptc False False) None 80 (inet_ntop 0x0a000002) 8080 IPPROTO_TCP (Some ''web'') 3700 empty_state"
  have m: "map_of (kernel (snd ?s)) (''nat'', ''MINIUPNPD-POSTROUTING'') = Some [] \<and> fst ?s = 0
      \<and> miniupnpd_nat_postrouting_chain (snd ?s) = ''MINIUPNPD-POSTROUTING''"
    by (simp add: iptc_eval empty_state_def)
  show ?thesis
    using redirect_backend.get_redirect_rule_law [OF list_backend demo_inv(1)] m
    apply (simp add: demo_mapped_def upnp_redirect_def demo_inv(2) find_mapping_def Let_def demo_ops p)
    apply (simp add: demo_env_def upnp_redirect_internal_def case_prod_unfold lease_file_add_def Let_def iptc_ops_def
       demo_state_def)
    apply (simp add: get_peer_rule_by_index_def add_filter_rule2_def add_filter_rule_def get_proto_match_def
      get_tcp_match_def get_accept_target_def iptc_init_verify_and_append_def list_libiptc_sel tables_def map_of_list_upd)
    done
qed

theorem peer_build_lists_nothing_witness:
  "\<exists>st'. get_upnp_rules_state_list (demo_env\<lparr>pcp_peer := True\<rparr>) 0 demo_mapped = Some ([], st')"
proof -
  have "be_get_peer_rule_by_index (iptc_ops (list_libiptc False False)) 0 (fw demo_mapped) = None"
    by (rule demo_no_peer)
  with peer_build_lists_nothing [OF list_backend _ demo_first(1), of "demo_env\<lparr>pcp_peer := True\<rparr>" 0]
  show ?thesis by (simp add: demo_env_def)
qed

end
