(* ===== verification/NatPmpProps.thy ===== *)
theory NatPmpProps
  imports NatPmp RedirectProps
begin

text \<open>
  The properties of \<open>natpmp.c\<close>, over any backend that keeps the contract of \<open>RdrBackend\<close>, each with
  an instance on the iptables backend over concrete tables.
\<close>

section \<open>A concrete gateway\<close>

definition demo_gateway :: "(list_tables rdr_state, unit) natpmp_env" where
  "demo_gateway = \<lparr>redir = demo_env, multiple_external_ip = False, use_ext_ip_addr = None,
     ext_if_name = Some ''eth0'', if_list = Some demo_ifs, allow_private_ipv4 = False, lan_addrs = [],
     startup_time = 10\<rparr>"

definition demo_natpmp :: "list_tables rdr_state natpmp_state" where
  "demo_natpmp = \<lparr>rst = demo_state, epoch_origin = 0\<rparr>"

lemma demo_gateway_ops: "be_ops (redir demo_gateway) = iptc_ops (list_libiptc False False)"
  by (simp add: demo_gateway_def demo_ops)

lemma demo_natpmp_inv: "iptc_inv list_chain_of (fw (rst demo_natpmp))"
  by (simp add: demo_natpmp_def demo_inv)

section \<open>Requests and replies\<close>

text \<open>
  a datagram of less than two bytes, a mapping request of less than twelve bytes and every
  response (an opcode of 128 or more) is discarded: nothing is sent and the state is untouched.
\<close>

theorem natpmp_discards:
  assumes "length req < 2 \<or> (req ! 1 \<in> {1, 2} \<and> length req < 12) \<or> (req ! 1) AND 128 \<noteq> 0"
  shows "ProcessIncomingNATPMPPacket E req a ns = Some (None, ns)"
  using assms by (auto simp: ProcessIncomingNATPMPPacket_def not_too_short)

theorem natpmp_discards_witness:
  "ProcessIncomingNATPMPPacket demo_gateway [0, 1, 0, 0, 0, 80] 0x0a000002 demo_natpmp = Some (None, demo_natpmp)"
  using natpmp_discards [of "[0, 1, 0, 0, 0, 80]" demo_gateway "0x0a000002" demo_natpmp] by simp

text \<open>
  every reply has version 0, the opcode of the request plus 128, a result code of at most 5 and
  the time since the epoch, in 8, 12 or 16 bytes according to the request; the reply to a mapping
  request repeats its internal port and lifetime.
\<close>

theorem natpmp_reply_format:
  assumes "ProcessIncomingNATPMPPacket E req a ns = Some (Some resp, ns')"
  shows "length resp = (if req ! 0 = 0 \<and> req ! 1 = 0 then 12
                        else if req ! 0 = 0 \<and> req ! 1 \<in> {1, 2} then 16 else 8)
    \<and> resp ! 0 = 0 \<and> resp ! 1 = 128 + req ! 1 \<and> resp ! 2 = 0 \<and> resp ! 3 \<le> 5
    \<and> readnu32 (drop 4 resp) = upnp_time (redir E) - epoch_origin ns'
    \<and> (req ! 0 = 0 \<and> req ! 1 \<in> {1, 2} \<longrightarrow> readnu16 (drop 8 resp) = readnu16 (drop 4 req)
         \<and> readnu32 (drop 12 resp) = readnu32 (drop 8 req))"
proof -
  let ?t = "upnp_time (redir E) - epoch_origin (natpmp_epoch E ns)"
  have h: "resp = reply_head (req ! 1) c ?t @ r \<Longrightarrow> resp ! 0 = 0 \<and> resp ! 1 = 128 + req ! 1 \<and> resp ! 2 = 0
      \<and> resp ! 3 = c \<and> readnu32 (drop 4 resp) = ?t \<and> drop 8 resp = r \<and> length resp = 8 + length r" for c r
    by (simp add: reply_head_def readnu32_writenu32_append eval_nat_numeral)
  have alive: "\<not> (natpmp_too_short req \<or> (req ! 1) AND 128 \<noteq> 0)"
  proof
    assume "natpmp_too_short req \<or> (req ! 1) AND 128 \<noteq> 0"
    then have "ProcessIncomingNATPMPPacket E req a ns = Some (None, ns)" unfolding natpmp_handler_eq by (rule if_P)
    with assms show False by simp
  qed
  consider (version) "req ! 0 > 0" | (address) "req ! 0 = 0" "req ! 1 = 0"
    | (mapping) "req ! 0 = 0" "req ! 1 = 1 \<or> req ! 1 = 2"
    | (other) "req ! 0 = 0" "req ! 1 \<notin> {0, 1, 2}" by (auto simp: word_gt_0)
  then show ?thesis
  proof cases
    case version
    with assms alive have "resp = reply_head (req ! 1) 1 ?t @ []" "ns' = natpmp_epoch E ns"
      by (auto simp: natpmp_handler_eq Let_def)
    with h [OF this(1)] version show ?thesis by auto
  next
    case address
    obtain c r where r: "FillPublicAddressResponse E a (reply_head (req ! 1) 0 ?t @ replicate 24 0)
        = reply_head (req ! 1) c ?t @ r" "c = 0 \<or> c = 3" "length r = 24" using fill_reply by blast
    with assms alive address have "resp = reply_head (req ! 1) c ?t @ take 4 r" "ns' = natpmp_epoch E ns"
      by (auto simp: natpmp_handler_eq Let_def)
    with h [OF this(1)] address r(2,3) show ?thesis by auto
  next
    case mapping
    with assms alive obtain c e st' where
      c: "natpmp_mapping_request (redir E) a (if req ! 1 = 1 then IPPROTO_UDP else IPPROTO_TCP)
            (readnu16 (drop 4 req)) (readnu16 (drop 6 req)) (readnu32 (drop 8 req)) (rst ns) = Some (c, e, st')"
      and resp: "resp = reply_head (req ! 1) c ?t
         @ writenu16 (readnu16 (drop 4 req)) @ writenu16 e @ writenu32 (readnu32 (drop 8 req))"
      and ns': "ns' = (natpmp_epoch E ns)\<lparr>rst := st'\<rparr>"
      by (auto simp: natpmp_handler_eq Let_def)
    have "drop 12 resp = writenu32 (readnu32 (drop 8 req))" by (simp add: resp)
    moreover have "c \<le> 5" using natpmp_request_code [OF c] by auto
    ultimately show ?thesis using h [OF resp] mapping ns' by (auto simp: readnu16_writenu16_append)
  next
    case other
    with assms alive have "resp = reply_head (req ! 1) 5 ?t @ []" "ns' = natpmp_epoch E ns"
      by (auto simp: natpmp_handler_eq Let_def)
    with h [OF this(1)] other show ?thesis by auto
  qed
qed

theorem natpmp_reply_format_witness:
  "\<exists>resp ns'. ProcessIncomingNATPMPPacket demo_gateway [1, 9] 0x0a000002 demo_natpmp = Some (Some resp, ns')
     \<and> length resp = 8 \<and> resp ! 1 = 137"
proof -
  have "\<exists>resp ns'. ProcessIncomingNATPMPPacket demo_gateway [1, 9] 0x0a000002 demo_natpmp = Some (Some resp, ns')"
    by (simp add: natpmp_handler_eq not_too_short Let_def)
  then obtain resp ns' where r: "ProcessIncomingNATPMPPacket demo_gateway [1, 9] 0x0a000002 demo_natpmp = Some (Some resp, ns')"
    by blast
  from natpmp_reply_format [OF r] r show ?thesis by auto
qed

section \<open>Mapping requests\<close>


definition demo_request :: bytes where
  "demo_request = [0, 2, 0, 0] @ writenu16 8080 @ writenu16 80 @ writenu32 3600"

lemma demo_request_fields:
  "length demo_request = 12" "demo_request ! 0 = 0" "demo_request ! Suc 0 = 2"
  "readnu16 (drop 4 demo_request) = 8080" "readnu16 (drop 6 demo_request) = 80" "readnu32 (drop 8 demo_request) = 3600"
  by (simp_all add: demo_request_def readnu16_writenu16_append)


text \<open>
  a request with lifetime 0 removes exactly the mappings that its sender made by NAT-PMP for
  that protocol and that internal port (all its ports when the port is 0), always ends, and
  answers with result code 0 and external port 0.
\<close>

theorem natpmp_delete_exact:
  assumes "redirect_backend ops ok mappings" and "be_ops (redir E) = ops" and "ok (fw (rst ns))"
    and "length req \<ge> 12" and "req ! 0 = 0" and "req ! 1 \<in> {1, 2}" and "readnu32 (drop 8 req) = 0"
  shows "\<exists>resp ns'. ProcessIncomingNATPMPPacket E req a ns = Some (Some resp, ns') \<and> ok (fw (rst ns'))
    \<and> resp ! 3 = 0 \<and> readnu16 (drop 10 resp) = 0
    \<and> mappings (fw (rst ns')) = filter (\<lambda>m. \<not> natpmp_owned a (readnu16 (drop 4 req))
          (if req ! 1 = 1 then IPPROTO_UDP else IPPROTO_TCP) m) (mappings (fw (rst ns)))"
proof -
  let ?i = "readnu16 (drop 4 req)" and ?p = "if req ! 1 = 1 then IPPROTO_UDP else IPPROTO_TCP"
  let ?t = "upnp_time (redir E) - epoch_origin (natpmp_epoch E ns)"
  obtain st' where d: "natpmp_delete_loop (redir E) (inet_ntop a) ?i ?p 0 (rst ns) = Some (0, st')" "ok (fw st')"
    "mappings (fw st') = filter (\<lambda>m. \<not> natpmp_owned a ?i ?p m) (mappings (fw (rst ns)))"
    using redirect_backend.natpmp_delete_spec [OF assms(1-3), of 0 a ?i ?p] by auto
  let ?resp = "reply_head (req ! 1) 0 ?t @ writenu16 ?i @ writenu16 0 @ writenu32 0"
  let ?ns = "(natpmp_epoch E ns)\<lparr>rst := st'\<rparr>"
  have alive: "\<not> (natpmp_too_short req \<or> (req ! 1) AND 128 \<noteq> 0)" using assms(4,6) by (auto simp: not_too_short)
  have p: "ProcessIncomingNATPMPPacket E req a ns = Some (Some ?resp, ?ns)"
    using alive assms(5-7) d(1) by (auto simp: natpmp_handler_eq Let_def natpmp_mapping_request_def)
  have "?resp ! 3 = 0" "readnu16 (drop 10 ?resp) = 0"
    by (simp_all add: reply_head_def eval_nat_numeral, simp add: readnu16_writenu16_append)
  with p d(2,3) show ?thesis by (intro exI [of _ ?resp] exI [of _ ?ns]) simp
qed

definition demo_natpmp_mapped :: "list_tables rdr_state natpmp_state" where
  "demo_natpmp_mapped = \<lparr>rst = demo_mapped, epoch_origin = 1\<rparr>"

theorem natpmp_delete_exact_witness:
  "\<exists>resp ns'. ProcessIncomingNATPMPPacket demo_gateway ([0, 2, 0, 0] @ writenu16 8080 @ writenu16 0 @ writenu32 0)
       0x0a000002 demo_natpmp_mapped = Some (Some resp, ns')
     \<and> map m_key (iptc_mappings list_chain_of (fw (rst ns'))) = [(80, IPPROTO_TCP)]"
proof -
  let ?req = "[0, 2, 0, 0] @ writenu16 8080 @ writenu16 0 @ writenu32 0"
  have i: "iptc_inv list_chain_of (fw (rst demo_natpmp_mapped))"
    "iptc_mappings list_chain_of (fw (rst demo_natpmp_mapped))
       = [new_mapping None 80 (inet_ntop 0x0a000002) 8080 IPPROTO_TCP (Some ''web'') 3700]"
    by (simp_all add: demo_natpmp_mapped_def demo_first)
  have r: "length ?req \<ge> 12" "?req ! 0 = 0" "?req ! 1 \<in> {1, 2}" "readnu32 (drop 8 ?req) = 0" by simp_all
  show ?thesis using natpmp_delete_exact [OF list_backend demo_gateway_ops i(1) r, of "0x0a000002"] i(2)
    by (auto simp: natpmp_owned_def desc_text_def)
qed

lemma natpmp_keeps_others:
  assumes "redirect_backend ops ok mappings" and "be_ops (redir E) = ops" and "ok (fw (rst ns))"
  shows "\<exists>resp ns'. ProcessIncomingNATPMPPacket E req a ns = Some (resp, ns') \<and> ok (fw (rst ns'))
    \<and> {m \<in> set (mappings (fw (rst ns))). m_iaddr m \<noteq> a \<or> take 4 (m_desc m) = ''PCP ''}
        \<subseteq> set (mappings (fw (rst ns')))"
proof (cases "\<exists>resp ns'. ProcessIncomingNATPMPPacket E req a ns = Some (resp, ns') \<and> rst ns' = rst ns")
  case True
  then show ?thesis using assms(3) by auto
next
  case False
  let ?i = "readnu16 (drop 4 req)" and ?p = "if req ! 1 = 1 then IPPROTO_UDP else IPPROTO_TCP"
  let ?q = "natpmp_mapping_request (redir E) a ?p ?i (readnu16 (drop 6 req)) (readnu32 (drop 8 req)) (rst ns)"
  have p: "\<exists>resp. ProcessIncomingNATPMPPacket E req a ns
      = map_option (\<lambda>x. (resp x, (natpmp_epoch E ns)\<lparr>rst := snd (snd x)\<rparr>)) ?q"
    using False unfolding natpmp_handler_eq Let_def
    by (auto split: if_splits simp: case_prod_unfold)
  have "\<exists>x. ?q = Some x \<and> ok (fw (snd (snd x)))
    \<and> {m \<in> set (mappings (fw (rst ns))). m_iaddr m \<noteq> a \<or> take 4 (m_desc m) = ''PCP ''}
        \<subseteq> set (mappings (fw (snd (snd x))))"
    using redirect_backend.natpmp_request_keeps [OF assms] .
  with p show ?thesis by auto
qed

text \<open>
  C39: whatever datagram a client sends, the handler ends, keeps the backend's invariant, and keeps
  every mapping that belongs to another client or was made by PCP.
\<close>

theorem natpmp_no_hijack:
  assumes "redirect_backend ops ok mappings" and "be_ops (redir E) = ops" and "ok (fw (rst ns))"
  shows "\<exists>resp ns'. ProcessIncomingNATPMPPacket E req a ns = Some (resp, ns') \<and> ok (fw (rst ns'))
    \<and> {m \<in> set (mappings (fw (rst ns))). m_iaddr m \<noteq> a \<or> take 4 (m_desc m) = ''PCP ''}
        \<subseteq> set (mappings (fw (rst ns')))"
  by (rule natpmp_keeps_others [OF assms])

theorem natpmp_no_hijack_witness:
  "\<exists>resp ns'. ProcessIncomingNATPMPPacket demo_gateway demo_request 0x0a000003 demo_natpmp_mapped = Some (resp, ns')
     \<and> (80, IPPROTO_TCP) \<in> m_key ` set (iptc_mappings list_chain_of (fw (rst ns')))"
proof -
  have i: "iptc_inv list_chain_of (fw (rst demo_natpmp_mapped))"
    "iptc_mappings list_chain_of (fw (rst demo_natpmp_mapped))
       = [new_mapping None 80 (inet_ntop 0x0a000002) 8080 IPPROTO_TCP (Some ''web'') 3700]"
    by (simp_all add: demo_natpmp_mapped_def demo_first)
  show ?thesis
    using natpmp_no_hijack [OF list_backend demo_gateway_ops i(1), of demo_request "0x0a000003"] i(2) by force
qed

text \<open>
  the search for an external port ends and takes the first usable one in the order of the
  suggested port, the ports above it, then 1 up to it: every port before it is refused or taken.
  When no port is usable it reports 2 if the permissions refuse them all and 4 otherwise.
\<close>

theorem natpmp_port_search:
  assumes "e \<noteq> 0"
  shows "case search_eport (examine_port R a iport proto st) 0 False e of
      (code, p, Some c) \<Rightarrow> code = 0 \<and> c = examine_port R a iport proto st p \<and> c \<notin> {Denied, Taken}
        \<and> (\<exists>n < 65535. unat p = (unat e - 1 + n) mod 65535 + 1
             \<and> (\<forall>i < n. examine_port R a iport proto st (nth_eport e i) \<in> {Denied, Taken}))
    | (code, p, None) \<Rightarrow> (\<forall>q. q \<noteq> 0 \<longrightarrow> examine_port R a iport proto st q \<in> {Denied, Taken})
        \<and> code = (if \<exists>q. q \<noteq> 0 \<and> examine_port R a iport proto st q = Taken then 4 else 2)"
proof -
  let ?f = "examine_port R a iport proto st"
  obtain code p ch where r: "search_eport ?f 0 False e = (code, p, ch)" by (metis prod_cases3)
  have sp: "search_result ?f e (code, p, ch)" using search_eport_spec [OF assms, of ?f] by (simp only: r)
  show ?thesis
  proof (cases ch)
    case None
    with sp show ?thesis unfolding r search_result_def by (simp add: skipped_def)
  next
    case (Some c)
    with sp obtain n where "n < 65535" "p = nth_eport e n" "\<forall>i < n. skipped (?f (nth_eport e i))"
      and "code = 0" "c = ?f p" "\<not> skipped c" unfolding search_result_def by auto
    with Some show ?thesis unfolding r using unat_nth_eport [OF assms, of n]
      by (auto simp: skipped_def intro!: exI [of _ n])
  qed
qed

theorem natpmp_port_search_witness:
  "case search_eport (examine_port demo_env 0x0a000002 8080 IPPROTO_TCP demo_state) 0 False 80 of
     (code, p, c) \<Rightarrow> code = 0 \<longleftrightarrow> c \<noteq> None"
  using natpmp_port_search [of 80 demo_env "0x0a000002" 8080 IPPROTO_TCP demo_state]
  by (auto split: option.splits prod.splits if_splits)

section \<open>The public address\<close>

text \<open>
  the answer to a public address request carries the address of the external interface, unless
  that address is reserved (and private addresses are not allowed) or missing: then it is the
  result code 3 with a null address.
\<close>

theorem natpmp_public_address:
  assumes "req = [0, 0] @ rest" and "\<not> multiple_external_ip E" and "use_ext_ip_addr E = None"
    and "ext_if_name E = Some name" and "name \<noteq> []" and "if_list E = Some ifs"
  shows "\<exists>resp ns'. ProcessIncomingNATPMPPacket E req a ns = Some (Some resp, ns') \<and>
    (case getifaddr (Some ifs) (Some name) of
       Inr (addr, m) \<Rightarrow> if addr_is_reserved addr \<and> \<not> allow_private_ipv4 E
                        then resp ! 3 = 3 \<and> readnu32 (drop 8 resp) = 0
                        else resp ! 3 = 0 \<and> readnu32 (drop 8 resp) = addr
     | Inl _ \<Rightarrow> resp ! 3 = 3 \<and> readnu32 (drop 8 resp) = 0)"
proof -
  let ?t = "upnp_time (redir E) - epoch_origin (natpmp_epoch E ns)"
  have alive: "\<not> (natpmp_too_short req \<or> (req ! 1) AND 128 \<noteq> 0)" by (simp add: assms(1) not_too_short)
  have h: "(reply_head op c t @ r) ! 3 = c" for op c t r
    by (simp add: reply_head_def eval_nat_numeral)
  have z: "readnu32 (replicate 4 0) = 0" by (simp add: readnu32_def eval_nat_numeral)
  show ?thesis
    using alive assms unfolding natpmp_handler_eq Let_def FillPublicAddressResponse_def put_addr_def
    by (auto simp: reply_addr h z split: sum.splits)
qed

theorem natpmp_public_address_witness:
  "\<exists>resp ns'. ProcessIncomingNATPMPPacket demo_gateway ([0, 0] @ []) 0x0a000002 demo_natpmp = Some (Some resp, ns')
     \<and> resp ! 3 = 0 \<and> readnu32 (drop 8 resp) = 0x08080808"
proof -
  have g: "getifaddr (Some demo_ifs) (Some ''eth0'') = Inr (0x08080808, 0xffffff00)"
    by (simp add: getifaddr_def demo_ifs_def better_candidate_def addr_is_reserved_blocks reserved_blocks_def)
  have "\<not> addr_is_reserved 0x08080808" by (simp add: addr_is_reserved_def reserved_values)
  with natpmp_public_address [of _ "[]" demo_gateway "''eth0''" demo_ifs "0x0a000002" demo_natpmp] g
  show ?thesis by (auto simp: demo_gateway_def)
qed

end
