(* ===== verification/UpnpPinholeProps.thy ===== *)
theory UpnpPinholeProps
  imports UpnpPinhole
begin

text \<open>
  Properties of \<open>upnppinhole.c\<close>: adding and refreshing a pinhole, what a restart may open, and the
  lease file, with the defects of its update and removal stated as theorems.
\<close>

section \<open>Frames\<close>

lemma lease6_frames [simp]:
  "pins (snd (lease_file6_add E rc rp ic ip pr u d t st)) = pins st"
  "pins (snd (lease_file6_update E uid t st)) = pins st"
  "pins (snd (lease_file6_expire E st)) = pins st"
  by (auto simp: lease_file6_add_def lease_file6_update_def lease_file6_expire_def rewrite_lease6_def split: option.splits)

lemma record_lease6_total: "\<exists>st'. record_lease6 E buf2 ra rp ia ip pr u d t st = Some st' \<and> pins st' = pins st"
proof -
  have "\<exists>r st1. lease_file6_remove E buf2 ia ip pr (-1) st = Some (r, st1) \<and> pins st1 = pins st"
    by (auto simp: lease_file6_remove_def remove6_data_def Let_def split: option.splits)
  then show ?thesis by (auto simp: record_lease6_def)
qed

lemma update_inboundpinhole_pins:
  "pins (snd (upnp_update_inboundpinhole E uid d st)) = snd (update_pinhole uid (upnp_time6 E + d) (pins st))"
  by (auto simp: upnp_update_inboundpinhole_def Let_def split: prod.splits)

lemma update_inboundpinhole_ret:
  "fst (upnp_update_inboundpinhole E uid d st) = fst (update_pinhole uid (upnp_time6 E + d) (pins st))"
  by (auto simp: upnp_update_inboundpinhole_def Let_def split: prod.splits)

section \<open>Refreshing\<close>

text \<open>The search key of \<open>find_pinhole\<close> does not see the timestamp.\<close>

definition pin_at :: "string option \<Rightarrow> u16 \<Rightarrow> string \<Rightarrow> u16 \<Rightarrow> u16 \<Rightarrow> pinhole_t \<Rightarrow> bool" where
  "pin_at raddr rport iaddr iport proto p =
     (proto = ucast (ph_proto p) \<and> rport = ph_sport p
      \<and> (case parse_host6 raddr of None \<Rightarrow> zero6 | Some a \<Rightarrow> a) = ph_saddr p
      \<and> iport = ph_dport p \<and> (case inet_pton6 iaddr of None \<Rightarrow> zero6 | Some a \<Rightarrow> a) = ph_daddr p)"

lemma find_pinhole_at:
  "find_pinhole raddr rport iaddr iport proto n s =
     (case find (pin_at raddr rport iaddr iport proto) (pinhole_list s) of None \<Rightarrow> (-2, [], 0)
      | Some p \<Rightarrow> (uint (ph_uid p), take n (ph_desc p), ph_timestamp p))"
proof -
  have "pin_at raddr rport iaddr iport proto = (\<lambda>p. proto = ucast (ph_proto p) \<and> rport = ph_sport p
      \<and> (case parse_host6 raddr of None \<Rightarrow> zero6 | Some a \<Rightarrow> a) = ph_saddr p
      \<and> iport = ph_dport p \<and> (case inet_pton6 iaddr of None \<Rightarrow> zero6 | Some a \<Rightarrow> a) = ph_daddr p)"
    by (simp add: pin_at_def fun_eq_iff)
  then show ?thesis by (simp add: find_pinhole_def)
qed

lemma pin_at_timestamp [simp]: "pin_at ra rp ia ip pr (p\<lparr>ph_timestamp := ts\<rparr>) = pin_at ra rp ia ip pr p"
  by (simp add: pin_at_def)

lemma find_set_timestamp:
  "find (pin_at ra rp ia ip pr) ps = Some p \<Longrightarrow> distinct (map ph_uid ps) \<Longrightarrow>
   find (pin_at ra rp ia ip pr) (set_timestamp (ph_uid p) ts ps) = Some (p\<lparr>ph_timestamp := ts\<rparr>)"
proof (induction ps)
  case (Cons q ps)
  show ?case
  proof (cases "pin_at ra rp ia ip pr q")
    case False
    with Cons.prems have f: "find (pin_at ra rp ia ip pr) ps = Some p" by simp
    then have "p \<in> set ps" by (auto simp: find_Some_iff in_set_conv_nth)
    then have "ph_uid q \<noteq> ph_uid p" using Cons.prems(2) by (metis distinct.simps(2) image_eqI list.map(2) list.set_map)
    with Cons f False show ?thesis by simp
  qed (use Cons in auto)
qed simp

lemma refresh_pinhole:
  assumes inv: "pin_inv chain6 s" and f: "find (pin_at ra rp ia ip pr) (pinhole_list s) = Some p"
  shows "\<exists>s'. update_pinhole (ph_uid p) ts s = (0, s') \<and> map ph_uid (pinhole_list s') = map ph_uid (pinhole_list s)
    \<and> find_pinhole ra rp ia ip pr n s' = (uint (ph_uid p), take n (ph_desc p), ts)"
proof -
  have d: "distinct (map ph_uid (pinhole_list s))" using inv by (simp add: pin_inv_def)
  from f have p: "p \<in> set (pinhole_list s)" by (auto simp: find_Some_iff in_set_conv_nth)
  let ?s' = "s\<lparr>pinhole_list := set_timestamp (ph_uid p) ts (pinhole_list s)\<rparr>"
  have "update_pinhole (ph_uid p) ts s = (0, ?s')" using get_pinhole_mem [OF d p] by (simp add: update_pinhole_def)
  then show ?thesis using find_set_timestamp [OF f d]
    by (intro exI [of _ ?s']) (simp add: find_pinhole_at)
qed

lemma inboundpinhole_ok:
  assumes L: "libip6tc_laws L chain6" and s0: "pinhole_start chain6 s0" and r: "pinhole_reach L s0 (pins st)"
    and few: "length (pinhole_list (pins st)) < 65534" and proto: "proto < 256" and ia: "inet_pton6 iaddr \<noteq> None"
  shows "\<exists>uid st' desc'. upnp_add_inboundpinhole L E buf2 raddr rport iaddr iport proto desc leasetime uid0 st = Some (1, uid, st')
    \<and> 1 \<le> uid \<and> uid \<le> 65535
    \<and> upnp_find_inboundpinhole raddr rport iaddr iport proto n st' = (uid, desc', upnp_time6 E + leasetime)
    \<and> (fst (upnp_find_inboundpinhole raddr rport iaddr iport proto n st) \<ge> 0 \<longrightarrow>
         map ph_uid (pinhole_list (pins st')) = map ph_uid (pinhole_list (pins st)))"
proof (cases "find (pin_at raddr rport iaddr iport proto) (pinhole_list (pins st))")
  case None
  have inv: "pin_inv chain6 (pins st)" using libip6tc_laws.pinhole_reach_inv [OF L r pinhole_start_inv [OF s0]] .
  obtain u s' where a: "add_pinhole L (Some (ext_if_name6 E)) raddr rport iaddr iport proto desc (upnp_time6 E + leasetime) (pins st)
      = Some (u, s')" using libip6tc_laws.add_pinhole_returns [OF L inv few] by fast
  have u: "1 \<le> u" "u \<le> 65535" using libip6tc_laws.add_pinhole_spec [OF L inv proto a] by auto
  obtain st' where st': "record_lease6 E buf2 raddr rport iaddr iport proto u (Some desc) (upnp_time6 E + leasetime) (st\<lparr>pins := s'\<rparr>)
      = Some st'" "pins st' = s'" using record_lease6_total [of E buf2 raddr rport iaddr iport proto u] by fastforce
  have "upnp_add_inboundpinhole L E buf2 raddr rport iaddr iport proto desc leasetime uid0 st = Some (1, u, st')"
    using ia None a u st' by (auto simp: upnp_add_inboundpinhole_def upnp_find_inboundpinhole_def find_pinhole_at Let_def)
  moreover have "upnp_find_inboundpinhole raddr rport iaddr iport proto n st' = (u, take n desc, upnp_time6 E + leasetime)"
    using libip6tc_laws.find_after_add [OF L inv proto a, of n] st'(2) by (simp add: upnp_find_inboundpinhole_def)
  ultimately show ?thesis using u None by (auto simp: upnp_find_inboundpinhole_def find_pinhole_at)
next
  case (Some p)
  have inv: "pin_inv chain6 (pins st)" using libip6tc_laws.pinhole_reach_inv [OF L r pinhole_start_inv [OF s0]] .
  from refresh_pinhole [OF inv Some, of "upnp_time6 E + leasetime" n] obtain s' where
    s': "update_pinhole (ph_uid p) (upnp_time6 E + leasetime) (pins st) = (0, s')"
      "map ph_uid (pinhole_list s') = map ph_uid (pinhole_list (pins st))"
      "find_pinhole raddr rport iaddr iport proto n s' = (uint (ph_uid p), take n (ph_desc p), upnp_time6 E + leasetime)" by blast
  obtain st1 where st1: "upnp_update_inboundpinhole E (ph_uid p) leasetime st = (0, st1)" "pins st1 = s'"
    using update_inboundpinhole_pins [of E "ph_uid p" leasetime st] update_inboundpinhole_ret [of E "ph_uid p" leasetime st] s'(1)
    by (metis prod.collapse prod.sel)
  obtain st' where st': "record_lease6 E buf2 raddr rport iaddr iport proto (uint (ph_uid p)) (Some desc)
      (upnp_time6 E + leasetime) st1 = Some st'" "pins st' = s'"
    using record_lease6_total [of E buf2 raddr rport iaddr iport proto "uint (ph_uid p)"] st1(2) by fastforce
  have "upnp_add_inboundpinhole L E buf2 raddr rport iaddr iport proto desc leasetime uid0 st = Some (1, uint (ph_uid p), st')"
    using ia Some st1 st' by (auto simp: upnp_add_inboundpinhole_def upnp_find_inboundpinhole_def find_pinhole_at Let_def)
  moreover have "p \<in> set (pinhole_list (pins st))" using Some by (auto simp: find_Some_iff in_set_conv_nth)
  then have "ph_uid p \<noteq> 0" using inv by (auto simp: pin_inv_def)
  then have "1 \<le> uint (ph_uid p)" using uint_0_iff [of "ph_uid p"] by (metis linorder_not_less uint_ge_0 order_le_less zle_add1_eq_le add_0)
  moreover have "uint (ph_uid p) \<le> 65535" using uint_lt2p [of "ph_uid p"] by simp
  ultimately show ?thesis using s' st'(2) by (auto simp: upnp_find_inboundpinhole_def)
qed

section \<open>Properties\<close>

text \<open>
  asking for an inbound pinhole with a valid internal address succeeds (result 1) when fewer than
  65534 pinholes exist; the identifier it gives is the one a search for the same peers finds, with an
  end \<open>leasetime\<close> seconds from now. When such a pinhole exists already, the request only extends it:
  the set of identifiers does not change.
\<close>

theorem inboundpinhole_added_or_extended:
  assumes L: "libip6tc_laws L chain6" and s0: "pinhole_start chain6 s0" and r: "pinhole_reach L s0 (pins st)"
    and few: "length (pinhole_list (pins st)) < 65534" and proto: "proto < 256" and ia: "inet_pton6 iaddr \<noteq> None"
  shows "\<exists>uid st' desc'. upnp_add_inboundpinhole L E buf2 raddr rport iaddr iport proto desc leasetime uid0 st = Some (1, uid, st')
    \<and> 1 \<le> uid \<and> uid \<le> 65535
    \<and> upnp_find_inboundpinhole raddr rport iaddr iport proto n st' = (uid, desc', upnp_time6 E + leasetime)
    \<and> (fst (upnp_find_inboundpinhole raddr rport iaddr iport proto n st) \<ge> 0 \<longrightarrow>
         map ph_uid (pinhole_list (pins st')) = map ph_uid (pinhole_list (pins st)))"
  by (rule inboundpinhole_ok [OF assms])

definition demo_env6 :: pinhole_env where
  "demo_env6 = \<lparr>lease_file6 = Some ''/var/leases6'', ext_if_name6 = ''eth0'', upnp_time6 = 50, unix_time6 = 1000,
     append6_ok = True, temp6_ok = True, rename6_ok = True, unlink6_ok = True\<rparr>"

definition demo_upnp6 :: "(string \<rightharpoonup> ip6t_entry list) upnp6_state" where
  "demo_upnp6 = \<lparr>pins = demo_start6, lease6_data = None\<rparr>"

theorem inboundpinhole_added_or_extended_witness:
  "\<exists>uid st' desc'. upnp_add_inboundpinhole list_libip6tc demo_env6 [] None 0 ''::1'' 8080 6 ''cam'' 600 0 demo_upnp6
      = Some (1, uid, st') \<and> 1 \<le> uid
    \<and> upnp_find_inboundpinhole None 0 ''::1'' 8080 6 0 st' = (uid, desc', 650)"
proof -
  have "inet_pton6 ''::1'' \<noteq> None" by code_simp
  moreover have "upnp_time6 demo_env6 + 600 = 650" by (simp add: demo_env6_def)
  moreover have "pins demo_upnp6 = demo_start6" by (simp add: demo_upnp6_def)
  ultimately show ?thesis
    using inboundpinhole_added_or_extended [OF lip.libip6tc_laws_axioms demo_start6(1), of demo_upnp6 6 "''::1''"
        demo_env6 "[]" None 0 8080 "''cam''" 600 0 0] by auto
qed

text \<open>Which pinholes an operation can leave behind, whatever the firewall library does.\<close>

lemma add_pinhole_list:
  "add_pinhole L i rh rp ic ip pr d t s = Some (r, s') \<Longrightarrow>
   pinhole_list s' = pinhole_list s \<or> (\<exists>p. pinhole_list s' = p # pinhole_list s \<and> ph_dport p = ip)"
proof -
  have v: "pinhole_list (snd (ip6tc_init_verify_append L a b e s)) = pinhole_list s" for a b e
    by (auto simp: ip6tc_init_verify_append_def split: option.splits)
  assume "add_pinhole L i rh rp ic ip pr d t s = Some (r, s')"
  then show ?thesis
    using v [of "''filter''" miniupnpd_v6_filter_chain "pinhole_entry i rh rp ic ip pr"]
    by (auto simp: add_pinhole_def add_to_pinhole_list_def Let_def split: prod.splits if_splits option.splits)
qed

lemma update_pinhole_dports: "ph_dport ` set (pinhole_list (snd (update_pinhole u t s))) = ph_dport ` set (pinhole_list s)"
proof -
  have "map ph_dport (set_timestamp u t ps) = map ph_dport ps" for ps by (induction ps) auto
  then have "ph_dport ` set (set_timestamp u t ps) = ph_dport ` set ps" for ps by (metis set_map)
  then show ?thesis by (auto simp: update_pinhole_def split: option.splits)
qed

lemma upnp_add_dports:
  assumes "upnp_add_inboundpinhole L E buf2 raddr rport iaddr iport proto desc d u st = Some (r, u', st')"
  shows "ph_dport ` set (pinhole_list (pins st')) \<subseteq> insert iport (ph_dport ` set (pinhole_list (pins st)))"
proof -
  have rec: "pins st2 = pins st1" if "record_lease6 E buf2 raddr rport iaddr iport proto v (Some desc) t st1 = Some st2" for v t st1 st2
    using record_lease6_total [of E buf2 raddr rport iaddr iport proto v "Some desc" t st1] that by auto
  from assms consider "st' = st"
    | v st1 where "upnp_update_inboundpinhole E v d st = (r, st1)" "st' = st1"
    | v r1 st1 where "upnp_update_inboundpinhole E v d st = (r1, st1)" "pins st' = pins st1"
    | v ps where "add_pinhole L (Some (ext_if_name6 E)) raddr rport iaddr iport proto desc (upnp_time6 E + d) (pins st) = Some (v, ps)"
        "pins st' = ps"
    by (auto simp: upnp_add_inboundpinhole_def Let_def dest!: rec split: if_splits prod.splits option.splits)
  then show ?thesis
  proof cases
    case (2 v st1)
    then have "pins st' = snd (update_pinhole v (upnp_time6 E + d) (pins st))" using update_inboundpinhole_pins [of E v d st] by simp
    then show ?thesis by (auto simp: update_pinhole_dports)
  next
    case (3 v r1 st1)
    then have "pins st' = snd (update_pinhole v (upnp_time6 E + d) (pins st))" using update_inboundpinhole_pins [of E v d st] by simp
    then show ?thesis by (auto simp: update_pinhole_dports)
  next
    case (4 v ps)
    from add_pinhole_list [OF 4(1)] 4(2) show ?thesis by auto
  qed auto
qed

lemma reload6_lease_dports:
  assumes "reload6_lease L E buf2 l st = Some st'"
  shows "\<forall>p \<in> set (pinhole_list (pins st')). ph_dport p \<in> ph_dport ` set (pinhole_list (pins st)) \<or> 1024 \<le> ph_dport p"
proof (cases "reload6_valid E l")
  case True
  obtain r u st1 where st1: "upnp_add_inboundpinhole L E buf2 (Some (l6_rem_client l)) (l6_rem_port l) (l6_int_client l) (l6_int_port l)
      (proto_atoi (l6_proto l)) (trim (l6_desc l)) (if l6_timestamp l > 0 then l6_timestamp l - unix_time6 E else 0) (l6_uid l) st
      = Some (r, u, st1)" "pins st' = pins st1"
    using assms True by (auto simp: reload6_lease_def Let_def split: option.splits if_splits)
  have "1024 \<le> l6_int_port l" using True by (simp add: reload6_valid_def not_less)
  with upnp_add_dports [OF st1(1)] st1(2) show ?thesis by auto
qed (use assms in \<open>auto simp: reload6_lease_def\<close>)

lemma reload6_lines_dports:
  "reload6_lines L E buf2 ls st = Some st' \<Longrightarrow>
   \<forall>p \<in> set (pinhole_list (pins st')). ph_dport p \<in> ph_dport ` set (pinhole_list (pins st)) \<or> 1024 \<le> ph_dport p"
proof (induction ls arbitrary: st)
  case (Cons line ls)
  show ?case
  proof (cases "parse_lease6 line")
    case (Some l)
    with Cons.prems obtain st1 where st1: "reload6_lease L E buf2 l st = Some st1" "reload6_lines L E buf2 ls st1 = Some st'"
      by (auto split: option.splits)
    from Cons.IH [OF st1(2)] reload6_lease_dports [OF st1(1)] show ?thesis by fastforce
  qed (use Cons in simp)
qed auto

text \<open>
  C29: whatever the lease file contains, reloading it at startup opens no pinhole to a privileged
  port: every pinhole has a destination port that was open before, or one of at least 1024.
\<close>

theorem reload6_unprivileged:
  assumes "reload_from_lease_file6 L E buf2 st = Some (r, st')" and "p \<in> set (pinhole_list (pins st'))"
  shows "ph_dport p \<in> ph_dport ` set (pinhole_list (pins st)) \<or> 1024 \<le> ph_dport p"
  using assms reload6_lines_dports
  by (fastforce simp: reload_from_lease_file6_def split: if_splits option.splits)

definition demo_lease6 :: lease6_entry where
  "demo_lease6 = \<lparr>l6_proto = ''TCP'', l6_int_client = ''::1'', l6_int_port = 8080, l6_rem_client = [], l6_rem_port = 0,
     l6_uid = 1, l6_timestamp = 2000, l6_desc = ''x''\<rparr>"

lemma dec_8080: "dec 8080 = ''8080''" "dec 2000 = ''2000''" "dec 0 = ''0''" "dec (Suc 0) = ''1''" "dec 50 = ''50''"
  by (simp_all add: dec.simps digit_char_def char_of_def bit_0)

lemma demo_lease6_ok [simp]: "lease6_ok demo_lease6"
  by (simp add: lease6_ok_def demo_lease6_def plain_def entry6_line_def lease6_text_def dec_8080)

theorem reload6_unprivileged_witness:
  "\<exists>st' p. reload_from_lease_file6 list_libip6tc demo_env6 [] (demo_upnp6\<lparr>lease6_data := Some (entry6_line demo_lease6)\<rparr>)
       = Some (0, st') \<and> p \<in> set (pinhole_list (pins st')) \<and> 1024 \<le> ph_dport p"
proof -
  let ?st = "demo_upnp6\<lparr>lease6_data := Some (entry6_line demo_lease6)\<rparr>"
  let ?l = "demo_lease6\<lparr>l6_desc := l6_desc demo_lease6 @ newline\<rparr>"
  have ip: "inet_pton6 ''::1'' \<noteq> None" by code_simp
  have pa: "proto_atoi ''TCP'' = 6" by code_simp
  obtain uid st' desc' where a: "upnp_add_inboundpinhole list_libip6tc demo_env6 [] (Some []) 0 ''::1'' 8080 6 (trim (''x'' @ newline))
      1000 1 demo_upnp6 = Some (1, uid, st')" "1 \<le> uid"
      "upnp_find_inboundpinhole (Some []) 0 ''::1'' 8080 6 0 st' = (uid, desc', upnp_time6 demo_env6 + 1000)"
    using inboundpinhole_ok [OF lip.libip6tc_laws_axioms demo_start6(1), of demo_upnp6 6 "''::1''" demo_env6 "[]" "Some []" 0 8080
        "trim (''x'' @ newline)" 1000 1 0] ip by (auto simp: demo_upnp6_def)
  have "fgets_all 128 (entry6_line demo_lease6) = [entry6_line demo_lease6]"
    using fgets_entries6 [of "[demo_lease6]" 128] by simp
  moreover have "reload6_lease list_libip6tc demo_env6 [] ?l demo_upnp6 = Some st'"
    using a(1) pa by (simp add: reload6_lease_def reload6_valid_def demo_lease6_def demo_env6_def)
  moreover have "?st\<lparr>lease6_data := None\<rparr> = demo_upnp6" by (simp add: demo_upnp6_def)
  ultimately have r: "reload_from_lease_file6 list_libip6tc demo_env6 [] ?st = Some (0, st')"
    by (simp add: reload_from_lease_file6_def parse_entry6_line demo_env6_def)
  have "pinhole_list (pins st') \<noteq> []" using a(2,3) by (auto simp: upnp_find_inboundpinhole_def find_pinhole_at)
  then obtain p where "p \<in> set (pinhole_list (pins st'))" by (meson hd_in_set)
  with reload6_unprivileged [OF r this] r show ?thesis by (auto simp: demo_upnp6_def)
qed

text \<open>
  deleting by identifier from a lease file that the daemon wrote removes exactly the lines with
  that identifier.
\<close>

theorem lease_file6_remove_exact:
  assumes "lease_file6 E = Some name" "length name \<le> 121" "temp6_ok E" "rename6_ok E" "uid > 0"
    and "lease6_data st = Some (concat (map entry6_line ls))" "list_all lease6_ok ls"
  shows "lease_file6_remove E buf2 client port proto uid st
    = Some (0, st\<lparr>lease6_data := Some (concat (map entry6_line (filter (\<lambda>l. l6_uid l \<noteq> uid) ls)))\<rparr>)"
  using assms fgets_entries6 [of ls 511] remove6_entries [of ls uid buf2]
  by (simp add: lease_file6_remove_def remove6_data_def)

theorem lease_file6_remove_exact_witness:
  "lease_file6_remove demo_env6 [] ''*'' 0 0 1 (demo_upnp6\<lparr>lease6_data := Some (concat (map entry6_line [demo_lease6]))\<rparr>)
    = Some (0, demo_upnp6\<lparr>lease6_data := Some []\<rparr>)"
  using lease_file6_remove_exact [of demo_env6 "''/var/leases6''" 1
      "demo_upnp6\<lparr>lease6_data := Some (concat (map entry6_line [demo_lease6]))\<rparr>" "[demo_lease6]"]
  by (simp add: demo_env6_def, simp add: demo_lease6_def)

section \<open>Defects of the lease file\<close>

lemma update6_entry:
  assumes "lease6_ok l"
  shows "update6_line uid ts (entry6_line l)
    = entry6_line (l\<lparr>l6_uid := uid, l6_timestamp := (if uid = l6_uid l then ts else l6_timestamp l)\<rparr>) @ newline"
  using parse_entry6_line [OF assms] by (simp add: update6_line_def entry6_line_def lease6_text_def)

text \<open>An update gives every line the identifier of the one pinhole that is updated.\<close>

lemma lease_file6_update_overwrites:
  assumes "lease_file6 E = Some name" "length name \<le> 121" "temp6_ok E" "rename6_ok E"
    and "lease6_data st = Some (concat (map entry6_line ls))" "list_all lease6_ok ls"
  shows "lease_file6_update E uid d st = (0, st\<lparr>lease6_data := Some (concat (map (\<lambda>l.
     entry6_line (l\<lparr>l6_uid := uid, l6_timestamp := (if uid = l6_uid l then lease6_time E d else l6_timestamp l)\<rparr>) @ newline) ls))\<rparr>)"
proof -
  have "map (update6_line uid (lease6_time E d) \<circ> entry6_line) ls = map (\<lambda>l.
     entry6_line (l\<lparr>l6_uid := uid, l6_timestamp := (if uid = l6_uid l then lease6_time E d else l6_timestamp l)\<rparr>) @ newline) ls"
    using assms(6) update6_entry by (auto simp: list_all_iff)
  then show ?thesis using assms fgets_entries6 [of ls 128]
    by (simp add: lease_file6_update_def rewrite_lease6_def del: map_eq_conv)
qed

text \<open>The empty line an update leaves behind makes the next removal by identifier follow a null pointer.\<close>

lemma remove6_empty_line:
  assumes "lease6_ok l" "l6_proto l \<noteq> []"
  shows "remove6_lines uid buf2 (entry6_line l # newline # ls) = None"
proof -
  from remove6_entry [OF assms(1), of uid buf2] obtain r where
    r: "remove6_line uid buf2 (entry6_line l) = Some (uid \<noteq> l6_uid l, l6_proto l @ NUL # r)" by blast
  let ?b = "newline @ drop 1 (l6_proto l @ NUL # r)"
  have "strchr_at ?b 0 = None"
  proof -
    obtain c cs where Cons: "l6_proto l = c # cs" using assms(2) by (cases "l6_proto l") auto
    with assms have "plain cs" by (auto simp: lease6_ok_def plain_def)
    then have "takeWhile (\<lambda>c. c \<noteq> CHR '';'' \<and> c \<noteq> NUL) ?b = newline @ cs"
      using Cons by (auto simp: plain_def list_all_iff takeWhile_append takeWhile_eq_all_conv)
    then show ?thesis using Cons by (simp add: strchr_at_def nth_append)
  qed
  then have "remove6_line uid (l6_proto l @ NUL # r) newline = None"
    by (simp add: remove6_line_def eval_nat_numeral)
  with r show ?thesis by simp
qed

text \<open>
  after \<open>lease_file6_update\<close> has extended one pinhole, every line of the lease file carries the
  identifier of that pinhole (a line is lost to its own pinhole), and the next
  \<open>lease_file6_remove\<close> by identifier does not return: it dereferences a null pointer on the empty line
  that the update wrote.
\<close>

theorem lease_file6_update_corrupts:
  assumes E: "lease_file6 E = Some name" "length name \<le> 121" "temp6_ok E" "rename6_ok E"
    and d: "lease6_data st = Some (concat (map entry6_line (l # ls)))" and ok: "list_all lease6_ok (l # ls)"
    and p: "l6_proto l \<noteq> []" and uid: "0 < uid" "uid < 65536" "0 < uid'"
    and fits: "\<forall>k \<in> set (l # ls). lease6_ok (k\<lparr>l6_uid := uid, l6_timestamp := if uid = l6_uid k then lease6_time E dur else l6_timestamp k\<rparr>)"
  shows "\<exists>ls'. lease_file6_update E uid dur st = (0, st\<lparr>lease6_data := Some (concat (map (\<lambda>k. entry6_line k @ newline) ls'))\<rparr>)
    \<and> length ls' = Suc (length ls) \<and> (\<forall>k \<in> set ls'. l6_uid k = uid)
    \<and> lease_file6_remove E buf2 client port proto uid' (snd (lease_file6_update E uid dur st)) = None"
proof -
  let ?f = "\<lambda>k. k\<lparr>l6_uid := uid, l6_timestamp := if uid = l6_uid k then lease6_time E dur else l6_timestamp k\<rparr>"
  let ?st = "st\<lparr>lease6_data := Some (concat (map (\<lambda>k. entry6_line k @ newline) (map ?f (l # ls))))\<rparr>"
  have u: "lease_file6_update E uid dur st = (0, ?st)"
    using lease_file6_update_overwrites [OF E d ok, of uid dur] by (simp only: map_map o_def)
  have "is_line 511 newline" by (simp add: is_line_def)
  moreover have "is_line 511 (entry6_line (?f k))" if "k \<in> set (l # ls)" for k
    using fits that by (intro entry6_line_is_line) auto
  ultimately have "list_all (is_line 511) (concat (map (\<lambda>k. [entry6_line (?f k), newline]) (l # ls)))"
    by (auto simp: list_all_iff)
  moreover have "concat (concat (map (\<lambda>k. [entry6_line (?f k), newline]) ks)) = concat (map (\<lambda>k. entry6_line k @ newline) (map ?f ks))"
    for ks by (induction ks) simp_all
  ultimately have "fgets_all 511 (concat (map (\<lambda>k. entry6_line k @ newline) (map ?f (l # ls))))
      = entry6_line (?f l) # newline # concat (map (\<lambda>k. [entry6_line (?f k), newline]) ls)"
    using fgets_all_lines [of 511 "concat (map (\<lambda>k. [entry6_line (?f k), newline]) (l # ls))"] by simp
  then have "remove6_data buf2 client port proto uid' (concat (map (\<lambda>k. entry6_line k @ newline) (map ?f (l # ls)))) = None"
    using remove6_empty_line [of "?f l" uid' buf2] fits p uid(3) by (simp add: remove6_data_def)
  then have "lease_file6_remove E buf2 client port proto uid' ?st = None"
    using E by (simp add: lease_file6_remove_def)
  with u show ?thesis by (intro exI [of _ "map ?f (l # ls)"]) auto
qed

theorem lease_file6_update_corrupts_witness:
  "let other = demo_lease6\<lparr>l6_uid := 2\<rparr>; st = demo_upnp6\<lparr>lease6_data := Some (concat (map entry6_line [demo_lease6, other]))\<rparr>
   in lease_file6_remove demo_env6 [] ''*'' 0 0 2 (snd (lease_file6_update demo_env6 1 50 st)) = None"
proof -
  let ?other = "demo_lease6\<lparr>l6_uid := 2\<rparr>"
  let ?st = "demo_upnp6\<lparr>lease6_data := Some (concat (map entry6_line [demo_lease6, ?other]))\<rparr>"
  have d: "dec 2 = ''2''" "dec 1000 = ''1000''" by (simp_all add: dec.simps digit_char_def char_of_def bit_0)
  have E: "lease_file6 demo_env6 = Some ''/var/leases6''" "temp6_ok demo_env6" "rename6_ok demo_env6"
    by (simp_all add: demo_env6_def)
  have t: "lease6_time demo_env6 50 = 1000" by (simp add: lease6_time_def demo_env6_def)
  have ok: "list_all lease6_ok [demo_lease6, ?other]"
    "\<forall>k \<in> set [demo_lease6, ?other]. lease6_ok (k\<lparr>l6_uid := 1, l6_timestamp := if 1 = l6_uid k then 1000 else l6_timestamp k\<rparr>)"
    by (simp_all add: lease6_ok_def demo_lease6_def plain_def entry6_line_def lease6_text_def dec_8080 d)
  have "l6_proto demo_lease6 \<noteq> []" by (simp add: demo_lease6_def)
  then have "lease_file6_remove demo_env6 [] ''*'' 0 0 2 (snd (lease_file6_update demo_env6 1 50 ?st)) = None"
    using lease_file6_update_corrupts [of demo_env6 "''/var/leases6''" ?st demo_lease6 "[?other]" 1 2 50 "[]" "''*''" 0 0] E ok
    unfolding t by auto
  then show ?thesis by (simp add: Let_def)
qed

text \<open>
  Removing the lease of port 80 before it is written anew also drops the lease of port 8080 of the
  same client: the prefix that is compared does not end with the separator.
\<close>

lemma lease6_prefix_too_short:
  "remove6_data [] ''::1'' 80 6 (-1) (entry6_line demo_lease6) = Some []"
proof -
  have "fgets_all 511 (entry6_line demo_lease6) = [entry6_line demo_lease6]"
    using fgets_entries6 [of "[demo_lease6]" 511] by simp
  moreover have "dec 80 = ''80''" by (simp add: dec.simps digit_char_def char_of_def bit_0)
  moreover have "proto_itoa 6 = ''TCP''" by (simp add: proto_itoa_def)
  ultimately show ?thesis
    by (simp add: remove6_data_def lease6_prefix_def bounded_copy_def entry6_line_def demo_lease6_def lease6_text_def dec_8080)
qed

end
