(* ===== verification/PcpProps.thy ===== *)
theory PcpProps
  imports Pcp NatPmpProps UpnpPinholeProps
begin

text \<open>
  Properties of the PCP server: the form of its answers, which requests change nothing, whose mappings
  a request can touch, what a successful MAP request installs and what a deletion removes.
\<close>

section \<open>Version and opcode are those of the request\<close>

definition same_head :: "pcp_info \<Rightarrow> pcp_info \<Rightarrow> bool" where
  "same_head m m' = (pc_version m' = pc_version m \<and> pc_opcode m' = pc_opcode m
     \<and> pc_int_ip m' = pc_int_ip m \<and> pc_sender_ip m' = pc_sender_ip m)"

lemma same_head_refl [simp]: "same_head m m"
  by (simp add: same_head_def)

lemma same_head_trans: "same_head a b \<Longrightarrow> same_head b c \<Longrightarrow> same_head a c"
  by (simp add: same_head_def)

lemma same_head_code [simp]:
  "same_head a (b\<lparr>pc_result_code := r\<rparr>) = same_head a b"
  "same_head a (b\<lparr>pc_ext_port := e\<rparr>) = same_head a b"
  by (simp_all add: same_head_def)

lemma option_head: "same_head m (snd (parsePCPOption E buf remain m))"
  by (simp add: parsePCPOption_def Let_def same_head_def)

lemma options_head: "same_head m (parsePCPOptions E buf remain m)"
proof (induction E buf remain m rule: parsePCPOptions.induct)
  case (1 E buf remain m)
  obtain n m1 where p: "parsePCPOption E buf remain m = (n, m1)" by fastforce
  then have h: "same_head m m1" using option_head [of m E buf remain] by simp
  show ?case
  proof (cases "remain > 0 \<and> n \<noteq> 0")
    case True
    then have "parsePCPOptions E buf remain m = parsePCPOptions E (drop n buf) (remain - int n) m1"
      using p by (subst parsePCPOptions.simps) simp
    moreover have "same_head m1 (parsePCPOptions E (drop n buf) (remain - int n) m1)"
      using 1 [OF _ p [symmetric] refl] True by simp
    ultimately show ?thesis using h by (simp add: same_head_trans)
  next
    case False
    then show ?thesis using p h by (subst parsePCPOptions.simps) auto
  qed
qed

lemma validate_head: "same_head m (snd (ValidatePCPMsg E m))"
  by (auto simp: ValidatePCPMsg_def CheckExternalAddress_def same_head_def Let_def split: option.splits)

lemma create_map_head: "CreatePCPMap E m ps = Some (m', ps') \<Longrightarrow> same_head m m'"
  by (auto simp: CreatePCPMap_def CreatePCPMap_FW_def CreatePCPMap_NAT_def same_head_def Let_def
      split: if_splits option.splits prod.splits)

lemma delete_map_head: "DeletePCPMap E m ps = Some (m', ps') \<Longrightarrow> same_head m m'"
  by (auto simp: DeletePCPMap_def DeletePCPMap_FW_def DeletePCPMap_NAT_def same_head_def Let_def
      split: if_splits option.splits prod.splits)

lemma peer_nat_head: "same_head m (fst (snd (CreatePCPPeer_NAT E m st)))"
  by (simp add: CreatePCPPeer_NAT_def Let_def case_prod_beta same_head_def)

lemma create_peer_head: "CreatePCPPeer E m ps = (m', ps') \<Longrightarrow> same_head m m'"
  using peer_nat_head [of m E "rst_of ps"] by (auto simp: CreatePCPPeer_def case_prod_beta split: if_splits)

text \<open>What the deletion loop of peers can return.\<close>

lemma delete_peer_loop_cases:
  "DeletePCPPeer_loop E m rhost i a st = Some res \<Longrightarrow>
   res = (m\<lparr>pc_result_code := PCP_ERR_NO_RESOURCES\<rparr>, st)
   \<or> (\<exists>e. res = (m, snd (upnp_delete_redir (pe_redir E) e (ucast (pc_protocol m)) st)))"
proof (rule DeletePCPPeer_loop.raw_induct [where P = "\<lambda>E m rhost i a st res. res = (m\<lparr>pc_result_code := PCP_ERR_NO_RESOURCES\<rparr>, st)
   \<or> (\<exists>e. res = (m, snd (upnp_delete_redir (pe_redir E) e (ucast (pc_protocol m)) st)))"])
qed (auto simp: Let_def split: option.splits if_splits)

lemma delete_peer_head: "DeletePCPPeer E m ps = Some (m', ps') \<Longrightarrow> same_head m m'"
  by (auto simp: DeletePCPPeer_def dest!: delete_peer_loop_cases split: if_splits)

lemma handle_map_head: "handle_map E opts remain m ps = Some (b, m', ps') \<Longrightarrow> same_head m m'"
  using options_head [of m E opts remain] validate_head [of "parsePCPOptions E opts remain m" E]
  by (auto simp: handle_map_def split: prod.splits bool.splits if_splits
      dest: create_map_head delete_map_head intro: same_head_trans)

lemma handle_peer_head: "handle_peer E v2 opts remain m ps = Some (b, m', ps') \<Longrightarrow> same_head m m'"
  using options_head [of m E opts remain] validate_head [of "parsePCPOptions E opts remain m" E]
  by (auto simp: handle_peer_def split: prod.splits bool.splits if_splits
      dest: create_peer_head delete_peer_head intro: same_head_trans)

section \<open>A request as a whole\<close>

text \<open>The shape of a processed request: rejected at once, or handled after the opcode was parsed.\<close>

lemma header_fields:
  "parseCommonRequestHeader E buf m = (e, m1) \<Longrightarrow>
     pc_version m1 = buf ! 0 \<and> pc_opcode m1 = buf ! 1 AND 0x7f \<and> pc_int_ip m1 = addr_at 8 buf
     \<and> pc_mapped_ip m1 = addr_at 8 buf \<and> pc_sender_ip m1 = pc_sender_ip m \<and> pc_thirdp_ip m1 = pc_thirdp_ip m
     \<and> pc_pfailure_present m1 = pc_pfailure_present m \<and> (\<not> e \<longrightarrow> pc_result_code m1 = pc_result_code m)"
  by (auto simp: parseCommonRequestHeader_def Let_def split: if_splits)

lemma sadscp_head: "same_head m (handle_sadscp E req remain m)"
proof -
  have d: "same_head m (get_dscp_loop ds m)" for ds and m :: pcp_info
    by (induction ds m rule: get_dscp_loop.induct) (auto simp: same_head_def)
  then have "same_head m m1 \<Longrightarrow> same_head m (get_dscp_value E m1)" for m1 :: pcp_info
    by (simp add: get_dscp_value_def same_head_trans [OF _ d])
  then show ?thesis by (auto simp: handle_sadscp_def parseSADSCP_def same_head_def Let_def split: prod.splits)
qed

text \<open>The message that a handler gets: parsed, with the addresses of the header and no error yet.\<close>

definition parsed_from :: "bytes \<Rightarrow> pcp_info \<Rightarrow> pcp_info \<Rightarrow> bool" where
  "parsed_from buf m0 pm = (pc_version pm = buf ! 0 \<and> pc_opcode pm = buf ! 1 AND 0x7f \<and> pc_int_ip pm = addr_at 8 buf
     \<and> pc_mapped_ip pm = addr_at 8 buf \<and> pc_sender_ip pm = pc_sender_ip m0 \<and> pc_thirdp_ip pm = pc_thirdp_ip m0
     \<and> pc_pfailure_present pm = pc_pfailure_present m0 \<and> pc_result_code pm = 0)"

lemma parsed_bodies [simp]:
  "parsed_from buf m0 (parsePCPMAP_version1 req m1) = parsed_from buf m0 m1"
  "parsed_from buf m0 (parsePCPMAP_version2 req m1) = parsed_from buf m0 m1"
  "parsed_from buf m0 (parsePCPPEER_version1 req m1) = parsed_from buf m0 m1"
  "parsed_from buf m0 (parsePCPPEER_version2 req m1) = parsed_from buf m0 m1"
  "pc_opcode (parsePCPMAP_version1 req m1) = pc_opcode m1" "pc_opcode (parsePCPMAP_version2 req m1) = pc_opcode m1"
  "pc_opcode (parsePCPPEER_version1 req m1) = pc_opcode m1" "pc_opcode (parsePCPPEER_version2 req m1) = pc_opcode m1"
  by (simp_all add: parsed_from_def parsePCPMAP_version1_def parsePCPMAP_version2_def parsePCPPEER_version1_def
      parsePCPPEER_version2_def)

text \<open>An outcome of one of the two switches.\<close>

definition switch_outcome ::
  "('s, 're, 'k, 'h) pcp_env \<Rightarrow> bytes \<Rightarrow> pcp_info \<Rightarrow> ('s, 'k) pcp_state \<Rightarrow> bool \<times> pcp_info \<times> ('s, 'k) pcp_state \<Rightarrow> bool" where
  "switch_outcome E buf m0 ps out =
     ((snd (snd out) = ps \<and> pc_version (fst (snd out)) = buf ! 0 \<and> pc_opcode (fst (snd out)) = buf ! 1 AND 0x7f)
      \<or> (\<exists>opts r pm. parsed_from buf m0 pm \<and> pc_opcode pm = PCP_OPCODE_MAP \<and> handle_map E opts r pm ps = Some out)
      \<or> (\<exists>opts r pm v2. pcp_peer (pe_redir E) \<and> parsed_from buf m0 pm \<and> pc_opcode pm = PCP_OPCODE_PEER \<and> handle_peer E v2 opts r pm ps = Some out))"

lemma switch_quick: "parsed_from buf m0 m1 \<Longrightarrow> same_head m1 m' \<Longrightarrow> switch_outcome E buf m0 ps (b, m', ps)"
  by (simp add: switch_outcome_def parsed_from_def same_head_def)

lemma switch_map:
  "parsed_from buf m0 pm \<Longrightarrow> pc_opcode pm = PCP_OPCODE_MAP \<Longrightarrow> handle_map E opts r pm ps = Some out \<Longrightarrow> switch_outcome E buf m0 ps out"
  "parsed_from buf m0 pm \<Longrightarrow> pcp_peer (pe_redir E) \<and> pc_opcode pm = PCP_OPCODE_PEER \<Longrightarrow> handle_peer E v2 opts r pm ps = Some out
   \<Longrightarrow> switch_outcome E buf m0 ps out"
  unfolding switch_outcome_def by blast+

lemma process_v1_outcome:
  assumes "process_v1 E req r m1 ps = Some out" "parsed_from buf m0 m1"
  shows "switch_outcome E buf m0 ps out"
proof -
  from assms(1) consider (q) b m' where "out = (b, m', ps)" "same_head m1 m'"
    | (m) "pc_opcode m1 = 1" "handle_map E (drop 24 req) (r - 24) (parsePCPMAP_version1 req m1) ps = Some out"
    | (p) "pcp_peer (pe_redir E)" "pc_opcode m1 = 2" "handle_peer E False (drop 44 req) (r - 44) (parsePCPPEER_version1 req m1) ps = Some out"
    by (auto simp: process_v1_def split: if_splits)
  then show ?thesis using assms(2)
    by cases (auto intro: switch_quick switch_map(1) [rotated 2] switch_map(2) [rotated 2])
qed

lemma process_v2_outcome:
  assumes "process_v2 E req r m1 ps = Some out" "parsed_from buf m0 m1"
  shows "switch_outcome E buf m0 ps out"
proof -
  have o: "same_head m1 (parsePCPOptions E req r (m1\<lparr>pc_lifetime := 0\<rparr>))"
    using options_head [of "m1\<lparr>pc_lifetime := 0\<rparr>" E req r] by (simp add: same_head_def)
  have "same_head m1 (m1\<lparr>pc_lifetime := 0\<rparr>)" by (simp add: same_head_def)
  with assms(1) o sadscp_head [of m1 E req r] consider (q) b m' where "out = (b, m', ps)" "same_head m1 m'"
    | (m) "pc_opcode m1 = 1" "handle_map E (drop 36 req) (r - 36) (parsePCPMAP_version2 req m1) ps = Some out"
    | (p) "pcp_peer (pe_redir E)" "pc_opcode m1 = 2" "handle_peer E True (drop 56 req) (r - 56) (parsePCPPEER_version2 req m1) ps = Some out"
    by (auto simp: process_v2_def Let_def split: if_splits)
  then show ?thesis using assms(2)
    by cases (auto intro: switch_quick switch_map(1) [rotated 2] switch_map(2) [rotated 2])
qed

lemma processPCPRequest_outcome:
  assumes "processPCPRequest E buf len m0 ps = Some out"
    and "pc_version m0 = buf ! 0" "pc_opcode m0 = buf ! 1 AND 0x7f"
  shows "switch_outcome E buf m0 ps out"
proof -
  let ?m = "m0\<lparr>pc_result_code := PCP_SUCCESS\<rparr>"
  obtain e m1 where h: "parseCommonRequestHeader E buf ?m = (e, m1)" by fastforce
  have f: "pc_version m1 = buf ! 0" "pc_opcode m1 = buf ! 1 AND 0x7f" "\<not> e \<Longrightarrow> parsed_from buf m0 m1"
    using header_fields [OF h] by (auto simp: parsed_from_def)
  from assms(1) h consider "snd (snd out) = ps" "pc_version (fst (snd out)) = buf ! 0" "pc_opcode (fst (snd out)) = buf ! 1 AND 0x7f"
    | "\<not> e" "process_v1 E (drop 24 buf) (int len - 24) m1 ps = Some out"
    | "\<not> e" "process_v2 E (drop 24 buf) (int len - 24) m1 ps = Some out"
    using assms(2,3) f(1,2) by (auto simp: processPCPRequest_def Let_def split: if_splits bool.splits)
  then show ?thesis
    using process_v1_outcome [of E _ _ m1 ps out buf m0] process_v2_outcome [of E _ _ m1 ps out buf m0] f
    by cases (simp_all add: switch_outcome_def)
qed

lemma outcome_head:
  "switch_outcome E buf m0 ps (b, m', ps') \<Longrightarrow> pc_version m' = buf ! 0 \<and> pc_opcode m' = buf ! 1 AND 0x7f"
  by (auto simp: switch_outcome_def parsed_from_def same_head_def dest!: handle_map_head handle_peer_head)

section \<open>The answer\<close>

lemma put_length: "off + length bs \<le> length buf \<Longrightarrow> length (put off bs buf) = length buf"
  by (simp add: put_def)

lemma put_before: "n \<le> off \<Longrightarrow> off \<le> length buf \<Longrightarrow> take n (put off bs buf) = take n buf"
  by (simp add: put_def take_append min_def)

lemma length_pcp_header [simp]: "length (pcp_header m t) = 24"
  by (simp add: pcp_header_def)

lemma pcp_header_nth:
  "(pcp_header m t @ r) ! 0 = (if pc_result_code m = PCP_ERR_UNSUPP_VERSION then 2 else pc_version m)"
  "(pcp_header m t @ r) ! 1 = pc_opcode m OR 0x80" "(pcp_header m t @ r) ! 2 = 0"
  "(pcp_header m t @ r) ! 3 = pc_result_code m" "drop 12 (pcp_header m t) = replicate 12 0"
  by (simp_all add: pcp_header_def nth_Cons' take_Cons' drop_Cons')

lemma copy_before:
  "n \<le> off \<Longrightarrow> off \<le> length buf \<Longrightarrow> take n (copyIPv6IfDifferent off a buf) = take n buf"
  by (simp add: copyIPv6IfDifferent_def put_before split: option.splits)

lemma put_length_ge: "off \<le> length buf \<Longrightarrow> length buf \<le> length (put off bs buf)"
  by (simp add: put_def)

lemma put_chain: "24 \<le> off \<Longrightarrow> off \<le> length buf \<Longrightarrow> take 24 buf = h \<Longrightarrow> n \<le> length buf \<Longrightarrow>
    take 24 (put off bs buf) = h \<and> n \<le> length (put off bs buf)"
  using put_before [of 24 off buf bs] put_length_ge [of off buf bs] by simp

lemma map_response_head:
  assumes "off = 28 \<or> off = 40" "take 24 resp = h" "100 \<le> n" "n \<le> length resp"
  shows "take 24 (map_response m off resp) = h \<and> n \<le> length (map_response m off resp)"
proof -
  let ?a = "put (off - 3) [0, 0, 0] resp"
  let ?b = "put off (writenu16 (pc_int_port m)) ?a"
  let ?c = "put (off + 2) (writenu16 (pc_ext_port m)) ?b"
  have a: "take 24 ?a = h \<and> n \<le> length ?a" using assms by (intro put_chain) auto
  have b: "take 24 ?b = h \<and> n \<le> length ?b" using assms a by (intro put_chain) auto
  have c: "take 24 ?c = h \<and> n \<le> length ?c" using assms b by (intro put_chain) auto
  have "take 24 (put (off + 4) x ?c) = h \<and> n \<le> length (put (off + 4) x ?c)" for x
    using assms c by (intro put_chain) auto
  with c show ?thesis by (simp add: map_response_def copyIPv6IfDifferent_def split: option.splits)
qed

lemma peer_response_head:
  assumes "off = 28 \<or> off = 40" "take 24 resp = h" "100 \<le> n" "n \<le> length resp"
  shows "take 24 (peer_response m off resp) = h \<and> n \<le> length (peer_response m off resp)"
proof -
  let ?a = "put (off - 3) [0, 0, 0] resp"
  let ?b = "put off (writenu16 (pc_int_port m)) ?a"
  let ?c = "put (off + 2) (writenu16 (pc_ext_port m)) ?b"
  let ?d = "put (off + 20) (writenu16 (pc_peer_port m)) ?c"
  let ?e = "put (off + 22) [0, 0] ?d"
  have a: "take 24 ?a = h \<and> n \<le> length ?a" using assms by (intro put_chain) auto
  have b: "take 24 ?b = h \<and> n \<le> length ?b" using assms a by (intro put_chain) auto
  have c: "take 24 ?c = h \<and> n \<le> length ?c" using assms b by (intro put_chain) auto
  have d: "take 24 ?d = h \<and> n \<le> length ?d" using assms c by (intro put_chain) auto
  have e: "take 24 ?e = h \<and> n \<le> length ?e" using assms d by (intro put_chain) auto
  have "take 24 (put (off + 4) x ?e) = h \<and> n \<le> length (put (off + 4) x ?e)" for x
    using assms e by (intro put_chain) auto
  with e show ?thesis by (simp add: peer_response_def copyIPv6IfDifferent_def split: option.splits)
qed

lemma createPCPResponse_head:
  assumes "createPCPResponse E buf m ns = (resp, ns')" "100 \<le> length buf"
  shows "length buf \<le> length resp \<and> (\<exists>t. take 24 resp = pcp_header m t)"
proof -
  define ns1 where "ns1 = (if epoch_origin ns = 0 then ns\<lparr>epoch_origin := startup_time (pe_nat E)\<rparr> else ns)"
  define h where "h = pcp_header m (upnp_time (pe_redir E) - epoch_origin ns1)"
  let ?r = "put 0 h buf"
  have l: "length h = 24" by (simp add: h_def)
  have r: "take 24 ?r = h" "100 \<le> length buf" "length buf \<le> length ?r" using assms(2) l by (simp_all add: put_def)
  have s: "take 24 (put 37 [0, 0, 0] (?r[36 := x])) = h \<and> length buf \<le> length (put 37 [0, 0, 0] (?r[36 := x]))" for x
    using r by (intro put_chain) auto
  have "take 24 resp = h \<and> length buf \<le> length resp"
    using assms(1) r s map_response_head [OF _ r, of _ m] peer_response_head [OF _ r, of _ m]
    unfolding createPCPResponse_def Let_def ns1_def [symmetric] h_def [symmetric]
    by (auto split: if_splits)
  then show ?thesis by (auto simp: h_def)
qed

lemma OR_80: "(x AND 0x7f) OR 0x80 = x OR (0x80 :: u8)"
proof -
  have "(x AND 0x7f) OR 0x80 = (x OR 0x80) AND (0x7f OR 0x80)" by (rule bit.disj_conj_distrib2)
  also have "(0x7f OR 0x80 :: u8) = - 1" by simp
  finally show ?thesis by simp
qed

text \<open>What a received datagram leads to.\<close>

lemma incoming_cases:
  assumes "ProcessIncomingPCPPacket E buff len sa sc ps = Some (answer, ps')"
  obtains (discarded) "answer = None" "ps' = ps"
    | (ignored) b m ps1 m0 where "switch_outcome E buff m0 ps (b, m, ps1)" "\<not> b" "answer = None" "ps' = ps1"
        "m0 = pcp_info_zero\<lparr>pc_sender_ip := sender_in6 sa, pc_version := buff ! 0, pc_opcode := (buff ! 1) AND 0x7f\<rparr>"
    | (answered) m ps1 resp ns m0 where "switch_outcome E buff m0 ps (True, m, ps1)"
        "createPCPResponse E buff m (nat_state ps1) = (resp, ns)"
        "answer = Some (take (response_len m len) resp)" "ps' = ps1\<lparr>nat_state := ns\<rparr>"
        "m0 = pcp_info_zero\<lparr>pc_sender_ip := sender_in6 sa, pc_version := buff ! 0, pc_opcode := (buff ! 1) AND 0x7f\<rparr>"
proof (cases "len < 2 \<or> (buff ! 1) AND 128 \<noteq> 0 \<or> (\<not> pcp_allow_third_party E \<and> get_lan_for_peer E sa sc = None)")
  case True
  with assms show ?thesis by (intro discarded) (auto simp: ProcessIncomingPCPPacket_def split: if_splits)
next
  case False
  let ?m = "pcp_info_zero\<lparr>pc_sender_ip := sender_in6 sa, pc_version := buff ! 0, pc_opcode := (buff ! 1) AND 0x7f\<rparr>"
  from False assms obtain b m1 ps1 where p: "processPCPRequest E buff len ?m ps = Some (b, m1, ps1)"
    and r: "(if b then let (resp, ns) = createPCPResponse E buff m1 (nat_state ps1)
        in Some (Some (take (response_len m1 len) resp), ps1\<lparr>nat_state := ns\<rparr>) else Some (None, ps1)) = Some (answer, ps')"
    unfolding ProcessIncomingPCPPacket_def Let_def by (auto split: option.splits)
  have o: "switch_outcome E buff ?m ps (b, m1, ps1)" by (rule processPCPRequest_outcome [OF p]) simp_all
  show ?thesis
  proof (cases b)
    case True
    obtain resp ns where "createPCPResponse E buff m1 (nat_state ps1) = (resp, ns)" by fastforce
    with o r True show ?thesis by (intro answered [OF _ _ _ _ refl]) auto
  next
    case False
    with o r show ?thesis by (intro ignored [OF _ _ _ _ refl]) auto
  qed
qed

lemma response_len_bounds:
  "24 \<le> response_len m len \<and> response_len m len \<le> 1100 \<and> response_len m len mod 4 = 0"
proof -
  have "(len + 3) div 4 * 4 \<le> 1100" if "len \<le> 1100" using that div_le_mono [of "len + 3" 1103 4] by simp
  moreover have "24 \<le> (len + 3) div 4 * 4" if "24 \<le> len" using that by linarith
  ultimately show ?thesis by (auto simp: response_len_def)
qed

section \<open>Properties\<close>

text \<open>
  C25: every answer of the PCP server is a multiple of 4 bytes long, with at least 24 and at most 1100
  bytes; it repeats the opcode of the request with the response bit, the reserved bytes are 0, and
  its version is that of the request, or 2 when the error is \<open>UNSUPP_VERSION\<close>.
\<close>

theorem pcp_reply_format:
  assumes "ProcessIncomingPCPPacket E buff len sa sc ps = Some (Some reply, ps')" and "1101 \<le> length buff"
  shows "24 \<le> length reply \<and> length reply \<le> 1100 \<and> length reply mod 4 = 0
    \<and> reply ! 1 = (buff ! 1) OR 0x80 \<and> reply ! 2 = 0 \<and> take 12 (drop 12 reply) = replicate 12 0
    \<and> reply ! 0 = (if reply ! 3 = PCP_ERR_UNSUPP_VERSION then 2 else buff ! 0)"
  using assms(1)
proof (cases rule: incoming_cases)
  case (answered m ps1 resp ns m0)
  from outcome_head [OF answered(1)] have m: "pc_version m = buff ! 0" "pc_opcode m = buff ! 1 AND 0x7f" by auto
  from createPCPResponse_head [OF answered(2)] assms(2) obtain t where
    t: "take 24 resp = pcp_header m t" "1101 \<le> length resp" by auto
  let ?n = "response_len m len"
  have l: "length reply = ?n" "take 24 reply = pcp_header m t"
    using t response_len_bounds [of m len] answered(3) by (simp_all add: min_def)
  then obtain rest where "reply = pcp_header m t @ rest" using append_take_drop_id [of 24 reply] by metis
  with l(1) response_len_bounds [of m len] show ?thesis
    by (simp add: pcp_header_nth m OR_80 del: One_nat_def)
qed auto

section \<open>Requests that change nothing\<close>

text \<open>The result codes of a request that was refused before anything was done.\<close>

definition refusal :: "u8 \<Rightarrow> bool" where
  "refusal c = (c \<in> {PCP_ERR_UNSUPP_VERSION, PCP_ERR_NOT_AUTHORIZED, PCP_ERR_MALFORMED_REQUEST, PCP_ERR_UNSUPP_OPCODE,
     PCP_ERR_UNSUPP_OPTION, PCP_ERR_MALFORMED_OPTION, PCP_ERR_NETWORK_FAILURE, PCP_ERR_ADDRESS_MISMATCH})"

text \<open>One round of the port loop.\<close>

definition taken_by_other :: "('s, 're) redirect_env \<Rightarrow> pcp_info \<Rightarrow> u16 \<Rightarrow> 's redirect_state \<Rightarrow> bool" where
  "taken_by_other R m e st =
     (case be_get_redirect_rule (be_ops R) e (ucast (pc_protocol m)) INET6_ADDRSTRLEN 0 0 (fw st) of None \<Rightarrow> False
      | Some info \<Rightarrow> pc_mapped_str m \<noteq> info_iaddr info \<or> pc_int_port m \<noteq> info_iport info)"

definition held_by_self :: "('s, 're) redirect_env \<Rightarrow> pcp_info \<Rightarrow> u16 \<Rightarrow> 's redirect_state \<Rightarrow> bool" where
  "held_by_self R m e st =
     (case be_get_redirect_rule (be_ops R) e (ucast (pc_protocol m)) INET6_ADDRSTRLEN 0 0 (fw st) of None \<Rightarrow> False
      | Some info \<Rightarrow> pc_mapped_str m = info_iaddr info \<and> pc_int_port m = info_iport info)"

definition in_use :: "('s, 're) redirect_env \<Rightarrow> pcp_info \<Rightarrow> u16 \<Rightarrow> 's redirect_state \<Rightarrow> bool" where
  "in_use R m e st = (port_in_use R e (ucast (pc_protocol m)) (pc_mapped_str m) (pc_int_port m) (fw st) > 0)"

lemma pcp_map_loop_round:
  "pcp_map_loop R m f any e st =
     (if f \<noteq> 0 \<and> e = f then (Some (if any then PCP_ERR_NO_RESOURCES else PCP_ERR_NOT_AUTHORIZED), e, st)
      else let first = (if f = 0 then e else f)
           in if pcp_reserved m e \<or> \<not> pcp_allowed R m e
              then if pc_pfailure_present m then (Some PCP_ERR_CANNOT_PROVIDE_EXTERNAL, e, st)
                   else pcp_map_loop R m first any (next_eport e) st
              else if in_use R m e st then pcp_map_loop R m first True (next_eport e) st
              else if taken_by_other R m e st
              then if pc_pfailure_present m then (Some PCP_ERR_CANNOT_PROVIDE_EXTERNAL, e, st)
                   else pcp_map_loop R m first True (next_eport e) st
              else if held_by_self R m e st
              then case upnp_delete_redir R e (ucast (pc_protocol m)) st of
                     (r, st1) \<Rightarrow> if r = 0 then (None, e, st1)
                                else if pc_pfailure_present m then (Some PCP_ERR_CANNOT_PROVIDE_EXTERNAL, e, st1)
                                else pcp_map_loop R m first True (next_eport e) st1
              else (None, e, st))"
  by (subst pcp_map_loop.simps)
    (auto simp: Let_def in_use_def taken_by_other_def held_by_self_def reserved_next split: option.splits)

text \<open>Induction over the rounds.\<close>

lemma port_loop_induct:
  assumes "\<And>f e. (\<And>f' e'. port_distance f' e' < port_distance f e \<Longrightarrow> P f' e') \<Longrightarrow> P f e"
  shows "P f e"
  using assms by (induction "port_distance f e" arbitrary: f e rule: less_induct) blast

lemma map_loop_refusal:
  "pcp_map_loop R m f any e st = (Some c, e', st') \<Longrightarrow> refusal c \<Longrightarrow> \<not> any \<and> st' = st"
proof (induction f e arbitrary: any st rule: port_loop_induct)
  case (1 f e)
  show ?case
  proof (cases "f \<noteq> 0 \<and> e = f")
    case True
    with 1 show ?thesis by (subst (asm) pcp_map_loop_round) (auto simp: refusal_def split: if_splits)
  next
    case False
    note IH = 1(1) [OF port_distance_next [OF False]]
    have no: "\<not> refusal PCP_ERR_CANNOT_PROVIDE_EXTERNAL" by (simp add: refusal_def)
    from 1(2,3) False no IH show ?thesis
      by (subst (asm) pcp_map_loop_round) (auto simp: Let_def split: if_splits prod.splits)
  qed
qed

lemma check_external_frame:
  assumes "CheckExternalAddress E m = (0, m1)"
  shows "\<exists>a. m1 = m\<lparr>pc_is_fw := \<not> in6_is_v4mapped (pc_mapped_ip m), pc_ext_ip := a\<rparr>"
proof -
  let ?m = "m\<lparr>pc_is_fw := \<not> in6_is_v4mapped (pc_mapped_ip m)\<rparr>"
  have "m1 = ?m \<or> (\<exists>a. m1 = ?m\<lparr>pc_ext_ip := a\<rparr>)"
    using assms unfolding CheckExternalAddress_def Let_def by (auto split: if_splits option.splits)
  moreover have "?m = ?m\<lparr>pc_ext_ip := pc_ext_ip ?m\<rparr>" by simp
  ultimately show ?thesis by metis
qed

lemma map_loop_code: "pcp_map_loop R m f any e st = (Some c, e', st') \<Longrightarrow> c \<in> {2, 8, 11}"
proof (induction f e arbitrary: any st rule: port_loop_induct)
  case (1 f e)
  show ?case
  proof (cases "f \<noteq> 0 \<and> e = f")
    case True
    with 1(2) show ?thesis by (subst (asm) pcp_map_loop_round) (auto split: if_splits)
  next
    case False
    note IH = 1(1) [OF port_distance_next [OF False]]
    from 1(2) False IH show ?thesis
      by (subst (asm) pcp_map_loop_round) (auto simp: Let_def split: if_splits prod.splits)
  qed
qed

lemma validate_true:
  assumes "ValidatePCPMsg E m = (True, m1)"
  shows "pc_result_code m1 = 0 \<and> pc_int_ip m = pc_sender_ip m \<and> (pc_thirdp_ip m \<noteq> None \<longrightarrow> pcp_allow_third_party E)
    \<and> pc_mapped_ip m1 = pc_mapped_ip m \<and> pc_mapped_str m1 = inet_n46top (pc_mapped_ip m)
    \<and> pc_is_fw m1 = (\<not> in6_is_v4mapped (pc_mapped_ip m)) \<and> pc_protocol m1 = pc_protocol m \<and> pc_int_port m1 = pc_int_port m
    \<and> pc_lifetime m1 = pc_lifetime m \<and> pc_nonce m1 = pc_nonce m \<and> pc_ext_port m1 = pc_ext_port m
    \<and> pc_pfailure_present m1 = pc_pfailure_present m
    \<and> (pc_opcode m \<in> {PCP_OPCODE_MAP, PCP_OPCODE_PEER} \<longrightarrow> pc_desc m1 = pcp_desc_text (pcp_sadscp E) m)"
proof -
  let ?m = "m\<lparr>pc_mapped_str := inet_n46top (pc_mapped_ip m)\<rparr>"
  from assms obtain m2 where c: "pc_result_code m = 0" "pc_int_ip m = pc_sender_ip m"
      "pc_thirdp_ip m \<noteq> None \<longrightarrow> pcp_allow_third_party E" "CheckExternalAddress E ?m = (0, m2)"
      "m1 = (if pc_opcode m2 = PCP_OPCODE_MAP \<or> pc_opcode m2 = PCP_OPCODE_PEER
             then m2\<lparr>pc_desc := pcp_desc_text (pcp_sadscp E) m2\<rparr> else m2)"
    unfolding ValidatePCPMsg_def Let_def by (auto split: if_split_asm prod.splits)
  from check_external_frame [OF c(4)] obtain a where
    "m2 = ?m\<lparr>pc_is_fw := \<not> in6_is_v4mapped (pc_mapped_ip m), pc_ext_ip := a\<rparr>" by auto
  with c show ?thesis by (auto simp: pcp_desc_text_def)
qed

lemma set_rst_same [simp]: "set_rst (rst_of ps) ps = ps"
  by (simp add: set_rst_def)

lemma create_map_refusal:
  assumes "CreatePCPMap E m ps = Some (m', ps')" "refusal (pc_result_code m')"
  shows "ps' = ps"
proof (cases "pc_is_fw m")
  case True
  with assms show ?thesis
    by (auto simp: CreatePCPMap_def CreatePCPMap_FW_def Let_def refusal_def split: if_splits option.splits prod.splits)
next
  case False
  obtain r m1 st1 where c: "CreatePCPMap_NAT (pe_redir E) m (rst_of ps) = (r, m1, st1)" by (metis prod_cases3)
  with assms False have r: "refusal r" "ps' = set_rst st1 ps" by (auto simp: CreatePCPMap_def)
  have "\<not> refusal 8" "\<not> refusal 0" by (simp_all add: refusal_def)
  with c r(1) have "st1 = rst_of ps"
    by (auto simp: CreatePCPMap_NAT_def Let_def dest: map_loop_refusal split: if_splits option.splits prod.splits)
  with r show ?thesis by simp
qed

lemma delete_map_refusal:
  assumes "DeletePCPMap E m ps = Some (m', ps')" "refusal (pc_result_code m')" "pc_result_code m = 0"
  shows "ps' = ps"
proof -
  have "\<not> refusal 8" "\<not> refusal 0" by (simp_all add: refusal_def)
  with assms show ?thesis
    by (auto simp: DeletePCPMap_def DeletePCPMap_NAT_def DeletePCPMap_FW_def Let_def split: if_splits option.splits prod.splits)
qed

lemma create_peer_refusal:
  assumes "CreatePCPPeer E m ps = (m', ps')" "refusal (pc_result_code m')"
  shows "ps' = ps"
proof -
  have n: "\<not> refusal 8" "\<not> refusal 0" "\<not> refusal 11" by (simp_all add: refusal_def)
  have "fst (CreatePCPPeer_NAT E m st) \<in> {8, 0, 11}" for st
    by (simp add: CreatePCPPeer_NAT_def Let_def case_prod_beta)
  with n have "\<not> refusal (fst (CreatePCPPeer_NAT E m st))" for st by (metis insertE singletonD)
  with assms show ?thesis by (auto simp: CreatePCPPeer_def case_prod_beta split: if_splits)
qed

lemma delete_peer_refusal:
  assumes "DeletePCPPeer E m ps = Some (m', ps')" "refusal (pc_result_code m')" "pc_result_code m = 0"
  shows "ps' = ps"
  using assms by (auto simp: DeletePCPPeer_def refusal_def dest!: delete_peer_loop_cases split: if_splits)

lemma handle_refusal:
  "handle_map E opts r pm ps = Some (b, m', ps') \<Longrightarrow> refusal (pc_result_code m') \<Longrightarrow> ps' = ps"
  "handle_peer E v2 opts r pm ps = Some (b, m', ps') \<Longrightarrow> refusal (pc_result_code m') \<Longrightarrow> ps' = ps"
  by (auto simp: handle_map_def handle_peer_def split: prod.splits bool.splits if_splits
      dest!: validate_true dest: create_map_refusal delete_map_refusal create_peer_refusal delete_peer_refusal)

text \<open>A request that names another address than the one it came from is not acted upon.\<close>

lemma handle_spoofed:
  assumes "parsed_from buf m0 pm" "addr_at 8 buf \<noteq> pc_sender_ip m0"
  shows "handle_map E opts r pm ps = Some (b, m', ps') \<Longrightarrow> ps' = ps"
    and "handle_peer E v2 opts r pm ps = Some (b, m', ps') \<Longrightarrow> ps' = ps"
proof -
  have "pc_int_ip (parsePCPOptions E opts r pm) \<noteq> pc_sender_ip (parsePCPOptions E opts r pm)"
    using options_head [of pm E opts r] assms by (simp add: same_head_def parsed_from_def)
  then have "\<not> fst (ValidatePCPMsg E (parsePCPOptions E opts r pm))"
    using validate_true [of E "parsePCPOptions E opts r pm"] by (metis prod.collapse)
  then show "handle_map E opts r pm ps = Some (b, m', ps') \<Longrightarrow> ps' = ps"
    and "handle_peer E v2 opts r pm ps = Some (b, m', ps') \<Longrightarrow> ps' = ps"
    by (auto simp: handle_map_def handle_peer_def split: prod.splits bool.splits if_splits)
qed

text \<open>
  C23: an answer with one of the codes \<open>UNSUPP_VERSION\<close>, \<open>NOT_AUTHORIZED\<close>, \<open>MALFORMED_REQUEST\<close>,
  \<open>UNSUPP_OPCODE\<close>, \<open>UNSUPP_OPTION\<close>, \<open>MALFORMED_OPTION\<close>, \<open>NETWORK_FAILURE\<close> or \<open>ADDRESS_MISMATCH\<close> means that
  the request had no effect: the redirections, the pinholes and both lease files are as before.
\<close>

theorem pcp_refusal_changes_nothing:
  assumes "ProcessIncomingPCPPacket E buff len sa sc ps = Some (Some reply, ps')" and "1101 \<le> length buff"
    and "refusal (reply ! 3)"
  shows "rst_of ps' = rst_of ps \<and> pin_state ps' = pin_state ps"
  using assms(1)
proof (cases rule: incoming_cases)
  case (answered m ps1 resp ns m0)
  from createPCPResponse_head [OF answered(2)] assms(2) obtain t where
    t: "take 24 resp = pcp_header m t" "1101 \<le> length resp" by auto
  have "take 24 reply = pcp_header m t" using t response_len_bounds [of m len] answered(3) by (simp add: min_def)
  then obtain rest where "reply = pcp_header m t @ rest" using append_take_drop_id [of 24 reply] by metis
  with assms(3) have r: "refusal (pc_result_code m)" by (simp add: pcp_header_nth)
  have "ps1 = ps" using answered(1) r by (auto simp: switch_outcome_def dest: handle_refusal)
  moreover have "rst ns = rst (nat_state ps1)" using answered(2) by (auto simp: createPCPResponse_def Let_def)
  ultimately show ?thesis using answered(4) by simp
qed auto

text \<open>
  C24: a request whose client address field is not the source address of the datagram (a NAT in
  between, or a forged request) changes no redirection and no pinhole.
\<close>

theorem pcp_address_mismatch_changes_nothing:
  assumes "ProcessIncomingPCPPacket E buff len sa sc ps = Some (answer, ps')"
    and "take 16 (drop 8 buff) \<noteq> sender_in6 sa"
  shows "rst_of ps' = rst_of ps \<and> pin_state ps' = pin_state ps"
proof -
  have "ps1 = ps" if "switch_outcome E buff m0 ps (b, m, ps1)" "pc_sender_ip m0 = sender_in6 sa" for b m ps1 m0
    using that assms(2) by (auto simp: switch_outcome_def addr_at_def dest: handle_spoofed)
  moreover have "rst ns = rst ns0" if "createPCPResponse E buff m ns0 = (resp, ns)" for m ns0 resp ns
    using that by (auto simp: createPCPResponse_def Let_def)
  ultimately have r: "switch_outcome E buff m0 ps (b, m, ps1) \<Longrightarrow> pc_sender_ip m0 = sender_in6 sa \<Longrightarrow> ps1 = ps"
    "createPCPResponse E buff m ns0 = (resp, ns) \<Longrightarrow> rst ns = rst ns0" for b m ps1 m0 ns0 resp ns by blast+
  from assms(1) show ?thesis
  proof (cases rule: incoming_cases)
    case (ignored b m ps1 m0)
    then show ?thesis using r(1) [OF ignored(1)] by simp
  next
    case (answered m ps1 resp ns m0)
    then show ?thesis using r(1) [OF answered(1)] r(2) [OF answered(2)] by simp
  qed simp
qed

section \<open>Over a backend that keeps its contract\<close>

lemma option_mapped:
  "pc_thirdp_ip (snd (parsePCPOption E buf remain m)) = None \<Longrightarrow>
   pc_thirdp_ip m = None \<and> pc_mapped_ip (snd (parsePCPOption E buf remain m)) = pc_mapped_ip m"
  by (auto simp: parsePCPOption_def Let_def split: if_splits)

lemma options_mapped:
  "pc_thirdp_ip (parsePCPOptions E buf remain m) = None \<Longrightarrow>
   pc_thirdp_ip m = None \<and> pc_mapped_ip (parsePCPOptions E buf remain m) = pc_mapped_ip m"
proof (induction E buf remain m rule: parsePCPOptions.induct)
  case (1 E buf remain m)
  obtain n m1 where p: "parsePCPOption E buf remain m = (n, m1)" by fastforce
  then have h: "pc_thirdp_ip m1 = None \<Longrightarrow> pc_thirdp_ip m = None \<and> pc_mapped_ip m1 = pc_mapped_ip m"
    using option_mapped [of E buf remain m] by simp
  show ?case
  proof (cases "remain > 0 \<and> n \<noteq> 0")
    case True
    then have "parsePCPOptions E buf remain m = parsePCPOptions E (drop n buf) (remain - int n) m1"
      using p by (subst parsePCPOptions.simps) simp
    with 1 True p h show ?thesis by auto
  next
    case False
    with 1(2) p h show ?thesis by (subst (asm) parsePCPOptions.simps, subst parsePCPOptions.simps) (auto split: if_splits)
  qed
qed

text \<open>The mappings that a deletion is about.\<close>

definition pcp_target :: "in_addr \<Rightarrow> pcp_info \<Rightarrow> mapping \<Rightarrow> bool" where
  "pcp_target a m x = (m_iaddr x = a \<and> m_proto x = ucast (pc_protocol m) \<and> (m_iport x = pc_int_port m \<or> pc_int_port m = 0))"

text \<open>The mappings of everyone else.\<close>

abbreviation others :: "in_addr \<Rightarrow> mapping list \<Rightarrow> mapping list" where
  "others a ms \<equiv> filter (\<lambda>m. m_iaddr m \<noteq> a) ms"

lemma others_drop:
  assumes "\<And>x. find_mapping e p ms = Some x \<Longrightarrow> m_iaddr x = a" "distinct (map m_key ms)"
  shows "others a (drop_mapping e p ms) = others a ms"
proof -
  have "m_key x \<noteq> (e, p)" if "x \<in> set ms" "m_iaddr x \<noteq> a" for x
    using that assms(1) find_mapping_mem [OF assms(2) that(1)] by auto
  then show ?thesis unfolding drop_mapping_def filter_filter by (intro filter_cong) auto
qed

context redirect_backend
begin

lemma taken_spec:
  assumes "be_ops R = ops" "inv (fw st)" "pc_mapped_str m = inet_ntop a"
  shows "taken_by_other R m e st \<longleftrightarrow> (\<exists>x. find_mapping e (ucast (pc_protocol m)) (mappings (fw st)) = Some x
      \<and> (m_iaddr x \<noteq> a \<or> m_iport x \<noteq> pc_int_port m))"
    "held_by_self R m e st \<longleftrightarrow> (\<exists>x. find_mapping e (ucast (pc_protocol m)) (mappings (fw st)) = Some x
      \<and> m_iaddr x = a \<and> m_iport x = pc_int_port m)"
  using assms get_redirect_rule_law [OF assms(2)]
  by (auto simp: taken_by_other_def held_by_self_def mapping_info_def inet_ntop_inj split: option.splits)

definition settled :: "('s, 're) redirect_env \<Rightarrow> pcp_info \<Rightarrow> in_addr \<Rightarrow> 's redirect_state \<Rightarrow> u8 option \<times> u16 \<times> 's redirect_state \<Rightarrow> bool" where
  "settled R m a st res = (case res of
      (Some c, e, st') \<Rightarrow> st' = st
    | (None, e, st') \<Rightarrow> inv (fw st') \<and> mappings (fw st') = drop_mapping e (ucast (pc_protocol m)) (mappings (fw st))
        \<and> pcp_allowed R m e \<and> \<not> pcp_reserved m e \<and> \<not> in_use R m e st \<and> \<not> taken_by_other R m e st)"

lemma map_loop_settled:
  assumes R: "be_ops R = ops" and inv: "inv (fw st)" and a: "pc_mapped_str m = inet_ntop a"
  shows "settled R m a st (pcp_map_loop R m f any e st)"
proof (induction f e arbitrary: any rule: port_loop_induct)
  case (1 f e)
  show ?case
  proof (cases "f \<noteq> 0 \<and> e = f")
    case True
    then show ?thesis by (subst pcp_map_loop_round) (simp add: settled_def)
  next
    case False
    note IH = 1 [OF port_distance_next [OF False]]
    obtain r st1 where d: "upnp_delete_redir R e (ucast (pc_protocol m)) st = (r, st1)" by fastforce
    note del = delete_redir_spec [OF R inv d]
    have held: "held_by_self R m e st \<Longrightarrow> r = 0" using del taken_spec(2) [OF R inv a, of e] by auto
    have free: "\<not> held_by_self R m e st \<Longrightarrow> \<not> taken_by_other R m e st \<Longrightarrow>
        drop_mapping e (ucast (pc_protocol m)) (mappings (fw st)) = mappings (fw st)"
      using taken_spec [OF R inv a, of e] by (intro drop_mapping_absent) auto
    show ?thesis using False IH d del held free inv
      by (subst pcp_map_loop_round) (auto simp: Let_def settled_def)
  qed
qed

lemma create_nat_spec:
  assumes R: "be_ops R = ops" and inv: "inv (fw st)" and a: "pc_mapped_str m = inet_ntop a"
    and c: "CreatePCPMap_NAT R m st = (code, m', st')"
  shows "inv (fw st') \<and> others a (mappings (fw st')) = others a (mappings (fw st))
    \<and> (code = PCP_SUCCESS \<longrightarrow> (\<exists>e. m' = m\<lparr>pc_ext_port := e\<rparr> \<and> pcp_allowed R m e \<and> \<not> pcp_reserved m e
        \<and> \<not> taken_by_other R m e st
        \<and> mappings (fw st') = drop_mapping e (ucast (pc_protocol m)) (mappings (fw st))
            @ [new_mapping None e (inet_ntop a) (pc_int_port m) (ucast (pc_protocol m)) (Some (pc_desc m))
                 (upnp_time R + pc_lifetime m)]))"
proof -
  let ?e0 = "if pc_ext_port m = 0 then pc_int_port m else pc_ext_port m"
  let ?p = "ucast (pc_protocol m) :: u16"
  obtain res e st1 where l: "pcp_map_loop R m 0 False ?e0 st = (res, e, st1)" by (metis prod_cases3)
  from map_loop_settled [OF R inv a, of 0 False ?e0] l have s: "settled R m a st (res, e, st1)" by simp
  show ?thesis
  proof (cases "?e0 = 0 \<or> res \<noteq> None")
    case True
    with c l s map_loop_code [of R m 0 False ?e0 st] have "st' = st \<and> code \<noteq> 0"
      by (auto simp: CreatePCPMap_NAT_def settled_def Let_def split: if_splits option.splits)
    with inv show ?thesis by simp
  next
    case False
    then have res: "res = None" "?e0 \<noteq> 0" by auto
    obtain q st2 where u: "upnp_redirect_internal R None e (pc_mapped_str m) (pc_int_port m) ?p (pc_desc m)
        (upnp_time R + pc_lifetime m) st1 = (q, st2)" by fastforce
    from s res have st1: "inv (fw st1)" "mappings (fw st1) = drop_mapping e ?p (mappings (fw st))"
      "pcp_allowed R m e" "\<not> pcp_reserved m e" "\<not> taken_by_other R m e st" by (auto simp: settled_def)
    have "find_mapping e ?p (mappings (fw st1)) = None" by (simp add: st1(2) find_mapping_drop)
    note ri = redirect_internal_spec [OF R st1(1) this u]
    have o: "others a (drop_mapping e ?p (mappings (fw st))) = others a (mappings (fw st))"
      using st1(5) taken_spec(1) [OF R inv a, of e] keys_distinct [OF inv] by (intro others_drop) auto
    from c l res u have r: "code = (if q < 0 then 8 else 0)" "m' = m\<lparr>pc_ext_port := e\<rparr>" "st' = st2"
      by (auto simp: CreatePCPMap_NAT_def Let_def split: if_splits)
    show ?thesis using ri r st1 o a by (auto split: if_splits)
  qed
qed

lemma find_redirect_spec:
  assumes "be_ops R = ops" "inv (fw st)" "pc_mapped_str m = inet_ntop a"
  shows "i \<le> length (mappings (fw st)) \<Longrightarrow> find_redirect_of R m i st
    = Some (map_option (\<lambda>x. (m_eport x, m_proto x, bounded_copy 64 (m_desc x))) (find (pcp_target a m) (drop i (mappings (fw st)))))"
proof (induction "length (mappings (fw st)) - i" arbitrary: i)
  case 0
  then show ?case using assms by (subst find_redirect_of.simps) (simp add: get_by_index_law)
next
  case (Suc k)
  let ?ms = "mappings (fw st)"
  have i: "i < length ?ms" using Suc.hyps(2) by simp
  then have d: "drop i ?ms = ?ms ! i # drop (Suc i) ?ms" by (simp add: Cons_nth_drop_Suc)
  have "find_redirect_of R m (i + 1) st
      = Some (map_option (\<lambda>x. (m_eport x, m_proto x, bounded_copy 64 (m_desc x))) (find (pcp_target a m) (drop (i + 1) ?ms)))"
    using Suc i by (intro Suc.hyps(1)) auto
  with i d assms show ?case
    by (subst find_redirect_of.simps)
      (auto simp: get_by_index_law Let_def indexed_info_def mapping_info_def inet_ntop_inj pcp_target_def)
qed

lemma delete_nat_spec:
  assumes R: "be_ops R = ops" and inv: "inv (fw st)" and a: "pc_mapped_str m = inet_ntop a"
  shows "\<exists>m' st'. DeletePCPMap_NAT R m st = Some (m', st') \<and> inv (fw st') \<and> 
     (case find (pcp_target a m) (mappings (fw st)) of
        None \<Rightarrow> m' = m \<and> st' = st
      | Some x \<Rightarrow> if bounded_copy 64 (m_desc x) \<noteq> pc_desc m then m' = m\<lparr>pc_result_code := PCP_ERR_NOT_AUTHORIZED\<rparr> \<and> st' = st
                 else m' = m \<and> mappings (fw st') = drop_mapping (m_eport x) (m_proto x) (mappings (fw st)))"
proof (cases "find (pcp_target a m) (mappings (fw st))")
  case None
  with find_redirect_spec [OF R inv a, of 0] inv show ?thesis by (simp add: DeletePCPMap_NAT_def)
next
  case (Some x)
  then have x: "x \<in> set (mappings (fw st))" by (auto simp: find_Some_iff in_set_conv_nth)
  obtain r st1 where d: "upnp_delete_redir R (m_eport x) (m_proto x) st = (r, st1)" by fastforce
  have "r = 0" "inv (fw st1)" "mappings (fw st1) = drop_mapping (m_eport x) (m_proto x) (mappings (fw st))"
    using delete_redir_spec [OF R inv d] find_mapping_mem [OF keys_distinct [OF inv] x] by auto
  with Some d find_redirect_spec [OF R inv a, of 0] inv show ?thesis by (auto simp: DeletePCPMap_NAT_def)
qed

lemma delete_nat_others:
  assumes R: "be_ops R = ops" and inv: "inv (fw st)" and a: "pc_mapped_str m = inet_ntop a"
    and d: "DeletePCPMap_NAT R m st = Some (m', st')"
  shows "inv (fw st') \<and> others a (mappings (fw st')) = others a (mappings (fw st))"
proof (cases "find (pcp_target a m) (mappings (fw st))")
  case None
  with delete_nat_spec [OF R inv a] d show ?thesis by auto
next
  case (Some x)
  then have x: "x \<in> set (mappings (fw st))" "m_iaddr x = a" by (auto simp: find_Some_iff in_set_conv_nth pcp_target_def)
  have "others a (drop_mapping (m_eport x) (m_proto x) (mappings (fw st))) = others a (mappings (fw st))"
    using x find_mapping_mem [OF keys_distinct [OF inv] x(1)] keys_distinct [OF inv] by (intro others_drop) auto
  with delete_nat_spec [OF R inv a] d Some show ?thesis by (auto split: if_splits)
qed

text \<open>A valid MAP request of an IPv4 client for itself.\<close>

lemma valid_map_ipv4:
  assumes t: "\<not> pcp_allow_third_party E" and pm: "parsed_from buf m0 pm" "pc_sender_ip m0 = v4_mapped a"
    and v: "ValidatePCPMsg E (parsePCPOptions E opts r pm) = (True, m1)"
  shows "\<not> pc_is_fw m1 \<and> pc_mapped_str m1 = inet_ntop a"
proof -
  let ?o = "parsePCPOptions E opts r pm"
  note vt = validate_true [OF v]
  have "pc_int_ip ?o = v4_mapped a" "pc_thirdp_ip ?o = None"
    using vt t options_head [of pm E opts r] pm by (auto simp: same_head_def parsed_from_def)
  moreover have "pc_mapped_ip ?o = pc_int_ip ?o"
    using options_mapped [of E opts r pm] calculation(2) options_head [of pm E opts r] pm
    by (simp add: same_head_def parsed_from_def)
  ultimately show ?thesis using vt by (auto simp: inet_n46top_def)
qed

lemma handle_map_others:
  assumes R: "be_ops (pe_redir E) = ops" and inv: "inv (fw (rst_of ps))" and t: "\<not> pcp_allow_third_party E"
    and pm: "parsed_from buf m0 pm" "pc_sender_ip m0 = v4_mapped a"
  shows "\<exists>b m' ps'. handle_map E opts r pm ps = Some (b, m', ps') \<and> inv (fw (rst_of ps'))
    \<and> others a (mappings (fw (rst_of ps'))) = others a (mappings (fw (rst_of ps)))"
proof -
  obtain ok m1 where v: "ValidatePCPMsg E (parsePCPOptions E opts r pm) = (ok, m1)" by fastforce
  show ?thesis
  proof (cases ok)
    case False
    with v inv show ?thesis by (simp add: handle_map_def)
  next
    case True
    with valid_map_ipv4 [OF t pm] v have m1: "\<not> pc_is_fw m1" "pc_mapped_str m1 = inet_ntop a" by auto
    show ?thesis
    proof (cases "pc_lifetime m1 = 0")
      case l: True
      obtain m' st1 where "DeletePCPMap_NAT (pe_redir E) m1 (rst_of ps) = Some (m', st1)"
        using delete_nat_spec [OF R inv m1(2)] by blast
      with l v True m1(1) delete_nat_others [OF R inv m1(2)] show ?thesis
        by (auto simp: handle_map_def DeletePCPMap_def set_rst_def)
    next
      case False
      obtain code m2 st1 where "CreatePCPMap_NAT (pe_redir E) m1 (rst_of ps) = (code, m2, st1)" by (metis prod_cases3)
      with v True m1(1) False create_nat_spec [OF R inv m1(2)] show ?thesis
        by (auto simp: handle_map_def CreatePCPMap_def set_rst_def)
    qed
  qed
qed

end

lemma processPCPRequest_returns:
  assumes "\<And>opts r pm. parsed_from buf m0 pm \<Longrightarrow> handle_map E opts r pm ps \<noteq> None" "\<not> pcp_peer (pe_redir E)"
  shows "processPCPRequest E buf len m0 ps \<noteq> None"
proof -
  obtain e m1 where h: "parseCommonRequestHeader E buf (m0\<lparr>pc_result_code := PCP_SUCCESS\<rparr>) = (e, m1)" by fastforce
  have "\<not> e \<Longrightarrow> parsed_from buf m0 m1" using header_fields [OF h] by (auto simp: parsed_from_def)
  then have "\<not> e \<Longrightarrow> handle_map E opts r (parsePCPMAP_version1 req m1) ps \<noteq> None"
    "\<not> e \<Longrightarrow> handle_map E opts r (parsePCPMAP_version2 req m1) ps \<noteq> None" for opts r req
    by (auto intro!: assms(1) simp del: not_None_eq)
  with h assms(2) show ?thesis
    by (auto simp: processPCPRequest_def process_v1_def process_v2_def Let_def split: bool.splits)
qed

lemma answer_keeps_rst: "createPCPResponse E buff m ns0 = (resp, ns) \<Longrightarrow> rst ns = rst ns0"
  by (auto simp: createPCPResponse_def Let_def)

lemma pcp_ipv4_outcome:
  assumes "redirect_backend ops ok mappings" and "be_ops (pe_redir E) = ops" and "ok (fw (rst_of ps))"
    and "\<not> pcp_allow_third_party E" and "\<not> pcp_peer (pe_redir E)"
  shows "\<exists>answer ps'. ProcessIncomingPCPPacket E buff len (Inet a) sc ps = Some (answer, ps') \<and> ok (fw (rst_of ps'))
    \<and> others a (mappings (fw (rst_of ps'))) = others a (mappings (fw (rst_of ps)))"
proof -
  note hm = redirect_backend.handle_map_others [OF assms(1-4)]
  let ?m = "pcp_info_zero\<lparr>pc_sender_ip := sender_in6 (Inet a), pc_version := buff ! 0, pc_opcode := (buff ! 1) AND 0x7f\<rparr>"
  have s: "pc_sender_ip ?m = v4_mapped a" by (simp add: sender_in6_def)
  have "processPCPRequest E buff len ?m ps \<noteq> None"
    using hm [OF _ s] by (intro processPCPRequest_returns [OF _ assms(5)]) (metis option.distinct(1))
  then have "ProcessIncomingPCPPacket E buff len (Inet a) sc ps \<noteq> None"
    unfolding ProcessIncomingPCPPacket_def Let_def by (auto split: prod.splits)
  then obtain answer ps' where p: "ProcessIncomingPCPPacket E buff len (Inet a) sc ps = Some (answer, ps')" by auto
  have k: "ok (fw (rst_of ps1)) \<and> others a (mappings (fw (rst_of ps1))) = others a (mappings (fw (rst_of ps)))"
    if "switch_outcome E buff m0 ps (b, m, ps1)" "pc_sender_ip m0 = v4_mapped a" for b m ps1 m0
  proof -
    from that(1) assms(5) consider "ps1 = ps"
      | opts r pm where "parsed_from buff m0 pm" "handle_map E opts r pm ps = Some (b, m, ps1)"
      by (auto simp: switch_outcome_def)
    then show ?thesis
    proof cases
      case (2 opts r pm)
      with hm [OF 2(1) that(2), of opts r] show ?thesis by auto
    qed (use assms(3) in simp)
  qed
  from p have "ok (fw (rst_of ps')) \<and> others a (mappings (fw (rst_of ps'))) = others a (mappings (fw (rst_of ps)))"
  proof (cases rule: incoming_cases)
    case (ignored b m ps1 m0)
    then show ?thesis using k [OF ignored(1)] by (simp add: sender_in6_def)
  next
    case (answered m ps1 resp ns m0)
    then show ?thesis using k [OF answered(1)] answer_keeps_rst [OF answered(2)] by (simp add: sender_in6_def)
  qed (use assms(3) in simp)
  with p show ?thesis by blast
qed

text \<open>Every request that is long enough is answered.\<close>

lemma check_external_error: "CheckExternalAddress E m = (r, m1) \<Longrightarrow> r \<noteq> 0 \<Longrightarrow> pc_result_code m1 \<noteq> 0"
  unfolding CheckExternalAddress_def Let_def by (auto split: option.splits if_splits)

lemma validate_false: "ValidatePCPMsg E m = (False, m1) \<Longrightarrow> pc_result_code m1 \<noteq> 0"
  unfolding ValidatePCPMsg_def Let_def
  by (auto split: if_split_asm prod.split_asm dest: check_external_error)

lemma processPCPRequest_answers:
  assumes "processPCPRequest E buf len m0 ps = Some (b, m', ps')" "3 \<le> len" "\<not> pcp_peer (pe_redir E)"
  shows b
proof -
  obtain e m1 where h: "parseCommonRequestHeader E buf (m0\<lparr>pc_result_code := PCP_SUCCESS\<rparr>) = (e, m1)" by fastforce
  have "handle_map E opts r pm ps = Some (b, m', ps') \<Longrightarrow> b" for opts r pm
    by (auto simp: handle_map_def dest: validate_false split: prod.splits bool.splits if_splits)
  with assms h show ?thesis
    by (auto simp: processPCPRequest_def process_v1_def process_v2_def Let_def split: bool.splits if_splits)
qed


lemma pcp_answered:
  assumes bk: "redirect_backend ops ok mappings" "be_ops (pe_redir E) = ops" "ok (fw (rst_of ps))"
      "\<not> pcp_allow_third_party E" "\<not> pcp_peer (pe_redir E)"
    and "3 \<le> len" "(buff ! 1) AND 128 = 0" "get_lan_for_peer E (Inet a) sc \<noteq> None"
  shows "\<exists>reply ps'. ProcessIncomingPCPPacket E buff len (Inet a) sc ps = Some (Some reply, ps')"
proof -
  let ?m = "pcp_info_zero\<lparr>pc_sender_ip := sender_in6 (Inet a), pc_version := buff ! 0, pc_opcode := (buff ! 1) AND 0x7f\<rparr>"
  from pcp_ipv4_outcome [OF bk, of buff len a sc] obtain answer ps' where
    p: "ProcessIncomingPCPPacket E buff len (Inet a) sc ps = Some (answer, ps')" by blast
  have ip: "ProcessIncomingPCPPacket E buff len (Inet a) sc ps
      = (case processPCPRequest E buff len ?m ps of None \<Rightarrow> None
         | Some (answer, m1, ps1) \<Rightarrow>
             if answer then let (resp, ns) = createPCPResponse E buff m1 (nat_state ps1)
                            in Some (Some (take (response_len m1 len) resp), ps1\<lparr>nat_state := ns\<rparr>)
             else Some (None, ps1))"
    using assms(6-8) unfolding ProcessIncomingPCPPacket_def Let_def by auto
  with p obtain b m1 ps1 where r: "processPCPRequest E buff len ?m ps = Some (b, m1, ps1)" by (auto split: option.splits)
  from processPCPRequest_answers [OF r assms(6,5)] have b .
  with p ip r show ?thesis by (auto split: prod.splits)
qed

text \<open>
  every PCP datagram of at least three bytes that is not itself a response and comes from an IPv4
  address of a LAN gets an answer.
\<close>

theorem pcp_always_answers:
  assumes "redirect_backend ops ok mappings" and "be_ops (pe_redir E) = ops" and "ok (fw (rst_of ps))"
    and "\<not> pcp_allow_third_party E" and "\<not> pcp_peer (pe_redir E)"
    and "3 \<le> len" and "(buff ! 1) AND 128 = 0" and "get_lan_for_peer E (Inet a) sc \<noteq> None"
  shows "\<exists>reply ps'. ProcessIncomingPCPPacket E buff len (Inet a) sc ps = Some (Some reply, ps')"
  by (rule pcp_answered [OF assms])

text \<open>
  C21: a MAP request that succeeds for an IPv4 client has installed exactly one redirection: from the
  external port of the answer, which the permissions allow the client and which is not reserved for
  PCP, to the client's internal port, carrying the nonce and ending after the granted lifetime; a
  redirection that it replaces was one to the same host and port, all others are untouched.
\<close>

theorem pcp_map_success:
  assumes "redirect_backend ops I mappings" and "be_ops R = ops" and "I (fw st)"
    and "pc_mapped_str m = inet_ntop a" and "CreatePCPMap_NAT R m st = (PCP_SUCCESS, m', st')"
  shows "\<exists>e. m' = m\<lparr>pc_ext_port := e\<rparr> \<and> pcp_allowed R m e \<and> \<not> pcp_reserved m e
    \<and> (\<forall>x. find_mapping e (ucast (pc_protocol m)) (mappings (fw st)) = Some x \<longrightarrow> m_iaddr x = a \<and> m_iport x = pc_int_port m)
    \<and> mappings (fw st') = drop_mapping e (ucast (pc_protocol m)) (mappings (fw st))
        @ [new_mapping None e (inet_ntop a) (pc_int_port m) (ucast (pc_protocol m)) (Some (pc_desc m))
             (upnp_time R + pc_lifetime m)]"
  using redirect_backend.create_nat_spec [OF assms] redirect_backend.taken_spec(1) [OF assms(1-4)] by blast

text \<open>
  C22: a MAP request with lifetime 0 (of an IPv4 client) always returns; it removes at most one
  redirection, the first that goes to the client with the protocol and internal port of the request,
  and only if that one was made with the same nonce; otherwise it answers \<open>NOT_AUTHORIZED\<close> and
  changes nothing.
\<close>

theorem pcp_delete_needs_nonce:
  assumes "redirect_backend ops I mappings" and "be_ops R = ops" and "I (fw st)" and "pc_mapped_str m = inet_ntop a"
  shows "\<exists>m' st'. DeletePCPMap_NAT R m st = Some (m', st') \<and>
     (case find (pcp_target a m) (mappings (fw st)) of
        None \<Rightarrow> m' = m \<and> st' = st
      | Some x \<Rightarrow> if bounded_copy 64 (m_desc x) \<noteq> pc_desc m
                 then m' = m\<lparr>pc_result_code := PCP_ERR_NOT_AUTHORIZED\<rparr> \<and> st' = st
                 else m' = m \<and> mappings (fw st') = drop_mapping (m_eport x) (m_proto x) (mappings (fw st)))"
  using redirect_backend.delete_nat_spec [OF assms] by blast

text \<open>
  with \<open>PREFER_FAILURE\<close>, and when the gateway itself does not use the requested port, the client
  gets the external port it asked for or an error, never another port.
\<close>

theorem pcp_prefer_failure_exact:
  assumes "pc_pfailure_present m" and "pc_ext_port m \<noteq> 0" and "\<not> in_use R m (pc_ext_port m) st"
    and "CreatePCPMap_NAT R m st = (PCP_SUCCESS, m', st')"
  shows "pc_ext_port m' = pc_ext_port m"
proof -
  obtain res e st1 where l: "pcp_map_loop R m 0 False (pc_ext_port m) st = (res, e, st1)" by (metis prod_cases3)
  have "e = pc_ext_port m"
    using l assms(1,3) by (subst (asm) pcp_map_loop_round) (auto simp: Let_def split: if_splits prod.splits)
  with l assms(2,4) show ?thesis
    by (auto simp: CreatePCPMap_NAT_def Let_def split: if_splits option.splits prod.splits)
qed

text \<open>A port that the gateway uses is passed over even with \<open>PREFER_FAILURE\<close>: the client gets the next one.\<close>

lemma prefer_failure_skips_used_port:
  assumes "e \<noteq> 0" "\<not> pcp_reserved m e" "pcp_allowed R m e" "in_use R m e st" "next_eport e \<noteq> e"
    "\<not> pcp_reserved m (next_eport e)" "pcp_allowed R m (next_eport e)" "\<not> in_use R m (next_eport e) st"
    "\<not> taken_by_other R m (next_eport e) st" "\<not> held_by_self R m (next_eport e) st"
  shows "pcp_map_loop R m 0 False e st = (None, next_eport e, st)"
proof -
  have "pcp_map_loop R m e True (next_eport e) st = (None, next_eport e, st)"
    using assms by (subst pcp_map_loop_round) auto
  then show ?thesis using assms by (subst pcp_map_loop_round) auto
qed

text \<open>
  A MAP request replaces a mapping of the same client and port whatever its nonce, unlike a deletion
  or a firewall request.
\<close>

lemma pcp_map_ignores_nonce:
  assumes "held_by_self R m e st" "e \<noteq> 0" "\<not> pcp_reserved m e" "pcp_allowed R m e" "\<not> in_use R m e st"
    and "upnp_delete_redir R e (ucast (pc_protocol m)) st = (0, st1)"
  shows "pcp_map_loop R m 0 False e st = (None, e, st1)"
proof -
  have "\<not> taken_by_other R m e st" using assms(1) by (auto simp: held_by_self_def taken_by_other_def split: option.splits)
  then show ?thesis using assms by (subst pcp_map_loop_round) auto
qed

section \<open>A concrete server\<close>

definition demo_pcp :: "(list_tables rdr_state, unit, string \<rightharpoonup> ip6t_entry list, string \<rightharpoonup> ip6t_entry list) pcp_env" where
  "demo_pcp = \<lparr>pe_nat = demo_gateway\<lparr>lan_addrs := [\<lparr>la_index = 1, la_addr = 0x0a000001, la_mask = 0xff000000, la_ext_ip_addr = 0\<rparr>]\<rparr>,
     pe_pin = demo_env6, pe_ip6 = list_libip6tc,
     pe_peer = \<lparr>po_add_peer_redirect_rule2 = (\<lambda>_ _ _ _ _ _ _ _ _ s. (-1, s)), po_add_peer_dscp_rule2 = (\<lambda>_ _ _ _ _ _ s. (-1, s)),
       po_get_peer_rule_by_index = (\<lambda>_ _ _ _ _. None), po_get_nat_ext_addr = (\<lambda>_ _ _ _. None)\<rparr>,
     enable_upnppinhole = True, pcp_flowp = False, pcp_sadscp = False, max_lifetime = 86400, min_lifetime = 120,
     pcp_allow_third_party = False, dscp_values_list = [], get_src_for_route_to = (\<lambda>_. Some 1), buf2_stack = []\<rparr>"

definition demo_pcp_state :: "(list_tables rdr_state, string \<rightharpoonup> ip6t_entry list) pcp_state" where
  "demo_pcp_state = \<lparr>nat_state = demo_natpmp, pin_state = demo_upnp6\<rparr>"

text \<open>A MAP request of version 2 for TCP whose client address is \<open>c\<close>, in the receive buffer.\<close>

definition demo_map_request :: "in6_addr \<Rightarrow> bytes" where
  "demo_map_request c = receive_buffer ([2, 1, 0, 0] @ writenu32 3600 @ c @ replicate 12 7 @ [6, 0, 0, 0]
     @ writenu16 8080 @ writenu16 80 @ replicate 16 0)"

lemma demo_pcp_ops: "be_ops (pe_redir demo_pcp) = iptc_ops (list_libiptc False False)"
  by (simp add: demo_pcp_def demo_gateway_def demo_ops)

lemma demo_pcp_inv: "iptc_inv list_chain_of (fw (rst_of demo_pcp_state))"
  by (simp add: demo_pcp_state_def demo_natpmp_inv)

lemma demo_request_len: "length c = 16 \<Longrightarrow> length (demo_map_request c) = 1101"
  by (simp add: demo_map_request_def receive_buffer_def)

lemma demo_request_head:
  "length c = 16 \<Longrightarrow> demo_map_request c ! 0 = 2" "length c = 16 \<Longrightarrow> demo_map_request c ! 1 = 1"
  "length c = 16 \<Longrightarrow> take 16 (drop 8 (demo_map_request c)) = c"
  by (simp_all add: demo_map_request_def receive_buffer_def Let_def)

lemma demo_lan: "get_lan_for_peer demo_pcp (Inet 0x0a000002) 0 \<noteq> None"
  by (simp add: get_lan_for_peer_def lan_of_ipv4_def demo_pcp_def)

lemma demo_pcp_flags: "\<not> pcp_allow_third_party demo_pcp" "\<not> pcp_peer (pe_redir demo_pcp)"
  by (simp_all add: demo_pcp_def demo_gateway_def demo_env_def)

theorem pcp_always_answers_witness:
  "\<exists>reply ps'. ProcessIncomingPCPPacket demo_pcp (demo_map_request (v4_mapped 0x0a000002)) 60 (Inet 0x0a000002) 0 demo_pcp_state
     = Some (Some reply, ps')"
  using pcp_always_answers [OF list_backend demo_pcp_ops demo_pcp_inv demo_pcp_flags, of 60 "demo_map_request (v4_mapped 0x0a000002)"
      "0x0a000002" 0] demo_lan demo_request_head(2) [of "v4_mapped 0x0a000002"] by simp

lemma demo_answered:
  assumes "length c = 16"
  shows "\<exists>reply ps'. ProcessIncomingPCPPacket demo_pcp (demo_map_request c) 60 (Inet 0x0a000002) 0 demo_pcp_state = Some (Some reply, ps')"
  using pcp_answered [OF list_backend demo_pcp_ops demo_pcp_inv demo_pcp_flags, of 60 "demo_map_request c" "0x0a000002" 0]
    demo_lan demo_request_head(2) [OF assms] by simp

theorem pcp_reply_format_witness:
  "\<exists>reply ps'. ProcessIncomingPCPPacket demo_pcp (demo_map_request (v4_mapped 0x0a000002)) 60 (Inet 0x0a000002) 0 demo_pcp_state
     = Some (Some reply, ps') \<and> reply ! 1 = 0x81 \<and> length reply mod 4 = 0"
proof -
  let ?b = "demo_map_request (v4_mapped 0x0a000002)"
  obtain reply ps' where r: "ProcessIncomingPCPPacket demo_pcp ?b 60 (Inet 0x0a000002) 0 demo_pcp_state = Some (Some reply, ps')"
    using demo_answered [of "v4_mapped 0x0a000002"] by auto
  have "?b ! 1 = 1" by (rule demo_request_head) simp
  with pcp_reply_format [OF r] r demo_request_len [of "v4_mapped 0x0a000002"] show ?thesis by auto
qed

theorem pcp_address_mismatch_changes_nothing_witness:
  "\<exists>answer ps'. ProcessIncomingPCPPacket demo_pcp (demo_map_request (v4_mapped 0x0a000003)) 60 (Inet 0x0a000002) 0 demo_pcp_state
     = Some (answer, ps') \<and> rst_of ps' = demo_state"
proof -
  let ?b = "demo_map_request (v4_mapped 0x0a000003)"
  obtain reply ps' where r: "ProcessIncomingPCPPacket demo_pcp ?b 60 (Inet 0x0a000002) 0 demo_pcp_state = Some (Some reply, ps')"
    using demo_answered [of "v4_mapped 0x0a000003"] by auto
  have "take 16 (drop 8 ?b) \<noteq> sender_in6 (Inet 0x0a000002)"
    using demo_request_head(3) [of "v4_mapped 0x0a000003"] by (simp add: sender_in6_def)
  from pcp_address_mismatch_changes_nothing [OF r this] r show ?thesis by (auto simp: demo_pcp_state_def demo_natpmp_def)
qed


theorem pcp_refusal_changes_nothing_witness:
  "\<exists>reply ps'. ProcessIncomingPCPPacket demo_pcp (demo_map_request (v4_mapped 0x0a000002)) 4 (Inet 0x0a000002) 0 demo_pcp_state
     = Some (Some reply, ps') \<and> reply ! 3 = PCP_ERR_MALFORMED_REQUEST \<and> rst_of ps' = demo_state"
proof -
  let ?b = "demo_map_request (v4_mapped 0x0a000002)"
  let ?m = "pcp_info_zero\<lparr>pc_sender_ip := v4_mapped 0x0a000002, pc_version := ?b ! 0, pc_opcode := (?b ! 1) AND 0x7f,
    pc_result_code := PCP_ERR_MALFORMED_REQUEST\<rparr>"
  have l: "length ?b = 1101" by (rule demo_request_len) simp
  have "?b ! 1 = 1" by (rule demo_request_head) simp
  then have b: "(?b ! 1) AND 128 = 0" by simp
  obtain resp ns where c: "createPCPResponse demo_pcp ?b ?m (nat_state demo_pcp_state) = (resp, ns)" by fastforce
  then have p: "ProcessIncomingPCPPacket demo_pcp ?b 4 (Inet 0x0a000002) 0 demo_pcp_state
      = Some (Some (take 24 resp), demo_pcp_state\<lparr>nat_state := ns\<rparr>)"
    using b demo_lan unfolding ProcessIncomingPCPPacket_def
    by (simp add: processPCPRequest_def response_len_def sender_in6_def demo_pcp_flags)
  from createPCPResponse_head [OF c] l obtain t where "take 24 resp = pcp_header ?m t" by auto
  then have r: "take 24 resp ! 3 = PCP_ERR_MALFORMED_REQUEST" by (simp add: pcp_header_def)
  have "refusal (take 24 resp ! 3)" unfolding r by (simp add: refusal_def)
  from pcp_refusal_changes_nothing [OF p _ this] l p r show ?thesis by (auto simp: demo_pcp_state_def demo_natpmp_def)
qed

text \<open>A parsed and validated request for TCP port 8080.\<close>

definition demo_msg :: pcp_info where
  "demo_msg = pcp_info_zero\<lparr>pc_lifetime := 3600, pc_protocol := 6, pc_int_port := 8080, pc_ext_port := 80,
     pc_mapped_ip := v4_mapped 0x0a000002, pc_mapped_str := inet_ntop 0x0a000002, pc_desc := ''PCP MAP 00'',
     pc_pfailure_present := True\<rparr>"

lemma demo_free:
  "pcp_allowed demo_env demo_msg 80" "\<not> pcp_reserved demo_msg 80" "\<not> in_use demo_env demo_msg 80 demo_state"
  "\<not> taken_by_other demo_env demo_msg 80 demo_state" "\<not> held_by_self demo_env demo_msg 80 demo_state"
  using redirect_backend.taken_spec [OF list_backend demo_ops demo_inv(1), of demo_msg "0x0a000002" 80]
  by (simp_all add: pcp_allowed_def pcp_reserved_def in_use_def demo_msg_def demo_env_def demo_inv(2) find_mapping_def)

lemma demo_create: "\<exists>m' st'. CreatePCPMap_NAT demo_env demo_msg demo_state = (PCP_SUCCESS, m', st')"
proof -
  have l: "pcp_map_loop demo_env demo_msg 0 False 80 demo_state = (None, 80, demo_state)"
    using demo_free by (subst pcp_map_loop_round) simp
  have f: "find_mapping 80 6 (iptc_mappings list_chain_of (fw demo_state)) = None" by (simp add: demo_inv(2) find_mapping_def)
  obtain q st2 where u: "upnp_redirect_internal demo_env None 80 (pc_mapped_str demo_msg) (pc_int_port demo_msg) 6
      (pc_desc demo_msg) (upnp_time demo_env + pc_lifetime demo_msg) demo_state = (q, st2)" by fastforce
  have "\<not> disable_port_forwarding demo_env" by (simp add: demo_env_def)
  with redirect_backend.redirect_internal_spec [OF list_backend demo_ops demo_inv(1) f u] have "q = 0" by simp
  moreover have "pc_ext_port demo_msg = 80" "ucast (pc_protocol demo_msg) = (6 :: u16)" by (simp_all add: demo_msg_def)
  ultimately show ?thesis using l u by (simp add: CreatePCPMap_NAT_def)
qed

theorem pcp_map_success_witness:
  "\<exists>m' st'. CreatePCPMap_NAT demo_env demo_msg demo_state = (PCP_SUCCESS, m', st')
     \<and> map m_iaddr (iptc_mappings list_chain_of (fw st')) = [0x0a000002]"
proof -
  obtain m' st' where c: "CreatePCPMap_NAT demo_env demo_msg demo_state = (PCP_SUCCESS, m', st')" using demo_create by blast
  have "pc_mapped_str demo_msg = inet_ntop 0x0a000002" by (simp add: demo_msg_def)
  from pcp_map_success [OF list_backend demo_ops demo_inv(1) this c] c show ?thesis
    by (auto simp: demo_inv(2) drop_mapping_def)
qed

theorem pcp_prefer_failure_exact_witness:
  "\<exists>m' st'. CreatePCPMap_NAT demo_env demo_msg demo_state = (PCP_SUCCESS, m', st') \<and> pc_ext_port m' = 80"
proof -
  obtain m' st' where c: "CreatePCPMap_NAT demo_env demo_msg demo_state = (PCP_SUCCESS, m', st')" using demo_create by blast
  have e: "pc_pfailure_present demo_msg" "pc_ext_port demo_msg = 80" by (simp_all add: demo_msg_def)
  from pcp_prefer_failure_exact [OF e(1) _ _ c] demo_free(3) c e(2) show ?thesis by auto
qed

theorem pcp_delete_needs_nonce_witness:
  "\<exists>m' st'. DeletePCPMap_NAT demo_env demo_msg demo_mapped = Some (m', st') \<and> pc_result_code m' = PCP_ERR_NOT_AUTHORIZED
     \<and> st' = demo_mapped"
proof -
  have s: "pc_mapped_str demo_msg = inet_ntop 0x0a000002" by (simp add: demo_msg_def)
  have "pcp_target 0x0a000002 demo_msg (new_mapping None 80 (inet_ntop 0x0a000002) 8080 IPPROTO_TCP (Some ''web'') 3700)"
    by (simp add: pcp_target_def demo_msg_def)
  then have f: "find (pcp_target 0x0a000002 demo_msg) (iptc_mappings list_chain_of (fw demo_mapped))
      = Some (new_mapping None 80 (inet_ntop 0x0a000002) 8080 IPPROTO_TCP (Some ''web'') 3700)" by (simp add: demo_first(2))
  have d: "bounded_copy 64 ''web'' \<noteq> pc_desc demo_msg" by (simp add: demo_msg_def bounded_copy_def)
  from pcp_delete_needs_nonce [OF list_backend demo_ops demo_first(1) s] f d show ?thesis
    by (auto simp: desc_text_def)
qed

end
