(* ===== verification/UpnpSoap.thy ===== *)
theory UpnpSoap
  imports Pcp ReplyParse
begin

text \<open>
  \<open>upnpsoap.c\<close>: the SOAP actions of the gateway, from the request body to the answer.

  A request has the client's addresses (as \<open>ProcessIncomingHTTP\<close> of \<open>miniupnpd.c\<close> sets them) and the
  XML content; an answer is the HTTP status and the body. A handler reads its arguments from the
  name/value list of the content, checks them and calls \<open>upnpredirect.c\<close> or \<open>upnppinhole.c\<close>. Handlers of
  port mappings work on the state of \<open>upnpredirect.c\<close>, those of pinholes on that of
  \<open>upnppinhole.c\<close>; \<open>soapMethods\<close> has all of them over the state of the daemon. \<^const>\<open>None\<close> stands for a
  call that does not return (see \<open>UpnpPinhole\<close>) and for a copy past the end of a buffer.

  The settings are a record: those of the modules below, the build options \<open>UPNP_STRICT\<close>, \<open>IGD_V2\<close>,
  \<open>ENABLE_PCP\<close> and those of the three optional services, the flags of the configuration,
  \<open>MINIUPNPD_DESC_SIZE\<close>, the name service (\<open>gethostbyname\<close>, \<open>getaddrinfo\<close>), the next random number, the
  interface statistics and the connection status. Sending the answer and logging are not modelled and
  allocation succeeds.
\<close>

section \<open>Requests and answers\<close>

record ifdata =
  baudrate :: nat
  opackets :: nat
  ipackets :: nat
  obytes :: nat
  ibytes :: nat

record ('s, 're, 'k, 'h) soap_env =
  sv :: "('s, 're, 'k, 'h) pcp_env"
  upnp_strict :: bool
  igd_v2 :: bool
  enable_pcp :: bool
  enable_l3f :: bool
  enable_6fc :: bool
  enable_dp :: bool
  secure_mode :: bool
  ipv6fc_fw_disabled :: bool
  ipv6fc_inbound_disallowed :: bool
  desc_size :: nat
  gethostbyname :: "string \<Rightarrow> in_addr option"
  getaddrinfo :: "string \<Rightarrow> in6_addr list option"
  getaddrinfo_port :: "string \<Rightarrow> string option \<Rightarrow> in6_addr list option"
  if_indextoname :: "u32 \<Rightarrow> string option"
  random_number :: nat
  getifstats :: "ifdata option"
  wan_connection_status :: string
  uptime :: nat
  uuidvalue_wcd :: string
  lan_ext_ip_str :: "lan_addr_s \<Rightarrow> string"
  stack_packets :: u64

record http_req =
  clientaddr :: in_addr
  clientaddr_v6 :: in6_addr
  clientaddr_str :: string
  peer_certificate :: bool
  content :: string

record http_resp =
  status :: nat
  body :: string

record ('s, 'k) soap_state =
  gw :: "('s, 'k) pcp_state"
  upstream_bitrate :: nat
  downstream_bitrate :: nat

abbreviation so_redir :: "('s, 're, 'k, 'h) soap_env \<Rightarrow> ('s, 're) redirect_env" where
  "so_redir E \<equiv> pe_redir (sv E)"

abbreviation so_nat :: "('s, 're, 'k, 'h) soap_env \<Rightarrow> ('s, 're) natpmp_env" where
  "so_nat E \<equiv> pe_nat (sv E)"

abbreviation so_pin :: "('s, 're, 'k, 'h) soap_env \<Rightarrow> pinhole_env" where
  "so_pin E \<equiv> pe_pin (sv E)"

abbreviation so_ip6 :: "('s, 're, 'k, 'h) soap_env \<Rightarrow> ('k, 'h) libip6tc" where
  "so_ip6 E \<equiv> pe_ip6 (sv E)"

text \<open>The client of an accepted connection; \<^const>\<open>None\<close> when it is not in a LAN.\<close>

definition sockaddr_to_string :: "('s, 're, 'k, 'h) soap_env \<Rightarrow> sockaddr \<Rightarrow> u16 \<Rightarrow> u32 \<Rightarrow> nat \<Rightarrow> string" where
  "sockaddr_to_string E addr port scope_id len =
     bounded_copy len
       (case addr of
          Inet a \<Rightarrow> inet_ntop a @ '':'' @ dec (unat port)
        | Inet6 a \<Rightarrow>
            ''['' @ inet_ntop6 a
            @ (if scope_id > 0
               then ''%'' @ (case if_indextoname E scope_id of None \<Rightarrow> ''ERROR'' | Some n \<Rightarrow> n) else [])
            @ '']:'' @ dec (unat port))"

definition ProcessIncomingHTTP :: "('s, 're, 'k, 'h) soap_env \<Rightarrow> sockaddr \<Rightarrow> u16 \<Rightarrow> u32 \<Rightarrow> http_req option" where
  "ProcessIncomingHTTP E clientname port scope_id =
     (if get_lan_for_peer (sv E) clientname scope_id = None then None
      else Some \<lparr>clientaddr = (case clientname of Inet a \<Rightarrow> a | Inet6 a \<Rightarrow> if in6_is_v4mapped a then in6_v4 a else 0),
                 clientaddr_v6 = (case clientname of Inet a \<Rightarrow> replicate 16 0
                                  | Inet6 a \<Rightarrow> if in6_is_v4mapped a then replicate 16 0 else a),
                 clientaddr_str = sockaddr_to_string E clientname port scope_id 64,
                 peer_certificate = False, content = []\<rparr>)"

section \<open>Building answers\<close>

definition crlf :: string where
  "crlf = [CHR 0x0D, CHR 0x0A]"

definition BuildSendAndCloseSoapResp :: "string \<Rightarrow> http_resp" where
  \<open>BuildSendAndCloseSoapResp text =
     \<lparr>status = 200,
      body = ''<?xml version="1.0"?>'' @ crlf
        @ ''<s:Envelope xmlns:s="http://schemas.xmlsoap.org/soap/envelope/" ''
        @ ''s:encodingStyle="http://schemas.xmlsoap.org/soap/encoding/"><s:Body>''
        @ text @ ''</s:Body></s:Envelope>'' @ crlf\<rparr>\<close>

definition SoapError :: "nat \<Rightarrow> string \<Rightarrow> http_resp" where
  \<open>SoapError errCode errDesc =
     \<lparr>status = 500,
      body = bounded_copy 2048
        (''<s:Envelope xmlns:s="http://schemas.xmlsoap.org/soap/envelope/" ''
         @ ''s:encodingStyle="http://schemas.xmlsoap.org/soap/encoding/"><s:Body><s:Fault>''
         @ ''<faultcode>s:Client</faultcode><faultstring>UPnPError</faultstring><detail>''
         @ ''<UPnPError xmlns="urn:schemas-upnp-org:control-1-0"><errorCode>'' @ dec errCode
         @ ''</errorCode><errorDescription>'' @ errDesc
         @ ''</errorDescription></UPnPError></detail></s:Fault></s:Body></s:Envelope>'')\<rparr>\<close>

text \<open>The answer is formatted into an array of \<open>n\<close> bytes and sent when it fits.\<close>

definition send_body :: "nat \<Rightarrow> string \<Rightarrow> http_resp" where
  "send_body n text =
     (if length text \<ge> n then SoapError 501 ''Action Failed'' else BuildSendAndCloseSoapResp text)"

definition resp_open :: "string \<Rightarrow> string \<Rightarrow> string" where
  \<open>resp_open action ns = ''<u:'' @ action @ ''Response xmlns:u="'' @ ns @ ''">''\<close>

definition resp_close :: "string \<Rightarrow> string" where
  "resp_close action = ''</u:'' @ action @ ''Response>''"

definition elt :: "string \<Rightarrow> string \<Rightarrow> string" where
  "elt name value = ''<'' @ name @ ''>'' @ value @ ''</'' @ name @ ''>''"

definition invalid_args :: http_resp where
  "invalid_args = SoapError 402 ''Invalid Args''"

definition not_authorized :: http_resp where
  "not_authorized = SoapError 606 ''Action not authorized''"

abbreviation arg :: "http_req \<Rightarrow> string \<Rightarrow> string option" where
  "arg h name \<equiv> GetValueFromNameValueList (ParseNameValue (content h)) name"

definition is_numeric :: "string \<Rightarrow> bool" where
  "is_numeric s = list_all isdigit s"

text \<open>The nonce of a mapping that was made by PCP is not shown to the clients.\<close>

definition isupper :: "char \<Rightarrow> bool" where
  "isupper c = (65 \<le> chr_code c \<and> chr_code c \<le> 90)"

definition hide_pcp_nonce :: "string \<Rightarrow> string" where
  "hide_pcp_nonce desc =
     (if take 4 desc \<noteq> ''PCP '' then desc
      else let op = takeWhile isupper (drop 4 desc); r = drop (length op) (drop 4 desc)
           in if r = [] \<or> hd r \<noteq> CHR '' '' then desc
              else ''PCP '' @ op @ '' '' @ replicate (min 24 (length (tl r))) (CHR ''x'') @ drop 24 (tl r))"

definition shown_desc :: "('s, 're, 'k, 'h) soap_env \<Rightarrow> string \<Rightarrow> string" where
  "shown_desc E desc = (if enable_pcp E then hide_pcp_nonce desc else desc)"

section \<open>Port mappings\<close>

text \<open>An address in the arguments: its text and value; a host name is looked up.\<close>

definition resolve_client :: "('s, 're, 'k, 'h) soap_env \<Rightarrow> string \<Rightarrow> (string \<times> in_addr) option" where
  "resolve_client E s =
     (case inet_pton s of Some a \<Rightarrow> Some (s, a)
      | None \<Rightarrow> map_option (\<lambda>a. (inet_ntop a, a)) (gethostbyname E s))"

text \<open>Only a wildcard is allowed as remote host in strict builds without \<open>SUPPORT_REMOTEHOST\<close>.\<close>

definition rhost_refused :: "('s, 're, 'k, 'h) soap_env \<Rightarrow> string option \<Rightarrow> bool" where
  "rhost_refused E r_host =
     (\<not> support_remotehost (so_redir E) \<and> upnp_strict E
      \<and> (case r_host of None \<Rightarrow> False | Some s \<Rightarrow> s \<noteq> [] \<and> s \<noteq> ''*''))"

definition wildcard_only :: http_resp where
  "wildcard_only = SoapError 726 ''RemoteHostOnlySupportsWildcard''"

definition add_answer :: "('s, 're, 'k, 'h) soap_env \<Rightarrow> string \<Rightarrow> string \<Rightarrow> int \<Rightarrow> http_resp" where
  \<open>add_answer E action ns r =
     (if r = 0 then send_body 512 (''<u:'' @ action @ ''Response xmlns:u="'' @ ns @ ''"/>'')
      else if r = -4 \<and> igd_v2 E then SoapError 729 ''ConflictWithOtherMechanisms''
      else if (r = -4 \<or> r = -3) \<and> igd_v2 E then not_authorized
      else if r = -4 \<or> r = -3 \<or> r = -2 then SoapError 718 ''ConflictInMappingEntry''
      else SoapError 501 ''Action Failed'')\<close>

definition lease_arg :: "http_req \<Rightarrow> u32" where
  "lease_arg h = (case arg h ''NewLeaseDuration'' of None \<Rightarrow> 0 | Some s \<Rightarrow> word_of_int (atoi s))"

definition AddPortMapping ::
  "('s, 're, 'k, 'h) soap_env \<Rightarrow> http_req \<Rightarrow> string \<Rightarrow> string \<Rightarrow> 's redirect_state \<Rightarrow> http_resp \<times> 's redirect_state" where
  "AddPortMapping E h action ns st =
     (let int_ip0 = (case arg h ''NewInternalClient'' of None \<Rightarrow> [] | Some s \<Rightarrow> dropWhile (\<lambda>c. c = CHR '' '') s);
          r_host = arg h ''NewRemoteHost''
      in if upnp_strict E \<and> int_ip0 = [] then (invalid_args, st)
         else if rhost_refused E r_host then (wildcard_only, st)
         else case (if \<not> upnp_strict E \<and> int_ip0 = [] then Some (clientaddr_str h, clientaddr h)
                    else resolve_client E int_ip0) of
                None \<Rightarrow> (invalid_args, st)
              | Some (int_ip, result_ip) \<Rightarrow>
                  if secure_mode E \<and> clientaddr h \<noteq> result_ip
                  then (if igd_v2 E then not_authorized else SoapError 718 ''ConflictInMappingEntry'', st)
                  else case (arg h ''NewInternalPort'', arg h ''NewExternalPort'', arg h ''NewProtocol'') of
                         (Some int_port, Some ext_port, Some protocol) \<Rightarrow>
                           let eport = word_of_int (atoi ext_port);
                               iport = word_of_int (atoi int_port);
                               leaseduration = (if igd_v2 E \<and> (lease_arg h = 0 \<or> lease_arg h > 604800) then 604800 else lease_arg h)
                           in if ext_port = ''*'' \<or> eport = 0 then (SoapError 716 ''WildCardNotPermittedInExtPort'', st)
                              else (case upnp_redirect (so_redir E) r_host eport int_ip iport protocol
                                           (arg h ''NewPortMappingDescription'') leaseduration st of
                                      (r, st1) \<Rightarrow> (add_answer E action ns r, st1))
                       | _ \<Rightarrow> (invalid_args, st))"

text \<open>
  \<open>AddAnyPortMapping\<close> tries the port of the request, then the ports around it: above, below, and so on
  outwards. The result is the last result of \<open>upnp_redirect\<close> (1 when all ports have been tried), the port and
  the state.
\<close>

definition eport_allowed :: "u32 list \<Rightarrow> u16 \<Rightarrow> bool" where
  "eport_allowed eports eport = (eports ! (unat eport div 32) AND push_bit (unat eport mod 32) 1 \<noteq> 0)"

definition next_around :: "u16 \<Rightarrow> u16 \<Rightarrow> u16 \<Rightarrow> u16 \<times> u16 \<times> u16" where
  "next_around eport eport_below eport_above =
     (if eport_above = 65535 \<or> (eport > eport_below \<and> eport_below > 1) then (eport_below - 1, eport_below - 1, eport_above)
      else (eport_above + 1, eport_below, eport_above + 1))"

function any_port_loop ::
  "(u16 \<Rightarrow> 's redirect_state \<Rightarrow> int \<times> 's redirect_state) \<Rightarrow> u32 list \<Rightarrow> u16 \<Rightarrow> u16 \<Rightarrow> u16 \<Rightarrow> 's redirect_state
   \<Rightarrow> int \<times> u16 \<times> 's redirect_state" where
  "any_port_loop redirect eports eport eport_below eport_above st =
     (if eport_below \<le> 1 \<and> eport_above = 65535 then (1, eport, st)
      else case next_around eport eport_below eport_above of
             (e, b, a) \<Rightarrow>
               if \<not> eport_allowed eports e then any_port_loop redirect eports e b a st
               else case redirect e st of
                      (r1, st1) \<Rightarrow>
                        if r1 = 0 \<or> r1 = -1 then (r1, e, st1) else any_port_loop redirect eports e b a st1)"
  by pat_completeness auto

lemma next_around_decreases:
  assumes "\<not> (eport_below \<le> 1 \<and> eport_above = 65535)" and "next_around eport eport_below eport_above = (e, b, a)"
  shows "unat b + (65535 - unat a) < unat eport_below + (65535 - unat eport_above)"
proof (cases "eport_above = 65535 \<or> (eport > eport_below \<and> eport_below > 1)")
  case True
  then have "eport_below > 1" using assms(1) by auto
  then have "eport_below \<noteq> 0" "1 < unat eport_below" by (auto simp: word_less_nat_alt)
  then have "unat (eport_below - 1) = unat eport_below - 1" by (simp add: unat_minus_one)
  with True assms(2) \<open>1 < unat eport_below\<close> show ?thesis by (auto simp: next_around_def)
next
  case False
  then have "unat eport_above \<noteq> unat (65535 :: u16)" by (simp only: word_unat_eq_iff [symmetric]) simp
  then have "unat eport_above < 65535" using unsigned_less [of eport_above, where 'a = nat] by simp
  then have "unat (eport_above + 1) = unat eport_above + 1" by (simp add: unat_word_ariths)
  with False assms(2) \<open>unat eport_above < 65535\<close> show ?thesis by (auto simp: next_around_def)
qed

termination any_port_loop
  by (relation "measure (\<lambda>(redirect, eports, eport, eport_below, eport_above, st). unat eport_below + (65535 - unat eport_above))")
    (simp_all only: in_measure wf_measure split_conv, (metis next_around_decreases)+)

declare any_port_loop.simps [simp del]

definition any_answer :: "('s, 're, 'k, 'h) soap_env \<Rightarrow> string \<Rightarrow> string \<Rightarrow> int \<Rightarrow> u16 \<Rightarrow> http_resp" where
  "any_answer E action ns r eport =
     (if r = 1 then SoapError 728 ''NoPortMapsAvailable''
      else if r = 0
      then send_body 512 (resp_open action ns @ elt ''NewReservedPort'' (dec (unat eport)) @ resp_close action)
      else if r = -2 then SoapError 718 ''ConflictInMappingEntry''
      else if r = -3 then not_authorized
      else SoapError 501 ''Action Failed'')"

definition any_redirect ::
  "('s, 're) redirect_env \<Rightarrow> string option \<Rightarrow> u16 \<Rightarrow> string \<Rightarrow> u16 \<Rightarrow> string \<Rightarrow> string option \<Rightarrow> u32 \<Rightarrow> 's redirect_state
   \<Rightarrow> int \<times> u16 \<times> 's redirect_state" where
  "any_redirect R r_host eport int_ip iport protocol desc leaseduration st =
     (let redirect = (\<lambda>e. upnp_redirect R r_host e int_ip iport protocol desc leaseduration)
      in case redirect eport st of
           (r, st1) \<Rightarrow>
             if r \<noteq> 0 \<and> r \<noteq> -1
             then any_port_loop redirect
                    (get_permitted_ext_ports (upnppermlist R) (case inet_aton int_ip of None \<Rightarrow> 0 | Some a \<Rightarrow> a) iport)
                    eport eport eport st1
             else (r, eport, st1))"

text \<open>The port that is tried first; a random one when the request has a wildcard or 0.\<close>

definition wanted_port :: "('s, 're, 'k, 'h) soap_env \<Rightarrow> string \<Rightarrow> u16" where
  "wanted_port E ext_port =
     (let eport = (if ext_port = ''*'' then 0 else word_of_int (atoi ext_port))
      in if eport = 0 then of_nat (1024 + random_number E mod 2 ^ 27 mod (65536 - 1024)) else eport)"

definition AddAnyPortMapping ::
  "('s, 're, 'k, 'h) soap_env \<Rightarrow> http_req \<Rightarrow> string \<Rightarrow> string \<Rightarrow> 's redirect_state \<Rightarrow> http_resp \<times> 's redirect_state" where
  "AddAnyPortMapping E h action ns st =
     (case (arg h ''NewInternalClient'', arg h ''NewExternalPort'', arg h ''NewInternalPort'', arg h ''NewProtocol'') of
        (Some int_ip0, Some ext_port, Some int_port, Some protocol) \<Rightarrow>
          let r_host = arg h ''NewRemoteHost'';
              leaseduration = (if lease_arg h = 0 then 604800 else lease_arg h);
              eport = wanted_port E ext_port;
              iport = word_of_int (atoi int_port) :: u16
          in if iport = 0 \<or> (\<not> is_numeric ext_port \<and> ext_port \<noteq> ''*'') then (invalid_args, st)
             else if rhost_refused E r_host then (wildcard_only, st)
             else case resolve_client E int_ip0 of
                    None \<Rightarrow> (invalid_args, st)
                  | Some (int_ip, result_ip) \<Rightarrow>
                      if secure_mode E \<and> clientaddr h \<noteq> result_ip then (not_authorized, st)
                      else (case any_redirect (so_redir E) r_host eport int_ip iport protocol
                                   (arg h ''NewPortMappingDescription'') leaseduration st of
                              (r, e, st1) \<Rightarrow> (any_answer E action ns r e, st1))
      | _ \<Rightarrow> (invalid_args, st))"

definition GetSpecificPortMappingEntry ::
  "('s, 're, 'k, 'h) soap_env \<Rightarrow> http_req \<Rightarrow> string \<Rightarrow> string \<Rightarrow> 's redirect_state \<Rightarrow> http_resp" where
  "GetSpecificPortMappingEntry E h action ns st =
     (case (arg h ''NewExternalPort'', arg h ''NewProtocol'') of
        (Some ext_port, Some protocol) \<Rightarrow>
          let r_host = arg h ''NewRemoteHost''; eport = word_of_int (atoi ext_port)
          in if upnp_strict E \<and> r_host = None then invalid_args
             else if rhost_refused E r_host then wildcard_only
             else if eport = 0 then invalid_args
             else case upnp_get_redirection_infos (so_redir E) eport protocol 32 (desc_size E) 0 st of
                    None \<Rightarrow> SoapError 714 ''NoSuchEntryInArray''
                  | Some (info, _, leaseduration) \<Rightarrow>
                      send_body (512 + desc_size E)
                        (resp_open action ns @ elt ''NewInternalPort'' (dec (unat (info_iport info)))
                         @ elt ''NewInternalClient'' (info_iaddr info) @ elt ''NewEnabled'' ''1''
                         @ elt ''NewPortMappingDescription'' (shown_desc E (info_desc info))
                         @ elt ''NewLeaseDuration'' (dec (unat leaseduration)) @ resp_close action)
      | _ \<Rightarrow> invalid_args)"

definition DeletePortMapping ::
  "('s, 're, 'k, 'h) soap_env \<Rightarrow> http_req \<Rightarrow> string \<Rightarrow> string \<Rightarrow> 's redirect_state \<Rightarrow> http_resp \<times> 's redirect_state" where
  "DeletePortMapping E h action ns st =
     (case (arg h ''NewExternalPort'', arg h ''NewProtocol'') of
        (Some ext_port, Some protocol) \<Rightarrow>
          let r_host = arg h ''NewRemoteHost''; eport = word_of_int (atoi ext_port)
          in if upnp_strict E \<and> r_host = None then (invalid_args, st)
             else if rhost_refused E r_host then (wildcard_only, st)
             else if eport = 0 then (invalid_args, st)
             else if secure_mode E
                     \<and> (case upnp_get_redirection_infos (so_redir E) eport protocol 32 0 0 st of
                          None \<Rightarrow> False
                        | Some (info, _, _) \<Rightarrow>
                            (case inet_pton (info_iaddr info) of None \<Rightarrow> False | Some a \<Rightarrow> clientaddr h \<noteq> a))
             then (if igd_v2 E then not_authorized else SoapError 714 ''NoSuchEntryInArray'', st)
             else (case upnp_delete_redirection (so_redir E) eport protocol st of
                     (r, st1) \<Rightarrow>
                       (if r < 0 then SoapError 714 ''NoSuchEntryInArray''
                        else send_body 512 (resp_open action ns @ resp_close action), st1))
      | _ \<Rightarrow> (invalid_args, st))"

text \<open>The two actions on a range of ports; the order of their checks is the same.\<close>

definition DeletePortMappingRange ::
  "('s, 're, 'k, 'h) soap_env \<Rightarrow> http_req \<Rightarrow> string \<Rightarrow> string \<Rightarrow> 's redirect_state \<Rightarrow> http_resp \<times> 's redirect_state" where
  "DeletePortMappingRange E h action ns st =
     (case (arg h ''NewStartPort'', arg h ''NewEndPort'', arg h ''NewProtocol'') of
        (Some startport_s, Some endport_s, Some protocol) \<Rightarrow>
          let startport = word_of_int (atoi startport_s) :: u16; endport = word_of_int (atoi endport_s)
          in if \<not> is_numeric startport_s \<or> \<not> is_numeric endport_s then (invalid_args, st)
             else if startport > endport then (SoapError 733 ''InconsistentParameter'', st)
             else let ports = (case upnp_get_portmappings_in_range (so_redir E) startport endport protocol st of
                                 None \<Rightarrow> [] | Some ps \<Rightarrow> ps)
                  in if ports = [] then (SoapError 730 ''PortMappingNotFound'', st)
                     else (send_body 512 (resp_open action ns @ resp_close action),
                           fold (\<lambda>p s. snd (upnp_delete_redirection (so_redir E) p protocol s)) ports st)
      | _ \<Rightarrow> (invalid_args, st))"

text \<open>
  \<open>strtol\<close> with base 10 or, for \<open>auto\<close>, the base that the prefix tells: the value saturated to 64 bits,
  the rest of the string (the whole string when there is no digit) and whether \<open>errno\<close> is \<open>ERANGE\<close>.
\<close>

definition strtol :: "bool \<Rightarrow> string \<Rightarrow> int \<times> string \<times> bool" where
  "strtol auto s =
     (let t = dropWhile isspace s;
          neg = (t \<noteq> [] \<and> hd t = CHR ''-'');
          u = (if t \<noteq> [] \<and> (hd t = CHR ''-'' \<or> hd t = CHR ''+'') then tl t else t);
          (p, b, v) = (if auto \<and> length u \<ge> 3 \<and> hd u = CHR ''0'' \<and> (u ! 1 = CHR ''x'' \<or> u ! 1 = CHR ''X'') \<and> isxdigit (u ! 2)
                       then (isxdigit, 16, drop 2 u)
                       else if auto \<and> u \<noteq> [] \<and> hd u = CHR ''0'' then (isodigit_c, 8, u)
                       else (isdigit, 10, u));
          m = (if neg then - int (base_val b (takeWhile p v)) else int (base_val b (takeWhile p v)))
      in if takeWhile p v = [] then (0, s, False)
         else (max (- (2 ^ 63)) (min (2 ^ 63 - 1) m), dropWhile p v, m < - (2 ^ 63) \<or> m > 2 ^ 63 - 1))"

definition GetGenericPortMappingEntry ::
  "('s, 're, 'k, 'h) soap_env \<Rightarrow> http_req \<Rightarrow> string \<Rightarrow> string \<Rightarrow> 's redirect_state \<Rightarrow> http_resp" where
  "GetGenericPortMappingEntry E h action ns st =
     (case arg h ''NewPortMappingIndex'' of None \<Rightarrow> invalid_args
      | Some m_index \<Rightarrow>
          (case strtol False m_index of
             (index, endptr, erange) \<Rightarrow>
               if erange \<or> endptr = m_index then invalid_args
               else let i = sint (word_of_int index :: u32)
                    in case (if i < 0 then None
                             else upnp_get_redirection_infos_by_index (so_redir E) (nat i) 32 (desc_size E) 40 st) of
                         None \<Rightarrow> SoapError 713 ''SpecifiedArrayIndexInvalid''
                       | Some (eport, protocol, info, leaseduration) \<Rightarrow>
                           send_body (512 + desc_size E)
                             (resp_open action ns
                              @ elt ''NewRemoteHost'' (case info_rhost info of None \<Rightarrow> [] | Some r \<Rightarrow> r)
                              @ elt ''NewExternalPort'' (dec (unat eport)) @ elt ''NewProtocol'' protocol
                              @ elt ''NewInternalPort'' (dec (unat (info_iport info)))
                              @ elt ''NewInternalClient'' (info_iaddr info) @ elt ''NewEnabled'' ''1''
                              @ elt ''NewPortMappingDescription'' (shown_desc E (info_desc info))
                              @ elt ''NewLeaseDuration'' (dec (unat leaseduration)) @ resp_close action)))"

text \<open>
  \<open>GetListOfPortMappings\<close> grows its buffer in steps of 4096 bytes. The loop has the text and the size of the
  buffer; an entry that does not fit is left out. The two \<open>memcpy\<close> do not check the size.
\<close>

definition list_start :: string where
  \<open>list_start = ''<p:PortMappingList xmlns:p="urn:schemas-upnp-org:gw:WANIPConnection"''
     @ '' xmlns:xsi="http://www.w3.org/2001/XMLSchema-instance"''
     @ '' xsi:schemaLocation="urn:schemas-upnp-org:gw:WANIPConnection''
     @ '' http://www.upnp.org/schemas/gw/WANIPConnection-v2.xsd">''\<close>

definition list_end :: string where
  "list_end = ''</p:PortMappingList>''"

definition list_entry :: "string \<Rightarrow> u16 \<Rightarrow> string \<Rightarrow> u16 \<Rightarrow> string \<Rightarrow> string \<Rightarrow> u32 \<Rightarrow> string" where
  "list_entry rhost eport protocol iport int_ip desc leaseduration =
     elt ''p:PortMappingEntry''
       (elt ''p:NewRemoteHost'' rhost @ elt ''p:NewExternalPort'' (dec (unat eport)) @ elt ''p:NewProtocol'' protocol
        @ elt ''p:NewInternalPort'' (dec (unat iport)) @ elt ''p:NewInternalClient'' int_ip @ elt ''p:NewEnabled'' ''1''
        @ elt ''p:NewDescription'' desc @ elt ''p:NewLeaseTime'' (dec (unat leaseduration)))"

fun list_loop ::
  "('s, 're, 'k, 'h) soap_env \<Rightarrow> string \<Rightarrow> 's redirect_state \<Rightarrow> int \<Rightarrow> u16 list \<Rightarrow> string \<Rightarrow> nat \<Rightarrow> string \<times> nat" where
  "list_loop E protocol st number [] text bodyalloc = (text, bodyalloc)"
| "list_loop E protocol st number (p # ps) text bodyalloc =
     (if number \<le> 0 then (text, bodyalloc)
      else let alloc = (if length text + 1024 + desc_size E > bodyalloc then bodyalloc + 4096 else bodyalloc)
           in case upnp_get_redirection_infos (so_redir E) p protocol 32 (desc_size E) 64 st of
                None \<Rightarrow> list_loop E protocol st number ps text alloc
              | Some (info, rhost, leaseduration) \<Rightarrow>
                  let entry = list_entry rhost p protocol (info_iport info) (info_iaddr info)
                                (shown_desc E (info_desc info)) leaseduration
                  in if length entry \<ge> alloc - length text then list_loop E protocol st number ps text alloc
                     else list_loop E protocol st (number - 1) ps (text @ entry) alloc)"

definition list_answer ::
  "('s, 're, 'k, 'h) soap_env \<Rightarrow> string \<Rightarrow> string \<Rightarrow> string \<Rightarrow> int \<Rightarrow> u16 list \<Rightarrow> 's redirect_state \<Rightarrow> http_resp option" where
  "list_answer E action ns protocol number ports st =
     (let start = resp_open action ns @ ''<NewPortListing><![CDATA['';
          finish = '']]></NewPortListing>'' @ resp_close action
      in if length start \<ge> 4096 then Some (SoapError 501 ''Action Failed'')
         else if length start + length list_start + 1 > 4096 then None
         else case list_loop E protocol st number ports (start @ list_start) 4096 of
                (text, bodyalloc) \<Rightarrow>
                  let alloc = (if length text + length list_end + 1 + 1024 > bodyalloc
                               then bodyalloc + length list_end + 1 + 1024 else bodyalloc)
                  in if length text + length list_end + 1 > alloc then None
                     else if length finish \<ge> alloc - length (text @ list_end) then Some (SoapError 501 ''Action Failed'')
                     else Some (BuildSendAndCloseSoapResp (text @ list_end @ finish)))"

definition GetListOfPortMappings ::
  "('s, 're, 'k, 'h) soap_env \<Rightarrow> http_req \<Rightarrow> string \<Rightarrow> string \<Rightarrow> 's redirect_state \<Rightarrow> http_resp option" where
  "GetListOfPortMappings E h action ns st =
     (case (arg h ''NewStartPort'', arg h ''NewEndPort'', arg h ''NewProtocol'', arg h ''NewNumberOfPorts'') of
        (Some startport_s, Some endport_s, Some protocol, Some number_s) \<Rightarrow>
          let startport = word_of_int (atoi startport_s) :: u16; endport = word_of_int (atoi endport_s);
              number = (if atoi number_s = 0 then 1000 else atoi number_s)
          in if \<not> is_numeric number_s \<or> \<not> is_numeric startport_s \<or> \<not> is_numeric endport_s then Some invalid_args
             else if startport > endport then Some (SoapError 733 ''InconsistentParameter'')
             else list_answer E action ns protocol number
                    (case upnp_get_portmappings_in_range (so_redir E) startport endport protocol st of
                       None \<Rightarrow> [] | Some ps \<Rightarrow> ps) st
      | _ \<Rightarrow> Some invalid_args)"

section \<open>State variables and the connection\<close>

definition QueryStateVariable ::
  "('s, 're, 'k, 'h) soap_env \<Rightarrow> http_req \<Rightarrow> string \<Rightarrow> string \<Rightarrow> 's redirect_state \<Rightarrow> http_resp option" where
  "QueryStateVariable E h action ns st =
     (let answer = (\<lambda>v. send_body 512 (resp_open action ns @ elt ''return'' v @ resp_close action))
      in case arg h ''varName'' of None \<Rightarrow> Some invalid_args
         | Some var_name \<Rightarrow>
             if var_name = ''ConnectionStatus'' then Some (answer (wan_connection_status E))
             else if var_name = ''PortMappingNumberOfEntries''
             then map_option (\<lambda>n. answer (bounded_copy 10 (dec n))) (upnp_get_portmapping_number_of_entries (so_redir E) st)
             else Some (SoapError 404 ''Invalid Var''))"

definition GetConnectionTypeInfo :: "string \<Rightarrow> string \<Rightarrow> http_resp" where
  "GetConnectionTypeInfo action ns =
     send_body 512 (resp_open action ns @ elt ''NewConnectionType'' ''IP_Routed''
       @ elt ''NewPossibleConnectionTypes'' ''IP_Routed'' @ resp_close action)"

definition if_counter :: "('s, 're, 'k, 'h) soap_env \<Rightarrow> (ifdata \<Rightarrow> nat) \<Rightarrow> string" where
  "if_counter E f =
     dec (case getifstats E of None \<Rightarrow> 0 | Some d \<Rightarrow> if upnp_strict E then f d mod 2 ^ 32 else f d)"

definition GetTotal :: "('s, 're, 'k, 'h) soap_env \<Rightarrow> string \<Rightarrow> (ifdata \<Rightarrow> nat) \<Rightarrow> string \<Rightarrow> string \<Rightarrow> http_resp" where
  "GetTotal E name f action ns = send_body 512 (resp_open action ns @ elt name (if_counter E f) @ resp_close action)"

definition GetCommonLinkProperties ::
  "('s, 're, 'k, 'h) soap_env \<Rightarrow> string \<Rightarrow> string \<Rightarrow> ('s, 'k) soap_state \<Rightarrow> http_resp \<times> ('s, 'k) soap_state" where
  "GetCommonLinkProperties E action ns st =
     (let st1 = (case getifstats E of None \<Rightarrow> st
                 | Some d \<Rightarrow>
                     st\<lparr>downstream_bitrate := (if downstream_bitrate st = 0 then baudrate d else downstream_bitrate st),
                       upstream_bitrate := (if upstream_bitrate st = 0 then baudrate d else upstream_bitrate st)\<rparr>);
          link = (case getifaddr (if_list (so_nat E)) (ext_if_name (so_nat E)) of Inl _ \<Rightarrow> ''Down'' | Inr _ \<Rightarrow> ''Up'')
      in (send_body 2048 (resp_open action ns @ elt ''NewWANAccessType'' ''Cable''
            @ elt ''NewLayer1UpstreamMaxBitRate'' (dec (upstream_bitrate st1))
            @ elt ''NewLayer1DownstreamMaxBitRate'' (dec (downstream_bitrate st1))
            @ elt ''NewPhysicalLinkStatus'' link @ resp_close action), st1))"

definition GetStatusInfo :: "('s, 're, 'k, 'h) soap_env \<Rightarrow> string \<Rightarrow> string \<Rightarrow> http_resp" where
  "GetStatusInfo E action ns =
     send_body 512 (resp_open action ns @ elt ''NewConnectionStatus'' (wan_connection_status E)
       @ elt ''NewLastConnectionError'' ''ERROR_NONE'' @ elt ''NewUptime'' (dec (uptime E)) @ resp_close action)"

definition GetNATRSIPStatus :: "string \<Rightarrow> string \<Rightarrow> http_resp" where
  "GetNATRSIPStatus action ns =
     send_body 512 (resp_open action ns @ elt ''NewRSIPAvailable'' ''0'' @ elt ''NewNATEnabled'' ''1'' @ resp_close action)"

definition external_ip :: "('s, 're, 'k, 'h) soap_env \<Rightarrow> in_addr \<Rightarrow> string" where
  "external_ip E client =
     (if \<not> multiple_external_ip (so_nat E)
      then case use_ext_ip_addr (so_nat E) of
             Some s \<Rightarrow> bounded_copy 16 s
           | None \<Rightarrow>
               (case getifaddr (if_list (so_nat E)) (ext_if_name (so_nat E)) of
                  Inl _ \<Rightarrow> []
                | Inr (addr, _) \<Rightarrow>
                    if addr_is_reserved addr \<and> \<not> allow_private_ipv4 (so_nat E) then [] else inet_ntop addr)
      else case find (\<lambda>l. client AND la_mask l = la_addr l AND la_mask l) (lan_addrs (so_nat E)) of
             None \<Rightarrow> []
           | Some l \<Rightarrow> lan_ext_ip_str E l)"

definition GetExternalIPAddress :: "('s, 're, 'k, 'h) soap_env \<Rightarrow> http_req \<Rightarrow> string \<Rightarrow> string \<Rightarrow> http_resp" where
  "GetExternalIPAddress E h action ns =
     (let ext_ip_addr = external_ip E (clientaddr h)
      in send_body 512 (resp_open action ns
           @ elt ''NewExternalIPAddress'' (if ext_ip_addr = ''0.0.0.0'' then [] else ext_ip_addr) @ resp_close action))"

definition SetConnectionType :: "('s, 're, 'k, 'h) soap_env \<Rightarrow> http_req \<Rightarrow> http_resp" where
  "SetConnectionType E h =
     (if upnp_strict E \<and> arg h ''NewConnectionType'' = None then invalid_args else SoapError 731 ''ReadOnly'')"

definition RequestConnection :: http_resp where
  "RequestConnection = not_authorized"

definition ForceTermination :: http_resp where
  "ForceTermination = not_authorized"

text \<open>The service identifier that follows the first comma has to be that of the connection.\<close>

definition SERVICE_ID_WANIPC :: string where
  "SERVICE_ID_WANIPC = ''urn:upnp-org:serviceId:WANIPConn1''"

definition SetDefaultConnectionService ::
  "('s, 're, 'k, 'h) soap_env \<Rightarrow> http_req \<Rightarrow> string \<Rightarrow> string \<Rightarrow> http_resp" where
  "SetDefaultConnectionService E h action ns =
     (case arg h ''NewDefaultConnectionService'' of None \<Rightarrow> invalid_args
      | Some p \<Rightarrow>
          let service = dropWhile (\<lambda>c. c \<noteq> CHR '','') p
          in if upnp_strict E \<and> take 41 (uuidvalue_wcd E) \<noteq> take 41 p then SoapError 720 ''InvalidDeviceUUID''
             else if upnp_strict E \<and> (service = [] \<or> tl service \<noteq> SERVICE_ID_WANIPC) then SoapError 721 ''InvalidServiceID''
             else send_body 512 (resp_open action ns @ resp_close action))"

definition GetDefaultConnectionService :: "('s, 're, 'k, 'h) soap_env \<Rightarrow> string \<Rightarrow> string \<Rightarrow> http_resp" where
  "GetDefaultConnectionService E action ns =
     send_body 1024 (resp_open action ns
       @ elt ''NewDefaultConnectionService''
           (uuidvalue_wcd E @ (if igd_v2 E then '':WANConnectionDevice:2,'' else '':WANConnectionDevice:1,'') @ SERVICE_ID_WANIPC)
       @ resp_close action)"

section \<open>IPv6 firewall control\<close>

definition GetFirewallStatus :: "('s, 're, 'k, 'h) soap_env \<Rightarrow> string \<Rightarrow> string \<Rightarrow> http_resp" where
  "GetFirewallStatus E action ns =
     send_body 512 (resp_open action ns @ elt ''FirewallEnabled'' (if ipv6fc_fw_disabled E then ''0'' else ''1'')
       @ elt ''InboundPinholeAllowed'' (if ipv6fc_inbound_disallowed E then ''0'' else ''1'') @ resp_close action)"

text \<open>The answer of a failing check, or \<^const>\<open>None\<close> when the check passes.\<close>

definition CheckStatus :: "('s, 're, 'k, 'h) soap_env \<Rightarrow> http_resp option" where
  "CheckStatus E =
     (if ipv6fc_fw_disabled E then Some (SoapError 702 ''FirewallDisabled'')
      else if ipv6fc_inbound_disallowed E then Some (SoapError 703 ''InboundPinholeNotAllowed'')
      else None)"

definition pinhole_access :: "http_req \<Rightarrow> in6_addr \<Rightarrow> u16 \<Rightarrow> http_resp option" where
  "pinhole_access h result_ip int_port =
     (if clientaddr_v6 h \<noteq> result_ip then Some not_authorized
      else if int_port < 1024 then Some not_authorized else None)"

text \<open>\<open>PinholeVerification\<close> with a buffer for the resolved address: the answer that refuses, or the address.\<close>

definition PinholeVerification_resolve ::
  "('s, 're, 'k, 'h) soap_env \<Rightarrow> http_req \<Rightarrow> string \<Rightarrow> u16 \<Rightarrow> http_resp + string" where
  "PinholeVerification_resolve E h int_ip int_port =
     (case (case inet_pton6 int_ip of
              Some a \<Rightarrow> Some (a, bounded_copy 46 int_ip)
            | None \<Rightarrow> (case getaddrinfo E int_ip of Some (a # _) \<Rightarrow> Some (a, inet_ntop6 a) | _ \<Rightarrow> None)) of
        None \<Rightarrow> Inl invalid_args
      | Some (result_ip, int_ip_resolved) \<Rightarrow>
          (case pinhole_access h result_ip int_port of Some e \<Rightarrow> Inl e | None \<Rightarrow> Inr int_ip_resolved))"

text \<open>And without one; the address is that of a pinhole.\<close>

definition PinholeVerification :: "http_req \<Rightarrow> string \<Rightarrow> u16 \<Rightarrow> http_resp option" where
  "PinholeVerification h int_ip int_port =
     (case inet_pton6 int_ip of None \<Rightarrow> Some (SoapError 501 ''Action Failed'')
      | Some result_ip \<Rightarrow> pinhole_access h result_ip int_port)"

definition remote_host6 :: "('s, 're, 'k, 'h) soap_env \<Rightarrow> string option \<Rightarrow> string option \<Rightarrow> string option" where
  "remote_host6 E rem_host0 rem_port =
     (case map_option (dropWhile isspace) rem_host0 of None \<Rightarrow> None
      | Some rem_host \<Rightarrow>
          if rem_host = [] \<or> hd rem_host = CHR ''*'' then Some rem_host
          else (case getaddrinfo_port E rem_host rem_port of
                  Some (a # _) \<Rightarrow> Some (inet_ntop6 a) | _ \<Rightarrow> Some rem_host))"

definition AddPinhole ::
  "('s, 're, 'k, 'h) soap_env \<Rightarrow> http_req \<Rightarrow> string \<Rightarrow> string \<Rightarrow> 'k upnp6_state \<Rightarrow> (http_resp \<times> 'k upnp6_state) option" where
  "AddPinhole E h action ns st =
     (let rem_port = arg h ''RemotePort''; int_port = arg h ''InternalPort'';
          int_ip = (case arg h ''InternalClient'' of None \<Rightarrow> [] | Some s \<Rightarrow> s);
          rport = (case rem_port of None \<Rightarrow> 0 | Some s \<Rightarrow> word_of_int (atoi s)) :: u16;
          iport = (case int_port of None \<Rightarrow> 0 | Some s \<Rightarrow> word_of_int (atoi s)) :: u16;
          ltime = (case arg h ''LeaseTime'' of None \<Rightarrow> -1 | Some s \<Rightarrow> atoi s);
          (proto, erange) = (case arg h ''Protocol'' of None \<Rightarrow> (-1, False)
                             | Some s \<Rightarrow> (case strtol True s of (v, _, e) \<Rightarrow> (v, e)))
      in case CheckStatus E of Some e \<Rightarrow> Some (e, st)
         | None \<Rightarrow>
             if upnp_strict E \<and> (rem_port = None \<or> rem_port = Some [] \<or> int_port = None \<or> int_port = Some [])
             then Some (invalid_args, st)
             else if erange \<or> proto > 65535 \<or> proto < 0 then Some (invalid_args, st)
             else if iport = 0 then Some (SoapError 706 ''InternalPortWilcardingNotAllowed'', st)
             else if int_ip = [] \<or> int_ip = ''*'' then Some (SoapError 708 ''WildCardNotPermittedInSrcIP'', st)
             else let rem_host = remote_host6 E (arg h ''RemoteHost'') rem_port
                  in if proto = 65535 then Some (SoapError 707 ''ProtocolWilcardingNotAllowed'', st)
                     else if proto \<noteq> 17 \<and> proto \<noteq> 6 then Some (SoapError 705 ''ProtocolNotSupported'', st)
                     else if ltime < 1 \<or> ltime > 86400 then Some (invalid_args, st)
                     else case PinholeVerification_resolve E h int_ip iport of
                            Inl e \<Rightarrow> Some (e, st)
                          | Inr int_ip_resolved \<Rightarrow>
                              map_option (\<lambda>(r, uid, st1).
                                  (if r = 1
                                   then send_body 512 (resp_open action ns @ elt ''UniqueID'' (dec (nat uid)) @ resp_close action)
                                   else if r = -1 then SoapError 701 ''PinholeSpaceExhausted''
                                   else SoapError 501 ''Action Failed'', st1))
                                (upnp_add_inboundpinhole (so_ip6 E) (so_pin E) (buf2_stack (sv E)) rem_host rport int_ip_resolved
                                   iport (word_of_int proto) ''IGD2 pinhole'' (word_of_int ltime) 0 st))"

text \<open>
  The actions on an existing pinhole start alike: the identifier is read, and the pinhole has to exist and
  be one of the client. The first result is the answer of a failing check.
\<close>

definition pinhole_uid :: "http_req \<Rightarrow> int" where
  "pinhole_uid h = (case arg h ''UniqueID'' of None \<Rightarrow> -1 | Some s \<Rightarrow> atoi s)"

definition own_pinhole ::
  "('s, 're, 'k, 'h) soap_env \<Rightarrow> http_req \<Rightarrow> u16 \<Rightarrow> u64 option \<Rightarrow> 'k upnp6_state \<Rightarrow> http_resp + u32 option" where
  "own_pinhole E h uid packets st =
     (case upnp_get_pinhole_info (so_ip6 E) (so_pin E) uid [] 0 46 0 packets st of
        Inr (info, _, pk) \<Rightarrow>
          (case PinholeVerification h (pi_int_client info) (pi_int_port info) of Some e \<Rightarrow> Inl e | None \<Rightarrow> Inr pk)
      | Inl n \<Rightarrow> Inl (if n = -2 then SoapError 704 ''NoSuchEntry'' else SoapError 501 ''Action Failed''))"

definition UpdatePinhole ::
  "('s, 're, 'k, 'h) soap_env \<Rightarrow> http_req \<Rightarrow> string \<Rightarrow> string \<Rightarrow> 'k upnp6_state \<Rightarrow> http_resp \<times> 'k upnp6_state" where
  "UpdatePinhole E h action ns st =
     (let uid = pinhole_uid h; ltime = (case arg h ''NewLeaseTime'' of None \<Rightarrow> -1 | Some s \<Rightarrow> atoi s)
      in case CheckStatus E of Some e \<Rightarrow> (e, st)
         | None \<Rightarrow>
             if uid < 0 \<or> uid > 65535 \<or> ltime \<le> 0 \<or> ltime > 86400 then (invalid_args, st)
             else case own_pinhole E h (word_of_int uid) None st of
                    Inl e \<Rightarrow> (e, st)
                  | Inr _ \<Rightarrow>
                      (case upnp_update_inboundpinhole (so_pin E) (word_of_int uid) (word_of_int ltime) st of
                         (n, st1) \<Rightarrow>
                           (if n = -1 then SoapError 704 ''NoSuchEntry''
                            else if n < 0 then SoapError 501 ''Action Failed''
                            else send_body 512 (resp_open action ns @ resp_close action), st1)))"

definition GetOutboundPinholeTimeout :: "('s, 're, 'k, 'h) soap_env \<Rightarrow> http_req \<Rightarrow> http_resp" where
  "GetOutboundPinholeTimeout E h =
     (if ipv6fc_fw_disabled E then SoapError 702 ''FirewallDisabled''
      else if arg h ''InternalPort'' = None \<or> arg h ''RemotePort'' = None \<or> arg h ''Protocol'' = None then invalid_args
      else SoapError 501 ''Action Failed'')"

definition DeletePinhole ::
  "('s, 're, 'k, 'h) soap_env \<Rightarrow> http_req \<Rightarrow> string \<Rightarrow> string \<Rightarrow> 'k upnp6_state \<Rightarrow> (http_resp \<times> 'k upnp6_state) option" where
  "DeletePinhole E h action ns st =
     (let uid = pinhole_uid h
      in case CheckStatus E of Some e \<Rightarrow> Some (e, st)
         | None \<Rightarrow>
             if uid < 0 \<or> uid > 65535 then Some (invalid_args, st)
             else case own_pinhole E h (word_of_int uid) None st of
                    Inl e \<Rightarrow> Some (e, st)
                  | Inr _ \<Rightarrow>
                      map_option (\<lambda>(n, st1).
                          (if n < 0 then SoapError 501 ''Action Failed''
                           else send_body 512 (resp_open action ns @ resp_close action), st1))
                        (upnp_delete_inboundpinhole (so_ip6 E) (so_pin E) (buf2_stack (sv E)) (word_of_int uid) st))"

definition CheckPinholeWorking ::
  "('s, 're, 'k, 'h) soap_env \<Rightarrow> http_req \<Rightarrow> string \<Rightarrow> string \<Rightarrow> 'k upnp6_state \<Rightarrow> http_resp" where
  "CheckPinholeWorking E h action ns st =
     (let uid = pinhole_uid h
      in case CheckStatus E of Some e \<Rightarrow> e
         | None \<Rightarrow>
             if uid < 0 \<or> uid > 65535 then invalid_args
             else case own_pinhole E h (word_of_int uid) (Some (stack_packets E)) st of
                    Inl e \<Rightarrow> e
                  | Inr packets \<Rightarrow>
                      if packets = Some 0 then SoapError 709 ''NoTrafficReceived''
                      else send_body 512 (resp_open action ns @ elt ''IsWorking'' ''1'' @ resp_close action))"

text \<open>\<open>GetPinholePackets\<close> does not report a pinhole that does not exist.\<close>

definition GetPinholePackets ::
  "('s, 're, 'k, 'h) soap_env \<Rightarrow> http_req \<Rightarrow> string \<Rightarrow> string \<Rightarrow> 'k upnp6_state \<Rightarrow> http_resp" where
  "GetPinholePackets E h action ns st =
     (let uid = pinhole_uid h;
          answer = (\<lambda>packets :: u32. send_body 512 (resp_open action ns @ elt ''PinholePackets'' (dec (unat packets)) @ resp_close action))
      in case CheckStatus E of Some e \<Rightarrow> e
         | None \<Rightarrow>
             if uid < 0 \<or> uid > 65535 then invalid_args
             else case upnp_get_pinhole_info (so_ip6 E) (so_pin E) (word_of_int uid) [] 0 46 0 (Some (stack_packets E)) st of
                    Inl _ \<Rightarrow> answer 0
                  | Inr (info, _, pk) \<Rightarrow>
                      (case PinholeVerification h (pi_int_client info) (pi_int_port info) of
                         Some e \<Rightarrow> e
                       | None \<Rightarrow> answer (case pk of None \<Rightarrow> 0 | Some n \<Rightarrow> n)))"

section \<open>Device protection\<close>

definition SendSetupMessage :: "http_req \<Rightarrow> string \<Rightarrow> string \<Rightarrow> http_resp" where
  "SendSetupMessage h action ns =
     (case (arg h ''ProtocolType'', arg h ''InMessage'') of
        (Some ProtocolType, Some _) \<Rightarrow>
          if ProtocolType \<noteq> ''WPS'' then SoapError 600 ''Argument Value Invalid''
          else send_body 1024 (resp_open action ns @ elt ''OutMessage'' [] @ resp_close action)
      | _ \<Rightarrow> invalid_args)"

definition ProtocolList :: string where
  \<open>ProtocolList = ''<?xml version="1.0" encoding="UTF-8"?>'' @ [CHR 0x0A]
     @ ''<SupportedProtocols xmlns="urn:schemas-upnp-org:gw:DeviceProtection"''
     @ '' xmlns:xsi="http://www.w3.org/2001/XMLSchema-instance"''
     @ '' xsi:schemaLocation="urn:schemas-upnp-org:gw:DeviceProtection''
     @ '' http://www.upnp.org/schemas/gw/DeviceProtection-v1.xsd">''
     @ ''<Introduction><Name>WPS</Name></Introduction><Login><Name>PKCS5</Name></Login></SupportedProtocols>''\<close>

definition GetSupportedProtocols :: "string \<Rightarrow> string \<Rightarrow> http_resp" where
  "GetSupportedProtocols action ns =
     send_body 1024 (resp_open action ns @ elt ''ProtocolList'' (''<![CDATA['' @ ProtocolList @ '']]>'') @ resp_close action)"

definition GetAssignedRoles :: "http_req \<Rightarrow> string \<Rightarrow> string \<Rightarrow> http_resp" where
  "GetAssignedRoles h action ns =
     send_body 1024 (resp_open action ns
       @ elt ''RoleList'' (if peer_certificate h then ''Admin Basic'' else ''Public'') @ resp_close action)"

section \<open>The table of actions\<close>

type_synonym ('s, 'k) soap_handler =
  "http_req \<Rightarrow> string \<Rightarrow> string \<Rightarrow> ('s, 'k) soap_state \<Rightarrow> (http_resp \<times> ('s, 'k) soap_state) option"

text \<open>Handlers that only read, that work on the port mappings, and that work on the pinholes.\<close>

definition reading :: "(http_req \<Rightarrow> string \<Rightarrow> string \<Rightarrow> ('s, 'k) soap_state \<Rightarrow> http_resp) \<Rightarrow> ('s, 'k) soap_handler" where
  "reading f h action ns st = Some (f h action ns st, st)"

definition on_redirect ::
  "(http_req \<Rightarrow> string \<Rightarrow> string \<Rightarrow> 's redirect_state \<Rightarrow> http_resp \<times> 's redirect_state) \<Rightarrow> ('s, 'k) soap_handler" where
  "on_redirect f h action ns st =
     (case f h action ns (rst_of (gw st)) of (resp, r) \<Rightarrow> Some (resp, st\<lparr>gw := set_rst r (gw st)\<rparr>))"

definition on_pinholes ::
  "(http_req \<Rightarrow> string \<Rightarrow> string \<Rightarrow> 'k upnp6_state \<Rightarrow> (http_resp \<times> 'k upnp6_state) option) \<Rightarrow> ('s, 'k) soap_handler" where
  "on_pinholes f h action ns st =
     map_option (\<lambda>(resp, p). (resp, st\<lparr>gw := (gw st)\<lparr>pin_state := p\<rparr>\<rparr>)) (f h action ns (pin_state (gw st)))"

abbreviation rst6 :: "('s, 'k) soap_state \<Rightarrow> 's redirect_state" where
  "rst6 st \<equiv> rst_of (gw st)"

definition wan_methods :: "('s, 're, 'k, 'h) soap_env \<Rightarrow> (string \<times> ('s, 'k) soap_handler) list" where
  "wan_methods E =
     [(''QueryStateVariable'', \<lambda>h a ns st. map_option (\<lambda>r. (r, st)) (QueryStateVariable E h a ns (rst6 st))),
      (''GetTotalBytesSent'', reading (\<lambda>h a ns st. GetTotal E ''NewTotalBytesSent'' obytes a ns)),
      (''GetTotalBytesReceived'', reading (\<lambda>h a ns st. GetTotal E ''NewTotalBytesReceived'' ibytes a ns)),
      (''GetTotalPacketsSent'', reading (\<lambda>h a ns st. GetTotal E ''NewTotalPacketsSent'' opackets a ns)),
      (''GetTotalPacketsReceived'', reading (\<lambda>h a ns st. GetTotal E ''NewTotalPacketsReceived'' ipackets a ns)),
      (''GetCommonLinkProperties'', \<lambda>h a ns st. Some (GetCommonLinkProperties E a ns st)),
      (''GetStatusInfo'', reading (\<lambda>h a ns st. GetStatusInfo E a ns)),
      (''GetConnectionTypeInfo'', reading (\<lambda>h a ns st. GetConnectionTypeInfo a ns)),
      (''GetNATRSIPStatus'', reading (\<lambda>h a ns st. GetNATRSIPStatus a ns)),
      (''GetExternalIPAddress'', reading (\<lambda>h a ns st. GetExternalIPAddress E h a ns)),
      (''AddPortMapping'', on_redirect (AddPortMapping E)),
      (''DeletePortMapping'', on_redirect (DeletePortMapping E)),
      (''GetGenericPortMappingEntry'', reading (\<lambda>h a ns st. GetGenericPortMappingEntry E h a ns (rst6 st))),
      (''GetSpecificPortMappingEntry'', reading (\<lambda>h a ns st. GetSpecificPortMappingEntry E h a ns (rst6 st))),
      (''SetConnectionType'', reading (\<lambda>h a ns st. SetConnectionType E h)),
      (''RequestConnection'', reading (\<lambda>h a ns st. RequestConnection)),
      (''ForceTermination'', reading (\<lambda>h a ns st. ForceTermination)),
      (''AddAnyPortMapping'', on_redirect (AddAnyPortMapping E)),
      (''DeletePortMappingRange'', on_redirect (DeletePortMappingRange E)),
      (''GetListOfPortMappings'', \<lambda>h a ns st. map_option (\<lambda>r. (r, st)) (GetListOfPortMappings E h a ns (rst6 st)))]"

definition l3f_methods :: "('s, 're, 'k, 'h) soap_env \<Rightarrow> (string \<times> ('s, 'k) soap_handler) list" where
  "l3f_methods E =
     [(''SetDefaultConnectionService'', reading (\<lambda>h a ns st. SetDefaultConnectionService E h a ns)),
      (''GetDefaultConnectionService'', reading (\<lambda>h a ns st. GetDefaultConnectionService E a ns))]"

definition firewall_methods :: "('s, 're, 'k, 'h) soap_env \<Rightarrow> (string \<times> ('s, 'k) soap_handler) list" where
  "firewall_methods E =
     [(''GetFirewallStatus'', reading (\<lambda>h a ns st. GetFirewallStatus E a ns)),
      (''AddPinhole'', on_pinholes (AddPinhole E)),
      (''UpdatePinhole'', on_pinholes (\<lambda>h a ns st. Some (UpdatePinhole E h a ns st))),
      (''GetOutboundPinholeTimeout'', reading (\<lambda>h a ns st. GetOutboundPinholeTimeout E h)),
      (''DeletePinhole'', on_pinholes (DeletePinhole E)),
      (''CheckPinholeWorking'', reading (\<lambda>h a ns st. CheckPinholeWorking E h a ns (pin_state (gw st)))),
      (''GetPinholePackets'', reading (\<lambda>h a ns st. GetPinholePackets E h a ns (pin_state (gw st))))]"

definition protection_methods :: "(string \<times> ('s, 'k) soap_handler) list" where
  "protection_methods =
     [(''SendSetupMessage'', reading (\<lambda>h a ns st. SendSetupMessage h a ns)),
      (''GetSupportedProtocols'', reading (\<lambda>h a ns st. GetSupportedProtocols a ns)),
      (''GetAssignedRoles'', reading (\<lambda>h a ns st. GetAssignedRoles h a ns))]"

definition soapMethods :: "('s, 're, 'k, 'h) soap_env \<Rightarrow> (string \<times> ('s, 'k) soap_handler) list" where
  "soapMethods E =
     wan_methods E @ (if enable_l3f E then l3f_methods E else [])
     @ (if enable_6fc E then firewall_methods E else []) @ (if enable_dp E then protection_methods else [])"

text \<open>The name space of the \<open>SOAPAction\<close> header (at most 255 bytes) and the method, without a closing quote.\<close>

definition soap_namespace :: "string \<Rightarrow> string" where
  "soap_namespace action = cstr (take 255 (takeWhile (\<lambda>c. c \<noteq> CHR ''#'') action))"

definition soap_method :: "string \<Rightarrow> string option" where
  "soap_method action =
     (case dropWhile (\<lambda>c. c \<noteq> CHR ''#'') action of [] \<Rightarrow> None
      | _ # m \<Rightarrow> Some (if m \<noteq> [] \<and> last m = CHR 0x22 then butlast m else m))"

definition ExecuteSoapAction ::
  "('s, 're, 'k, 'h) soap_env \<Rightarrow> http_req \<Rightarrow> string \<Rightarrow> ('s, 'k) soap_state \<Rightarrow> (http_resp \<times> ('s, 'k) soap_state) option" where
  "ExecuteSoapAction E h action st =
     (case soap_method action of None \<Rightarrow> Some (SoapError 401 ''Invalid Action'', st)
      | Some m \<Rightarrow>
          (case map_of (soapMethods E) m of None \<Rightarrow> Some (SoapError 401 ''Invalid Action'', st)
           | Some methodImpl \<Rightarrow> methodImpl h m (soap_namespace action) st))"

end
