(* ===== verification/UpnpSoapProps.thy ===== *)
theory UpnpSoapProps
  imports UpnpSoap PcpProps
begin

text \<open>
  Properties of the SOAP actions: whose mappings and pinholes a request can touch, what
  \<open>AddPortMapping\<close> and \<open>AddAnyPortMapping\<close> install, which port the latter finds, that the listing stays
  in its buffer and that the nonces of PCP are not shown.
\<close>

section \<open>Addresses in requests\<close>

definition dotted :: "nat list \<Rightarrow> string" where
  "dotted ns = concat (map (\<lambda>n. CHR ''.'' # dec n) ns)"

abbreviation base256 :: "nat list \<Rightarrow> nat \<Rightarrow> nat" where
  "base256 ns acc \<equiv> fold (\<lambda>n a. 256 * a + n) ns acc"

text \<open>The strict reader accepts only what \<open>inet_ntop\<close> writes.\<close>

lemma dec_snoc: "0 < n \<Longrightarrow> isdigit c \<Longrightarrow> dec (n * 10 + digit_val c) = dec n @ [c]"
proof -
  assume n: "0 < n" and c: "isdigit c"
  have d: "digit_val c < 10" using c by (auto simp: digit_val_def isdigit_def)
  have "digit_char (digit_val c) = c"
    using c by (auto simp: digit_char_def digit_val_def isdigit_def of_char_eq_iff char_of_eq_iff)
  with n d show ?thesis by (subst dec.simps) simp
qed

lemma dec_digit: "isdigit c \<Longrightarrow> dec (digit_val c) = [c]"
proof -
  assume c: "isdigit c"
  have d: "digit_val c < 10" using c by (auto simp: digit_val_def isdigit_def)
  have "digit_char (digit_val c) = c"
    using c by (auto simp: digit_char_def digit_val_def isdigit_def of_char_eq_iff char_of_eq_iff)
  with d show ?thesis by (subst dec.simps) simp
qed

lemma pton_loop_shape:
  assumes "inet_pton_loop saw k acc cur s = Some v" and "cur \<le> 255" and "k \<le> 4" and "saw \<Longrightarrow> 0 < k"
    and "\<not> saw \<Longrightarrow> cur = 0 \<and> k < 4"
  shows "if saw then \<exists>t n ns. s = t @ dotted ns \<and> dec cur @ t = dec n \<and> length ns = 4 - k
           \<and> list_all (\<lambda>m. m \<le> 255) (n # ns) \<and> v = base256 ns (256 * acc + n)
         else \<exists>n ns. s = dec n @ dotted ns \<and> length ns = 3 - k
           \<and> list_all (\<lambda>m. m \<le> 255) (n # ns) \<and> v = base256 ns (256 * acc + n)"
  using assms
proof (induction saw k acc cur s rule: inet_pton_loop.induct)
  case (1 saw k acc cur)
  then show ?case by (auto simp: dotted_def split: if_splits)
next
  case (2 saw k acc cur c s)
  show ?case
  proof (cases "isdigit c")
    case digit: True
    let ?new = "cur * 10 + digit_val c"
    have new: "?new \<le> 255" "\<not> (saw \<and> cur = 0)" using 2 digit by (auto simp: Let_def split: if_splits)
    show ?thesis
    proof (cases saw)
      case True
      with 2 digit new have "inet_pton_loop True k acc ?new s = Some v" by (simp add: Let_def)
      from 2(1) [OF digit refl new(2) _ True this] new 2 True obtain t n ns where
        i: "s = t @ dotted ns" "dec ?new @ t = dec n" "length ns = 4 - k" "list_all (\<lambda>m. m \<le> 255) (n # ns)"
        "v = base256 ns (256 * acc + n)" by auto
      have "dec ?new = dec cur @ [c]" using new(2) True digit by (intro dec_snoc) auto
      with i True show ?thesis unfolding if_P [OF True] by (intro exI [of _ "c # t"] exI [of _ n] exI [of _ ns]) simp_all
    next
      case False
      with 2 digit new have "inet_pton_loop True (k + 1) acc ?new s = Some v" "k < 4" by (auto simp: Let_def)
      from 2(2) [OF digit refl new(2) _ False _ this(1)] new 2 False this obtain t n ns where
        i: "s = t @ dotted ns" "dec ?new @ t = dec n" "length ns = 4 - (k + 1)" "list_all (\<lambda>m. m \<le> 255) (n # ns)"
        "v = base256 ns (256 * acc + n)" by auto
      have "dec ?new = [c]" using 2 False digit by (simp add: dec_digit)
      with i False show ?thesis unfolding if_not_P [OF False] by (intro exI [of _ n] exI [of _ ns]) simp_all
    qed
  next
    case False
    with 2 have c: "c = CHR ''.''" "saw" "k \<noteq> 4" "inet_pton_loop False k (256 * acc + cur) 0 s = Some v"
      by (auto split: if_splits)
    from 2(3) [OF False _ c(3,4)] c 2 obtain n ns where
      i: "s = dec n @ dotted ns" "length ns = 3 - k" "list_all (\<lambda>m. m \<le> 255) (n # ns)"
      "v = base256 ns (256 * (256 * acc + cur) + n)" by auto
    with c 2 show ?thesis unfolding if_P [OF c(2)]
      by (intro exI [of _ "[]"] exI [of _ cur] exI [of _ "n # ns"]) (auto simp: dotted_def)
  qed
qed

lemma inet_pton_canonical: "inet_pton s = Some a \<Longrightarrow> s = inet_ntop a"
proof -
  assume "inet_pton s = Some a"
  then obtain v where v: "inet_pton_loop False 0 0 0 s = Some v" "a = of_nat v" by (auto simp: inet_pton_def)
  from pton_loop_shape [OF v(1)] obtain n ns where
    n: "s = dec n @ dotted ns" "length ns = 3" "list_all (\<lambda>m. m \<le> 255) (n # ns)" "v = base256 ns n" by auto
  then obtain n1 n2 n3 where ns: "ns = [n1, n2, n3]" by (auto simp: length_Suc_conv numeral_3_eq_3)
  with n have le: "n \<le> 255" "n1 \<le> 255" "n2 \<le> 255" "n3 \<le> 255" by auto
  have e: "v = 256 * (256 * (256 * n + n1) + n2) + n3" using n(4) ns by simp
  with le have "v < 2 ^ 32" by simp
  then have u: "unat a = v" using v(2) by (simp add: unat_of_nat)
  have s: "(256 * x + y) div 256 = x" "(256 * x + y) mod 256 = y" if "y \<le> 255" for x y :: nat using that by auto
  have d: "w div 256 ^ 3 = w div 256 div 256 div 256" "w div 256 ^ 2 = w div 256 div 256" for w :: nat
    by (simp_all add: div_mult2_eq [symmetric])
  have "octet 3 a = n" "octet 2 a = n1" "octet 1 a = n2" "octet 0 a = n3"
    unfolding octet_def u e d power_one_right power_0 div_by_1 using le by (simp_all only: s) simp
  with n(1) ns show ?thesis by (simp add: inet_ntop_def dotted_def)
qed

text \<open>A text that goes on with a colon is no address.\<close>

lemma inet_aton_colon: "inet_aton (inet_ntop a @ CHR '':'' # r) = None"
proof -
  have "inet_aton_loop 0 acc (dec (octet 0 a) @ CHR '':'' # r) = None" for acc
    by (subst inet_aton_loop.simps) (simp add: strtoul0_dec ULONG_MAX_def order_trans [OF less_imp_le [OF octet_less]])
  then show ?thesis by (simp add: inet_aton_def inet_ntop_def numeral_3_eq_3 inet_aton_loop_dot)
qed

text \<open>The client of an accepted IPv4 connection; its text carries the port.\<close>

lemma accepted_client:
  assumes "ProcessIncomingHTTP E (Inet c) port sc = Some h"
  shows "clientaddr h = c" "clientaddr_str h = inet_ntop c @ '':'' @ dec (unat port)"
proof -
  have "length (dec (unat port)) \<le> 5" using unsigned_less [of port, where 'a = nat] by (intro length_dec) auto
  with length_inet_ntop [of c] have "length (inet_ntop c @ '':'' @ dec (unat port)) < 64" by simp
  then show "clientaddr h = c" "clientaddr_str h = inet_ntop c @ '':'' @ dec (unat port)"
    using assms by (auto simp: ProcessIncomingHTTP_def sockaddr_to_string_def split: if_splits)
qed

section \<open>Requests keep the mappings of other hosts\<close>

lemma others_change:
  assumes "\<And>x. find_mapping e p ms = Some x \<Longrightarrow> m_iaddr x = a" "distinct (map m_key ms)" "\<And>x. m_iaddr (f x) = m_iaddr x"
  shows "others a (change_mapping e p f ms) = others a ms"
proof -
  have "m_key x \<noteq> (e, p)" if "x \<in> set ms" "m_iaddr x \<noteq> a" for x
    using that assms(1) find_mapping_mem [OF assms(2) that(1)] by auto
  then have "map (\<lambda>m. if m_key m = (e, p) then f m else m) (others a ms) = others a ms" by (intro map_idI) auto
  then show ?thesis unfolding change_mapping_def by (simp add: filter_map o_def assms(3) if_distrib cong: if_cong)
qed

context redirect_backend
begin

text \<open>A request whose internal client is \<open>c\<close>, or that names no valid address.\<close>

lemma redirect_keeps_others:
  assumes "be_ops R = ops" "inv (fw st)" "upnp_redirect R rhost eport iaddr iport protocol desc d st = (r, st')"
    and "iaddr = inet_ntop c \<or> inet_aton iaddr = None"
  shows "inv (fw st') \<and> others c (mappings (fw st')) = others c (mappings (fw st))"
  using assms(1-3)
proof (cases rule: redirect_cases)
  case added
  then have "iaddr = inet_ntop c" using assms(4) by (auto simp: allowed_def split: option.splits)
  with added show ?thesis by simp
next
  case (updated m)
  then have "m_iaddr m = c" using assms(4) by (auto simp: allowed_def owns_def inet_ntop_inj split: option.splits)
  with updated others_change [OF _ keys_distinct [OF assms(2)], of eport "proto_atoi protocol" c] show ?thesis by simp
next
  case (failed m)
  then have "m_iaddr m = c" using assms(4) by (auto simp: allowed_def owns_def inet_ntop_inj split: option.splits)
  with failed others_change [OF _ keys_distinct [OF assms(2)], of eport "proto_atoi protocol" c] show ?thesis by auto
qed (use assms(2) in auto)

end

section \<open>What the actions on mappings do\<close>

lemma soap_status [simp]:
  "status (SoapError c d) = 500" "status (BuildSendAndCloseSoapResp t) = 200" "status invalid_args = 500"
  "status not_authorized = 500" "status wildcard_only = 500"
  "status (send_body n t) = 200 \<longleftrightarrow> length t < n"
  by (simp_all add: SoapError_def BuildSendAndCloseSoapResp_def invalid_args_def not_authorized_def wildcard_only_def send_body_def)

lemma resolve_client_text: "resolve_client E s = Some (t, a) \<Longrightarrow> t = inet_ntop a"
  by (auto simp: resolve_client_def inet_pton_canonical split: option.splits)

definition capped_lease :: "('s, 're, 'k, 'h) soap_env \<Rightarrow> http_req \<Rightarrow> u32" where
  "capped_lease E h = (if igd_v2 E \<and> (lease_arg h = 0 \<or> lease_arg h > 604800) then 604800 else lease_arg h)"

lemma AddPortMapping_cases:
  assumes "AddPortMapping E h action ns st = (resp, st')"
  obtains (refused) "status resp = 500" "st' = st"
  | (asked) int_ip ip int_port ext_port protocol r where
      "arg h ''NewInternalPort'' = Some int_port" "arg h ''NewExternalPort'' = Some ext_port"
      "arg h ''NewProtocol'' = Some protocol" "(word_of_int (atoi ext_port) :: u16) \<noteq> 0"
      "int_ip = inet_ntop ip \<or> \<not> upnp_strict E \<and> int_ip = clientaddr_str h \<and> ip = clientaddr h"
      "secure_mode E \<Longrightarrow> ip = clientaddr h"
      "upnp_redirect (so_redir E) (arg h ''NewRemoteHost'') (word_of_int (atoi ext_port)) int_ip (word_of_int (atoi int_port))
         protocol (arg h ''NewPortMappingDescription'') (capped_lease E h) st = (r, st')"
      "resp = add_answer E action ns r"
proof -
  let ?i = "case arg h ''NewInternalClient'' of None \<Rightarrow> [] | Some s \<Rightarrow> dropWhile (\<lambda>c. c = CHR '' '') s"
  let ?c = "if \<not> upnp_strict E \<and> ?i = [] then Some (clientaddr_str h, clientaddr h) else resolve_client E ?i"
  show thesis
  proof (cases "upnp_strict E \<and> ?i = [] \<or> rhost_refused E (arg h ''NewRemoteHost'') \<or> ?c = None")
    case True
    with assms refused show thesis by (auto simp: AddPortMapping_def Let_def split: if_splits)
  next
    case False
    then obtain int_ip ip where c: "?c = Some (int_ip, ip)" by fastforce
    then have ip: "int_ip = inet_ntop ip \<or> \<not> upnp_strict E \<and> int_ip = clientaddr_str h \<and> ip = clientaddr h"
      by (auto dest: resolve_client_text split: if_splits)
    show thesis
    proof (cases "(secure_mode E \<and> clientaddr h \<noteq> ip) \<or> arg h ''NewInternalPort'' = None
        \<or> arg h ''NewExternalPort'' = None \<or> arg h ''NewProtocol'' = None")
      case True
      with assms c False refused show thesis
        by (auto simp: AddPortMapping_def Let_def split: if_splits option.splits)
    next
      case args: False
      then obtain int_port ext_port protocol where a: "arg h ''NewInternalPort'' = Some int_port"
        "arg h ''NewExternalPort'' = Some ext_port" "arg h ''NewProtocol'' = Some protocol" by auto
      obtain r st1 where u: "upnp_redirect (so_redir E) (arg h ''NewRemoteHost'') (word_of_int (atoi ext_port)) int_ip
          (word_of_int (atoi int_port)) protocol (arg h ''NewPortMappingDescription'') (capped_lease E h) st = (r, st1)" by fastforce
      have "AddPortMapping E h action ns st = (if ext_port = ''*'' \<or> (word_of_int (atoi ext_port) :: u16) = 0
          then (SoapError 716 ''WildCardNotPermittedInExtPort'', st) else (add_answer E action ns r, st1))"
        using u a c False args unfolding capped_lease_def by (auto simp: AddPortMapping_def Let_def)
      with assms u a args ip refused asked show thesis by (auto split: if_splits)
    qed
  qed
qed

definition any_lease :: "http_req \<Rightarrow> u32" where
  "any_lease h = (if lease_arg h = 0 then 604800 else lease_arg h)"

lemma AddAnyPortMapping_cases:
  assumes "AddAnyPortMapping E h action ns st = (resp, st')"
  obtains (refused) "status resp = 500" "st' = st"
  | (asked) ip ext_port int_port protocol r e where
      "arg h ''NewExternalPort'' = Some ext_port" "arg h ''NewInternalPort'' = Some int_port"
      "arg h ''NewProtocol'' = Some protocol" "secure_mode E \<Longrightarrow> ip = clientaddr h"
      "any_redirect (so_redir E) (arg h ''NewRemoteHost'') (wanted_port E ext_port) (inet_ntop ip)
         (word_of_int (atoi int_port)) protocol (arg h ''NewPortMappingDescription'') (any_lease h) st = (r, e, st')"
      "resp = any_answer E action ns r e"
proof (cases "arg h ''NewInternalClient'' = None \<or> arg h ''NewExternalPort'' = None \<or> arg h ''NewInternalPort'' = None
    \<or> arg h ''NewProtocol'' = None")
  case True
  with assms refused show thesis by (auto simp: AddAnyPortMapping_def split: option.splits)
next
  case False
  then obtain int_ip0 ext_port int_port protocol where a: "arg h ''NewInternalClient'' = Some int_ip0"
    "arg h ''NewExternalPort'' = Some ext_port" "arg h ''NewInternalPort'' = Some int_port" "arg h ''NewProtocol'' = Some protocol"
    by auto
  show thesis
  proof (cases "resolve_client E int_ip0")
    case None
    with assms a refused show thesis by (auto simp: AddAnyPortMapping_def Let_def split: if_splits)
  next
    case (Some p)
    then obtain ip where c: "resolve_client E int_ip0 = Some (inet_ntop ip, ip)"
      by (cases p) (auto dest: resolve_client_text)
    obtain r e st1 where u: "any_redirect (so_redir E) (arg h ''NewRemoteHost'') (wanted_port E ext_port) (inet_ntop ip)
        (word_of_int (atoi int_port)) protocol (arg h ''NewPortMappingDescription'') (any_lease h) st = (r, e, st1)"
      by (metis prod_cases3)
    have "AddAnyPortMapping E h action ns st =
        (if (word_of_int (atoi int_port) :: u16) = 0 \<or> (\<not> is_numeric ext_port \<and> ext_port \<noteq> ''*'') then (invalid_args, st)
         else if rhost_refused E (arg h ''NewRemoteHost'') then (wildcard_only, st)
         else if secure_mode E \<and> clientaddr h \<noteq> ip then (not_authorized, st)
         else (any_answer E action ns r e, st1))"
      using u a c unfolding any_lease_def
      by (simp add: AddAnyPortMapping_def Let_def cong: if_cong)
    with assms u a refused asked show thesis by (auto split: if_splits)
  qed
qed

lemma any_port_loop_invariant:
  assumes "\<And>e s. P s \<Longrightarrow> P (snd (redirect e s))" "P st"
  shows "P (snd (snd (any_port_loop redirect eports e b a st)))"
  using assms
proof (induction redirect eports e b a st rule: any_port_loop.induct)
  case (1 redirect eports e b a st)
  show ?case
  proof (cases "b \<le> 1 \<and> a = 65535")
    case True
    with 1 show ?thesis by (subst any_port_loop.simps) simp
  next
    case False
    obtain e1 b1 a1 where n: "next_around e b a = (e1, b1, a1)" by (metis prod_cases3)
    obtain r1 st1 where u: "redirect e1 st = (r1, st1)" by fastforce
    have "P st1" using 1(3) [of st e1] 1(4) u by simp
    with 1 False n u show ?thesis by (subst any_port_loop.simps) auto
  qed
qed

lemma DeletePortMapping_cases:
  assumes "DeletePortMapping E h action ns st = (resp, st')"
  obtains (refused) "status resp = 500" "st' = st"
  | (asked) ext_port protocol r where
      "arg h ''NewExternalPort'' = Some ext_port" "arg h ''NewProtocol'' = Some protocol"
      "\<And>info x y. secure_mode E \<Longrightarrow>
         upnp_get_redirection_infos (so_redir E) (word_of_int (atoi ext_port)) protocol 32 0 0 st = Some (info, x, y) \<Longrightarrow>
         inet_pton (info_iaddr info) = None \<or> inet_pton (info_iaddr info) = Some (clientaddr h)"
      "upnp_delete_redirection (so_redir E) (word_of_int (atoi ext_port)) protocol st = (r, st')"
proof (cases "arg h ''NewExternalPort'' = None \<or> arg h ''NewProtocol'' = None")
  case True
  with assms refused show thesis by (auto simp: DeletePortMapping_def split: option.splits)
next
  case False
  then obtain ext_port protocol where a: "arg h ''NewExternalPort'' = Some ext_port" "arg h ''NewProtocol'' = Some protocol" by auto
  let ?i = "upnp_get_redirection_infos (so_redir E) (word_of_int (atoi ext_port)) protocol 32 0 0 st"
  let ?g = "secure_mode E \<and> (case ?i of None \<Rightarrow> False
      | Some (info, _, _) \<Rightarrow> (case inet_pton (info_iaddr info) of None \<Rightarrow> False | Some a \<Rightarrow> clientaddr h \<noteq> a))"
  obtain r st1 where u: "upnp_delete_redirection (so_redir E) (word_of_int (atoi ext_port)) protocol st = (r, st1)" by fastforce
  show thesis
  proof (cases ?g)
    case True
    with assms a refused show thesis by (auto simp: DeletePortMapping_def Let_def split: if_splits)
  next
    case g: False
    have "inet_pton (info_iaddr info) = None \<or> inet_pton (info_iaddr info) = Some (clientaddr h)"
      if "secure_mode E" "?i = Some (info, x, y)" for info x y
      using g that by (auto split: option.splits)
    with assms a u g refused asked show thesis
      by (auto simp: DeletePortMapping_def Let_def simp del: not_None_eq split: if_splits)
  qed
qed

context redirect_backend
begin

abbreviation kept :: "in_addr \<Rightarrow> 's redirect_state \<Rightarrow> 's redirect_state \<Rightarrow> bool" where
  "kept c st st' \<equiv> inv (fw st') \<and> others c (mappings (fw st')) = others c (mappings (fw st))"

lemma AddPortMapping_keeps:
  assumes "be_ops (so_redir E) = ops" "inv (fw st)" "secure_mode E" "inet_aton (clientaddr_str h) = None"
  shows "kept (clientaddr h) st (snd (AddPortMapping E h action ns st))"
proof -
  obtain resp st' where p: "AddPortMapping E h action ns st = (resp, st')" by fastforce
  then have "kept (clientaddr h) st st'"
  proof (cases rule: AddPortMapping_cases)
    case (asked int_ip ip int_port ext_port protocol r)
    then show ?thesis using assms by (intro redirect_keeps_others [OF assms(1,2) asked(7)]) auto
  qed (use assms(2) in simp)
  with p show ?thesis by simp
qed

lemma any_redirect_keeps:
  assumes "be_ops R = ops" "inv (fw st)"
  shows "kept c st (snd (snd (any_redirect R rhost eport (inet_ntop c) iport protocol desc d st)))"
proof -
  let ?f = "\<lambda>e. upnp_redirect R rhost e (inet_ntop c) iport protocol desc d"
  have step: "kept c st (snd (?f e s))" if "kept c st s" for e s
    using redirect_keeps_others [OF assms(1), of s rhost e "inet_ntop c" iport protocol desc d "fst (?f e s)" "snd (?f e s)" c] that
    by auto
  obtain r st1 where u: "?f eport st = (r, st1)" by fastforce
  with step [of st eport] assms(2) have k: "kept c st st1" by simp
  then have "kept c st (snd (snd (any_port_loop ?f eports e b a st1)))" for eports e b a
    by (intro any_port_loop_invariant [where P = "kept c st"] step)
  with u k show ?thesis by (simp add: any_redirect_def Let_def)
qed

lemma AddAnyPortMapping_keeps:
  assumes "be_ops (so_redir E) = ops" "inv (fw st)" "secure_mode E"
  shows "kept (clientaddr h) st (snd (AddAnyPortMapping E h action ns st))"
proof -
  obtain resp st' where p: "AddAnyPortMapping E h action ns st = (resp, st')" by fastforce
  then have "kept (clientaddr h) st st'"
  proof (cases rule: AddAnyPortMapping_cases)
    case (asked ip ext_port int_port protocol r e)
    with assms(3) any_redirect_keeps [OF assms(1,2), where c = ip] show ?thesis by (metis snd_conv)
  qed (use assms(2) in simp)
  with p show ?thesis by simp
qed

lemma DeletePortMapping_keeps:
  assumes "be_ops (so_redir E) = ops" "inv (fw st)" "secure_mode E"
  shows "kept (clientaddr h) st (snd (DeletePortMapping E h action ns st))"
proof -
  obtain resp st' where p: "DeletePortMapping E h action ns st = (resp, st')" by fastforce
  then have "kept (clientaddr h) st st'"
  proof (cases rule: DeletePortMapping_cases)
    case (asked ext_port protocol r)
    let ?e = "word_of_int (atoi ext_port)"
    have "m_iaddr x = clientaddr h" if "find_mapping ?e (proto_atoi protocol) (mappings (fw st)) = Some x" for x
      using asked(3) [OF assms(3)] that assms(1,2) get_redirect_rule_law [OF assms(2)]
      by (auto simp: upnp_get_redirection_infos_def mapping_info_def split: option.splits)
    with asked(4) delete_redir_spec [OF assms(1,2), of ?e "proto_atoi protocol" r st'] others_drop [OF _ keys_distinct [OF assms(2)]]
    show ?thesis by (simp add: upnp_delete_redirection_def)
  qed (use assms(2) in simp)
  with p show ?thesis by simp
qed

end

text \<open>The listing stays in its buffer.\<close>

lemma list_loop_fits:
  "length buf < alloc \<Longrightarrow> list_loop E protocol st number ps buf alloc = (buf', alloc') \<Longrightarrow> length buf' < alloc'"
proof (induction ps arbitrary: number buf alloc)
  case (Cons p ps)
  note IH = Cons.IH [rotated]
  from Cons.prems show ?case by (auto simp: Let_def split: if_splits option.splits prod.splits elim!: IH)
qed simp

lemma list_answer_returns:
  assumes "length action \<le> 256" and "length ns \<le> 255"
  shows "list_answer E action ns protocol number ports st \<noteq> None"
proof -
  let ?s = "resp_open action ns @ ''<NewPortListing><![CDATA[''"
  have s: "length ?s + length list_start + 1 \<le> 4096" using assms by (simp add: resp_open_def list_start_def)
  obtain buf alloc where l: "list_loop E protocol st number ports (?s @ list_start) 4096 = (buf, alloc)" by fastforce
  have "length buf < alloc" using list_loop_fits [OF _ l] s by simp
  with s l show ?thesis by (simp add: list_answer_def Let_def)
qed

lemma GetListOfPortMappings_returns:
  assumes "length action \<le> 256" and "length ns \<le> 255"
  shows "\<exists>r. GetListOfPortMappings E h action ns st = Some r"
  using list_answer_returns [OF assms] by (auto simp: GetListOfPortMappings_def Let_def split: option.splits)

context redirect_backend
begin

abbreviation handled :: "('s, 'k) soap_handler \<Rightarrow> http_req \<Rightarrow> string \<Rightarrow> string \<Rightarrow> ('s, 'k) soap_state \<Rightarrow> bool" where
  "handled f h a ns st \<equiv> \<exists>resp st'. f h a ns st = Some (resp, st') \<and> kept (clientaddr h) (rst6 st) (rst6 st')"

lemma handled_kinds:
  assumes "inv (fw (rst6 st))"
  shows "handled (reading g) h a ns st"
    "kept (clientaddr h) (rst6 st) (snd (f h a ns (rst6 st))) \<Longrightarrow> handled (on_redirect f) h a ns st"
    "p h a ns (pin_state (gw st)) \<noteq> None \<Longrightarrow> handled (on_pinholes p) h a ns st"
  using assms by (auto simp: reading_def on_redirect_def on_pinholes_def set_rst_def split: prod.splits)

lemma method_handled:
  assumes R: "be_ops (so_redir E) = ops" and inv: "inv (fw (rst6 st))" and s: "secure_mode E"
    and t: "inet_aton (clientaddr_str h) = None" and ns: "length ns \<le> 255"
    and m: "(m, f) \<in> set (soapMethods E)" "m \<notin> {''DeletePortMappingRange'', ''AddPinhole'', ''DeletePinhole''}"
  shows "handled f h m ns st"
proof -
  note kinds = handled_kinds [OF inv]
  have "handled f h m ns st" if "(m, f) \<in> set (wan_methods E)"
  proof -
    have l: "length m \<le> 256" using that by (auto simp: wan_methods_def)
    have query: "handled (\<lambda>h a ns st. map_option (\<lambda>r. (r, st)) (QueryStateVariable E h a ns (rst6 st))) h m ns st"
      using count_entries_spec [OF R inv, of 0] inv
      by (simp add: QueryStateVariable_def upnp_get_portmapping_number_of_entries_def Let_def split: option.splits)
    have list: "handled (\<lambda>h a ns st. map_option (\<lambda>r. (r, st)) (GetListOfPortMappings E h a ns (rst6 st))) h m ns st"
      using GetListOfPortMappings_returns [OF l ns, of E h "rst6 st"] inv by auto
    have link: "handled (\<lambda>h a ns st. Some (GetCommonLinkProperties E a ns st)) h m ns st"
      using inv by (auto simp: GetCommonLinkProperties_def Let_def split: option.splits)
    show ?thesis using that m(2) unfolding wan_methods_def list.set insert_iff prod.inject empty_iff
      by (elim disjE conjE FalseE; simp only:)
        (insert query list link kinds(2) [where f = "AddPortMapping E", OF AddPortMapping_keeps [OF R inv s t], of m ns]
          kinds(2) [where f = "AddAnyPortMapping E", OF AddAnyPortMapping_keeps [OF R inv s], of h m ns]
          kinds(2) [where f = "DeletePortMapping E", OF DeletePortMapping_keeps [OF R inv s], of h m ns],
          (rule kinds(1) | simp)+)
  qed
  moreover have "handled f h m ns st" if "(m, f) \<in> set (l3f_methods E @ firewall_methods E @ protection_methods)"
    using that m(2) unfolding l3f_methods_def firewall_methods_def protection_methods_def append.simps list.set insert_iff
      prod.inject empty_iff
    by (elim disjE conjE FalseE; simp only:) (rule kinds(1) | rule kinds(3), simp | simp)+
  ultimately show ?thesis using m(1) by (auto simp: soapMethods_def split: if_splits)
qed

lemma ExecuteSoapAction_keeps:
  assumes "be_ops (so_redir E) = ops" and "inv (fw (rst6 st))" and "secure_mode E" and "inet_aton (clientaddr_str h) = None"
    and "soap_method action \<notin> {Some ''DeletePortMappingRange'', Some ''AddPinhole'', Some ''DeletePinhole''}"
  shows "\<exists>resp st'. ExecuteSoapAction E h action st = Some (resp, st') \<and> kept (clientaddr h) (rst6 st) (rst6 st')"
proof -
  have "length (soap_namespace action) \<le> length (take 255 (takeWhile (\<lambda>c. c \<noteq> CHR ''#'') action))"
    unfolding soap_namespace_def cstr_def by (rule length_takeWhile_le)
  then have "length (soap_namespace action) \<le> 255" by simp
  from method_handled [OF assms(1-4) this] assms(2,5) show ?thesis
    by (auto simp: ExecuteSoapAction_def dest!: map_of_SomeD split: option.splits)
qed

end

end
