(* ===== verification/UpnpSoapSpec.thy ===== *)
theory UpnpSoapSpec
  imports UpnpSoapProps
begin

text \<open>
  What the SOAP actions achieve: the port that \<open>AddAnyPortMapping\<close> finds, what \<open>AddPortMapping\<close>
  installs and \<open>DeletePortMappingRange\<close> removes, what the listings show, and for whom \<open>AddPinhole\<close>
  opens a pinhole.
\<close>

section \<open>The search for a port\<close>

definition port_gap :: "u16 \<Rightarrow> u16 \<Rightarrow> nat" where
  "port_gap p q = (if p \<le> q then unat q - unat p else unat p - unat q)"

text \<open>
  The two frontiers of the search from \<open>w\<close> move outwards in turn, until one of them is at the end of the
  range.
\<close>

definition in_turn :: "u16 \<Rightarrow> u16 \<Rightarrow> u16 \<Rightarrow> u16 \<Rightarrow> bool" where
  "in_turn w e b a =
     (1 \<le> unat b \<and> b \<le> w \<and> w \<le> a
      \<and> ((e = b \<and> unat a - unat w \<le> unat w - unat b \<and> (unat a \<noteq> 65535 \<longrightarrow> unat w - unat b = unat a - unat w))
         \<or> (e = a \<and> unat w - unat b < unat a - unat w \<and> (1 < unat b \<longrightarrow> unat a - unat w = unat w - unat b + 1))))"

lemma next_around_in_turn:
  assumes "\<not> (b \<le> 1 \<and> a = 65535)" and "in_turn w e b a" and "next_around e b a = (e1, b1, a1)"
  shows "in_turn w e1 b1 a1 \<and> (\<forall>q. q \<noteq> 0 \<and> port_gap q w < port_gap e1 w \<longrightarrow> b \<le> q \<and> q \<le> a)
    \<and> (\<forall>q. b1 \<le> q \<and> q \<le> a1 \<longrightarrow> b \<le> q \<and> q \<le> a \<or> q = e1)"
proof (cases "a = 65535 \<or> (e > b \<and> b > 1)")
  case True
  then have b: "1 < unat b" using assms(1) by (auto simp: word_less_nat_alt word_le_nat_alt)
  then have "b \<noteq> 0" by auto
  then have u: "unat (b - 1) = unat b - 1" by (simp add: unat_minus_one)
  have e: "e1 = b - 1" "b1 = b - 1" "a1 = a" using True assms(3) by (auto simp: next_around_def)
  have q: "q \<le> a" if "a = 65535" for q using that unsigned_less [of q, where 'a = nat] by (simp add: word_le_nat_alt)
  show ?thesis unfolding e using True assms(2) b u q
    by (auto simp: in_turn_def port_gap_def word_less_nat_alt word_le_nat_alt word_unat_eq_iff)
next
  case False
  then have "unat a \<noteq> unat (65535 :: u16)" by (simp only: word_unat_eq_iff [symmetric]) simp
  then have a: "unat a < 65535" using unsigned_less [of a, where 'a = nat] by simp
  then have u: "unat (a + 1) = unat a + 1" by (simp add: unat_word_ariths)
  have e: "e1 = a + 1" "b1 = b" "a1 = a + 1" using False assms(3) by (auto simp: next_around_def)
  show ?thesis unfolding e using False assms(2) a u
    by (auto simp: in_turn_def port_gap_def word_less_nat_alt word_le_nat_alt word_unat_eq_iff)
qed

lemma in_turn_start: "w \<noteq> 0 \<Longrightarrow> in_turn w w w w"
  by (auto simp: in_turn_def unat_gt_0 Suc_le_eq)

text \<open>
  The ports that the search passes over: not permitted, or in conflict. While there are only conflicts the
  state stays as it is.
\<close>

definition passed :: "(u16 \<Rightarrow> 's \<Rightarrow> int \<times> 's) \<Rightarrow> (u16 \<Rightarrow> bool) \<Rightarrow> 's \<Rightarrow> u16 \<Rightarrow> bool" where
  "passed redirect permitted st q = (permitted q \<longrightarrow> fst (redirect q st) \<noteq> 0 \<and> fst (redirect q st) \<noteq> -1)"

definition nearest :: "(u16 \<Rightarrow> 's \<Rightarrow> int \<times> 's) \<Rightarrow> (u16 \<Rightarrow> bool) \<Rightarrow> 's \<Rightarrow> u16 \<Rightarrow> int \<times> u16 \<times> 's \<Rightarrow> bool" where
  "nearest redirect permitted st w = (\<lambda>(r, e, st').
     (r = 1 \<and> st' = st \<and> (\<forall>q. q \<noteq> 0 \<longrightarrow> passed redirect permitted st q))
     \<or> ((r = 0 \<or> r = -1) \<and> e \<noteq> 0 \<and> permitted e \<and> redirect e st = (r, st')
        \<and> (\<forall>q. q \<noteq> 0 \<and> port_gap q w < port_gap e w \<longrightarrow> passed redirect permitted st q)))"

lemma any_port_loop_nearest:
  assumes keep: "\<And>e. fst (redirect e st) \<noteq> 0 \<Longrightarrow> fst (redirect e st) \<noteq> -1 \<Longrightarrow> snd (redirect e st) = st"
    and "in_turn w e b a" and "\<And>q. b \<le> q \<Longrightarrow> q \<le> a \<Longrightarrow> passed redirect (eport_allowed eports) st q"
  shows "nearest redirect (eport_allowed eports) st w (any_port_loop redirect eports e b a st)"
  using assms
proof (induction redirect eports e b a st rule: any_port_loop.induct)
  case (1 redirect eports e b a st)
  let ?p = "passed redirect (eport_allowed eports) st"
  show ?case
  proof (cases "b \<le> 1 \<and> a = 65535")
    case True
    have "b \<le> q \<and> q \<le> a" if "q \<noteq> 0" for q
    proof -
      have "1 \<le> unat q" using that by (simp add: unat_gt_0 Suc_le_eq)
      then show ?thesis using True unsigned_less [of q, where 'a = nat] by (auto simp: word_le_nat_alt)
    qed
    with 1(5) True show ?thesis by (subst any_port_loop.simps) (auto simp: nearest_def)
  next
    case False
    obtain e1 b1 a1 where n: "next_around e b a = (e1, b1, a1)" by (metis prod_cases3)
    note t = next_around_in_turn [OF False 1(4) n]
    then have e1: "e1 \<noteq> 0" by (auto simp: in_turn_def)
    have near: "?p q" if "q \<noteq> 0" "port_gap q w < port_gap e1 w" for q using t that 1(5) by blast
    obtain r1 st1 where u: "redirect e1 st = (r1, st1)" by fastforce
    show ?thesis
    proof (cases "?p e1")
      case True
      then have "?p q" if "b1 \<le> q" "q \<le> a1" for q using t that 1(5) by blast
      note p = this
      show ?thesis
      proof (cases "eport_allowed eports e1")
        case al: True
        with True u 1(3) [of e1] have r: "r1 \<noteq> 0" "r1 \<noteq> -1" "st1 = st" by (auto simp: passed_def)
        have "\<not> (r1 = 0 \<or> r1 = -1)" using r by simp
        from 1(2) [OF False n [symmetric] refl _ u [symmetric] this] al r 1(3) t p
        have "nearest redirect (eport_allowed eports) st w (any_port_loop redirect eports e1 b1 a1 st)" by simp
        with False n u al r show ?thesis by (subst any_port_loop.simps) auto
      next
        case al: False
        from 1(1) [OF False n [symmetric] refl al] 1(3) t p
        have "nearest redirect (eport_allowed eports) st w (any_port_loop redirect eports e1 b1 a1 st)" by simp
        with False n al show ?thesis by (subst any_port_loop.simps) auto
      qed
    next
      case pf: False
      then have r: "eport_allowed eports e1" "r1 = 0 \<or> r1 = -1" using u by (auto simp: passed_def)
      with False n u have "any_port_loop redirect eports e b a st = (r1, e1, st1)"
        by (subst any_port_loop.simps) auto
      with near r u e1 show ?thesis by (auto simp: nearest_def)
    qed
  qed
qed

lemma eport_allowed_permitted:
  "eport_allowed (get_permitted_ext_ports perms addr iport) e
    = check_upnp_rule_against_permissions nm perms e addr iport None"
  using permitted_fold [of addr iport perms e nm]
  by (simp add: eport_allowed_def port_bit_def get_permitted_ext_ports_def foldr_conv_fold bit_iff_and_push_bit_not_eq_0)

section \<open>What a port can be used for\<close>

text \<open>A request can be granted at a port that is free, or that the client itself has mapped.\<close>

definition usable :: "('s, 're) redirect_env \<Rightarrow> string option \<Rightarrow> string \<Rightarrow> u16 \<Rightarrow> u16 \<Rightarrow> string option \<Rightarrow> mapping list \<Rightarrow> 's \<Rightarrow> u16 \<Rightarrow> bool" where
  "usable R rhost iaddr iport proto desc ms f e =
     (allowed R e iaddr iport desc
      \<and> (case find_mapping e proto ms of None \<Rightarrow> port_in_use R e proto iaddr iport f \<le> 0 | Some m \<Rightarrow> owns iaddr rhost m))"

context redirect_backend
begin

lemma redirect_conflict:
  assumes R: "be_ops R = ops" and inv: "inv (fw st)"
    and u: "upnp_redirect R rhost e iaddr iport protocol desc d st = (r, st')"
  shows "(r \<noteq> 0 \<and> r \<noteq> -1 \<longrightarrow> st' = st \<and> \<not> usable R rhost iaddr iport (proto_atoi protocol) desc (mappings (fw st)) (fw st) e)
    \<and> (r = 0 \<longrightarrow> usable R rhost iaddr iport (proto_atoi protocol) desc (mappings (fw st)) (fw st) e)"
  using R inv u
proof (cases rule: redirect_cases)
  case in_use
  have "\<not> port_in_use R e (proto_atoi protocol) iaddr iport (fw st) \<le> 0"
  proof
    assume "port_in_use R e (proto_atoi protocol) iaddr iport (fw st) \<le> 0"
    from redirect_internal_spec [OF R inv in_use(2) trans [OF redirect_new [OF R inv in_use(1,2) this, symmetric] u]] in_use(3)
    show False by (simp split: if_splits)
  qed
  with in_use show ?thesis by (simp add: usable_def)
next
  case added
  have "port_in_use R e (proto_atoi protocol) iaddr iport (fw st) \<le> 0"
  proof (rule ccontr)
    assume "\<not> port_in_use R e (proto_atoi protocol) iaddr iport (fw st) \<le> 0"
    with added(1,2,4) u get_redirect_rule_law [OF inv] R show False
      by (auto simp: upnp_redirect_def allowed_def Let_def split: option.splits if_splits)
  qed
  with added show ?thesis by (simp add: usable_def)
qed (auto simp: usable_def)


text \<open>A granted request is in the table, for the client that is named, until the end of the lease.\<close>

lemma redirect_installs:
  assumes R: "be_ops R = ops" and inv: "inv (fw st)"
    and u: "upnp_redirect R rhost e (inet_ntop ip) iport protocol desc d st = (0, st')"
  shows "\<exists>m. find_mapping e (proto_atoi protocol) (mappings (fw st')) = Some m \<and> m_iaddr m = ip \<and> m_iport m = iport
    \<and> m_time m = lease_end R d \<and> m_desc m = (case desc of None \<Rightarrow> [] | Some t \<Rightarrow> t)"
  using R inv u
proof (cases rule: redirect_cases)
  case added
  then show ?thesis by (auto simp: find_mapping_snoc new_mapping_def desc_text_def split: option.splits)
next
  case (updated m)
  then show ?thesis by (auto simp: find_mapping_change owns_def inet_ntop_inj)
qed auto

end

section \<open>Ranges of ports\<close>

abbreviation in_range :: "u16 \<Rightarrow> u16 \<Rightarrow> u16 \<Rightarrow> mapping \<Rightarrow> bool" where
  "in_range proto startport endport m \<equiv> m_proto m = proto \<and> startport \<le> m_eport m \<and> m_eport m \<le> endport"

context redirect_backend
begin

lemma delete_ports:
  assumes "be_ops R = ops" "inv (fw st)"
  shows "inv (fw (fold (\<lambda>p s. snd (upnp_delete_redirection R p protocol s)) ports st))
    \<and> mappings (fw (fold (\<lambda>p s. snd (upnp_delete_redirection R p protocol s)) ports st))
      = filter (\<lambda>m. \<not> (m_proto m = proto_atoi protocol \<and> m_eport m \<in> set ports)) (mappings (fw st))"
  using assms(2)
proof (induction ports arbitrary: st)
  case (Cons p ports)
  obtain r st1 where d: "upnp_delete_redir R p (proto_atoi protocol) st = (r, st1)" by fastforce
  from delete_redir_spec [OF assms(1) Cons.prems d] Cons.IH [of st1] d show ?case
    by (simp add: upnp_delete_redirection_def drop_mapping_def) (rule filter_cong, auto)
qed simp

end

section \<open>Properties\<close>

text \<open>
  C12: in secure mode every SOAP request of an accepted IPv4 client is answered, and the mappings of the
  other hosts are the same before and after, whatever the request contains; the exceptions are
  \<open>DeletePortMappingRange\<close>, which does not check its client, and the two pinhole actions that may fail to
  return.
\<close>

theorem soap_secure_isolation:
  assumes "redirect_backend ops ok mappings" and "be_ops (so_redir E) = ops" and "ok (fw (rst6 st))" and "secure_mode E"
    and "ProcessIncomingHTTP E (Inet c) port sc = Some h"
    and "soap_method action \<notin> {Some ''DeletePortMappingRange'', Some ''AddPinhole'', Some ''DeletePinhole''}"
  shows "\<exists>resp st'. ExecuteSoapAction E (h\<lparr>content := request\<rparr>) action st = Some (resp, st') \<and> ok (fw (rst6 st'))
    \<and> others c (mappings (fw (rst6 st'))) = others c (mappings (fw (rst6 st)))"
  using redirect_backend.ExecuteSoapAction_keeps [OF assms(1-4), of "h\<lparr>content := request\<rparr>" action] assms(6)
    accepted_client [OF assms(5)] inet_aton_colon [of c "dec (unat port)"] by simp

text \<open>The ports that the search may try: that of the request, and those that the rules permit.\<close>

definition candidate :: "('s, 're) redirect_env \<Rightarrow> in_addr \<Rightarrow> u16 \<Rightarrow> u16 \<Rightarrow> u16 \<Rightarrow> bool" where
  "candidate R addr iport w q =
     (q \<noteq> 0 \<and> (q = w \<or> check_upnp_rule_against_permissions (nomatch R) (upnppermlist R) q addr iport None))"

lemma any_redirect_outcome:
  assumes B: "redirect_backend ops ok mappings" and R: "be_ops R = ops" and inv: "ok (fw st)" and w: "eport \<noteq> 0"
    and a: "inet_aton iaddr = Some addr"
  shows "nearest (\<lambda>e. upnp_redirect R rhost e iaddr iport protocol desc d) (candidate R addr iport eport) st eport
    (any_redirect R rhost eport iaddr iport protocol desc d st)"
proof -
  let ?f = "\<lambda>e. upnp_redirect R rhost e iaddr iport protocol desc d"
  let ?p = "eport_allowed (get_permitted_ext_ports (upnppermlist R) addr iport)"
  have keep: "snd (?f e st) = st" if "fst (?f e st) \<noteq> 0" "fst (?f e st) \<noteq> -1" for e
    using redirect_backend.redirect_conflict [OF B R inv, of rhost e iaddr iport protocol desc d "fst (?f e st)" "snd (?f e st)"] that
    by simp
  obtain r1 st1 where u: "?f eport st = (r1, st1)" by fastforce
  show ?thesis
  proof (cases "r1 \<noteq> 0 \<and> r1 \<noteq> -1")
    case True
    with keep [of eport] u have st1: "st1 = st" by simp
    have c: "candidate R addr iport eport q \<longleftrightarrow> q \<noteq> 0 \<and> (q = eport \<or> ?p q)" for q
      by (simp add: candidate_def eport_allowed_permitted [where nm = "nomatch R"])
    have "nearest ?f ?p st eport (any_port_loop ?f (get_permitted_ext_ports (upnppermlist R) addr iport) eport eport eport st)"
      using True u by (intro any_port_loop_nearest keep in_turn_start w) (auto simp: passed_def)
    moreover have "any_redirect R rhost eport iaddr iport protocol desc d st
        = any_port_loop ?f (get_permitted_ext_ports (upnppermlist R) addr iport) eport eport eport st"
      using True u st1 a by (simp add: any_redirect_def)
    ultimately show ?thesis using True u c by (auto simp: nearest_def passed_def)
  next
    case False
    with u have "any_redirect R rhost eport iaddr iport protocol desc d st = (r1, eport, st1)" by (auto simp: any_redirect_def)
    with False u w show ?thesis by (auto simp: nearest_def candidate_def port_gap_def)
  qed
qed

text \<open>
  C13: \<open>AddAnyPortMapping\<close> grants the request at the usable port that is nearest to the one of the request,
  among that port and the ports that the rules permit for the client and its port; it reports that there
  is none only when none of them is usable, and then changes nothing.
\<close>

theorem any_redirect_nearest:
  assumes "redirect_backend ops ok mappings" and "be_ops R = ops" and "ok (fw st)" and "eport \<noteq> 0"
    and "any_redirect R rhost eport (inet_ntop ip) iport protocol desc d st = (r, e, st')"
  shows "(r = 0 \<longrightarrow> candidate R ip iport eport e
      \<and> (\<exists>m. find_mapping e (proto_atoi protocol) (mappings (fw st')) = Some m \<and> m_iaddr m = ip \<and> m_iport m = iport
            \<and> m_time m = lease_end R d \<and> m_desc m = (case desc of None \<Rightarrow> [] | Some t \<Rightarrow> t))
      \<and> (\<forall>q. candidate R ip iport eport q \<and> port_gap q eport < port_gap e eport \<longrightarrow>
            \<not> usable R rhost (inet_ntop ip) iport (proto_atoi protocol) desc (mappings (fw st)) (fw st) q))
    \<and> (r = 1 \<longrightarrow> st' = st \<and> (\<forall>q. candidate R ip iport eport q \<longrightarrow>
            \<not> usable R rhost (inet_ntop ip) iport (proto_atoi protocol) desc (mappings (fw st)) (fw st) q))
    \<and> r \<in> {0, 1, -1}"
proof -
  let ?f = "\<lambda>e. upnp_redirect R rhost e (inet_ntop ip) iport protocol desc d"
  have "passed ?f (candidate R ip iport eport) st q \<Longrightarrow> candidate R ip iport eport q \<Longrightarrow>
      \<not> usable R rhost (inet_ntop ip) iport (proto_atoi protocol) desc (mappings (fw st)) (fw st) q" for q
    using redirect_backend.redirect_conflict [OF assms(1-3), of rhost q "inet_ntop ip" iport protocol desc d "fst (?f q st)" "snd (?f q st)"]
    by (simp add: passed_def)
  moreover have "nearest ?f (candidate R ip iport eport) st eport (r, e, st')"
    using any_redirect_outcome [OF assms(1-4), of "inet_ntop ip" ip rhost iport protocol desc d] assms(5) by simp
  ultimately show ?thesis
    using redirect_backend.redirect_installs [OF assms(1-3), of rhost e ip iport protocol desc d st']
    by (auto simp: nearest_def candidate_def)
qed

text \<open>
  C14: an \<open>AddPortMapping\<close> that is answered with success has installed the mapping of the request: its
  ports, protocol and description, for the client itself in secure mode, until the end of the lease,
  which an IGD 2 gateway limits to a week.
\<close>

theorem AddPortMapping_installs:
  assumes "redirect_backend ops ok mappings" and "be_ops (so_redir E) = ops" and "ok (fw st)"
    and "ProcessIncomingHTTP E (Inet c) port sc = Some h"
    and "AddPortMapping E (h\<lparr>content := request\<rparr>) action ns st = (resp, st')" and "status resp = 200"
  shows "\<exists>int_port ext_port protocol m. arg (h\<lparr>content := request\<rparr>) ''NewInternalPort'' = Some int_port
    \<and> arg (h\<lparr>content := request\<rparr>) ''NewExternalPort'' = Some ext_port
    \<and> arg (h\<lparr>content := request\<rparr>) ''NewProtocol'' = Some protocol
    \<and> find_mapping (word_of_int (atoi ext_port)) (proto_atoi protocol) (mappings (fw st')) = Some m
    \<and> m_iport m = word_of_int (atoi int_port) \<and> (secure_mode E \<longrightarrow> m_iaddr m = c)
    \<and> m_time m = lease_end (so_redir E) (capped_lease E (h\<lparr>content := request\<rparr>))
    \<and> m_desc m = (case arg (h\<lparr>content := request\<rparr>) ''NewPortMappingDescription'' of None \<Rightarrow> [] | Some t \<Rightarrow> t)
    \<and> (igd_v2 E \<longrightarrow> capped_lease E (h\<lparr>content := request\<rparr>) \<le> 604800)"
  using assms(5)
proof (cases rule: AddPortMapping_cases)
  case (asked int_ip ip int_port ext_port protocol r)
  have r: "r = 0" using asked(8) assms(6) by (auto simp: add_answer_def split: if_splits)
  with asked(7) have "inet_aton int_ip \<noteq> None" by (auto simp: upnp_redirect_def Let_def split: option.splits)
  then have ip: "int_ip = inet_ntop ip"
    using asked(5) accepted_client [OF assms(4)] inet_aton_colon [of c "dec (unat port)"] by auto
  from redirect_backend.redirect_installs [OF assms(1-3) asked(7) [unfolded ip r]] asked(1-3,6) accepted_client [OF assms(4)]
  show ?thesis by (auto simp: capped_lease_def)
qed (use assms(6) in simp)

text \<open>
  an \<open>AddPortMapping\<close> without internal client, which a build that is not strict is meant to take for the
  client that asks, always fails and changes nothing: the text of the client's address that is passed on
  carries the port of the connection and is no address.
\<close>

theorem AddPortMapping_empty_client_fails:
  assumes "\<not> upnp_strict E" and "ProcessIncomingHTTP E (Inet c) port sc = Some h"
    and "case arg (h\<lparr>content := request\<rparr>) ''NewInternalClient'' of None \<Rightarrow> True | Some s \<Rightarrow> list_all (\<lambda>x. x = CHR '' '') s"
  shows "\<exists>resp. AddPortMapping E (h\<lparr>content := request\<rparr>) action ns st = (resp, st) \<and> status resp = 500"
proof -
  have n: "(case arg (h\<lparr>content := request\<rparr>) ''NewInternalClient'' of None \<Rightarrow> []
      | Some s \<Rightarrow> dropWhile (\<lambda>c. c = CHR '' '') s) = []"
    using assms(3) by (auto simp: list_all_iff split: option.splits)
  have u: "upnp_redirect (so_redir E) rh ep (clientaddr_str h) ip pr de d st = (-1, st)" for rh ep ip pr de d
    using accepted_client [OF assms(2)] inet_aton_colon [of c "dec (unat port)"] by (simp add: upnp_redirect_def)
  show ?thesis unfolding AddPortMapping_def n using assms(1)
    by (auto simp: u Let_def rhost_refused_def add_answer_def split: option.splits)
qed

text \<open>
  C15: \<open>DeletePortMappingRange\<close> removes all mappings of the protocol with an external port in the range,
  whoever owns them, also in secure mode, and no other mapping; it fails when there is none.
\<close>

theorem DeletePortMappingRange_exact:
  assumes "redirect_backend ops ok mappings" and "be_ops (so_redir E) = ops" and "ok (fw st)"
    and "arg h ''NewStartPort'' = Some s" and "arg h ''NewEndPort'' = Some e" and "arg h ''NewProtocol'' = Some protocol"
    and "is_numeric s" and "is_numeric e" and "(word_of_int (atoi s) :: u16) \<le> word_of_int (atoi e)"
    and "DeletePortMappingRange E h action ns st = (resp, st')"
  shows "mappings (fw st')
      = filter (\<lambda>m. \<not> in_range (proto_atoi protocol) (word_of_int (atoi s)) (word_of_int (atoi e)) m) (mappings (fw st))
    \<and> ((\<forall>m\<in>set (mappings (fw st)). \<not> in_range (proto_atoi protocol) (word_of_int (atoi s)) (word_of_int (atoi e)) m)
        \<longrightarrow> resp = SoapError 730 ''PortMappingNotFound'' \<and> st' = st)"
proof -
  let ?r = "in_range (proto_atoi protocol) (word_of_int (atoi s)) (word_of_int (atoi e))"
  let ?ps = "map m_eport (filter ?r (mappings (fw st)))"
  have ports: "upnp_get_portmappings_in_range (so_redir E) (word_of_int (atoi s)) (word_of_int (atoi e)) protocol st = Some ?ps"
    using redirect_backend.get_in_range_law [OF assms(1,3)] assms(2) by (simp add: upnp_get_portmappings_in_range_def)
  have "filter (\<lambda>m. \<not> (m_proto m = proto_atoi protocol \<and> m_eport m \<in> set ?ps)) (mappings (fw st))
      = filter (\<lambda>m. \<not> ?r m) (mappings (fw st))" by (rule filter_cong) auto
  with redirect_backend.delete_ports [OF assms(1-3), of protocol ?ps] assms(4-10) ports show ?thesis
    by (auto simp: DeletePortMappingRange_def Let_def filter_empty_conv filter_id_conv split: if_splits)
qed

text \<open>Descriptions of PCP mappings that differ in the nonce only are shown as the same text.\<close>

lemma hide_pcp_nonce_text:
  assumes "list_all isupper op" "length n = 24"
  shows "hide_pcp_nonce (''PCP '' @ op @ CHR '' '' # n @ r) = ''PCP '' @ op @ CHR '' '' # replicate 24 (CHR ''x'') @ r"
proof -
  have "\<not> isupper (CHR '' '')" by (simp add: isupper_def)
  then have "takeWhile isupper (op @ CHR '' '' # n @ r) = op" using assms(1)
    by (metis list_all_iff takeWhile_append2 takeWhile.simps(2) append_Nil2)
  with assms(2) show ?thesis by (simp add: hide_pcp_nonce_def Let_def)
qed

lemma pcp_nonce_shown:
  assumes "length nonce = 3" and "pc_nonce m = nonce"
  shows "length (pcp_desc_text sadscp m) < 64"
    and "hide_pcp_nonce (pcp_desc_text sadscp m)
      = ''PCP '' @ getPCPOpCodeStr sadscp (pc_opcode m) @ CHR '' '' # replicate 24 (CHR ''x'')"
proof -
  have h: "length (concat (map hex8 nonce)) = 24"
    using assms(1) by (auto simp: length_Suc_conv numeral_3_eq_3 hex8_def)
  have op: "list_all isupper (getPCPOpCodeStr sadscp (pc_opcode m))" "length (getPCPOpCodeStr sadscp (pc_opcode m)) \<le> 8"
    by (simp_all add: getPCPOpCodeStr_def isupper_def)
  have e: "pcp_desc_text sadscp m = ''PCP '' @ getPCPOpCodeStr sadscp (pc_opcode m) @ CHR '' '' # concat (map hex8 nonce) @ []"
    unfolding pcp_desc_text_def assms(2) using op(2) h by (subst bounded_copy_id) simp_all
  show "length (pcp_desc_text sadscp m) < 64" unfolding e using op(2) h by simp
  show "hide_pcp_nonce (pcp_desc_text sadscp m)
      = ''PCP '' @ getPCPOpCodeStr sadscp (pc_opcode m) @ CHR '' '' # replicate 24 (CHR ''x'')"
    unfolding e hide_pcp_nonce_text [OF op(1) h] by simp
qed

text \<open>
  C16: \<open>GetSpecificPortMappingEntry\<close> does not tell the nonce of a mapping that PCP has made, with which it
  could be deleted: the answer is the same for any two nonces.
\<close>

theorem pcp_nonce_hidden:
  assumes "redirect_backend ops ok mappings" and "be_ops (so_redir E) = ops" and "ok (fw st)" and "ok (fw st2)"
    and "enable_pcp E" and "64 \<le> desc_size E" and "length (pc_nonce m) = 3" and "length nonce = 3"
    and "arg h ''NewExternalPort'' = Some ext_port" and "arg h ''NewProtocol'' = Some protocol"
    and "find_mapping (word_of_int (atoi ext_port)) (proto_atoi protocol) (mappings (fw st))
       = Some (x\<lparr>m_desc := pcp_desc_text sadscp m\<rparr>)"
    and "find_mapping (word_of_int (atoi ext_port)) (proto_atoi protocol) (mappings (fw st2))
       = Some (x\<lparr>m_desc := pcp_desc_text sadscp (m\<lparr>pc_nonce := nonce\<rparr>)\<rparr>)"
  shows "GetSpecificPortMappingEntry E h action ns st = GetSpecificPortMappingEntry E h action ns st2"
proof -
  have l: "length (pcp_desc_text sadscp m) < desc_size E" "length (pcp_desc_text sadscp (m\<lparr>pc_nonce := nonce\<rparr>)) < desc_size E"
    using pcp_nonce_shown(1) [of "pc_nonce m" m sadscp] pcp_nonce_shown(1) [of nonce "m\<lparr>pc_nonce := nonce\<rparr>" sadscp] assms(6-8) by simp_all
  have n: "hide_pcp_nonce (pcp_desc_text sadscp m) = hide_pcp_nonce (pcp_desc_text sadscp (m\<lparr>pc_nonce := nonce\<rparr>))"
    using pcp_nonce_shown(2) [of "pc_nonce m" m] pcp_nonce_shown(2) [of nonce "m\<lparr>pc_nonce := nonce\<rparr>"] assms(7,8) by simp
  show ?thesis
    using redirect_backend.get_redirect_rule_law [OF assms(1,3)] redirect_backend.get_redirect_rule_law [OF assms(1,4)]
      assms(2,5,9-12) l n
    by (simp add: GetSpecificPortMappingEntry_def upnp_get_redirection_infos_def mapping_info_def shown_desc_def Let_def)
qed

text \<open>
  C17: the listing of \<open>GetListOfPortMappings\<close>, which copies into a buffer that it enlarges in steps, never
  writes past the end of it, whatever the header, the request and the table of mappings.
\<close>

theorem GetListOfPortMappings_in_bounds:
  "GetListOfPortMappings E h ''GetListOfPortMappings'' (soap_namespace action) st \<noteq> None"
proof -
  have "length (soap_namespace action) \<le> length (take 255 (takeWhile (\<lambda>c. c \<noteq> CHR ''#'') action))"
    unfolding soap_namespace_def cstr_def by (rule length_takeWhile_le)
  then show ?thesis using GetListOfPortMappings_returns [of "''GetListOfPortMappings''" "soap_namespace action" E h st] by auto
qed

section \<open>A concrete gateway\<close>

definition demo_soap :: "(list_tables rdr_state, unit, string \<rightharpoonup> ip6t_entry list, string \<rightharpoonup> ip6t_entry list) soap_env" where
  "demo_soap = \<lparr>sv = demo_pcp, upnp_strict = False, igd_v2 = True, enable_pcp = True, enable_l3f = False, enable_6fc = True,
     enable_dp = False, secure_mode = True, ipv6fc_fw_disabled = False, ipv6fc_inbound_disallowed = False, desc_size = 64,
     gethostbyname = (\<lambda>_. None), getaddrinfo = (\<lambda>_. None), getaddrinfo_port = (\<lambda>_ _. None), if_indextoname = (\<lambda>_. None),
     random_number = 0, getifstats = None, wan_connection_status = ''Connected'', uptime = 0, uuidvalue_wcd = [],
     lan_ext_ip_str = (\<lambda>_. []), stack_packets = 0\<rparr>"

definition demo_soap_state :: "(list_tables rdr_state, string \<rightharpoonup> ip6t_entry list) soap_state" where
  "demo_soap_state = \<lparr>gw = demo_pcp_state\<lparr>nat_state := demo_natpmp_mapped\<rparr>, upstream_bitrate = 0, downstream_bitrate = 0\<rparr>"

definition demo_client :: "in_addr \<Rightarrow> http_req" where
  "demo_client c = \<lparr>clientaddr = c, clientaddr_v6 = replicate 16 0, clientaddr_str = inet_ntop c @ '':50000'',
     peer_certificate = False, content = []\<rparr>"

definition demo_add :: string where
  "demo_add = ''<NewInternalClient>10.0.0.2</NewInternalClient><NewInternalPort>8080</NewInternalPort>''
     @ ''<NewExternalPort>80</NewExternalPort><NewProtocol>TCP</NewProtocol>''"

definition demo_range :: string where
  "demo_range = ''<NewStartPort>80</NewStartPort><NewEndPort>90</NewEndPort><NewProtocol>TCP</NewProtocol>''"

lemma value_of_list: "GetValue_loop nvs name = map_of (map (\<lambda>nv. (nv_name nv, nv_value nv)) nvs) name"
  by (induction nvs) auto

lemma demo_add_parsed:
  "map (\<lambda>nv. (nv_name nv, nv_value nv)) (l_head (ParseNameValue demo_add))
    = [(''NewProtocol'', ''TCP''), (''NewExternalPort'', ''80''), (''NewInternalPort'', ''8080''), (''NewInternalClient'', ''10.0.0.2'')]"
  by code_simp

lemma demo_range_parsed:
  "map (\<lambda>nv. (nv_name nv, nv_value nv)) (l_head (ParseNameValue demo_range))
    = [(''NewProtocol'', ''TCP''), (''NewEndPort'', ''90''), (''NewStartPort'', ''80'')]"
  by code_simp

lemmas demo_add_args = GetValueFromNameValueList_def value_of_list demo_add_parsed
lemmas demo_range_args = GetValueFromNameValueList_def value_of_list demo_range_parsed

lemma demo_numbers [simp]:
  "atoi ''80'' = 80" "atoi ''90'' = 90" "atoi ''8080'' = 8080" "is_numeric ''80''" "is_numeric ''90''" "proto_atoi ''TCP'' = IPPROTO_TCP"
  by code_simp+

lemma demo_address: "inet_pton ''10.0.0.2'' = Some 0x0a000002"
  by (simp add: inet_pton_def isdigit_def digit_val_def Let_def)

lemma demo_accepted: "ProcessIncomingHTTP demo_soap (Inet 0x0a000002) 50000 0 = Some (demo_client 0x0a000002)"
    "ProcessIncomingHTTP demo_soap (Inet 0x0a000003) 50000 0 = Some (demo_client 0x0a000003)"
proof -
  have d: "dec 50000 = ''50000''" by (simp add: dec.simps digit_char_def char_of_def bit_0)
  have "length (inet_ntop c @ '':50000'') < 64" for c using length_inet_ntop [of c] by simp
  then show "ProcessIncomingHTTP demo_soap (Inet 0x0a000002) 50000 0 = Some (demo_client 0x0a000002)"
    "ProcessIncomingHTTP demo_soap (Inet 0x0a000003) 50000 0 = Some (demo_client 0x0a000003)"
    by (simp_all add: ProcessIncomingHTTP_def sockaddr_to_string_def demo_client_def demo_soap_def d
        get_lan_for_peer_def lan_of_ipv4_def demo_pcp_def)
qed

lemma demo_soap_ops: "be_ops (so_redir demo_soap) = iptc_ops (list_libiptc False False)"
  by (simp add: demo_soap_def demo_pcp_ops)

lemma demo_soap_inv: "iptc_inv list_chain_of (fw (rst6 demo_soap_state))" "iptc_mappings list_chain_of (fw (rst6 demo_soap_state))
       = [new_mapping None 80 (inet_ntop 0x0a000002) 8080 IPPROTO_TCP (Some ''web'') 3700]"
  by (simp_all add: demo_soap_state_def demo_natpmp_mapped_def demo_first)

lemma demo_granted:
  "fst (upnp_redirect demo_env None 80 (inet_ntop 0x0a000002) 8080 ''TCP'' desc d demo_state) = 0"
  "iptc_inv list_chain_of (fw (snd (upnp_redirect demo_env None 80 (inet_ntop 0x0a000002) 8080 ''TCP'' desc d demo_state)))"
  "iptc_mappings list_chain_of (fw (snd (upnp_redirect demo_env None 80 (inet_ntop 0x0a000002) 8080 ''TCP'' desc d demo_state)))
     = [new_mapping None 80 (inet_ntop 0x0a000002) 8080 IPPROTO_TCP (Some (case desc of None \<Rightarrow> [] | Some t \<Rightarrow> t)) (lease_end demo_env d)]"
proof -
  obtain r st' where u: "upnp_redirect demo_env None 80 (inet_ntop 0x0a000002) 8080 ''TCP'' desc d demo_state = (r, st')" by fastforce
  have f: "find_mapping 80 (proto_atoi ''TCP'') (iptc_mappings list_chain_of (fw demo_state)) = None"
    by (simp add: demo_inv(2) find_mapping_def)
  have al: "allowed demo_env 80 (inet_ntop 0x0a000002) 8080 desc" by (simp add: allowed_def demo_env_def)
  have "port_in_use demo_env 80 (proto_atoi ''TCP'') (inet_ntop 0x0a000002) 8080 (fw demo_state) \<le> 0" by (simp add: demo_env_def)
  note spec = redirect_backend.redirect_internal_spec [OF list_backend demo_ops demo_inv(1) f
      trans [OF redirect_backend.redirect_new [OF list_backend demo_ops demo_inv(1) al f this, symmetric] u]]
  have "\<not> disable_port_forwarding demo_env" by (simp add: demo_env_def)
  with spec show "fst (upnp_redirect demo_env None 80 (inet_ntop 0x0a000002) 8080 ''TCP'' desc d demo_state) = 0"
    "iptc_inv list_chain_of (fw (snd (upnp_redirect demo_env None 80 (inet_ntop 0x0a000002) 8080 ''TCP'' desc d demo_state)))"
    "iptc_mappings list_chain_of (fw (snd (upnp_redirect demo_env None 80 (inet_ntop 0x0a000002) 8080 ''TCP'' desc d demo_state)))
     = [new_mapping None 80 (inet_ntop 0x0a000002) 8080 IPPROTO_TCP (Some (case desc of None \<Rightarrow> [] | Some t \<Rightarrow> t)) (lease_end demo_env d)]"
    unfolding u by (simp_all add: demo_inv(2))
qed

theorem soap_secure_isolation_witness:
  "\<exists>resp st'. ExecuteSoapAction demo_soap (demo_client 0x0a000003\<lparr>content := demo_add\<rparr>) ''u#DeletePortMapping'' demo_soap_state = Some (resp, st')
     \<and> (80, IPPROTO_TCP) \<in> m_key ` set (iptc_mappings list_chain_of (fw (rst6 st')))"
proof -
  have m: "soap_method ''u#DeletePortMapping'' = Some ''DeletePortMapping''" by code_simp
  have s: "secure_mode demo_soap" by (simp add: demo_soap_def)
  obtain resp st' where p: "ExecuteSoapAction demo_soap (demo_client 0x0a000003\<lparr>content := demo_add\<rparr>) ''u#DeletePortMapping'' demo_soap_state
      = Some (resp, st')"
    and o: "others 0x0a000003 (iptc_mappings list_chain_of (fw (rst6 st')))
      = others 0x0a000003 (iptc_mappings list_chain_of (fw (rst6 demo_soap_state)))"
    using soap_secure_isolation [OF list_backend demo_soap_ops demo_soap_inv(1) s demo_accepted(2), of "''u#DeletePortMapping''" demo_add] m
    by auto
  have "new_mapping None 80 (inet_ntop 0x0a000002) 8080 IPPROTO_TCP (Some ''web'') 3700
      \<in> set (others 0x0a000003 (iptc_mappings list_chain_of (fw (rst6 demo_soap_state))))" unfolding demo_soap_inv(2) by simp
  then have "new_mapping None 80 (inet_ntop 0x0a000002) 8080 IPPROTO_TCP (Some ''web'') 3700
      \<in> set (iptc_mappings list_chain_of (fw (rst6 st')))" unfolding o [symmetric] by simp
  with p show ?thesis by (force simp: image_iff)
qed

theorem any_redirect_nearest_witness:
  "\<exists>st'. any_redirect demo_env None 80 (inet_ntop 0x0a000002) 8080 ''TCP'' None 0 demo_state = (0, 80, st')
     \<and> map_option m_iport (find_mapping 80 IPPROTO_TCP (iptc_mappings list_chain_of (fw st'))) = Some 8080"
proof -
  obtain st' where "upnp_redirect demo_env None 80 (inet_ntop 0x0a000002) 8080 ''TCP'' None 0 demo_state = (0, st')"
    using demo_granted(1) [of None 0] by (metis prod.collapse)
  then have a: "any_redirect demo_env None 80 (inet_ntop 0x0a000002) 8080 ''TCP'' None 0 demo_state = (0, 80, st')"
    by (simp add: any_redirect_def)
  from any_redirect_nearest [OF list_backend demo_ops demo_inv(1) _ a] a show ?thesis by auto
qed

theorem AddPortMapping_installs_witness:
  "\<exists>resp st'. AddPortMapping demo_soap (demo_client 0x0a000002\<lparr>content := demo_add\<rparr>) ''AddPortMapping'' ''u'' demo_state = (resp, st')
     \<and> (80, IPPROTO_TCP) \<in> m_key ` set (iptc_mappings list_chain_of (fw st'))"
proof -
  let ?h = "demo_client 0x0a000002\<lparr>content := demo_add\<rparr>"
  have c: "resolve_client demo_soap ''10.0.0.2'' = Some (inet_ntop 0x0a000002, 0x0a000002)"
    using inet_pton_canonical [of "''10.0.0.2''" "0x0a000002"] by (simp add: resolve_client_def demo_address)
  have e: "so_redir demo_soap = demo_env" "secure_mode demo_soap" "upnp_strict demo_soap = False"
    by (simp_all add: demo_soap_def demo_pcp_def demo_gateway_def)
  obtain st' where "upnp_redirect demo_env None 80 (inet_ntop 0x0a000002) 8080 ''TCP'' None (capped_lease demo_soap ?h) demo_state = (0, st')"
    using demo_granted(1) by (metis prod.collapse)
  then have "AddPortMapping demo_soap ?h ''AddPortMapping'' ''u'' demo_state = (add_answer demo_soap ''AddPortMapping'' ''u'' 0, st')"
    unfolding AddPortMapping_def capped_lease_def
    by (simp add: demo_add_args c e rhost_refused_def demo_client_def Let_def)
  note a = this
  have "status (add_answer demo_soap ''AddPortMapping'' ''u'' 0) = 200" by (simp add: add_answer_def)
  from AddPortMapping_installs [OF list_backend demo_soap_ops demo_inv(1) demo_accepted(1) a this] a show ?thesis
    by (auto simp: demo_add_args dest!: find_mapping_Some_key intro!: rev_image_eqI)
qed

theorem AddPortMapping_empty_client_fails_witness:
  "\<exists>resp. AddPortMapping demo_soap (demo_client 0x0a000002\<lparr>content := demo_range\<rparr>) ''AddPortMapping'' ''u'' demo_state = (resp, demo_state)
     \<and> status resp = 500"
proof (rule AddPortMapping_empty_client_fails [OF _ demo_accepted(1)])
  have "GetValueFromNameValueList (ParseNameValue demo_range) ''NewInternalClient'' = None" by (simp add: demo_range_args)
  then show "case arg (demo_client 0x0a000002\<lparr>content := demo_range\<rparr>) ''NewInternalClient'' of None \<Rightarrow> True
      | Some s \<Rightarrow> list_all (\<lambda>x. x = CHR '' '') s" by simp
qed (simp add: demo_soap_def)

theorem DeletePortMappingRange_exact_witness:
  "\<exists>resp st'. DeletePortMappingRange demo_soap (demo_client 0x0a000003\<lparr>content := demo_range\<rparr>) ''DeletePortMappingRange'' ''u''
       (rst6 demo_soap_state) = (resp, st') \<and> iptc_mappings list_chain_of (fw st') = []"
proof -
  obtain resp st' where d: "DeletePortMappingRange demo_soap (demo_client 0x0a000003\<lparr>content := demo_range\<rparr>) ''DeletePortMappingRange'' ''u''
       (rst6 demo_soap_state) = (resp, st')" by fastforce
  from DeletePortMappingRange_exact [OF list_backend demo_soap_ops demo_soap_inv(1) _ _ _ _ _ _ d, of "''80''" "''90''" "''TCP''"] d
  show ?thesis by (simp add: demo_range_args demo_soap_inv(2))
qed

text \<open>Two mappings of PCP for different nonces.\<close>

definition demo_nonce_state :: "u32 list \<Rightarrow> list_tables rdr_state redirect_state" where
  "demo_nonce_state n = snd (upnp_redirect demo_env None 80 (inet_ntop 0x0a000002) 8080 ''TCP''
     (Some (pcp_desc_text False (demo_msg\<lparr>pc_nonce := n\<rparr>))) 3600 demo_state)"

theorem pcp_nonce_hidden_witness:
  "GetSpecificPortMappingEntry demo_soap (demo_client 0x0a000003\<lparr>content := demo_add\<rparr>) ''a'' ''u'' (demo_nonce_state [1, 2, 3])
     = GetSpecificPortMappingEntry demo_soap (demo_client 0x0a000003\<lparr>content := demo_add\<rparr>) ''a'' ''u'' (demo_nonce_state [4, 5, 6])"
proof -
  have m: "find_mapping (word_of_int (atoi ''80'')) (proto_atoi ''TCP'') (iptc_mappings list_chain_of (fw (demo_nonce_state n)))
      = Some (new_mapping None 80 (inet_ntop 0x0a000002) 8080 IPPROTO_TCP None (lease_end demo_env 3600)
          \<lparr>m_desc := pcp_desc_text False (demo_msg\<lparr>pc_nonce := n\<rparr>)\<rparr>)" for n
    unfolding demo_nonce_state_def demo_granted by (simp add: find_mapping_def new_mapping_def desc_text_def)
  have i: "iptc_inv list_chain_of (fw (demo_nonce_state n))" for n unfolding demo_nonce_state_def by (rule demo_granted)
  show ?thesis
    by (rule pcp_nonce_hidden [OF list_backend demo_soap_ops i i, where m = "demo_msg\<lparr>pc_nonce := [1, 2, 3]\<rparr>"
          and nonce = "[4, 5, 6]" and ext_port = "''80''" and protocol = "''TCP''" and sadscp = False])
      (use m in \<open>simp_all add: demo_add_args, simp_all add: demo_soap_def\<close>)
qed

end
