(* ===== verification/UpnpEvents.thy ===== *)
theory UpnpEvents
  imports IfAddr Inet6
begin

text \<open>
  \<open>upnpevents.c\<close>: the subscribers of the UPnP events and the notifications that are under way.

  The two linked lists of the code are lists of objects with their addresses. A subscriber points to its
  notification and a notification to its subscriber; the path of a notification points into the
  callback of the subscriber. Following a pointer looks the address up in the list, and \<^const>\<open>None\<close>
  stands for the use of an object that has been freed (or of memory past the end of one). Removing an
  object from its list and freeing it go together in the code.

  Allocation, sockets, the clock, the identifier of a new subscription and the text of the state
  variables are parameters. Sockets are non-blocking: each call gives its outcome at once.
\<close>

section \<open>State\<close>

datatype subscriber_service_enum = EWanCFG | EWanIPC | EL3F | E6FC | EDP

datatype notify_state = ECreated | EConnecting | ESending | EWaitingForResponse | EFinished | EError

record subscriber =
  sub_notify :: "nat option"
  sub_timeout :: int
  sub_seq :: u32
  sub_service :: subscriber_service_enum
  sub_uuid :: string
  sub_callback :: string

record upnp_event_notify =
  nt_s :: int
  nt_state :: notify_state
  nt_sub :: "nat option"
  nt_buffer :: string
  nt_tosend :: nat
  nt_sent :: nat
  nt_path :: "(nat \<times> nat) option"
  nt_ipv6 :: bool
  nt_addrstr :: string
  nt_portstr :: string

record events =
  subscriberlist :: "(nat \<times> subscriber) list"
  notifylist :: "(nat \<times> upnp_event_notify) list"

text \<open>The outcome of \<open>send\<close> and \<open>recv\<close>: a number of bytes, an error that means to try again, another error.\<close>

datatype io_result = Bytes nat | Again | Failed

record events_env =
  ev_malloc :: "nat list \<Rightarrow> nat option"
  ev_uuid :: string
  ev_time :: int
  ev_strict :: bool
  ev_l3f :: bool
  ev_6fc :: bool
  ev_dp :: bool
  ev_socket :: "bool \<Rightarrow> int"
  ev_non_blocking :: "int \<Rightarrow> bool"
  ev_connect :: "int \<Rightarrow> sockaddr \<Rightarrow> u16 \<Rightarrow> bool"
  ev_so_error :: "int \<Rightarrow> int option"
  ev_send :: "int \<Rightarrow> string \<Rightarrow> io_result"
  ev_recv :: "int \<Rightarrow> io_result"
  ev_isset :: "int \<Rightarrow> bool"
  ev_vars :: "subscriber_service_enum \<Rightarrow> string"
  upnp_version_1_0 :: bool

abbreviation live :: "events \<Rightarrow> nat list" where
  "live st \<equiv> map fst (subscriberlist st) @ map fst (notifylist st)"

text \<open>Writing to the object at an address, and freeing it.\<close>

definition put :: "nat \<Rightarrow> ('a \<Rightarrow> 'a) \<Rightarrow> (nat \<times> 'a) list \<Rightarrow> (nat \<times> 'a) list" where
  "put p f xs = map (\<lambda>(q, x). (q, if q = p then f x else x)) xs"

definition unlink :: "nat \<Rightarrow> (nat \<times> 'a) list \<Rightarrow> (nat \<times> 'a) list" where
  "unlink p xs = filter (\<lambda>(q, _). q \<noteq> p) xs"

definition set_sub :: "nat \<Rightarrow> (subscriber \<Rightarrow> subscriber) \<Rightarrow> events \<Rightarrow> events option" where
  "set_sub p f st =
     (case map_of (subscriberlist st) p of None \<Rightarrow> None | Some _ \<Rightarrow> Some (st\<lparr>subscriberlist := put p f (subscriberlist st)\<rparr>))"

definition set_obj :: "nat \<Rightarrow> (upnp_event_notify \<Rightarrow> upnp_event_notify) \<Rightarrow> events \<Rightarrow> events option" where
  "set_obj p f st =
     (case map_of (notifylist st) p of None \<Rightarrow> None | Some _ \<Rightarrow> Some (st\<lparr>notifylist := put p f (notifylist st)\<rparr>))"

text \<open>A loop over the objects of a list; the body may fail.\<close>

fun each :: "('a \<Rightarrow> 's \<Rightarrow> 's option) \<Rightarrow> 'a list \<Rightarrow> 's \<Rightarrow> 's option" where
  "each f [] st = Some st"
| "each f (x # xs) st = (case f x st of None \<Rightarrow> None | Some st1 \<Rightarrow> each f xs st1)"

section \<open>Subscriptions\<close>

definition WANCFG_EVENTURL :: string where "WANCFG_EVENTURL = ''/evt/CmnIfCfg''"
definition WANIPC_EVENTURL :: string where "WANIPC_EVENTURL = ''/evt/IPConn''"
definition L3F_EVENTURL :: string where "L3F_EVENTURL = ''/evt/L3F''"
definition WANIP6FC_EVENTURL :: string where "WANIP6FC_EVENTURL = ''/evt/IP6FCtl''"
definition DP_EVENTURL :: string where "DP_EVENTURL = ''/evt/DP''"

definition event_service :: "events_env \<Rightarrow> string \<Rightarrow> subscriber_service_enum option" where
  "event_service E eventurl =
     (if eventurl = WANCFG_EVENTURL then Some EWanCFG
      else if eventurl = WANIPC_EVENTURL then Some EWanIPC
      else if ev_l3f E \<and> eventurl = L3F_EVENTURL then Some EL3F
      else if ev_6fc E \<and> eventurl = WANIP6FC_EVENTURL then Some E6FC
      else if ev_dp E \<and> eventurl = DP_EVENTURL then Some EDP
      else None)"

definition newSubscriber :: "events_env \<Rightarrow> string \<Rightarrow> string \<Rightarrow> subscriber option" where
  "newSubscriber E eventurl callback =
     (if callback = [] then None
      else map_option (\<lambda>service. \<lparr>sub_notify = None, sub_timeout = 0, sub_seq = 0, sub_service = service,
               sub_uuid = ''uuid:'' @ ev_uuid E, sub_callback = callback\<rparr>)
             (event_service E eventurl))"

definition zero_notify :: upnp_event_notify where
  "zero_notify = \<lparr>nt_s = 0, nt_state = ECreated, nt_sub = None, nt_buffer = [], nt_tosend = 0, nt_sent = 0,
     nt_path = None, nt_ipv6 = False, nt_addrstr = [], nt_portstr = []\<rparr>"

text \<open>
  The seventh byte of the callback is read before anything is known about it, so a shorter one would be
  read past its end.
\<close>

definition upnp_event_create_notify :: "events_env \<Rightarrow> nat \<Rightarrow> events \<Rightarrow> events option" where
  "upnp_event_create_notify E sub st =
     (case ev_malloc E (live st) of None \<Rightarrow> Some st
      | Some obj \<Rightarrow>
          (case map_of (subscriberlist st) sub of None \<Rightarrow> None
           | Some d \<Rightarrow>
               if length (sub_callback d) < 7 then None
               else let s = ev_socket E ((sub_callback d @ [CHR 0x00]) ! 7 = CHR ''['')
                    in if s < 0 \<or> \<not> ev_non_blocking E s then Some st
                       else set_sub sub (\<lambda>d. d\<lparr>sub_notify := Some obj\<rparr>)
                              (st\<lparr>notifylist := (obj, zero_notify\<lparr>nt_s := s, nt_sub := Some sub\<rparr>) # notifylist st\<rparr>)))"

definition upnpevents_addSubscriber ::
  "events_env \<Rightarrow> string \<Rightarrow> string \<Rightarrow> int \<Rightarrow> events \<Rightarrow> (string option \<times> events) option" where
  "upnpevents_addSubscriber E eventurl callback timeout st =
     (case ev_malloc E (live st) of None \<Rightarrow> Some (None, st)
      | Some tmp \<Rightarrow>
          (case newSubscriber E eventurl callback of None \<Rightarrow> Some (None, st)
           | Some d \<Rightarrow>
               let d1 = (if timeout \<noteq> 0 then d\<lparr>sub_timeout := ev_time E + timeout\<rparr> else d)
               in map_option (\<lambda>st1. (Some (sub_uuid d1), st1))
                    (upnp_event_create_notify E tmp (st\<lparr>subscriberlist := (tmp, d1) # subscriberlist st\<rparr>))))"

definition sid_matches :: "string \<Rightarrow> subscriber \<Rightarrow> bool" where
  "sid_matches sid sub = (length sid = 41 \<and> sid = take 41 (sub_uuid sub @ replicate 41 (CHR 0x00)))"

definition upnpevents_renewSubscription :: "events_env \<Rightarrow> string \<Rightarrow> int \<Rightarrow> events \<Rightarrow> string option \<times> events" where
  "upnpevents_renewSubscription E sid timeout st =
     (case find (\<lambda>(_, sub). sid_matches sid sub
                   \<and> \<not> (ev_strict E \<and> sub_timeout sub \<noteq> 0 \<and> ev_time E > sub_timeout sub)) (subscriberlist st) of
        None \<Rightarrow> (None, st)
      | Some (p, sub) \<Rightarrow>
          (Some (sub_uuid sub),
           st\<lparr>subscriberlist := put p (\<lambda>d. d\<lparr>sub_timeout := (if timeout \<noteq> 0 then ev_time E + timeout else 0)\<rparr>) (subscriberlist st)\<rparr>))"

definition upnpevents_removeSubscriber :: "string \<Rightarrow> events \<Rightarrow> (int \<times> events) option" where
  "upnpevents_removeSubscriber sid st =
     (case find (\<lambda>(_, sub). sid_matches sid sub) (subscriberlist st) of
        None \<Rightarrow> Some (-1, st)
      | Some (p, sub) \<Rightarrow>
          map_option (\<lambda>st1. (0, st1\<lparr>subscriberlist := unlink p (subscriberlist st1)\<rparr>))
            (case sub_notify sub of None \<Rightarrow> Some st | Some obj \<Rightarrow> set_obj obj (\<lambda>n. n\<lparr>nt_sub := None\<rparr>) st))"

definition upnp_event_var_change_notify :: "events_env \<Rightarrow> subscriber_service_enum \<Rightarrow> events \<Rightarrow> events option" where
  "upnp_event_var_change_notify E service st =
     each (\<lambda>p st. case map_of (subscriberlist st) p of None \<Rightarrow> None
             | Some sub \<Rightarrow> if sub_service sub = service \<and> sub_notify sub = None
                          then upnp_event_create_notify E p st else Some st)
       (map fst (subscriberlist st)) st"

section \<open>Notifications\<close>

text \<open>
  The address and port that a callback names, as they are parsed for the connection: the text of the
  address for the \<open>Host\<close> header, the text of the port, the rest of the URL and where it starts.
\<close>

definition callback_host :: "string \<Rightarrow> bool \<times> string \<times> string" where
  "callback_host p =
     (if p \<noteq> [] \<and> hd p = CHR ''[''
      then let a = take 46 (takeWhile (\<lambda>c. c \<noteq> CHR '']'') (tl p));
               r = drop (length a) (tl p);
               r1 = (if r \<noteq> [] \<and> hd r = CHR '']'' then tl r else r)
           in (True, ''['' @ a @ (if length a < 46 then '']'' else []), r1)
      else let a = take 47 (takeWhile (\<lambda>c. c \<noteq> CHR ''/'' \<and> c \<noteq> CHR '':'') p)
           in (False, a, drop (length a) p))"

definition callback_port :: "string \<Rightarrow> u16 \<times> string \<times> string" where
  "callback_port p =
     (if p \<noteq> [] \<and> hd p = CHR '':''
      then let ds = takeWhile isdigit (tl p)
           in (fold (\<lambda>c port. port * 10 + of_nat (digit_val c)) ds 0, '':'' @ take 6 ds, drop (length ds) (tl p))
      else (80, [], p))"

definition callback_addr :: "bool \<Rightarrow> string \<Rightarrow> sockaddr" where
  "callback_addr ipv6 addrstr =
     (if ipv6
      then Inet6 (if length addrstr > 2
                  then (case inet_pton6 (take (length addrstr - 2) (tl addrstr)) of None \<Rightarrow> replicate 16 0 | Some a \<Rightarrow> a)
                  else replicate 16 0)
      else Inet (case inet_pton addrstr of None \<Rightarrow> 0 | Some a \<Rightarrow> a))"

definition upnp_event_notify_connect :: "events_env \<Rightarrow> nat \<Rightarrow> events \<Rightarrow> events option" where
  "upnp_event_notify_connect E obj st =
     (case map_of (notifylist st) obj of None \<Rightarrow> None
      | Some n \<Rightarrow>
          (case nt_sub n of None \<Rightarrow> set_obj obj (\<lambda>n. n\<lparr>nt_state := EError\<rparr>) st
           | Some sub \<Rightarrow>
               (case map_of (subscriberlist st) sub of None \<Rightarrow> None
                | Some d \<Rightarrow>
                    let cb = cstr (sub_callback d)
                    in if take 7 cb \<noteq> ''http://'' then set_obj obj (\<lambda>n. n\<lparr>nt_state := EError\<rparr>) st
                       else case callback_host (drop 7 cb) of
                              (ipv6, addrstr, r) \<Rightarrow>
                                (case callback_port r of
                                   (port, portstr, path) \<Rightarrow>
                                     let connected = ev_connect E (nt_s n) (callback_addr ipv6 addrstr) port
                                     in set_obj obj (\<lambda>n. n\<lparr>nt_ipv6 := ipv6, nt_addrstr := addrstr, nt_portstr := portstr,
                                                            nt_path := Some (sub, length cb - length path),
                                                            nt_state := (if connected then EConnecting else EError)\<rparr>) st))))"

text \<open>The message; the buffer is enlarged until it fits.\<close>

definition http_eol :: string where "http_eol = [CHR 0x0D, CHR 0x0A]"

definition notifymsg :: "events_env \<Rightarrow> string \<Rightarrow> string \<Rightarrow> string \<Rightarrow> string \<Rightarrow> u32 \<Rightarrow> string \<Rightarrow> string" where
  \<open>notifymsg E path addrstr portstr sid seq xml =
     ''NOTIFY '' @ path @ '' HTTP/1.1'' @ http_eol
     @ ''Host: '' @ addrstr @ portstr @ http_eol
     @ (if upnp_version_1_0 E then ''Content-Type: text/xml'' else ''Content-Type: text/xml; charset="utf-8"'') @ http_eol
     @ ''Content-Length: '' @ dec (length xml + 2) @ http_eol
     @ ''NT: upnp:event'' @ http_eol
     @ ''NTS: upnp:propchange'' @ http_eol
     @ ''SID: '' @ sid @ http_eol
     @ ''SEQ: '' @ dec (unat seq) @ http_eol
     @ ''Connection: close'' @ http_eol
     @ ''Cache-Control: no-cache'' @ http_eol @ http_eol
     @ xml @ http_eol\<close>

definition upnp_event_prepare :: "events_env \<Rightarrow> nat \<Rightarrow> events \<Rightarrow> events option" where
  "upnp_event_prepare E obj st =
     (case map_of (notifylist st) obj of None \<Rightarrow> None
      | Some n \<Rightarrow>
          (case nt_sub n of None \<Rightarrow> set_obj obj (\<lambda>n. n\<lparr>nt_state := EError\<rparr>) st
           | Some sub \<Rightarrow>
               (case (map_of (subscriberlist st) sub, nt_path n) of
                  (Some d, Some (base, off)) \<Rightarrow>
                    (case map_of (subscriberlist st) base of None \<Rightarrow> None
                     | Some b \<Rightarrow>
                         if off > length (cstr (sub_callback b)) then None
                         else let path = drop off (cstr (sub_callback b));
                                  msg = notifymsg E (if path \<noteq> [] then path else ''/'') (nt_addrstr n) (nt_portstr n)
                                          (sub_uuid d) (sub_seq d) (ev_vars E (sub_service d))
                              in set_obj obj (\<lambda>n. n\<lparr>nt_buffer := msg, nt_tosend := length msg, nt_state := ESending\<rparr>) st)
                | _ \<Rightarrow> None)))"

definition upnp_event_send :: "events_env \<Rightarrow> nat \<Rightarrow> events \<Rightarrow> events option" where
  "upnp_event_send E obj st =
     (case map_of (notifylist st) obj of None \<Rightarrow> None
      | Some n \<Rightarrow>
          (case ev_send E (nt_s n) (drop (nt_sent n) (nt_buffer n)) of
             Failed \<Rightarrow> set_obj obj (\<lambda>n. n\<lparr>nt_state := EError\<rparr>) st
           | r \<Rightarrow>
               let sent = nt_sent n + (case r of Bytes i \<Rightarrow> i | _ \<Rightarrow> 0)
               in set_obj obj (\<lambda>m. m\<lparr>nt_sent := sent,
                      nt_state := (if sent = nt_tosend n then EWaitingForResponse else nt_state n)\<rparr>) st))"

definition upnp_event_recv :: "events_env \<Rightarrow> nat \<Rightarrow> events \<Rightarrow> events option" where
  "upnp_event_recv E obj st =
     (case map_of (notifylist st) obj of None \<Rightarrow> None
      | Some n \<Rightarrow>
          (case ev_recv E (nt_s n) of
             Again \<Rightarrow> Some st
           | Failed \<Rightarrow> set_obj obj (\<lambda>n. n\<lparr>nt_state := EError\<rparr>) st
           | Bytes _ \<Rightarrow>
               (case set_obj obj (\<lambda>n. n\<lparr>nt_state := EFinished\<rparr>) st of None \<Rightarrow> None
                | Some st1 \<Rightarrow>
                    (case nt_sub n of None \<Rightarrow> Some st1
                     | Some sub \<Rightarrow> set_sub sub (\<lambda>d. d\<lparr>sub_seq := sub_seq d + 1\<rparr>) st1))))"

definition upnp_event_process_notify :: "events_env \<Rightarrow> nat \<Rightarrow> events \<Rightarrow> events option" where
  "upnp_event_process_notify E obj st =
     (case map_of (notifylist st) obj of None \<Rightarrow> None
      | Some n \<Rightarrow>
          (case nt_state n of
             EConnecting \<Rightarrow>
               (case ev_so_error E (nt_s n) of
                  Some err \<Rightarrow>
                    if err \<noteq> 0 then set_obj obj (\<lambda>n. n\<lparr>nt_state := EError\<rparr>) st
                    else (case upnp_event_prepare E obj st of None \<Rightarrow> None
                          | Some st1 \<Rightarrow>
                              if map_option nt_state (map_of (notifylist st1) obj) = Some ESending
                              then upnp_event_send E obj st1 else Some st1)
                | None \<Rightarrow> set_obj obj (\<lambda>n. n\<lparr>nt_state := EError\<rparr>) st)
           | ESending \<Rightarrow> upnp_event_send E obj st
           | EWaitingForResponse \<Rightarrow> upnp_event_recv E obj st
           | EFinished \<Rightarrow> set_obj obj (\<lambda>n. n\<lparr>nt_s := -1\<rparr>) st
           | _ \<Rightarrow> Some st))"

text \<open>The two calls of the main loop: before \<open>select\<close>, and after it with the sockets that are ready.\<close>

definition upnpevents_selectfds :: "events_env \<Rightarrow> events \<Rightarrow> events option" where
  "upnpevents_selectfds E st =
     each (\<lambda>p st. case map_of (notifylist st) p of None \<Rightarrow> None
             | Some n \<Rightarrow> if nt_s n \<ge> 0 \<and> nt_state n = ECreated then upnp_event_notify_connect E p st else Some st)
       (map fst (notifylist st)) st"

definition drop_notify :: "nat \<Rightarrow> events \<Rightarrow> events option" where
  "drop_notify obj st =
     (case map_of (notifylist st) obj of None \<Rightarrow> None
      | Some n \<Rightarrow>
          if nt_state n = EError \<or> nt_state n = EFinished
          then (case (case nt_sub n of None \<Rightarrow> Some st | Some sub \<Rightarrow> set_sub sub (\<lambda>d. d\<lparr>sub_notify := None\<rparr>) st) of
                  None \<Rightarrow> None
                | Some st1 \<Rightarrow>
                    let st2 = (case nt_sub n of
                                 Some sub \<Rightarrow> if nt_state n = EError then st1\<lparr>subscriberlist := unlink sub (subscriberlist st1)\<rparr> else st1
                               | None \<Rightarrow> st1)
                    in Some (st2\<lparr>notifylist := unlink obj (notifylist st2)\<rparr>))
          else Some st)"

definition expired :: "events_env \<Rightarrow> subscriber \<Rightarrow> bool" where
  "expired E sub = (sub_timeout sub \<noteq> 0 \<and> ev_time E > sub_timeout sub \<and> sub_notify sub = None)"

definition upnpevents_processfds :: "events_env \<Rightarrow> events \<Rightarrow> events option" where
  "upnpevents_processfds E st =
     (case each (\<lambda>p st. case map_of (notifylist st) p of None \<Rightarrow> None
                   | Some n \<Rightarrow> if nt_s n \<ge> 0 \<and> ev_isset E (nt_s n) then upnp_event_process_notify E p st else Some st)
             (map fst (notifylist st)) st of
        None \<Rightarrow> None
      | Some st1 \<Rightarrow>
          map_option (\<lambda>st2. st2\<lparr>subscriberlist := filter (\<lambda>(_, sub). \<not> expired E sub) (subscriberlist st2)\<rparr>)
            (each drop_notify (map fst (notifylist st1)) st1))"

end
