(* ===== verification/UpnpEventsProps.thy ===== *)
theory UpnpEventsProps
  imports UpnpEvents
begin

text \<open>
  The events of \<open>upnpevents.c\<close> are memory-safe: in every state that the calls of the daemon reach the
  pointers between subscribers and notifications are mutual, so that no operation uses a freed object.
\<close>

section \<open>Lists of objects\<close>

lemma map_of_put [simp]: "map_of (put p f xs) = (map_of xs)(p := map_option f (map_of xs p))"
  by (induction xs) (auto simp: put_def fun_eq_iff)

lemma map_of_unlink [simp]: "map_of (unlink p xs) = (map_of xs)(p := None)"
  by (induction xs) (auto simp: unlink_def fun_eq_iff)

lemma fst_put [simp]: "map fst (put p f xs) = map fst xs"
  by (induction xs) (auto simp: put_def)

lemma fst_unlink [simp]: "map fst (unlink p xs) = filter (\<lambda>q. q \<noteq> p) (map fst xs)"
  by (induction xs) (auto simp: unlink_def)

lemma map_of_filter_snd:
  "distinct (map fst xs) \<Longrightarrow> map_of (filter (\<lambda>(_, x). P x) xs) p
    = (case map_of xs p of None \<Rightarrow> None | Some x \<Rightarrow> if P x then Some x else None)"
proof (induction xs)
  case (Cons a xs)
  have "map_of (filter (\<lambda>(_, x). P x) xs) p = None" if "p \<notin> fst ` set xs"
    using that by (auto simp: map_of_eq_None_iff)
  with Cons show ?case by (cases a) auto
qed simp

lemma each_remaining:
  assumes "\<And>x xs st. I (x # xs) st \<Longrightarrow> \<exists>st'. f x st = Some st' \<and> I xs st'" and "I xs st"
  shows "\<exists>st'. each f xs st = Some st' \<and> I [] st'"
  using assms(2)
proof (induction xs arbitrary: st)
  case (Cons x xs)
  from assms(1) [OF Cons.prems] obtain st1 where "f x st = Some st1" "I xs st1" by blast
  with Cons.IH show ?case by auto
qed auto

section \<open>The invariant\<close>

text \<open>
  The pointers are mutual, every callback is long enough to be looked at, and the path of a notification
  that connects is in the callback of its subscriber.
\<close>

definition path_ok :: "(nat \<rightharpoonup> subscriber) \<Rightarrow> upnp_event_notify \<Rightarrow> bool" where
  "path_ok S n = (\<forall>p d. nt_sub n = Some p \<and> nt_state n = EConnecting \<and> S p = Some d \<longrightarrow>
     (\<exists>off. nt_path n = Some (p, off) \<and> off \<le> length (cstr (sub_callback d))))"

definition linked :: "(nat \<rightharpoonup> subscriber) \<Rightarrow> (nat \<rightharpoonup> upnp_event_notify) \<Rightarrow> bool" where
  "linked S N \<longleftrightarrow>
     (\<forall>b n p. N b = Some n \<and> nt_sub n = Some p \<longrightarrow> (\<exists>d. S p = Some d \<and> sub_notify d = Some b))
     \<and> (\<forall>p d b. S p = Some d \<and> sub_notify d = Some b \<longrightarrow> (\<exists>n. N b = Some n \<and> nt_sub n = Some p))
     \<and> (\<forall>p d. S p = Some d \<longrightarrow> 7 \<le> length (sub_callback d))
     \<and> (\<forall>b n. N b = Some n \<longrightarrow> path_ok S n)"

definition ev_inv :: "events \<Rightarrow> bool" where
  "ev_inv st \<longleftrightarrow> distinct (map fst (subscriberlist st)) \<and> distinct (map fst (notifylist st))
     \<and> linked (map_of (subscriberlist st)) (map_of (notifylist st))"

lemma linkedD:
  assumes "linked S N"
  shows "N b = Some n \<Longrightarrow> nt_sub n = Some p \<Longrightarrow> \<exists>d. S p = Some d \<and> sub_notify d = Some b"
    "S p = Some d \<Longrightarrow> sub_notify d = Some b \<Longrightarrow> \<exists>n. N b = Some n \<and> nt_sub n = Some p"
    "S p = Some d \<Longrightarrow> 7 \<le> length (sub_callback d)" "N b = Some n \<Longrightarrow> path_ok S n"
  using assms unfolding linked_def by blast+

lemma linkedI:
  assumes "\<And>b n p. N b = Some n \<Longrightarrow> nt_sub n = Some p \<Longrightarrow> \<exists>d. S p = Some d \<and> sub_notify d = Some b"
    and "\<And>p d b. S p = Some d \<Longrightarrow> sub_notify d = Some b \<Longrightarrow> \<exists>n. N b = Some n \<and> nt_sub n = Some p"
    and "\<And>p d. S p = Some d \<Longrightarrow> 7 \<le> length (sub_callback d)" and "\<And>b n. N b = Some n \<Longrightarrow> path_ok S n"
  shows "linked S N"
  using assms unfolding linked_def by blast

text \<open>Changes of an object that leave its pointers alone.\<close>

lemma linked_obj:
  assumes "linked S N" "N b = Some n" "nt_sub n' = nt_sub n" "path_ok S n'"
  shows "linked S (N(b := Some n'))"
proof (rule linkedI, goal_cases)
  case (1 c m p)
  then show ?case using linkedD(1) [OF assms(1)] assms(2,3) by (cases "c = b") auto
next
  case (2 p d c)
  then show ?case using linkedD(2) [OF assms(1) 2] assms(2,3) by (cases "c = b") auto
next
  case (3 p d)
  then show ?case by (rule linkedD(3) [OF assms(1)])
next
  case (4 c m)
  then show ?case using linkedD(4) [OF assms(1)] assms(4) by (cases "c = b") auto
qed

lemma path_ok_sub: "path_ok S n \<Longrightarrow> S p = Some d \<Longrightarrow> sub_callback d' = sub_callback d \<Longrightarrow> path_ok (S(p := Some d')) n"
  by (auto simp: path_ok_def split: if_splits)

lemma path_ok_remove: "path_ok S n \<Longrightarrow> path_ok (S(p := None)) n"
  by (auto simp: path_ok_def split: if_splits)

lemma linked_sub:
  assumes "linked S N" "S p = Some d" "sub_notify d' = sub_notify d" "sub_callback d' = sub_callback d"
  shows "linked (S(p := Some d')) N"
proof (rule linkedI, goal_cases)
  case (1 b n q)
  then show ?case using linkedD(1) [OF assms(1) 1] assms(2,3) by (cases "q = p") auto
next
  case (2 q e b)
  then show ?case using linkedD(2) [OF assms(1)] assms(2,3) by (cases "q = p") auto
next
  case (3 q e)
  then show ?case using linkedD(3) [OF assms(1)] assms(2,4) by (cases "q = p") auto
next
  case (4 b n)
  then show ?case using linkedD(4) [OF assms(1)] assms(2,4) path_ok_sub by blast
qed

lemma set_obj_inv:
  assumes "ev_inv st" "map_of (notifylist st) b = Some n" "nt_sub (f n) = nt_sub n" "path_ok (map_of (subscriberlist st)) (f n)"
  shows "\<exists>st'. set_obj b f st = Some st' \<and> ev_inv st' \<and> subscriberlist st' = subscriberlist st
    \<and> map fst (notifylist st') = map fst (notifylist st) \<and> map_of (notifylist st') b = Some (f n)"
  using assms linked_obj [where N = "map_of (notifylist st)" and n' = "f n"] by (auto simp: set_obj_def ev_inv_def)

lemma set_sub_inv:
  assumes "ev_inv st" "map_of (subscriberlist st) p = Some d" "sub_notify (f d) = sub_notify d" "sub_callback (f d) = sub_callback d"
  shows "\<exists>st'. set_sub p f st = Some st' \<and> ev_inv st' \<and> notifylist st' = notifylist st"
  using assms linked_sub [where S = "map_of (subscriberlist st)" and d' = "f d"] by (auto simp: set_sub_def ev_inv_def)

text \<open>A new notification, and the end of one.\<close>

lemma linked_new:
  assumes "linked S N" "S p = Some d" "sub_notify d = None" "N b = None" "nt_sub n = Some p" "nt_state n = ECreated"
  shows "linked (S(p := Some (d\<lparr>sub_notify := Some b\<rparr>))) (N(b := Some n))"
proof (rule linkedI, goal_cases)
  case (1 c m q)
  show ?case
  proof (cases "c = b")
    case False
    with 1 linkedD(1) [OF assms(1)] have "\<exists>e. S q = Some e \<and> sub_notify e = Some c" by auto
    with assms(2,3) show ?thesis by (cases "q = p") auto
  qed (use 1 assms(5) in auto)
next
  case (2 q e c)
  show ?case
  proof (cases "q = p")
    case False
    with 2 linkedD(2) [OF assms(1)] have "\<exists>m. N c = Some m \<and> nt_sub m = Some q" by auto
    with assms(4) show ?thesis by (cases "c = b") auto
  qed (use 2 assms(5) in auto)
next
  case (3 q e)
  then show ?case using linkedD(3) [OF assms(1)] assms(2) by (cases "q = p") auto
next
  case (4 c m)
  show ?case
  proof (cases "c = b")
    case True
    with 4 assms(6) show ?thesis by (simp add: path_ok_def)
  next
    case False
    with 4 linkedD(4) [OF assms(1)] path_ok_sub [where S = S and p = p, OF _ assms(2)] show ?thesis by auto
  qed
qed

lemma linked_end:
  assumes "linked S N" "N b = Some n" "nt_sub n = Some p" "S p = Some d"
  shows "linked (S(p := Some (d\<lparr>sub_notify := None\<rparr>))) (N(b := None))" "linked (S(p := None)) (N(b := None))"
proof -
  from linkedD(1) [OF assms(1-3)] assms(4) have d: "sub_notify d = Some b" by auto
  have other: "q \<noteq> p" if "N c = Some m" "nt_sub m = Some q" "c \<noteq> b" for c m q
    using linkedD(1) [OF assms(1) that(1,2)] that(3) assms(4) d by auto
  have pointed: "c \<noteq> b" if "S q = Some e" "sub_notify e = Some c" "q \<noteq> p" for q e c
    using linkedD(2) [OF assms(1) that(1,2)] that(3) assms(2,3) by auto
  show "linked (S(p := Some (d\<lparr>sub_notify := None\<rparr>))) (N(b := None))"
    by (rule linkedI) (use other pointed linkedD [OF assms(1)] path_ok_sub [where S = S and p = p, OF _ assms(4)] assms(4) in \<open>auto split: if_splits\<close>)
  show "linked (S(p := None)) (N(b := None))"
    by (rule linkedI) (use other pointed linkedD [OF assms(1)] path_ok_remove in \<open>auto split: if_splits\<close>)
qed

lemma linked_drop_idle:
  assumes "linked S N" "\<And>p. S' p = S p \<or> (S' p = None \<and> (\<forall>d. S p = Some d \<longrightarrow> sub_notify d = None))"
  shows "linked S' N"
proof (rule linkedI, goal_cases)
  case (1 b n p)
  from linkedD(1) [OF assms(1) 1] assms(2) [of p] show ?case by auto
next
  case (2 p d b)
  with assms(2) [of p] show ?case by (intro linkedD(2) [OF assms(1)]) auto
next
  case (3 p d)
  with assms(2) [of p] show ?case by (intro linkedD(3) [OF assms(1)]) auto
next
  case (4 b n)
  from linkedD(4) [OF assms(1) 4] show ?case unfolding path_ok_def using assms(2) by (metis option.distinct(1))
qed

lemma linked_cut:
  assumes "linked S N" "S p = Some d" "sub_notify d = Some b" "N b = Some n"
  shows "linked (S(p := None)) (N(b := Some (n\<lparr>nt_sub := None\<rparr>)))"
proof -
  from linkedD(2) [OF assms(1-3)] assms(4) have n: "nt_sub n = Some p" by auto
  have other: "q \<noteq> p" if "N c = Some m" "nt_sub m = Some q" "c \<noteq> b" for c m q
    using linkedD(1) [OF assms(1) that(1,2)] that(3) assms(2,3) by auto
  have pointed: "c \<noteq> b" if "S q = Some e" "sub_notify e = Some c" "q \<noteq> p" for q e c
    using linkedD(2) [OF assms(1) that(1,2)] that(3) assms(4) n by auto
  have "path_ok (S(p := None)) (n\<lparr>nt_sub := None\<rparr>)" by (simp add: path_ok_def)
  then show ?thesis
    by (intro linkedI) (use other pointed linkedD [OF assms(1)] path_ok_remove in \<open>auto split: if_splits\<close>)
qed

lemma linked_add:
  assumes "linked S N" "S p = None" "sub_notify d = None" "7 \<le> length (sub_callback d)"
  shows "linked (S(p := Some d)) N"
proof (rule linkedI, goal_cases)
  case (1 b n q)
  from linkedD(1) [OF assms(1) 1] assms(2) show ?case by auto
next
  case (4 b n)
  have "nt_sub n \<noteq> Some p" using linkedD(1) [OF assms(1) 4, of p] assms(2) by auto
  with linkedD(4) [OF assms(1) 4] show ?case by (auto simp: path_ok_def)
qed (use linkedD [OF assms(1)] assms(3,4) in \<open>auto split: if_splits\<close>)

section \<open>Every operation keeps it\<close>

locale allocator =
  fixes malloc :: "nat list \<Rightarrow> nat option"
  assumes fresh: "malloc xs = Some a \<Longrightarrow> a \<notin> set xs"
begin

lemma create_notify_inv:
  assumes "ev_malloc E = malloc" "ev_inv st" "map_of (subscriberlist st) p = Some d" "sub_notify d = None"
  shows "\<exists>st'. upnp_event_create_notify E p st = Some st' \<and> ev_inv st' \<and> map fst (subscriberlist st') = map fst (subscriberlist st)"
proof (cases "ev_malloc E (live st)")
  case None
  with assms(2) show ?thesis by (simp add: upnp_event_create_notify_def)
next
  case (Some b)
  from fresh [of "live st" b] Some assms(1) have b: "b \<notin> set (map fst (notifylist st))" by auto
  then have b': "map_of (notifylist st) b = None" by (simp add: map_of_eq_None_iff)
  have l1: "linked (map_of (subscriberlist st)) (map_of (notifylist st))" using assms(2) by (simp add: ev_inv_def)
  note l = l1 linkedD(3) [OF l1 assms(3)]
  let ?s = "ev_socket E ((sub_callback d @ [CHR 0x00]) ! 7 = CHR ''['')"
  have "linked ((map_of (subscriberlist st))(p := Some (d\<lparr>sub_notify := Some b\<rparr>)))
      ((map_of (notifylist st))(b := Some (zero_notify\<lparr>nt_s := ?s, nt_sub := Some p\<rparr>)))"
    by (rule linked_new [OF l(1) assms(3,4) b']) (simp_all add: zero_notify_def)
  with Some assms(2,3) b l(2) show ?thesis
    by (auto simp: upnp_event_create_notify_def Let_def set_sub_def ev_inv_def)
qed

lemma addSubscriber_inv:
  assumes "ev_malloc E = malloc" "ev_inv st" "7 \<le> length callback"
  shows "\<exists>sid st'. upnpevents_addSubscriber E eventurl callback timeout st = Some (sid, st') \<and> ev_inv st'"
proof (cases "ev_malloc E (live st) = None \<or> newSubscriber E eventurl callback = None")
  case True
  with assms(2) show ?thesis by (auto simp: upnpevents_addSubscriber_def split: option.splits)
next
  case False
  then obtain p d where p: "ev_malloc E (live st) = Some p" "newSubscriber E eventurl callback = Some d" by auto
  let ?d = "if timeout \<noteq> 0 then d\<lparr>sub_timeout := ev_time E + timeout\<rparr> else d"
  let ?st = "st\<lparr>subscriberlist := (p, ?d) # subscriberlist st\<rparr>"
  have d: "sub_notify ?d = None" "7 \<le> length (sub_callback ?d)"
    using p(2) assms(3) by (auto simp: newSubscriber_def split: if_splits)
  from fresh [of "live st" p] p(1) assms(1) have f: "p \<notin> set (map fst (subscriberlist st))" by auto
  then have "map_of (subscriberlist st) p = None" by (simp add: map_of_eq_None_iff)
  with linked_add [where S = "map_of (subscriberlist st)", OF _ this d] assms(2) f have "ev_inv ?st" by (simp add: ev_inv_def)
  from create_notify_inv [OF assms(1) this, of p ?d] d(1) obtain st' where
    "upnp_event_create_notify E p ?st = Some st'" "ev_inv st'" by auto
  with p show ?thesis by (simp add: upnpevents_addSubscriber_def Let_def)
qed

lemma var_change_inv:
  assumes "ev_malloc E = malloc" "ev_inv st"
  shows "\<exists>st'. upnp_event_var_change_notify E service st = Some st' \<and> ev_inv st'"
proof -
  let ?I = "\<lambda>xs st'. ev_inv st' \<and> set xs \<subseteq> set (map fst (subscriberlist st'))"
  let ?f = "\<lambda>p st. case map_of (subscriberlist st) p of None \<Rightarrow> None
    | Some sub \<Rightarrow> if sub_service sub = service \<and> sub_notify sub = None then upnp_event_create_notify E p st else Some st"
  have "\<exists>st'. ?f p st = Some st' \<and> ?I xs st'" if "?I (p # xs) st" for p xs st
  proof -
    from that obtain d where d: "map_of (subscriberlist st) p = Some d"
      by (metis list.set_intros(1) map_of_eq_None_iff option.exhaust set_map subsetD)
    show ?thesis
    proof (cases "sub_service d = service \<and> sub_notify d = None")
      case True
      with that create_notify_inv [OF assms(1) _ d] show ?thesis by (auto simp: d simp del: set_map)
    next
      case False
      with that show ?thesis by (auto simp: d)
    qed
  qed
  from each_remaining [where I = ?I and f = ?f, OF this] assms(2) show ?thesis
    unfolding upnp_event_var_change_notify_def by blast
qed

end

lemma renew_inv: "ev_inv st \<Longrightarrow> ev_inv (snd (upnpevents_renewSubscription E sid timeout st))"
proof -
  assume inv: "ev_inv st"
  have "linked (map_of (put p (\<lambda>d. d\<lparr>sub_timeout := t\<rparr>) (subscriberlist st))) (map_of (notifylist st))" for p t
    using inv linked_sub [where S = "map_of (subscriberlist st)" and p = p]
    by (cases "map_of (subscriberlist st) p") (auto simp: ev_inv_def fun_upd_idem)
  with inv show ?thesis by (auto simp: upnpevents_renewSubscription_def ev_inv_def split: option.splits)
qed

lemma removeSubscriber_inv: "ev_inv st \<Longrightarrow> \<exists>r st'. upnpevents_removeSubscriber sid st = Some (r, st') \<and> ev_inv st'"
proof (cases "find (\<lambda>(_, sub). sid_matches sid sub) (subscriberlist st)")
  case (Some x)
  assume inv: "ev_inv st"
  obtain p d where x: "x = (p, d)" by fastforce
  from Some x have "(p, d) \<in> set (subscriberlist st)" by (metis find_Some_iff nth_mem)
  with inv have d: "map_of (subscriberlist st) p = Some d" by (simp add: ev_inv_def)
  have l: "linked (map_of (subscriberlist st)) (map_of (notifylist st))" using inv by (simp add: ev_inv_def)
  show ?thesis
  proof (cases "sub_notify d")
    case None
    have "linked ((map_of (subscriberlist st))(p := None)) (map_of (notifylist st))"
      by (rule linked_drop_idle [OF l]) (use None d in auto)
    with Some x None inv show ?thesis by (simp add: upnpevents_removeSubscriber_def ev_inv_def)
  next
    case (Some b)
    from linkedD(2) [OF l d Some] obtain n where n: "map_of (notifylist st) b = Some n" by blast
    from linked_cut [OF l d Some n] Some n \<open>find _ _ = Some x\<close> x inv show ?thesis
      by (simp add: upnpevents_removeSubscriber_def set_obj_def ev_inv_def)
  qed
qed (simp add: upnpevents_removeSubscriber_def)

text \<open>The operations on one notification; they neither remove nor add objects.\<close>

abbreviation same_objects :: "events \<Rightarrow> events \<Rightarrow> bool" where
  "same_objects st st' \<equiv> map fst (notifylist st') = map fst (notifylist st)"

lemma set_obj_step:
  assumes "ev_inv st" "map_of (notifylist st) b = Some n" "nt_sub (f n) = nt_sub n" "path_ok (map_of (subscriberlist st)) (f n)"
  shows "\<exists>st'. set_obj b f st = Some st' \<and> ev_inv st' \<and> same_objects st st'"
  using set_obj_inv [where f = f, OF assms] by blast

lemma path_ok_state: "nt_state n \<noteq> EConnecting \<Longrightarrow> path_ok S n"
  by (simp add: path_ok_def)

lemma callback_rest_length:
  "callback_host p = (v6, a, r) \<Longrightarrow> length r \<le> length p" "callback_port q = (port, s, path) \<Longrightarrow> length path \<le> length q"
  by (auto simp: callback_host_def callback_port_def Let_def split: if_splits)

lemma connect_inv:
  assumes "ev_inv st" "map_of (notifylist st) b = Some n"
  shows "\<exists>st'. upnp_event_notify_connect E b st = Some st' \<and> ev_inv st' \<and> same_objects st st'"
proof (cases "nt_sub n")
  case None
  with assms show ?thesis
    unfolding upnp_event_notify_connect_def by (simp add: set_obj_step [OF assms] path_ok_state)
next
  case (Some p)
  have l: "linked (map_of (subscriberlist st)) (map_of (notifylist st))" using assms(1) by (simp add: ev_inv_def)
  from linkedD(1) [OF l assms(2) Some] obtain d where d: "map_of (subscriberlist st) p = Some d" by blast
  show ?thesis
  proof (cases "take 7 (cstr (sub_callback d)) = ''http://''")
    case False
    with Some d assms show ?thesis
      unfolding upnp_event_notify_connect_def by (simp add: set_obj_step [OF assms] path_ok_state)
  next
    case True
    obtain v6 a r where h: "callback_host (drop 7 (cstr (sub_callback d))) = (v6, a, r)" by (metis prod_cases3)
    obtain port s path where q: "callback_port r = (port, s, path)" by (metis prod_cases3)
    let ?f = "\<lambda>m. m\<lparr>nt_ipv6 := v6, nt_addrstr := a, nt_portstr := s,
      nt_path := Some (p, length (cstr (sub_callback d)) - length path),
      nt_state := (if ev_connect E (nt_s n) (callback_addr v6 a) port then EConnecting else EError)\<rparr>"
    have "path_ok (map_of (subscriberlist st)) (?f n)" using Some d by (auto simp: path_ok_def)
    from set_obj_step [OF assms, of ?f, OF _ this] True Some d h q assms(2) show ?thesis
      unfolding upnp_event_notify_connect_def by (simp add: Let_def set_obj_def)
  qed
qed

lemma prepare_inv:
  assumes "ev_inv st" "map_of (notifylist st) b = Some n" "nt_state n = EConnecting"
  shows "\<exists>st'. upnp_event_prepare E b st = Some st' \<and> ev_inv st' \<and> same_objects st st' \<and> map_of (notifylist st') b \<noteq> None"
proof (cases "nt_sub n")
  case None
  with assms set_obj_inv [OF assms(1,2), of "\<lambda>n. n\<lparr>nt_state := EError\<rparr>"] show ?thesis
    by (auto simp: upnp_event_prepare_def path_ok_state)
next
  case (Some p)
  have l: "linked (map_of (subscriberlist st)) (map_of (notifylist st))" using assms(1) by (simp add: ev_inv_def)
  from linkedD(1) [OF l assms(2) Some] obtain d where d: "map_of (subscriberlist st) p = Some d" by blast
  from linkedD(4) [OF l assms(2)] Some d assms(3) obtain off where
    o: "nt_path n = Some (p, off)" "off \<le> length (cstr (sub_callback d))" by (auto simp: path_ok_def)
  let ?path = "drop off (cstr (sub_callback d))"
  let ?msg = "notifymsg E (if ?path \<noteq> [] then ?path else ''/'') (nt_addrstr n) (nt_portstr n) (sub_uuid d) (sub_seq d)
    (ev_vars E (sub_service d))"
  from set_obj_inv [OF assms(1,2), of "\<lambda>n. n\<lparr>nt_buffer := ?msg, nt_tosend := length ?msg, nt_state := ESending\<rparr>"] Some d o assms(2)
  show ?thesis by (auto simp: upnp_event_prepare_def Let_def path_ok_state)
qed

lemma send_inv:
  assumes "ev_inv st" "map_of (notifylist st) b = Some n"
  shows "\<exists>st'. upnp_event_send E b st = Some st' \<and> ev_inv st' \<and> same_objects st st'"
proof -
  have l: "linked (map_of (subscriberlist st)) (map_of (notifylist st))" using assms(1) by (simp add: ev_inv_def)
  note path = linkedD(4) [OF l assms(2)]
  have "path_ok (map_of (subscriberlist st)) (n\<lparr>nt_sent := k, nt_state := (if k = nt_tosend n then EWaitingForResponse else nt_state n)\<rparr>)" for k
    using path by (auto simp: path_ok_def)
  then have step: "\<exists>st'. set_obj b (\<lambda>m. m\<lparr>nt_sent := k, nt_state := (if k = nt_tosend n then EWaitingForResponse else nt_state n)\<rparr>) st = Some st'
      \<and> ev_inv st' \<and> same_objects st st'" for k
    by (intro set_obj_step [OF assms]) simp_all
  show ?thesis
  proof (cases "ev_send E (nt_s n) (drop (nt_sent n) (nt_buffer n))")
    case Failed
    with assms(2) set_obj_step [OF assms, of "\<lambda>n. n\<lparr>nt_state := EError\<rparr>"] show ?thesis
      by (simp add: upnp_event_send_def path_ok_state)
  qed (use step assms(2) in \<open>simp_all add: upnp_event_send_def Let_def\<close>)
qed

lemma recv_inv:
  assumes "ev_inv st" "map_of (notifylist st) b = Some n"
  shows "\<exists>st'. upnp_event_recv E b st = Some st' \<and> ev_inv st' \<and> same_objects st st'"
proof (cases "ev_recv E (nt_s n)")
  case (Bytes k)
  obtain st1 where s: "set_obj b (\<lambda>n. n\<lparr>nt_state := EFinished\<rparr>) st = Some st1" "ev_inv st1" "same_objects st st1"
    "subscriberlist st1 = subscriberlist st"
    using set_obj_inv [OF assms, of "\<lambda>n. n\<lparr>nt_state := EFinished\<rparr>"] by (auto simp: path_ok_state)
  show ?thesis
  proof (cases "nt_sub n")
    case None
    with Bytes s assms(2) show ?thesis by (simp add: upnp_event_recv_def)
  next
    case (Some p)
    have l: "linked (map_of (subscriberlist st)) (map_of (notifylist st))" using assms(1) by (simp add: ev_inv_def)
    from linkedD(1) [OF l assms(2) Some] obtain d where "map_of (subscriberlist st) p = Some d" by blast
    with set_sub_inv [OF s(2), of p d "\<lambda>d. d\<lparr>sub_seq := sub_seq d + 1\<rparr>"] Bytes s Some assms(2) show ?thesis
      by (auto simp: upnp_event_recv_def)
  qed
qed (use assms set_obj_step [OF assms] in \<open>simp_all add: upnp_event_recv_def path_ok_state\<close>)

lemma process_notify_inv:
  assumes "ev_inv st" "map_of (notifylist st) b = Some n"
  shows "\<exists>st'. upnp_event_process_notify E b st = Some st' \<and> ev_inv st' \<and> same_objects st st'"
proof (cases "nt_state n")
  case EConnecting
  from prepare_inv [OF assms EConnecting, of E] obtain st1 n1 where
    p: "upnp_event_prepare E b st = Some st1" "ev_inv st1" "same_objects st st1" "map_of (notifylist st1) b = Some n1" by auto
  from send_inv [OF p(2,4), of E] obtain st2 where "upnp_event_send E b st1 = Some st2" "ev_inv st2" "same_objects st1 st2" by blast
  with p EConnecting assms set_obj_step [OF assms, of "\<lambda>n. n\<lparr>nt_state := EError\<rparr>"] show ?thesis
    by (auto simp: upnp_event_process_notify_def path_ok_state split: option.splits)
next
  case EFinished
  with assms set_obj_step [OF assms, of "\<lambda>n. n\<lparr>nt_s := -1\<rparr>"] show ?thesis
    by (simp add: upnp_event_process_notify_def path_ok_state)
qed (use assms send_inv [OF assms] recv_inv [OF assms] in \<open>auto simp: upnp_event_process_notify_def\<close>)

lemma each_object:
  assumes "\<And>b n st. ev_inv st \<Longrightarrow> map_of (notifylist st) b = Some n \<Longrightarrow> \<exists>st'. f b n st = Some st' \<and> ev_inv st' \<and> same_objects st st'"
    and "ev_inv st"
  shows "\<exists>st'. each (\<lambda>b st. case map_of (notifylist st) b of None \<Rightarrow> None | Some n \<Rightarrow> f b n st) (map fst (notifylist st)) st = Some st'
    \<and> ev_inv st'"
proof -
  let ?I = "\<lambda>xs st'. ev_inv st' \<and> set xs \<subseteq> set (map fst (notifylist st'))"
  let ?f = "\<lambda>b st. case map_of (notifylist st) b of None \<Rightarrow> None | Some n \<Rightarrow> f b n st"
  have "\<exists>st'. ?f b st = Some st' \<and> ?I xs st'" if i: "?I (b # xs) st" for b xs st
  proof -
    from i obtain n where n: "map_of (notifylist st) b = Some n"
      by (metis list.set_intros(1) map_of_eq_None_iff option.exhaust set_map subsetD)
    from assms(1) [OF _ n] i show ?thesis by (auto simp: n simp del: set_map)
  qed
  from each_remaining [where I = ?I and f = ?f, OF this] assms(2) show ?thesis by blast
qed

lemma selectfds_inv: "ev_inv st \<Longrightarrow> \<exists>st'. upnpevents_selectfds E st = Some st' \<and> ev_inv st'"
  unfolding upnpevents_selectfds_def by (rule each_object) (use connect_inv in \<open>auto split: if_splits\<close>)

definition ended :: "upnp_event_notify \<Rightarrow> bool" where
  "ended n = (nt_state n = EError \<or> nt_state n = EFinished)"

lemma drop_notify_inv:
  assumes "ev_inv st" "map_of (notifylist st) b = Some n"
  shows "\<exists>st'. drop_notify b st = Some st' \<and> ev_inv st'
    \<and> map_of (notifylist st') = (if ended n then (map_of (notifylist st))(b := None) else map_of (notifylist st))"
proof (cases "ended n")
  case False
  with assms show ?thesis by (simp add: drop_notify_def ended_def)
next
  case True
  have l: "linked (map_of (subscriberlist st)) (map_of (notifylist st))" using assms(1) by (simp add: ev_inv_def)
  show ?thesis
  proof (cases "nt_sub n")
    case None
    have "linked (map_of (subscriberlist st)) ((map_of (notifylist st))(b := None))"
    proof (rule linkedI, goal_cases)
      case (2 p d c)
      from linkedD(2) [OF l 2] None assms(2) show ?case by (cases "c = b") auto
    qed (use linkedD [OF l] in \<open>auto split: if_splits\<close>)
    with None True assms show ?thesis by (simp add: drop_notify_def ended_def ev_inv_def)
  next
    case (Some p)
    from linkedD(1) [OF l assms(2) Some] obtain d where d: "map_of (subscriberlist st) p = Some d" by blast
    from linked_end [OF l assms(2) Some d] True Some d assms show ?thesis
      by (auto simp: drop_notify_def set_sub_def ended_def ev_inv_def Let_def)
  qed
qed

lemma drop_notifies:
  assumes "ev_inv st"
  shows "\<exists>st'. each drop_notify (map fst (notifylist st)) st = Some st' \<and> ev_inv st'
    \<and> (\<forall>b n. map_of (notifylist st') b = Some n \<longrightarrow> \<not> ended n)"
proof -
  let ?I = "\<lambda>xs st'. ev_inv st' \<and> distinct xs \<and> (\<forall>b\<in>set xs. map_of (notifylist st') b \<noteq> None)
    \<and> (\<forall>b n. map_of (notifylist st') b = Some n \<and> b \<notin> set xs \<longrightarrow> \<not> ended n)"
  have step: "\<exists>st'. drop_notify b st = Some st' \<and> ?I xs st'" if i: "?I (b # xs) st" for b xs st
  proof -
    from i obtain n where n: "map_of (notifylist st) b = Some n" by auto
    from drop_notify_inv [OF _ n] i obtain st' where s: "drop_notify b st = Some st'" "ev_inv st'"
      "map_of (notifylist st') = (if ended n then (map_of (notifylist st))(b := None) else map_of (notifylist st))" by blast
    have "\<forall>c\<in>set xs. map_of (notifylist st') c \<noteq> None" using i s(3) by auto
    moreover have "\<not> ended m" if "map_of (notifylist st') c = Some m" "c \<notin> set xs" for c m
      using that i n s(3) by (cases "c = b") (auto split: if_splits)
    ultimately show ?thesis using s(1,2) i by auto
  qed
  have "?I (map fst (notifylist st)) st"
    using assms by (auto simp: ev_inv_def map_of_eq_None_iff image_iff dest: map_of_SomeD)
  from each_remaining [where I = ?I and f = drop_notify, OF step this] show ?thesis by auto
qed

lemma processfds_inv:
  assumes "ev_inv st"
  shows "\<exists>st'. upnpevents_processfds E st = Some st' \<and> ev_inv st'
    \<and> (\<forall>b n. map_of (notifylist st') b = Some n \<longrightarrow> \<not> ended n) \<and> (\<forall>p d. map_of (subscriberlist st') p = Some d \<longrightarrow> \<not> expired E d)"
proof -
  let ?g = "\<lambda>p n st. if nt_s n \<ge> 0 \<and> ev_isset E (nt_s n) then upnp_event_process_notify E p st else Some st"
  have "\<exists>st'. ?g p n st = Some st' \<and> ev_inv st' \<and> same_objects st st'" if "ev_inv st" "map_of (notifylist st) p = Some n" for p n st
    using process_notify_inv [OF that] that(1) by simp
  note g = this
  obtain st1 where s1: "each (\<lambda>p st. case map_of (notifylist st) p of None \<Rightarrow> None
      | Some n \<Rightarrow> if nt_s n \<ge> 0 \<and> ev_isset E (nt_s n) then upnp_event_process_notify E p st else Some st)
      (map fst (notifylist st)) st = Some st1" "ev_inv st1"
    using each_object [of ?g, OF g assms] by blast
  from drop_notifies [OF s1(2)] obtain st2 where s2: "each drop_notify (map fst (notifylist st1)) st1 = Some st2" "ev_inv st2"
    "\<forall>b n. map_of (notifylist st2) b = Some n \<longrightarrow> \<not> ended n" by blast
  let ?subs = "filter (\<lambda>(_, sub). \<not> expired E sub) (subscriberlist st2)"
  have d: "distinct (map fst (subscriberlist st2))" using s2(2) by (simp add: ev_inv_def)
  have m: "map_of ?subs p = (case map_of (subscriberlist st2) p of None \<Rightarrow> None | Some d \<Rightarrow> if expired E d then None else Some d)" for p
    using map_of_filter_snd [OF d, of "\<lambda>x. \<not> expired E x" p] by (simp split: option.splits)
  have "map_of ?subs p = map_of (subscriberlist st2) p
      \<or> (map_of ?subs p = None \<and> (\<forall>d. map_of (subscriberlist st2) p = Some d \<longrightarrow> sub_notify d = None))" for p
    unfolding m by (cases "map_of (subscriberlist st2) p") (simp_all add: expired_def)
  note sub = this
  have l: "linked (map_of (subscriberlist st2)) (map_of (notifylist st2))" using s2(2) by (simp add: ev_inv_def)
  have "linked (map_of ?subs) (map_of (notifylist st2))" by (rule linked_drop_idle [OF l sub])
  then have "ev_inv (st2\<lparr>subscriberlist := ?subs\<rparr>)" using s2(2) d by (simp add: ev_inv_def distinct_map_filter)
  with s1(1) s2(1,3) m show ?thesis by (auto simp: upnpevents_processfds_def split: option.splits if_splits)
qed

section \<open>Reachable states\<close>

text \<open>The calls that \<open>miniupnpd.c\<close>, \<open>upnphttp.c\<close> and \<open>upnpredirect.c\<close> make, each with its own outcome of the system calls.\<close>

definition no_events :: events where
  "no_events = \<lparr>subscriberlist = [], notifylist = []\<rparr>"

inductive events_reach :: "(nat list \<Rightarrow> nat option) \<Rightarrow> events \<Rightarrow> bool" for malloc where
  start: "events_reach malloc no_events"
| subscribe: "events_reach malloc st \<Longrightarrow> ev_malloc E = malloc \<Longrightarrow> 7 \<le> length callback \<Longrightarrow>
    upnpevents_addSubscriber E eventurl callback timeout st = Some (sid, st') \<Longrightarrow> events_reach malloc st'"
| renew: "events_reach malloc st \<Longrightarrow> ev_malloc E = malloc \<Longrightarrow>
    events_reach malloc (snd (upnpevents_renewSubscription E sid timeout st))"
| unsubscribe: "events_reach malloc st \<Longrightarrow> upnpevents_removeSubscriber sid st = Some (r, st') \<Longrightarrow> events_reach malloc st'"
| change: "events_reach malloc st \<Longrightarrow> ev_malloc E = malloc \<Longrightarrow>
    upnp_event_var_change_notify E service st = Some st' \<Longrightarrow> events_reach malloc st'"
| selectfds: "events_reach malloc st \<Longrightarrow> ev_malloc E = malloc \<Longrightarrow> upnpevents_selectfds E st = Some st' \<Longrightarrow> events_reach malloc st'"
| processfds: "events_reach malloc st \<Longrightarrow> ev_malloc E = malloc \<Longrightarrow> upnpevents_processfds E st = Some st' \<Longrightarrow> events_reach malloc st'"

context allocator
begin

lemma reach_inv: "events_reach malloc st \<Longrightarrow> ev_inv st"
proof (induction rule: events_reach.induct)
  case start
  then show ?case by (simp add: ev_inv_def no_events_def linked_def)
next
  case (subscribe st E callback eventurl timeout sid st')
  then show ?case using addSubscriber_inv [of E st callback eventurl timeout] by auto
next
  case (renew st E sid timeout)
  then show ?case by (intro renew_inv)
next
  case (unsubscribe st sid r st')
  then show ?case using removeSubscriber_inv [of st sid] by auto
next
  case (change st E service st')
  then show ?case using var_change_inv [of E st service] by auto
next
  case (selectfds st E st')
  then show ?case using selectfds_inv [of st E] by auto
next
  case (processfds st E st')
  then show ?case using processfds_inv [of st E] by auto
qed

end

text \<open>An allocator: the address after the highest one in use.\<close>

definition next_address :: "nat list \<Rightarrow> nat option" where
  "next_address xs = Some (Suc (fold max xs 0))"

interpretation na: allocator next_address
proof
  have "k \<le> fold max xs k \<and> (\<forall>x\<in>set xs. x \<le> fold max xs k)" for xs and k :: nat
  proof (induction xs arbitrary: k)
    case (Cons x xs)
    from Cons [of "max x k"] show ?case by auto
  qed simp
  then have "\<forall>x\<in>set xs. x < Suc (fold max xs 0)" for xs by (simp add: less_Suc_eq_le)
  then show "next_address xs = Some a \<Longrightarrow> a \<notin> set xs" for xs a by (auto simp: next_address_def)
qed

section \<open>Properties\<close>

text \<open>
  C19: no call of the event module uses a freed object or reads past a callback: in every state that
  subscriptions, renewals, changes and rounds of \<open>select\<close> reach, in any order and with any outcome of the
  system calls and any allocator, each operation can be carried out, and the pointers between
  subscribers and notifications are mutual.
\<close>

theorem events_memory_safe:
  assumes "allocator malloc" and "events_reach malloc st" and "ev_malloc E = malloc"
  shows "linked (map_of (subscriberlist st)) (map_of (notifylist st))
    \<and> (7 \<le> length callback \<longrightarrow> upnpevents_addSubscriber E eventurl callback timeout st \<noteq> None)
    \<and> upnpevents_removeSubscriber sid st \<noteq> None \<and> upnp_event_var_change_notify E service st \<noteq> None
    \<and> upnpevents_selectfds E st \<noteq> None \<and> upnpevents_processfds E st \<noteq> None"
proof -
  have inv: "ev_inv st" by (rule allocator.reach_inv [OF assms(1,2)])
  then have "linked (map_of (subscriberlist st)) (map_of (notifylist st))" by (simp add: ev_inv_def)
  with allocator.addSubscriber_inv [OF assms(1,3) inv, of callback eventurl timeout] removeSubscriber_inv [OF inv, of sid]
    allocator.var_change_inv [OF assms(1,3) inv, of service] selectfds_inv [OF inv, of E] processfds_inv [OF inv, of E]
  show ?thesis by auto
qed

text \<open>
  after a round of the main loop no notification that has ended is left, and no subscription that has
  expired; a subscription with a notification under way is not dropped for its age.
\<close>

theorem processfds_cleans:
  assumes "allocator malloc" and "events_reach malloc st"
  shows "\<exists>st'. upnpevents_processfds E st = Some st'
    \<and> (\<forall>b n. map_of (notifylist st') b = Some n \<longrightarrow> nt_state n \<noteq> EError \<and> nt_state n \<noteq> EFinished)
    \<and> (\<forall>p d. map_of (subscriberlist st') p = Some d \<longrightarrow> \<not> (sub_timeout d \<noteq> 0 \<and> ev_time E > sub_timeout d \<and> sub_notify d = None))"
  using processfds_inv [OF allocator.reach_inv [OF assms], of E] by (auto simp: ended_def expired_def)

text \<open>
  a change of the state variables while a subscriber has a notification under way is not recorded: when
  every subscriber of the service has one, be it that its message has been sent already with the old
  values, the call leaves everything as it is.
\<close>

theorem change_during_notification_lost:
  assumes "distinct (map fst (subscriberlist st))"
    and "\<forall>(p, d)\<in>set (subscriberlist st). sub_service d = service \<longrightarrow> sub_notify d \<noteq> None"
  shows "upnp_event_var_change_notify E service st = Some st"
proof -
  let ?f = "\<lambda>p st. case map_of (subscriberlist st) p of None \<Rightarrow> None
    | Some sub \<Rightarrow> if sub_service sub = service \<and> sub_notify sub = None then upnp_event_create_notify E p st else Some st"
  have "?f p st = Some st" if "p \<in> set (map fst (subscriberlist st))" for p
    using that assms by (auto split: option.splits simp: map_of_eq_None_iff)
  then have "each ?f xs st = Some st" if "set xs \<subseteq> set (map fst (subscriberlist st))" for xs
    using that by (induction xs) auto
  then show ?thesis unfolding upnp_event_var_change_notify_def by blast
qed

section \<open>A concrete run\<close>

definition demo_events :: events_env where
  "demo_events = \<lparr>ev_malloc = next_address, ev_uuid = ''00000000-0000-0000-0000-000000000000'', ev_time = 100, ev_strict = False,
     ev_l3f = False, ev_6fc = False, ev_dp = False, ev_socket = (\<lambda>_. 7), ev_non_blocking = (\<lambda>_. True),
     ev_connect = (\<lambda>_ _ _. True), ev_so_error = (\<lambda>_. Some 0), ev_send = (\<lambda>_ m. Bytes (length m)), ev_recv = (\<lambda>_. Again),
     ev_isset = (\<lambda>_. True), ev_vars = (\<lambda>_. ''<e/>''), upnp_version_1_0 = False\<rparr>"

definition demo_subscribed :: events where
  "demo_subscribed = (case upnpevents_addSubscriber demo_events ''/evt/IPConn'' ''http://10.0.0.2/e'' 1800 no_events of
     Some (_, st) \<Rightarrow> st | None \<Rightarrow> no_events)"

definition demo_sent :: events where
  "demo_sent = (case upnpevents_selectfds demo_events demo_subscribed of None \<Rightarrow> no_events
     | Some st \<Rightarrow> (case upnpevents_processfds demo_events st of None \<Rightarrow> no_events | Some st \<Rightarrow> st))"

lemmas events_eval = demo_events_def next_address_def no_events_def upnpevents_addSubscriber_def newSubscriber_def event_service_def
  WANCFG_EVENTURL_def WANIPC_EVENTURL_def upnp_event_create_notify_def set_sub_def set_obj_def put_def zero_notify_def Let_def
  upnpevents_selectfds_def upnp_event_notify_connect_def callback_host_def callback_port_def cstr_def upnpevents_processfds_def
  upnp_event_process_notify_def upnp_event_prepare_def upnp_event_send_def drop_notify_def expired_def

lemma demo_subscribed_eval: "map (nt_state \<circ> snd) (notifylist demo_subscribed) = [ECreated]"
  by (simp add: demo_subscribed_def events_eval)

lemma demo_sent_eval: "map (nt_state \<circ> snd) (notifylist demo_sent) = [EWaitingForResponse]"
    "\<forall>(p, d)\<in>set (subscriberlist demo_sent). sub_service d = EWanIPC \<longrightarrow> sub_notify d \<noteq> None"
  by (simp_all add: demo_sent_def demo_subscribed_def events_eval)

lemma demo_subscribed_reach: "events_reach next_address demo_subscribed"
proof -
  have m: "ev_malloc demo_events = next_address" by (simp add: demo_events_def)
  obtain sid st where s: "upnpevents_addSubscriber demo_events ''/evt/IPConn'' ''http://10.0.0.2/e'' 1800 no_events = Some (sid, st)"
    using na.addSubscriber_inv [OF m na.reach_inv [OF events_reach.start], of "''http://10.0.0.2/e''" "''/evt/IPConn''" 1800] by auto
  then show ?thesis unfolding demo_subscribed_def s by (simp add: events_reach.subscribe [OF events_reach.start m _ s])
qed

lemma demo_sent_reach: "events_reach next_address demo_sent"
proof -
  have m: "ev_malloc demo_events = next_address" by (simp add: demo_events_def)
  obtain st where s: "upnpevents_selectfds demo_events demo_subscribed = Some st"
    using selectfds_inv [OF na.reach_inv [OF demo_subscribed_reach], of demo_events] by blast
  note r = events_reach.selectfds [OF demo_subscribed_reach m s]
  obtain st' where s': "upnpevents_processfds demo_events st = Some st'"
    using processfds_inv [OF na.reach_inv [OF r], of demo_events] by blast
  show ?thesis unfolding demo_sent_def using events_reach.processfds [OF r m s'] by (simp add: s s')
qed

theorem events_memory_safe_witness:
  "upnpevents_processfds demo_events demo_subscribed \<noteq> None \<and> map (nt_state \<circ> snd) (notifylist demo_subscribed) = [ECreated]"
  using events_memory_safe [OF na.allocator_axioms demo_subscribed_reach, of demo_events] demo_subscribed_eval
  by (simp add: demo_events_def)

theorem processfds_cleans_witness:
  "\<exists>st'. upnpevents_processfds (demo_events\<lparr>ev_recv := \<lambda>_. Bytes 1\<rparr>) demo_sent = Some st'
     \<and> (\<forall>b n. map_of (notifylist st') b = Some n \<longrightarrow> nt_state n \<noteq> EFinished)"
  using processfds_cleans [OF na.allocator_axioms demo_sent_reach, of "demo_events\<lparr>ev_recv := \<lambda>_. Bytes 1\<rparr>"] by blast

theorem change_during_notification_lost_witness:
  "upnp_event_var_change_notify demo_events EWanIPC demo_sent = Some demo_sent
     \<and> map (nt_state \<circ> snd) (notifylist demo_sent) = [EWaitingForResponse]"
proof -
  have "distinct (map fst (subscriberlist demo_sent))" using na.reach_inv [OF demo_sent_reach] by (simp add: ev_inv_def)
  from change_during_notification_lost [OF this demo_sent_eval(2)] demo_sent_eval(1) show ?thesis by blast
qed

end
