(* ===== verification/UpnpHttp.thy ===== *)
theory UpnpHttp
  imports UpnpSoap UpnpEvents
begin

text \<open>
  \<open>upnphttp.c\<close>: the HTTP server, from the bytes of a connection to the SOAP action, the subscription or
  the description they ask for, and back to the bytes of the answer.

  A connection keeps the bytes it has received; its buffer has \<open>req_bufalloc\<close> bytes, of which the first
  \<open>length (req_buf h)\<close> are in use. The answer is kept in the same way. Reading a byte that has not been
  received and writing past the end of the answer buffer is \<^const>\<open>None\<close>. Memory for an answer can be
  allocated; enlarging the request buffer may fail. A call of \<open>recv\<close> gives bytes (none when the peer has
  closed) or an error, calls of \<open>send\<close> are a list of outcomes, and when it is used up the socket is not
  ready. TLS is not modelled, it only replaces \<open>recv\<close> and \<open>send\<close>.
\<close>

unbundle bit_operations_syntax

section \<open>State\<close>

datatype httpStates = EWaitingForHttpRequest | EWaitingForHttpContent | ESendingContinue | ESendingAndClosing | EToDelete

datatype httpCommands = EUnknown | EGet | EPost | ESubscribe | EUnSubscribe

record upnphttp =
  h_socket :: int
  h_client :: http_req
  h_ipv6 :: bool
  h_state :: httpStates
  HttpVer :: string
  req_buf :: string
  accept_language :: string
  req_bufalloc :: nat
  req_contentlen :: nat
  req_contentoff :: nat
  req_command :: httpCommands
  req_soapActionOff :: nat
  req_soapActionLen :: nat
  req_HostOff :: nat
  req_HostLen :: nat
  req_CallbackOff :: nat
  req_CallbackLen :: nat
  req_Timeout :: int
  req_SIDOff :: nat
  req_SIDLen :: nat
  res_SID :: string
  req_NTOff :: nat
  req_NTLen :: nat
  respflags :: u32
  res_buf :: string
  res_sent :: nat
  res_buf_alloclen :: nat

definition FLAG_TIMEOUT :: u32 where "FLAG_TIMEOUT = 0x01"
definition FLAG_SID :: u32 where "FLAG_SID = 0x02"
definition FLAG_CONTINUE :: u32 where "FLAG_CONTINUE = 0x40"
definition FLAG_HTML :: u32 where "FLAG_HTML = 0x80"
definition FLAG_ALLOW_POST :: u32 where "FLAG_ALLOW_POST = 0x100"
definition FLAG_ALLOW_SUB_UNSUB :: u32 where "FLAG_ALLOW_SUB_UNSUB = 0x200"
definition FLAG_MS_CLIENT :: u32 where "FLAG_MS_CLIENT = 0x400"

text \<open>
  The settings: those of the SOAP actions and of the events, the build options, the limits, the texts of the
  \<open>Server\<close> header, and the generated descriptions. \<open>os_version\<close> is the text read at run time, when
  the build has \<open>DYNAMIC_OS_VERSION\<close>.
\<close>

record ('s, 're, 'k, 'h) http_env =
  ht_soap :: "('s, 're, 'k, 'h) soap_env"
  ht_events :: events_env
  enable_events :: bool
  has_dummy_service :: bool
  char_is_signed :: bool
  UPNP_VERSION_MAJOR :: nat
  UPNP_VERSION_MINOR :: nat
  random_url :: "string option"
  force_igd_desc_v1 :: bool
  CONTENT_LENGTH_LIMIT :: nat
  HEADERS_LENGTH_LIMIT :: nat
  OS_VERSION :: string
  server_string_rest :: string
  os_version :: "string option"
  http_date :: "string option"
  ht_realloc :: "nat \<Rightarrow> bool"
  desc_root :: "bool \<Rightarrow> string option"
  desc_WANIPCn :: "bool \<Rightarrow> string option"
  desc_WANCfg :: "bool \<Rightarrow> string option"
  desc_L3F :: "bool \<Rightarrow> string option"
  desc_6FC :: "bool \<Rightarrow> string option"
  desc_DP :: "bool \<Rightarrow> string option"

abbreviation ht_strict :: "('s, 're, 'k, 'h) http_env \<Rightarrow> bool" where
  "ht_strict E \<equiv> upnp_strict (ht_soap E)"

record ('s, 'k) http_state =
  hs_soap :: "('s, 'k) soap_state"
  hs_events :: events

datatype recv_result = Received string | RecvAgain | RecvError

datatype send_result = Sent nat | SendInterrupted | SendAgain | SendError

definition New_upnphttp :: "int \<Rightarrow> upnphttp option" where
  "New_upnphttp s =
     (if s < 0 then None
      else Some \<lparr>h_socket = s,
        h_client = \<lparr>clientaddr = 0, clientaddr_v6 = replicate 16 0, clientaddr_str = [], peer_certificate = False, content = []\<rparr>,
        h_ipv6 = False, h_state = EWaitingForHttpRequest, HttpVer = ''HTTP/0.9'', req_buf = [], accept_language = [],
        req_bufalloc = 0, req_contentlen = 0, req_contentoff = 0, req_command = EUnknown,
        req_soapActionOff = 0, req_soapActionLen = 0, req_HostOff = 0, req_HostLen = 0,
        req_CallbackOff = 0, req_CallbackLen = 0, req_Timeout = 0, req_SIDOff = 0, req_SIDLen = 0, res_SID = [],
        req_NTOff = 0, req_NTLen = 0, respflags = 0, res_buf = [], res_sent = 0, res_buf_alloclen = 0\<rparr>)"

text \<open>An accepted connection (\<open>ProcessIncomingHTTP\<close> of \<open>miniupnpd.c\<close>).\<close>

definition accept_http :: "('s, 're, 'k, 'h) http_env \<Rightarrow> int \<Rightarrow> sockaddr \<Rightarrow> u16 \<Rightarrow> u32 \<Rightarrow> upnphttp option" where
  "accept_http E shttp clientname port scope_id =
     (case (ProcessIncomingHTTP (ht_soap E) clientname port scope_id, New_upnphttp shttp) of
        (Some c, Some h) \<Rightarrow>
          Some (h\<lparr>h_client := c, h_ipv6 := (case clientname of Inet _ \<Rightarrow> False | Inet6 a \<Rightarrow> \<not> in6_is_v4mapped a)\<rparr>)
      | _ \<Rightarrow> None)"

definition CloseSocket_upnphttp :: "upnphttp \<Rightarrow> upnphttp" where
  "CloseSocket_upnphttp h = h\<lparr>h_socket := -1, h_state := EToDelete\<rparr>"

section \<open>Reading the request\<close>

text \<open>
  A loop that steps over characters, from an index to the first character that stops it; a loop that
  stops at a limit as well; the comparison of a prefix without regard to case, which ends at the first
  difference, and the search for a text, to the terminating NUL.
\<close>

definition scan_buf :: "(char \<Rightarrow> bool) \<Rightarrow> string \<Rightarrow> nat \<Rightarrow> nat option" where
  "scan_buf P buf i =
     (let n = length (takeWhile P (drop i buf)) in if i + n < length buf then Some (i + n) else None)"

definition scan_lim :: "(char \<Rightarrow> bool) \<Rightarrow> string \<Rightarrow> nat \<Rightarrow> nat \<Rightarrow> nat" where
  "scan_lim P buf lim i = i + length (takeWhile P (take (lim - i) (drop i buf)))"

definition strncasecmp_eq :: "string \<Rightarrow> string \<Rightarrow> bool" where
  "strncasecmp_eq lit s = strcaseeq (take (length lit) s) lit"

fun strstr_by :: "(char \<Rightarrow> char) \<Rightarrow> string \<Rightarrow> string \<Rightarrow> bool" where
  "strstr_by f [] needle = (needle = [])"
| "strstr_by f (c # s) needle = (map f (take (length needle) (c # s)) = map f needle \<or> strstr_by f s needle)"

definition CR :: char where "CR = CHR 0x0D"
definition LF :: char where "LF = CHR 0x0A"

definition is_blank :: "char \<Rightarrow> bool" where
  "is_blank c = (c = CHR '' '' \<or> c = CHR 0x09)"

text \<open>\<open>c >= ' '\<close> and \<open>c > ' '\<close>, where \<open>char\<close> may be signed.\<close>

definition ge_space :: "('s, 're, 'k, 'h) http_env \<Rightarrow> char \<Rightarrow> bool" where
  "ge_space E c = (32 \<le> chr_code c \<and> (char_is_signed E \<longrightarrow> chr_code c < 128))"

definition gt_space :: "('s, 're, 'k, 'h) http_env \<Rightarrow> char \<Rightarrow> bool" where
  "gt_space E c = (32 < chr_code c \<and> (char_is_signed E \<longrightarrow> chr_code c < 128))"

definition INT_MAX :: nat where "INT_MAX = 2 ^ 31 - 1"

text \<open>The value of a header: from the first character that is no separator to the first that is not in \<open>P\<close>.\<close>

definition header_value :: "(char \<Rightarrow> bool) \<Rightarrow> (char \<Rightarrow> bool) \<Rightarrow> string \<Rightarrow> nat \<Rightarrow> (nat \<times> nat) option" where
  "header_value skip P buf i =
     (case scan_buf skip buf i of None \<Rightarrow> None
      | Some p \<Rightarrow> (case scan_buf P buf p of None \<Rightarrow> None | Some e \<Rightarrow> Some (p, e - p)))"

definition sep :: "char \<Rightarrow> bool" where
  "sep c = (c = CHR '':'' \<or> is_blank c)"

definition content_length_header :: "nat \<Rightarrow> upnphttp \<Rightarrow> upnphttp option" where
  "content_length_header colon h =
     (case scan_buf (\<lambda>c. \<not> isdigit c \<and> c \<noteq> CR \<and> c \<noteq> LF) (req_buf h) colon of None \<Rightarrow> None
      | Some p \<Rightarrow>
          Some (if isdigit (req_buf h ! p)
                then h\<lparr>req_contentlen := min INT_MAX (fst (strtoul10 (cstr (drop p (req_buf h)))))\<rparr> else h))"

definition host_header :: "('s, 're, 'k, 'h) http_env \<Rightarrow> nat \<Rightarrow> upnphttp \<Rightarrow> upnphttp option" where
  "host_header E colon h =
     map_option (\<lambda>(p, n). h\<lparr>req_HostOff := p, req_HostLen := n\<rparr>) (header_value sep (gt_space E) (req_buf h) colon)"

definition soapaction_header :: "('s, 're, 'k, 'h) http_env \<Rightarrow> nat \<Rightarrow> upnphttp \<Rightarrow> upnphttp option" where
  "soapaction_header E colon h =
     map_option (\<lambda>(p, n).
         let quoted = (\<lambda>q. req_buf h ! p = q \<and> req_buf h ! (p + n - 1) = q)
         in if n \<ge> 2 \<and> (quoted (CHR 0x22) \<or> quoted (CHR 0x27))
            then h\<lparr>req_soapActionOff := p + 1, req_soapActionLen := n - 2\<rparr>
            else h\<lparr>req_soapActionOff := p, req_soapActionLen := n\<rparr>)
       (header_value sep (ge_space E) (req_buf h) colon)"

definition accept_language_header :: "('s, 're, 'k, 'h) http_env \<Rightarrow> nat \<Rightarrow> upnphttp \<Rightarrow> upnphttp option" where
  "accept_language_header E colon h =
     (case header_value sep (ge_space E) (req_buf h) colon of None \<Rightarrow> None
      | Some (p, _) \<Rightarrow>
          map_option (\<lambda>e. h\<lparr>accept_language := take (min (e - p) 7) (drop p (req_buf h))\<rparr>)
            (scan_buf (\<lambda>c. gt_space E c \<and> c \<noteq> CHR '','') (req_buf h) p))"

definition expect_header :: "('s, 're, 'k, 'h) http_env \<Rightarrow> nat \<Rightarrow> upnphttp \<Rightarrow> upnphttp option" where
  "expect_header E colon h =
     map_option (\<lambda>(p, _).
         if strncasecmp_eq ''100-continue'' (drop p (req_buf h)) then h\<lparr>respflags := respflags h OR FLAG_CONTINUE\<rparr> else h)
       (header_value sep (ge_space E) (req_buf h) colon)"

definition user_agent_header :: "nat \<Rightarrow> upnphttp \<Rightarrow> upnphttp option" where
  "user_agent_header line h =
     (let s = cstr (drop (line + 11) (req_buf h))
      in Some (if strstr_by toupper s ''microsoft'' \<or> strstr_by id s ''FDSSDP''
               then h\<lparr>respflags := respflags h OR FLAG_MS_CLIENT\<rparr> else h))"

fun last_bracket :: "string \<Rightarrow> nat \<Rightarrow> nat \<Rightarrow> nat" where
  "last_bracket buf p 0 = 0"
| "last_bracket buf p (Suc n) = (if buf ! (p + Suc n) = CHR ''>'' then Suc n else last_bracket buf p n)"

definition callback_header :: "nat \<Rightarrow> upnphttp \<Rightarrow> upnphttp option" where
  "callback_header colon h =
     (case header_value (\<lambda>c. c \<noteq> CHR ''<'' \<and> c \<noteq> CR) (\<lambda>c. c \<noteq> CR) (req_buf h) colon of None \<Rightarrow> None
      | Some (p, n) \<Rightarrow> Some (h\<lparr>req_CallbackOff := p, req_CallbackLen := last_bracket (req_buf h) p n + 1\<rparr>))"

definition sid_header :: "nat \<Rightarrow> upnphttp \<Rightarrow> upnphttp option" where
  "sid_header colon h =
     map_option (\<lambda>(p, n). h\<lparr>req_SIDOff := p, req_SIDLen := n\<rparr>)
       (header_value is_blank (\<lambda>c. \<not> isspace c) (req_buf h) (colon + 1))"

definition timeout_header :: "nat \<Rightarrow> upnphttp \<Rightarrow> upnphttp option" where
  "timeout_header colon h =
     map_option (\<lambda>p.
         if p + 8 < req_contentoff h \<and> strncasecmp_eq ''Second-'' (drop p (req_buf h))
         then if p + 7 + 8 < req_contentoff h \<and> strncasecmp_eq ''infinite'' (drop (p + 7) (req_buf h)) then h\<lparr>req_Timeout := 0\<rparr>
              else if isdigit (req_buf h ! (p + 7)) then h\<lparr>req_Timeout := atoi (cstr (drop (p + 7) (req_buf h)))\<rparr> else h
         else h)
       (scan_buf is_blank (req_buf h) (colon + 1))"

definition nt_header :: "nat \<Rightarrow> upnphttp \<Rightarrow> upnphttp option" where
  "nt_header colon h =
     map_option (\<lambda>(p, n). h\<lparr>req_NTOff := p, req_NTLen := n\<rparr>)
       (header_value is_blank (\<lambda>c. \<not> isspace c) (req_buf h) (colon + 1))"

definition parse_line :: "('s, 're, 'k, 'h) http_env \<Rightarrow> nat \<Rightarrow> upnphttp \<Rightarrow> upnphttp option" where
  "parse_line E line h =
     (case scan_buf (\<lambda>c. c \<noteq> CHR '':'' \<and> c \<noteq> CR \<and> c \<noteq> LF) (req_buf h) line of None \<Rightarrow> None
      | Some colon \<Rightarrow>
          let is = (\<lambda>lit. strncasecmp_eq lit (drop line (req_buf h)))
          in if req_buf h ! colon \<noteq> CHR '':'' then Some h
             else if is ''Content-Length:'' then content_length_header colon h
             else if is ''Host:'' then host_header E colon h
             else if is ''SOAPAction:'' then soapaction_header E colon h
             else if is ''accept-language:'' then accept_language_header E colon h
             else if is ''expect:'' then expect_header E colon h
             else if is ''user-agent:'' then user_agent_header line h
             else if enable_events E \<and> is ''Callback:'' then callback_header colon h
             else if enable_events E \<and> is ''SID:'' then sid_header colon h
             else if enable_events E \<and> is ''Timeout:'' then timeout_header colon h
             else if enable_events E \<and> ht_strict E \<and> is ''nt:'' then nt_header colon h
             else Some h)"

text \<open>The distance to the next CR LF.\<close>

fun next_crlf :: "string \<Rightarrow> nat option" where
  "next_crlf (a # b # s) = (if a = CR \<and> b = LF then Some 0 else map_option Suc (next_crlf (b # s)))"
| "next_crlf _ = None"

function parse_lines :: "('s, 're, 'k, 'h) http_env \<Rightarrow> nat \<Rightarrow> nat \<Rightarrow> upnphttp \<Rightarrow> upnphttp option" where
  "parse_lines E lim line h =
     (if line < lim
      then (case (parse_line E line h, next_crlf (drop line (req_buf h))) of
              (Some h1, Some k) \<Rightarrow> parse_lines E lim (line + k + 2) h1
            | _ \<Rightarrow> None)
      else Some h)"
  by pat_completeness auto
termination
  by (relation "measure (\<lambda>(E, lim, line, h). lim - line)") auto

definition ParseHttpHeaders :: "('s, 're, 'k, 'h) http_env \<Rightarrow> upnphttp \<Rightarrow> upnphttp option" where
  "ParseHttpHeaders E h = (if req_contentoff h = 0 then Some h else parse_lines E (req_contentoff h) 0 h)"

section \<open>Answers\<close>

text \<open>
  The format of the status line and the fixed headers; its size is what is reserved for it, with 256
  bytes for the values and the further headers.
\<close>

definition eol :: string where "eol = [CR, LF]"

definition httpresphead_size :: "('s, 're, 'k, 'h) http_env \<Rightarrow> nat" where
  "httpresphead_size E =
     length (''%s %d %s'' @ eol @ ''Content-Type: %s'' @ eol @ ''Connection: close'' @ eol @ ''Content-Length: %d'' @ eol
       @ ''Server: '' @ (if os_version E = None then OS_VERSION E else ''%s'') @ server_string_rest E @ eol @ ''Ext:'' @ eol) + 1"

definition decint :: "int \<Rightarrow> string" where
  "decint i = (if i < 0 then CHR ''-'' # dec (nat (- i)) else dec (nat i))"

definition content_type :: "upnphttp \<Rightarrow> string" where
  "content_type h = (if respflags h AND FLAG_HTML \<noteq> 0 then ''text/html'' else ''text/xml; charset='' @ [CHR 0x22] @ ''utf-8'' @ [CHR 0x22])"

definition resp_head :: "('s, 're, 'k, 'h) http_env \<Rightarrow> upnphttp \<Rightarrow> nat \<Rightarrow> string \<Rightarrow> nat \<Rightarrow> string" where
  "resp_head E h respcode respmsg bodylen =
     HttpVer h @ '' '' @ dec respcode @ '' '' @ respmsg @ eol
     @ ''Content-Type: '' @ content_type h @ eol
     @ ''Connection: close'' @ eol @ ''Content-Length: '' @ decint (sint (of_nat bodylen :: u32)) @ eol
     @ ''Server: '' @ (case os_version E of None \<Rightarrow> OS_VERSION E | Some v \<Rightarrow> v) @ server_string_rest E @ eol @ ''Ext:'' @ eol"

text \<open>
  \<open>snprintf\<close> at the end of the answer. When the text and its NUL do not fit, the length runs ahead of
  the buffer and the next write is out of bounds: at the latest that of the empty line, which is written
  without a check.
\<close>

definition emit :: "string \<Rightarrow> upnphttp \<Rightarrow> upnphttp option" where
  "emit text h = (if length (res_buf h) + length text < res_buf_alloclen h then Some (h\<lparr>res_buf := res_buf h @ text\<rparr>) else None)"

definition emit_all :: "string list \<Rightarrow> upnphttp \<Rightarrow> upnphttp option" where
  "emit_all texts h = fold (\<lambda>t r. Option.bind r (emit t)) texts (Some h)"

definition extra_headers :: "('s, 're, 'k, 'h) http_env \<Rightarrow> upnphttp \<Rightarrow> string list" where
  "extra_headers E h =
     (case http_date E of None \<Rightarrow> [] | Some d \<Rightarrow> [''Date: '' @ d @ eol])
     @ (if enable_events E \<and> respflags h AND FLAG_TIMEOUT \<noteq> 0
        then [''Timeout: Second-'', (if req_Timeout h \<noteq> 0 then decint (req_Timeout h) else ''infinite'') @ eol] else [])
     @ (if enable_events E \<and> respflags h AND FLAG_SID \<noteq> 0 then [''SID: '' @ res_SID h @ eol] else [])
     @ (if respflags h AND FLAG_ALLOW_POST \<noteq> 0 then [''Allow: POST'' @ eol]
        else if respflags h AND FLAG_ALLOW_SUB_UNSUB \<noteq> 0 then [''Allow: SUBSCRIBE, UNSUBSCRIBE'' @ eol] else [])
     @ (if cstr (accept_language h) \<noteq> []
        then [''Content-Language: '' @ (if hd (accept_language h) = CHR ''*'' then ''en'' else cstr (accept_language h)) @ eol] else [])"

definition BuildHeader_upnphttp :: "('s, 're, 'k, 'h) http_env \<Rightarrow> nat \<Rightarrow> string \<Rightarrow> nat \<Rightarrow> upnphttp \<Rightarrow> upnphttp option" where
  "BuildHeader_upnphttp E respcode respmsg bodylen h =
     (let templen = httpresphead_size E + 256 + bodylen;
          h1 = h\<lparr>res_buf_alloclen := max (res_buf_alloclen h) templen, res_sent := 0, res_buf := []\<rparr>
      in case emit_all (resp_head E h1 respcode respmsg bodylen # extra_headers E h1) h1 of None \<Rightarrow> None
         | Some h2 \<Rightarrow>
             if length (res_buf h2) + 2 \<le> res_buf_alloclen h2
             then let h3 = h2\<lparr>res_buf := res_buf h2 @ eol\<rparr>
                  in Some (h3\<lparr>res_buf_alloclen := max (res_buf_alloclen h3) (length (res_buf h3) + bodylen)\<rparr>)
             else None)"

definition BuildResp2_upnphttp :: "('s, 're, 'k, 'h) http_env \<Rightarrow> nat \<Rightarrow> string \<Rightarrow> string \<Rightarrow> upnphttp \<Rightarrow> upnphttp option" where
  "BuildResp2_upnphttp E respcode respmsg text h =
     (case BuildHeader_upnphttp E respcode respmsg (length text) h of None \<Rightarrow> None
      | Some h1 \<Rightarrow>
          if length (res_buf h1) + length text \<le> res_buf_alloclen h1 then Some (h1\<lparr>res_buf := res_buf h1 @ text\<rparr>) else None)"

definition BuildResp_upnphttp :: "('s, 're, 'k, 'h) http_env \<Rightarrow> string \<Rightarrow> upnphttp \<Rightarrow> upnphttp option" where
  "BuildResp_upnphttp E text h = BuildResp2_upnphttp E 200 ''OK'' text h"

text \<open>Sending; true when it has ended, with or without success.\<close>

fun SendResp_upnphttp :: "send_result list \<Rightarrow> upnphttp \<Rightarrow> bool \<times> upnphttp" where
  "SendResp_upnphttp io h =
     (if res_sent h < length (res_buf h)
      then (case io of
              [] \<Rightarrow> (False, h)
            | SendInterrupted # io1 \<Rightarrow> SendResp_upnphttp io1 h
            | SendAgain # _ \<Rightarrow> (False, h)
            | SendError # _ \<Rightarrow> (True, h)
            | Sent n # io1 \<Rightarrow>
                if n = 0 then (True, h)
                else SendResp_upnphttp io1 (h\<lparr>res_sent := min (res_sent h + n) (length (res_buf h))\<rparr>))
      else (True, h))"

definition SendRespAndClose_upnphttp :: "send_result list \<Rightarrow> upnphttp \<Rightarrow> upnphttp" where
  "SendRespAndClose_upnphttp io h =
     (case SendResp_upnphttp io h of
        (True, h1) \<Rightarrow> CloseSocket_upnphttp h1
      | (False, h1) \<Rightarrow> h1\<lparr>h_state := ESendingAndClosing\<rparr>)"

definition respond :: "('s, 're, 'k, 'h) http_env \<Rightarrow> send_result list \<Rightarrow> nat \<Rightarrow> string \<Rightarrow> string \<Rightarrow> upnphttp \<Rightarrow> upnphttp option" where
  "respond E io respcode respmsg text h =
     map_option (SendRespAndClose_upnphttp io) (BuildResp2_upnphttp E respcode respmsg text h)"

definition Send400 :: "('s, 're, 'k, 'h) http_env \<Rightarrow> send_result list \<Rightarrow> upnphttp \<Rightarrow> upnphttp option" where
  "Send400 E io h = respond E io 400 ''Bad Request'' ''<html><body>Bad request</body></html>'' (h\<lparr>respflags := FLAG_HTML\<rparr>)"

definition Send404 :: "('s, 're, 'k, 'h) http_env \<Rightarrow> send_result list \<Rightarrow> upnphttp \<Rightarrow> upnphttp option" where
  "Send404 E io h = respond E io 404 ''Not Found''
     (''<HTML><HEAD><TITLE>404 Not Found</TITLE></HEAD><BODY><H1>Not Found</H1>The requested URL was not found''
      @ '' on this server.</BODY></HTML>'' @ eol) (h\<lparr>respflags := FLAG_HTML\<rparr>)"

definition Send405 :: "('s, 're, 'k, 'h) http_env \<Rightarrow> send_result list \<Rightarrow> upnphttp \<Rightarrow> upnphttp option" where
  "Send405 E io h = respond E io 405 ''Method Not Allowed''
     (''<HTML><HEAD><TITLE>405 Method Not Allowed</TITLE></HEAD><BODY><H1>Method Not Allowed</H1>The HTTP Method ''
      @ ''is not allowed on this resource.</BODY></HTML>'' @ eol) (h\<lparr>respflags := respflags h OR FLAG_HTML\<rparr>)"

definition Send500 :: "('s, 're, 'k, 'h) http_env \<Rightarrow> send_result list \<Rightarrow> upnphttp \<Rightarrow> upnphttp option" where
  "Send500 E io h = respond E io 500 ''Internal Server Error''
     (''<HTML><HEAD><TITLE>Error 500</TITLE></HEAD><BODY>Internal Server Error</BODY></HTML>'' @ eol) (h\<lparr>respflags := FLAG_HTML\<rparr>)"

definition Send501 :: "('s, 're, 'k, 'h) http_env \<Rightarrow> send_result list \<Rightarrow> upnphttp \<Rightarrow> upnphttp option" where
  "Send501 E io h = respond E io 501 ''Not Implemented''
     (''<HTML><HEAD><TITLE>501 Not Implemented</TITLE></HEAD><BODY><H1>Not Implemented</H1>The HTTP Method ''
      @ ''is not implemented by this server.</BODY></HTML>'' @ eol) (h\<lparr>respflags := FLAG_HTML\<rparr>)"

section \<open>Processing a request\<close>

fun findendheaders :: "string \<Rightarrow> nat option" where
  "findendheaders (a # b # c # d # s) =
     (if a = CR \<and> b = LF \<and> c = CR \<and> d = LF then Some 0 else map_option Suc (findendheaders (b # c # d # s)))"
| "findendheaders _ = None"

definition sendDummyDesc :: "('s, 're, 'k, 'h) http_env \<Rightarrow> send_result list \<Rightarrow> upnphttp \<Rightarrow> upnphttp option" where
  \<open>sendDummyDesc E io h = respond E io 200 ''OK''
     (''<?xml version="1.0"?>'' @ eol @ ''<scpd xmlns="urn:schemas-upnp-org:service-1-0">''
      @ '' <specVersion>    <major>1</major>    <minor>0</minor>  </specVersion>''
      @ ''  <actionList />  <serviceStateTable /></scpd>'' @ eol) h\<close>

definition sendXMLdesc ::
  "('s, 're, 'k, 'h) http_env \<Rightarrow> send_result list \<Rightarrow> (bool \<Rightarrow> string option) \<Rightarrow> upnphttp \<Rightarrow> upnphttp option" where
  "sendXMLdesc E io f h =
     (case f (igd_v2 (ht_soap E) \<and> (force_igd_desc_v1 E \<or> respflags h AND FLAG_MS_CLIENT \<noteq> 0)) of
        None \<Rightarrow> Send500 E io h
      | Some desc \<Rightarrow> respond E io 200 ''OK'' desc h)"

text \<open>An answer of a SOAP action is sent with its status.\<close>

definition soap_answer :: "('s, 're, 'k, 'h) http_env \<Rightarrow> send_result list \<Rightarrow> http_resp \<Rightarrow> upnphttp \<Rightarrow> upnphttp option" where
  "soap_answer E io r h =
     (if status r = 200 then respond E io 200 ''OK'' (body r) h else respond E io 500 ''Internal Server Error'' (body r) h)"

definition ProcessHTTPPOST_upnphttp ::
  "('s, 're, 'k, 'h) http_env \<Rightarrow> send_result list \<Rightarrow> upnphttp \<Rightarrow> ('s, 'k) http_state \<Rightarrow> (upnphttp \<times> ('s, 'k) http_state) option" where
  "ProcessHTTPPOST_upnphttp E io h st =
     (if length (req_buf h) - req_contentoff h \<ge> req_contentlen h
      then if req_soapActionOff h > 0
           then if req_soapActionOff h + req_soapActionLen h \<le> length (req_buf h)
                then let action = take (req_soapActionLen h) (drop (req_soapActionOff h) (req_buf h));
                         text = take (req_contentlen h) (drop (req_contentoff h) (req_buf h))
                     in case ExecuteSoapAction (ht_soap E) (h_client h\<lparr>content := text\<rparr>) action (hs_soap st) of None \<Rightarrow> None
                        | Some (r, so) \<Rightarrow> map_option (\<lambda>h1. (h1, st\<lparr>hs_soap := so\<rparr>)) (soap_answer E io r h)
                else None
           else map_option (\<lambda>h1. (h1, st)) (Send400 E io h)
      else if respflags h AND FLAG_CONTINUE \<noteq> 0
      then map_option (\<lambda>h1.
               case SendResp_upnphttp io (h1\<lparr>res_sent := 0, h_state := ESendingContinue\<rparr>) of
                 (True, h2) \<Rightarrow> (h2\<lparr>h_state := EWaitingForHttpContent\<rparr>, st)
               | (False, h2) \<Rightarrow> (h2, st))
             (emit (HttpVer h @ '' 100 Continue'' @ eol @ eol)
                (h\<lparr>res_buf := [], res_buf_alloclen := (if res_buf_alloclen h = 0 then 256 else res_buf_alloclen h)\<rparr>))
      else Some (h\<lparr>h_state := EWaitingForHttpContent\<rparr>, st))"

text \<open>
  The callback of a subscription. The header may name several URLs; the first whose host is the
  address of the client is taken. The result is where it starts and its length.
\<close>

definition same_address :: "upnphttp \<Rightarrow> bool \<Rightarrow> string \<Rightarrow> bool" where
  "same_address h ipv6 addrstr =
     (if ipv6
      then (case inet_pton6 addrstr of None \<Rightarrow> False | Some a \<Rightarrow> h_ipv6 h \<and> a = clientaddr_v6 (h_client h))
      else (case inet_pton addrstr of None \<Rightarrow> False
            | Some a \<Rightarrow> if h_ipv6 h then in6_is_v4mapped (clientaddr_v6 (h_client h)) \<and> a = in6_v4 (clientaddr_v6 (h_client h))
                       else a = clientaddr (h_client h)))"

definition url_host :: "string \<Rightarrow> nat \<Rightarrow> nat \<Rightarrow> bool \<times> string \<times> nat" where
  "url_host buf p lim =
     (let ipv6 = (buf ! p = CHR ''['');
          q = (if ipv6 then p + 1 else p);
          e = scan_lim (\<lambda>c. c \<noteq> CHR ''>'' \<and> (if ipv6 then c \<noteq> CHR '']'' else c \<noteq> CHR ''/'' \<and> c \<noteq> CHR '':'')) buf (min lim (q + 47)) q
      in (ipv6, cstr (take (e - q) (drop q buf)), e))"

lemma scan_lim_ge: "i \<le> scan_lim P buf lim i"
  by (simp add: scan_lim_def)

lemma url_host_end: "url_host buf p lim = (ipv6, addrstr, e) \<Longrightarrow> p \<le> e"
  using scan_lim_ge [of p] le_trans [OF Suc_leD scan_lim_ge [of "p + 1"], of p] by (auto simp: url_host_def Let_def simp del: One_nat_def)

function checkCallbackURL :: "upnphttp \<Rightarrow> nat \<Rightarrow> nat \<Rightarrow> (nat \<times> nat) option option" where
  "checkCallbackURL h off len =
     (if off = 0 \<or> len < 10 then Some None
      else if length (req_buf h) \<le> off + len then None
      else let buf = req_buf h;
               lim = off + len;
               url = (take 8 (drop off buf) = ''<http://'');
               (ipv6, addrstr, e) = url_host buf (off + 8) lim
           in if url \<and> same_address h ipv6 addrstr
              then Some (Some (off + 1, scan_lim (\<lambda>c. c \<noteq> CHR ''>'') buf lim e - (off + 1)))
              else let p = scan_lim (\<lambda>c. c \<noteq> CHR ''>'') buf lim (if url then e else off + 1)
                   in if buf ! p \<noteq> CHR ''>'' then Some None
                      else let q = scan_lim (\<lambda>c. c \<noteq> CHR ''<'') buf lim p
                           in if buf ! q \<noteq> CHR ''<'' then Some None
                              else checkCallbackURL h q (len - (q - off)))"
  by pat_completeness auto
termination
proof (relation "measure (\<lambda>(h, off, len). len)", simp)
  fix h :: upnphttp and off len x y xa z ipv6 z' addrstr e xb q
  assume a: "\<not> (off = 0 \<or> len < 10)" "(x :: string) = req_buf h" "y = off + len" "xa = (take 8 (drop off x) = ''<http://'')"
    "z = url_host x (off + 8) y" "(ipv6, z') = z" "(addrstr, e) = z'"
    "(xb :: nat) = scan_lim (\<lambda>c. c \<noteq> CHR ''>'') x y (if xa then e else off + 1)" "q = scan_lim (\<lambda>c. c \<noteq> CHR ''<'') x y xb"
  from url_host_end [of x "off + 8" y ipv6 addrstr e] a(5-7) have "off < e" by simp
  with a(8) scan_lim_ge [of "if xa then e else off + 1" "\<lambda>c. c \<noteq> CHR ''>''" x y] have "off < xb" by (simp split: if_splits)
  with a(9) scan_lim_ge [of xb "\<lambda>c. c \<noteq> CHR ''<''" x y] have "off < q" by simp
  with a(1) show "((h, q, len - (q - off)), h, off, len) \<in> measure (\<lambda>(h, off, len). len)" by auto
qed

definition ProcessHTTPSubscribe_upnphttp ::
  "('s, 're, 'k, 'h) http_env \<Rightarrow> send_result list \<Rightarrow> string \<Rightarrow> upnphttp \<Rightarrow> events \<Rightarrow> (upnphttp \<times> events) option" where
  "ProcessHTTPSubscribe_upnphttp E io path h0 ev =
     (let h = (if (ht_strict E \<and> UPNP_VERSION_MAJOR E > 1 \<or> UPNP_VERSION_MINOR E > 0) \<and> req_Timeout h0 < 1800
               then h0\<lparr>req_Timeout := 1800\<rparr> else h0);
          answer = (\<lambda>code msg h ev. map_option (\<lambda>h1. (h1, ev)) (respond E io code msg [] h));
          sid = take (req_SIDLen h) (drop (req_SIDOff h) (req_buf h))
      in if req_CallbackOff h = 0 \<and> req_SIDOff h = 0 then answer 412 ''Precondition Failed'' h ev
         else if req_CallbackOff h > 0
         then if ht_strict E \<and> req_SIDOff h > 0 then answer 400 ''Incompatible header fields'' h ev
              else if ht_strict E \<and> (req_NTOff h = 0 \<or> take (req_NTLen h) (drop (req_NTOff h) (req_buf h)) \<noteq> ''upnp:event'')
              then answer 412 ''Precondition Failed'' h ev
              else (case checkCallbackURL h (req_CallbackOff h) (req_CallbackLen h) of None \<Rightarrow> None
                    | Some None \<Rightarrow> answer 412 ''Precondition Failed'' h ev
                    | Some (Some (off, len)) \<Rightarrow>
                        (case upnpevents_addSubscriber (ht_events E) path (take len (drop off (req_buf h))) (req_Timeout h) ev of
                           None \<Rightarrow> None
                         | Some (None, ev1) \<Rightarrow> answer 200 ''OK'' (h\<lparr>respflags := FLAG_TIMEOUT\<rparr>) ev1
                         | Some (Some uuid, ev1) \<Rightarrow>
                             answer 200 ''OK'' (h\<lparr>respflags := FLAG_TIMEOUT OR FLAG_SID, res_SID := uuid\<rparr>) ev1))
         else if ht_strict E \<and> req_NTOff h > 0 then answer 400 ''Incompatible header fields'' h ev
         else (case upnpevents_renewSubscription (ht_events E) sid (req_Timeout h) ev of
                 (None, ev1) \<Rightarrow> answer 412 ''Precondition Failed'' h ev1
               | (Some uuid, ev1) \<Rightarrow> answer 200 ''OK'' (h\<lparr>respflags := FLAG_TIMEOUT OR FLAG_SID, res_SID := uuid\<rparr>) ev1))"

definition ProcessHTTPUnSubscribe_upnphttp ::
  "('s, 're, 'k, 'h) http_env \<Rightarrow> send_result list \<Rightarrow> upnphttp \<Rightarrow> events \<Rightarrow> (upnphttp \<times> events) option" where
  "ProcessHTTPUnSubscribe_upnphttp E io h ev =
     (let answer = (\<lambda>code msg ev. map_option (\<lambda>h1. (h1, ev)) (respond E io code msg [] h))
      in if ht_strict E \<and> (req_SIDOff h = 0 \<or> req_SIDLen h = 0) then answer 412 ''Precondition Failed'' ev
         else if ht_strict E \<and> (req_CallbackOff h > 0 \<or> req_NTOff h > 0) then answer 400 ''Incompatible header fields'' ev
         else (case upnpevents_removeSubscriber (take (req_SIDLen h) (drop (req_SIDOff h) (req_buf h))) ev of None \<Rightarrow> None
               | Some (r, ev1) \<Rightarrow> if r < 0 then answer 412 ''Precondition Failed'' ev1 else answer 200 ''OK'' ev1))"

text \<open>The words of the request line: at most \<open>n\<close> characters, up to one that ends the word.\<close>

definition copy_word :: "nat \<Rightarrow> (char \<Rightarrow> bool) \<Rightarrow> string \<Rightarrow> nat \<Rightarrow> (string \<times> nat) option" where
  "copy_word n P buf i =
     (let w = takeWhile P (take n (drop i buf))
      in if length w = n \<or> i + length w < length buf then Some (w, i + length w) else None)"

definition request_line :: "upnphttp \<Rightarrow> (string \<times> string \<times> upnphttp) option" where
  "request_line h =
     (let word = (\<lambda>c. c \<noteq> CHR '' '' \<and> c \<noteq> CR); space = (\<lambda>c. c = CHR '' ''); buf = req_buf h
      in case copy_word 15 word buf 0 of None \<Rightarrow> None
         | Some (HttpCommand, p) \<Rightarrow>
             (case scan_buf space buf p of None \<Rightarrow> None
              | Some p1 \<Rightarrow>
                  (case copy_word 127 word buf p1 of None \<Rightarrow> None
                   | Some (HttpUrl, p2) \<Rightarrow>
                       (case scan_buf space buf p2 of None \<Rightarrow> None
                        | Some p3 \<Rightarrow>
                            map_option (\<lambda>(v, _). (HttpCommand, HttpUrl, h\<lparr>HttpVer := cstr v\<rparr>)) (copy_word 15 (\<lambda>c. c \<noteq> CR) buf p3)))))"

text \<open>
  A \<open>Host\<close> header must be a literal address, so that a page of another site cannot reach the daemon by
  a name that it makes resolve to the gateway.
\<close>

definition host_is_address :: "upnphttp \<Rightarrow> bool" where
  "host_is_address h =
     (let p = req_HostOff h; lim = p + req_HostLen h
      in if p = 0 \<or> req_HostLen h = 0 then True
         else if req_buf h ! p = CHR ''['' then req_buf h ! scan_lim (\<lambda>c. c \<noteq> CHR '']'') (req_buf h) lim (p + 1) = CHR '']''
         else list_all (\<lambda>c. c = CHR '':'' \<or> c = CHR ''.'' \<or> isdigit c) (take (req_HostLen h) (drop p (req_buf h))))"

definition strip_random :: "('s, 're, 'k, 'h) http_env \<Rightarrow> string \<Rightarrow> string option" where
  "strip_random E HttpUrl =
     (case random_url E of None \<Rightarrow> Some HttpUrl
      | Some r \<Rightarrow> if HttpUrl \<noteq> [] \<and> hd HttpUrl = CHR ''/'' \<and> take (length r) (tl HttpUrl) = r
                 then Some (cstr (drop (length r + 1) HttpUrl)) else None)"

definition path_desc :: "('s, 're, 'k, 'h) http_env \<Rightarrow> (string \<times> (bool \<Rightarrow> string option) option) list" where
  "path_desc E =
     [(''/rootDesc.xml'', Some (desc_root E)), (''/WANIPCn.xml'', Some (desc_WANIPCn E)), (''/WANCfg.xml'', Some (desc_WANCfg E))]
     @ (if has_dummy_service E then [(''/dummy.xml'', None)] else [])
     @ (if enable_l3f (ht_soap E) then [(''/L3F.xml'', Some (desc_L3F E))] else [])
     @ (if enable_6fc (ht_soap E) then [(''/WANIP6FC.xml'', Some (desc_6FC E))] else [])
     @ (if enable_dp (ht_soap E) then [(''/DP.xml'', Some (desc_DP E))] else [])"

definition ProcessHTTPGet :: "('s, 're, 'k, 'h) http_env \<Rightarrow> send_result list \<Rightarrow> string \<Rightarrow> upnphttp \<Rightarrow> upnphttp option" where
  "ProcessHTTPGet E io HttpUrl h =
     (case find (\<lambda>(path, _). strcaseeq path (cstr HttpUrl)) (path_desc E) of
        Some (_, Some f) \<Rightarrow> sendXMLdesc E io f h
      | Some (_, None) \<Rightarrow> sendDummyDesc E io h
      | None \<Rightarrow>
          if take 5 HttpUrl = ''/ctl/'' then Send405 E io (h\<lparr>respflags := FLAG_ALLOW_POST\<rparr>)
          else if enable_events E \<and> take 5 HttpUrl = ''/evt/'' then Send405 E io (h\<lparr>respflags := FLAG_ALLOW_SUB_UNSUB\<rparr>)
          else Send404 E io h)"

definition ProcessHttpQuery_upnphttp ::
  "('s, 're, 'k, 'h) http_env \<Rightarrow> send_result list \<Rightarrow> upnphttp \<Rightarrow> ('s, 'k) http_state \<Rightarrow> (upnphttp \<times> ('s, 'k) http_state) option" where
  "ProcessHttpQuery_upnphttp E io h0 st =
     (let only = map_option (\<lambda>h. (h, st)); with_events = map_option (\<lambda>(h, ev). (h, st\<lparr>hs_events := ev\<rparr>))
      in case request_line h0 of None \<Rightarrow> None
         | Some (HttpCommand, HttpUrl0, h1) \<Rightarrow>
             (case ParseHttpHeaders E h1 of None \<Rightarrow> None
              | Some h \<Rightarrow>
                  let command = cstr HttpCommand
                  in if req_contentlen h > CONTENT_LENGTH_LIMIT E then only (respond E io 413 ''Content Too Large'' [] h)
                     else if \<not> host_is_address h then only (Send404 E io h)
                     else case strip_random E HttpUrl0 of None \<Rightarrow> only (Send404 E io h)
                          | Some HttpUrl \<Rightarrow>
                              if command = ''POST'' then ProcessHTTPPOST_upnphttp E io (h\<lparr>req_command := EPost\<rparr>) st
                              else if command = ''GET'' then only (ProcessHTTPGet E io HttpUrl (h\<lparr>req_command := EGet\<rparr>))
                              else if enable_events E \<and> command = ''SUBSCRIBE''
                              then with_events (ProcessHTTPSubscribe_upnphttp E io (cstr HttpUrl) (h\<lparr>req_command := ESubscribe\<rparr>) (hs_events st))
                              else if enable_events E \<and> command = ''UNSUBSCRIBE''
                              then with_events (ProcessHTTPUnSubscribe_upnphttp E io (h\<lparr>req_command := EUnSubscribe\<rparr>) (hs_events st))
                              else only (Send501 E io h)))"

section \<open>The connection\<close>

definition upnphttp_adjust_buffer :: "('s, 're, 'k, 'h) http_env \<Rightarrow> upnphttp \<Rightarrow> upnphttp option" where
  "upnphttp_adjust_buffer E h =
     (if req_bufalloc h < length (req_buf h) + 2048
      then let n = (if req_bufalloc h = 0 then 4096
                    else if req_bufalloc h < 256 * 1024 then req_bufalloc h + req_bufalloc h
                    else req_bufalloc h + 256 * 1024)
           in if ht_realloc E n then Some (h\<lparr>req_bufalloc := n\<rparr>) else None
      else Some h)"

text \<open>The HTTP version for the answer to headers that are too long.\<close>

definition version_of :: "string \<Rightarrow> string \<Rightarrow> string" where
  "version_of s ver =
     (case next_crlf s of None \<Rightarrow> ver
      | Some k \<Rightarrow> takeWhile (\<lambda>c. c \<noteq> CR) (take 15 (rev (takeWhile (\<lambda>c. c \<noteq> CHR '' '') (rev (take k s))))))"

definition receive_request ::
  "('s, 're, 'k, 'h) http_env \<Rightarrow> send_result list \<Rightarrow> string \<Rightarrow> upnphttp \<Rightarrow> ('s, 'k) http_state \<Rightarrow> (upnphttp \<times> ('s, 'k) http_state) option" where
  "receive_request E io data h st =
     (let h1 = h\<lparr>req_buf := req_buf h @ data\<rparr>;
          endheaders = findendheaders (req_buf h1);
          h2 = (case endheaders of None \<Rightarrow> h1 | Some i \<Rightarrow> h1\<lparr>req_contentoff := i + 4\<rparr>)
      in if req_contentoff h2 \<ge> HEADERS_LENGTH_LIMIT E \<or> endheaders = None \<and> length (req_buf h2) \<ge> HEADERS_LENGTH_LIMIT E
         then let buf = butlast (req_buf h2) @ [CHR 0x00]
              in map_option (\<lambda>h. (h, st)) (Send400 E io (h2\<lparr>req_buf := buf, HttpVer := version_of (cstr buf) (HttpVer h2)\<rparr>))
         else if endheaders \<noteq> None then ProcessHttpQuery_upnphttp E io h2 st
         else Some (h2, st))"

definition receive_content ::
  "('s, 're, 'k, 'h) http_env \<Rightarrow> send_result list \<Rightarrow> string \<Rightarrow> upnphttp \<Rightarrow> ('s, 'k) http_state \<Rightarrow> (upnphttp \<times> ('s, 'k) http_state) option" where
  "receive_content E io data h st =
     (let h1 = h\<lparr>req_buf := req_buf h @ data\<rparr>
      in if length (req_buf h1) - req_contentoff h1 \<ge> req_contentlen h1 then ProcessHTTPPOST_upnphttp E io h1 st else Some (h1, st))"

definition Process_upnphttp ::
  "('s, 're, 'k, 'h) http_env \<Rightarrow> recv_result \<Rightarrow> send_result list \<Rightarrow> upnphttp \<Rightarrow> ('s, 'k) http_state \<Rightarrow> (upnphttp \<times> ('s, 'k) http_state) option" where
  "Process_upnphttp E r io h st =
     (let receive = (\<lambda>spare k. case upnphttp_adjust_buffer E h of
              None \<Rightarrow> map_option (\<lambda>h1. (h1\<lparr>h_state := EToDelete\<rparr>, st)) (Send500 E io h)
            | Some h1 \<Rightarrow>
                (case r of
                   RecvAgain \<Rightarrow> Some (h1, st)
                 | RecvError \<Rightarrow> Some (h1\<lparr>h_state := EToDelete\<rparr>, st)
                 | Received s \<Rightarrow>
                     let data = take (req_bufalloc h1 - length (req_buf h1) - spare) s
                     in if data = [] then Some (h1\<lparr>h_state := EToDelete\<rparr>, st) else k data h1 st))
      in case h_state h of
           EWaitingForHttpRequest \<Rightarrow> receive 1 (receive_request E io)
         | EWaitingForHttpContent \<Rightarrow> receive 0 (receive_content E io)
         | ESendingContinue \<Rightarrow>
             (case SendResp_upnphttp io h of
                (True, h1) \<Rightarrow> Some (h1\<lparr>h_state := EWaitingForHttpContent\<rparr>, st)
              | (False, h1) \<Rightarrow> Some (h1, st))
         | ESendingAndClosing \<Rightarrow> Some (SendRespAndClose_upnphttp io h, st)
         | EToDelete \<Rightarrow> Some (h, st))"

text \<open>
  The connections in the main loop of \<open>miniupnpd.c\<close>: which sockets \<open>select\<close> watches, the processing of those
  that are ready, and the removal of the closed ones.
\<close>

definition http_selected :: "upnphttp \<Rightarrow> bool" where
  "http_selected h = (h_socket h \<ge> 0 \<and> (h_state h = EWaitingForHttpRequest \<or> h_state h = EWaitingForHttpContent \<or> h_state h = ESendingAndClosing))"

fun process_connections ::
  "('s, 're, 'k, 'h) http_env \<Rightarrow> (upnphttp \<times> (recv_result \<times> send_result list) option) list \<Rightarrow> ('s, 'k) http_state
   \<Rightarrow> (upnphttp list \<times> ('s, 'k) http_state) option" where
  "process_connections E [] st = Some ([], st)"
| "process_connections E ((h, ready) # cs) st =
     (case (case ready of Some (r, io) \<Rightarrow> if http_selected h then Process_upnphttp E r io h st else Some (h, st) | None \<Rightarrow> Some (h, st)) of
        None \<Rightarrow> None
      | Some (h1, st1) \<Rightarrow> map_option (\<lambda>(hs, st2). (h1 # hs, st2)) (process_connections E cs st1))"

definition http_round ::
  "('s, 're, 'k, 'h) http_env \<Rightarrow> (upnphttp \<times> (recv_result \<times> send_result list) option) list \<Rightarrow> upnphttp list \<Rightarrow> ('s, 'k) http_state
   \<Rightarrow> (upnphttp list \<times> ('s, 'k) http_state) option" where
  "http_round E cs accepted st =
     map_option (\<lambda>(hs, st1). (filter (\<lambda>h. h_state h \<noteq> EToDelete) (accepted @ hs), st1)) (process_connections E cs st)"

end
