(* ===== verification/UpnpHttpProps.thy ===== *)
theory UpnpHttpProps
  imports UpnpHttp UpnpEventsProps
begin

text \<open>
  The HTTP server: reading a request stays in its header block, the answer stays in its buffer, the memory
  of a connection is bounded, and the callback of a subscription leads to the host that asked for it.
\<close>

declare parse_lines.simps [simp del] checkCallbackURL.simps [simp del] SendResp_upnphttp.simps [simp del]

section \<open>Scanning the header block\<close>

text \<open>A buffer whose header block, with the empty line that ends it, has \<open>c\<close> bytes.\<close>

definition header_block :: "string \<Rightarrow> nat \<Rightarrow> bool" where
  "header_block buf c = (4 \<le> c \<and> c \<le> length buf \<and> buf ! (c - 4) = CR \<and> buf ! (c - 3) = LF \<and> buf ! (c - 2) = CR \<and> buf ! (c - 1) = LF)"

lemma findendheaders_block: "findendheaders buf = Some i \<Longrightarrow> header_block buf (i + 4)"
proof (induction buf arbitrary: i rule: findendheaders.induct)
  case (1 a b c d s)
  show ?case
  proof (cases "a = CR \<and> b = LF \<and> c = CR \<and> d = LF")
    case True
    with 1 show ?thesis by (simp add: header_block_def)
  next
    case False
    with 1 obtain j where j: "i = Suc j" "findendheaders (b # c # d # s) = Some j" by auto
    from 1 False j(2) have "header_block (b # c # d # s) (j + 4)" by blast
    then show ?thesis unfolding j(1) header_block_def by (auto simp: nth_Cons' numeral_eq_Suc)
  qed
qed simp_all

lemma CR_LF [simp]: "CR \<noteq> LF" "LF \<noteq> CR" "CR \<noteq> CHR '':''" "CR \<noteq> CHR '' ''" "CR \<noteq> CHR ''<''"
  by (simp_all add: CR_def LF_def)

lemma stops_at_CR [simp]: "\<not> sep CR" "\<not> is_blank CR" "isspace CR" "\<not> isdigit CR" "\<not> ge_space E CR" "\<not> gt_space E CR"
  by (simp_all add: CR_def sep_def is_blank_def isspace_def isdigit_def ge_space_def gt_space_def)

lemma scan_buf_Some:
  assumes "i \<le> j" "j < length buf" "\<not> P (buf ! j)"
  shows "\<exists>k. scan_buf P buf i = Some k \<and> i \<le> k \<and> k \<le> j \<and> \<not> P (buf ! k)"
proof -
  let ?n = "length (takeWhile P (drop i buf))"
  have "?n \<le> j - i"
  proof (rule ccontr)
    assume "\<not> ?n \<le> j - i"
    then have "P (drop i buf ! (j - i))" using set_takeWhileD nth_mem [of "j - i" "takeWhile P (drop i buf)"]
      by (metis not_le_imp_less takeWhile_nth)
    with assms show False by simp
  qed
  moreover from this assms have "?n < length (drop i buf)" by simp
  then have "\<not> P (drop i buf ! ?n)" by (rule nth_length_takeWhile)
  ultimately show ?thesis using assms by (simp add: scan_buf_def Let_def) arith
qed

lemma scan_block:
  assumes "header_block buf c" "i \<le> c - 2" "\<not> P CR"
  shows "\<exists>k. scan_buf P buf i = Some k \<and> i \<le> k \<and> k \<le> c - 2 \<and> \<not> P (buf ! k)"
  using assms by (intro scan_buf_Some) (auto simp: header_block_def)

lemma header_value_block:
  assumes "header_block buf c" "i \<le> c - 2" "\<not> skip CR" "\<not> P CR"
  shows "\<exists>p n. header_value skip P buf i = Some (p, n) \<and> i \<le> p \<and> p + n \<le> c - 2"
proof -
  from scan_block [of buf c i skip] assms obtain p where p: "scan_buf skip buf i = Some p" "i \<le> p" "p \<le> c - 2" by blast
  from scan_block [of buf c p P] assms(1,4) p(3) obtain e where "scan_buf P buf p = Some e" "p \<le> e" "e \<le> c - 2" by blast
  with p show ?thesis by (auto simp: header_value_def)
qed

lemma next_crlf_Some:
  assumes "j + 1 < length s" "s ! j = CR" "s ! (j + 1) = LF"
  shows "\<exists>k. next_crlf s = Some k \<and> k \<le> j \<and> k + 1 < length s \<and> s ! (k + 1) = LF"
  using assms
proof (induction s arbitrary: j rule: next_crlf.induct)
  case (1 a b s)
  show ?case
  proof (cases "a = CR \<and> b = LF")
    case True
    then show ?thesis by simp
  next
    case False
    with 1 obtain i where "j = Suc i" by (cases j) auto
    with 1 False show ?thesis by fastforce
  qed
qed simp_all

section \<open>The headers\<close>

text \<open>The flags that ask for further headers of the answer; reading a request sets none of them.\<close>

definition answer_flags :: u32 where
  "answer_flags = FLAG_TIMEOUT OR FLAG_SID OR FLAG_ALLOW_POST OR FLAG_ALLOW_SUB_UNSUB"

lemmas flag_defs = FLAG_TIMEOUT_def FLAG_SID_def FLAG_CONTINUE_def FLAG_HTML_def FLAG_ALLOW_POST_def FLAG_ALLOW_SUB_UNSUB_def
  FLAG_MS_CLIENT_def

lemma request_flags [simp]:
  "w AND answer_flags = 0 \<Longrightarrow> (w OR FLAG_CONTINUE) AND answer_flags = 0"
  "w AND answer_flags = 0 \<Longrightarrow> (w OR FLAG_MS_CLIENT) AND answer_flags = 0"
proof -
  have "FLAG_CONTINUE AND answer_flags = 0" "FLAG_MS_CLIENT AND answer_flags = 0" by (simp_all add: flag_defs answer_flags_def)
  then show "w AND answer_flags = 0 \<Longrightarrow> (w OR FLAG_CONTINUE) AND answer_flags = 0"
    "w AND answer_flags = 0 \<Longrightarrow> (w OR FLAG_MS_CLIENT) AND answer_flags = 0" by (simp_all add: bit.conj_disj_distrib2)
qed

lemma no_answer_flags:
  assumes "w AND answer_flags = 0"
  shows "w AND FLAG_TIMEOUT = 0" "w AND FLAG_SID = 0" "w AND FLAG_ALLOW_POST = 0" "w AND FLAG_ALLOW_SUB_UNSUB = 0"
proof -
  have *: "w AND f = 0" if "answer_flags AND f = f" for f
  proof -
    have "w AND f = w AND (answer_flags AND f)" using that by simp
    also have "\<dots> = (w AND answer_flags) AND f" by (simp only: and.assoc)
    finally show ?thesis using assms by simp
  qed
  show "w AND FLAG_TIMEOUT = 0" "w AND FLAG_SID = 0" "w AND FLAG_ALLOW_POST = 0" "w AND FLAG_ALLOW_SUB_UNSUB = 0"
    by (rule *, simp add: flag_defs answer_flags_def)+
qed

lemma atoi_range [simp]: "- 2147483648 \<le> atoi s" "atoi s < 2147483648"
proof -
  obtain w :: u32 where "atoi s = sint w" by (simp add: atoi_def Let_def)
  with sint_range_size [of w] show "- 2147483648 \<le> atoi s" "atoi s < 2147483648" by (simp_all add: word_size)
qed

text \<open>What the header loop keeps, and where the values it finds are.\<close>

definition same_request :: "upnphttp \<Rightarrow> upnphttp \<Rightarrow> bool" where
  "same_request h h' = (req_buf h' = req_buf h \<and> req_contentoff h' = req_contentoff h \<and> h_client h' = h_client h \<and> h_ipv6 h' = h_ipv6 h
     \<and> h_state h' = h_state h \<and> h_socket h' = h_socket h \<and> HttpVer h' = HttpVer h \<and> req_bufalloc h' = req_bufalloc h
     \<and> res_buf h' = res_buf h \<and> res_sent h' = res_sent h \<and> res_buf_alloclen h' = res_buf_alloclen h \<and> res_SID h' = res_SID h)"

definition inside :: "nat \<Rightarrow> nat \<Rightarrow> nat \<Rightarrow> bool" where
  "inside c off len = (off = 0 \<and> len = 0 \<or> off + len < c)"

definition fields_ok :: "upnphttp \<Rightarrow> bool" where
  "fields_ok h = (let c = req_contentoff h
     in inside c (req_soapActionOff h) (req_soapActionLen h) \<and> inside c (req_HostOff h) (req_HostLen h)
        \<and> inside c (req_CallbackOff h) (req_CallbackLen h) \<and> inside c (req_SIDOff h) (req_SIDLen h)
        \<and> inside c (req_NTOff h) (req_NTLen h) \<and> length (accept_language h) \<le> 7
        \<and> respflags h AND answer_flags = 0 \<and> - (2 ^ 31) \<le> req_Timeout h \<and> req_Timeout h < 2 ^ 31)"

lemma same_request_refl [simp]: "same_request h h"
  by (simp add: same_request_def)

lemma same_request_trans: "same_request h h1 \<Longrightarrow> same_request h1 h2 \<Longrightarrow> same_request h h2"
  by (simp add: same_request_def)

lemma last_bracket_le: "last_bracket buf p n \<le> n"
  by (induction buf p n rule: last_bracket.induct) auto

lemmas header_defs = content_length_header_def host_header_def soapaction_header_def accept_language_header_def expect_header_def
  user_agent_header_def callback_header_def sid_header_def timeout_header_def nt_header_def

abbreviation kept :: "upnphttp \<Rightarrow> upnphttp option \<Rightarrow> bool" where
  "kept h r \<equiv> \<exists>h'. r = Some h' \<and> same_request h h' \<and> fields_ok h'"

lemmas kept_defs = same_request_def fields_ok_def Let_def

lemma value_headers_kept:
  assumes "header_block (req_buf h) (req_contentoff h)" "fields_ok h" "colon < req_contentoff h - 2"
  shows "kept h (host_header E colon h)" "kept h (soapaction_header E colon h)" "kept h (expect_header E colon h)"
    "kept h (sid_header colon h)" "kept h (nt_header colon h)"
proof -
  let ?c = "req_contentoff h"
  from assms(3) have i: "colon \<le> ?c - 2" "colon + 1 \<le> ?c - 2" by simp_all
  note v = header_value_block [OF assms(1) i(1)] header_value_block [OF assms(1) i(2)]
  have 4: "4 \<le> ?c" using assms(1) by (simp add: header_block_def)
  have in_c: "inside ?c p n" "2 \<le> n \<Longrightarrow> inside ?c (Suc p) (n - 2)" if "p + n \<le> ?c - 2" for p n
    using that 4 by (auto simp: inside_def)
  from v(1) [of sep "gt_space E"] obtain p n where
    "header_value sep (gt_space E) (req_buf h) colon = Some (p, n)" "p + n \<le> ?c - 2" by auto
  with in_c assms(2) show "kept h (host_header E colon h)" by (simp add: host_header_def kept_defs)
  from v(1) [of sep "ge_space E"] obtain p n where
    p: "header_value sep (ge_space E) (req_buf h) colon = Some (p, n)" "p + n \<le> ?c - 2" by auto
  with in_c(1) in_c(2) [OF p(2)] assms(2) show "kept h (soapaction_header E colon h)" by (auto simp: soapaction_header_def kept_defs)
  from p assms(2) show "kept h (expect_header E colon h)" by (simp add: expect_header_def kept_defs)
  from v(2) [of is_blank "\<lambda>c. \<not> isspace c"] obtain p n where
    p: "header_value is_blank (\<lambda>c. \<not> isspace c) (req_buf h) (colon + 1) = Some (p, n)" "p + n \<le> ?c - 2" by auto
  with in_c assms(2) show "kept h (sid_header colon h)" by (simp add: sid_header_def kept_defs)
  from p in_c assms(2) show "kept h (nt_header colon h)" by (simp add: nt_header_def kept_defs)
qed

lemma other_headers_kept:
  assumes "header_block (req_buf h) (req_contentoff h)" "fields_ok h" "colon < req_contentoff h - 2"
  shows "kept h (content_length_header colon h)" "kept h (accept_language_header E colon h)" "kept h (user_agent_header line h)"
    "kept h (callback_header colon h)" "kept h (timeout_header colon h)"
proof -
  let ?c = "req_contentoff h"
  from assms(3) have i: "colon \<le> ?c - 2" "colon + 1 \<le> ?c - 2" by simp_all
  from scan_block [OF assms(1) i(1), of "\<lambda>c. \<not> isdigit c \<and> c \<noteq> CR \<and> c \<noteq> LF"] obtain p where
    "scan_buf (\<lambda>c. \<not> isdigit c \<and> c \<noteq> CR \<and> c \<noteq> LF) (req_buf h) colon = Some p" by auto
  with assms(2) show "kept h (content_length_header colon h)" by (simp add: content_length_header_def kept_defs)
  from header_value_block [OF assms(1) i(1), of sep "ge_space E"] obtain p n where
    p: "header_value sep (ge_space E) (req_buf h) colon = Some (p, n)" "p + n \<le> ?c - 2" by auto
  then have "p \<le> ?c - 2" by simp
  from scan_block [OF assms(1) this, of "\<lambda>c. gt_space E c \<and> c \<noteq> CHR '',''"] obtain e where
    "scan_buf (\<lambda>c. gt_space E c \<and> c \<noteq> CHR '','') (req_buf h) p = Some e" by auto
  with p(1) assms(2) show "kept h (accept_language_header E colon h)" by (simp add: accept_language_header_def kept_defs)
  from assms(2) show "kept h (user_agent_header line h)" by (simp add: user_agent_header_def kept_defs)
  from header_value_block [OF assms(1) i(1), of "\<lambda>c. c \<noteq> CHR ''<'' \<and> c \<noteq> CR" "\<lambda>c. c \<noteq> CR"] obtain p n where
    p: "header_value (\<lambda>c. c \<noteq> CHR ''<'' \<and> c \<noteq> CR) (\<lambda>c. c \<noteq> CR) (req_buf h) colon = Some (p, n)" "p + n \<le> ?c - 2" by auto
  have "inside ?c p (Suc (last_bracket (req_buf h) p n))"
    using p(2) last_bracket_le [of "req_buf h" p n] assms(1) by (auto simp: inside_def header_block_def)
  with p(1) assms(2) show "kept h (callback_header colon h)" by (simp add: callback_header_def kept_defs)
  from scan_block [OF assms(1) i(2), of is_blank] obtain p where "scan_buf is_blank (req_buf h) (colon + 1) = Some p" by auto
  with assms(2) show "kept h (timeout_header colon h)" by (simp add: timeout_header_def kept_defs)
qed

lemma parse_line_kept:
  assumes "header_block (req_buf h) (req_contentoff h)" "fields_ok h" "line \<le> req_contentoff h - 2"
  shows "kept h (parse_line E line h)"
proof -
  let ?P = "\<lambda>c. c \<noteq> CHR '':'' \<and> c \<noteq> CR \<and> c \<noteq> LF"
  from scan_block [OF assms(1,3), of ?P] obtain k where k: "scan_buf ?P (req_buf h) line = Some k" "k \<le> req_contentoff h - 2" by auto
  show ?thesis
  proof (cases "req_buf h ! k = CHR '':''")
    case False
    with k(1) assms(2) show ?thesis by (simp add: parse_line_def)
  next
    case True
    with assms(1) have "k \<noteq> req_contentoff h - 2" by (auto simp: header_block_def)
    with k(2) have "k < req_contentoff h - 2" by simp
    note kept = value_headers_kept [OF assms(1,2) this] other_headers_kept [OF assms(1,2) this]
    from True k(1) show ?thesis unfolding parse_line_def by (simp add: kept assms(2))
  qed
qed

lemma parse_lines_kept:
  assumes "header_block (req_buf h) c" "fields_ok h" "c = req_contentoff h" "line \<le> c - 2 \<or> line = c"
  shows "kept h (parse_lines E c line h)"
  using assms
proof (induction "c - line" arbitrary: line h rule: less_induct)
  case less
  show ?case
  proof (cases "line = c")
    case True
    with less(3) show ?thesis by (subst parse_lines.simps) simp
  next
    case False
    with less(2,5) have l: "line \<le> c - 2" "line < c" by (auto simp: header_block_def)
    from parse_line_kept [of h line E] less(2-4) l obtain h1 where h1: "parse_line E line h = Some h1" "same_request h h1" "fields_ok h1" by auto
    have "drop line (req_buf h) ! (c - 2 - line) = CR" "drop line (req_buf h) ! (c - 2 - line + 1) = LF"
      "c - 2 - line + 1 < length (drop line (req_buf h))"
      using less(2) l by (auto simp: header_block_def Suc_diff_Suc numeral_2_eq_2)
    from next_crlf_Some [OF this(3,1,2)] obtain k where
      k: "next_crlf (drop line (req_buf h)) = Some k" "k \<le> c - 2 - line" "drop line (req_buf h) ! (k + 1) = LF" by blast
    have "k + 1 \<noteq> c - 2 - line"
    proof
      assume "k + 1 = c - 2 - line"
      then have "drop line (req_buf h) ! (k + 1) = req_buf h ! (c - 2)" using less(2) l by (simp add: header_block_def)
      with k(3) less(2) show False by (simp add: header_block_def)
    qed
    then have n: "line + k + 2 \<le> c - 2 \<or> line + k + 2 = c" using k(2) l less(2) by (auto simp: header_block_def)
    from h1(2) less(2,4) have "header_block (req_buf h1) c" "c = req_contentoff h1" by (simp_all add: same_request_def)
    moreover have "c - (line + k + 2) < c - line" using l(2) by arith
    ultimately obtain h2 where
      h2: "parse_lines E c (line + k + 2) h1 = Some h2" "same_request h1 h2" "fields_ok h2" using less(1) h1(3) n by blast
    from h2(1) l(2) h1(1) k(1) have "parse_lines E c line h = Some h2" by (subst parse_lines.simps) simp
    with same_request_trans [OF h1(2) h2(2)] h2(3) show ?thesis by blast
  qed
qed

lemma ParseHttpHeaders_kept:
  assumes "header_block (req_buf h) (req_contentoff h)" "fields_ok h"
  shows "kept h (ParseHttpHeaders E h)"
  using parse_lines_kept [OF assms refl, of 0 E] assms by (simp add: ParseHttpHeaders_def)

text \<open>The request line.\<close>

lemma length_takeWhile_take: "length (takeWhile P (take n xs)) \<le> length (takeWhile P xs)"
  by (induction xs arbitrary: n) (auto simp: take_Cons split: nat.split)

lemma copy_word_block:
  assumes "header_block buf c" "i \<le> c - 2" "\<not> P CR"
  shows "\<exists>w j. copy_word n P buf i = Some (w, j) \<and> j \<le> c - 2 \<and> length w \<le> n"
proof -
  let ?w = "takeWhile P (take n (drop i buf))"
  from scan_block [of buf c i P] assms obtain k where "scan_buf P buf i = Some k" "k \<le> c - 2" by blast
  then have "i + length (takeWhile P (drop i buf)) \<le> c - 2" by (auto simp: scan_buf_def Let_def split: if_splits)
  moreover have "length ?w \<le> length (takeWhile P (drop i buf))" by (rule length_takeWhile_take)
  moreover have "length ?w \<le> n" by (rule le_trans [OF length_takeWhile_le]) simp
  ultimately have "length ?w \<le> n" "i + length ?w \<le> c - 2" by simp_all
  moreover have "i + length ?w < length buf" using \<open>i + length ?w \<le> c - 2\<close> assms(1) by (simp add: header_block_def) arith
  ultimately show ?thesis by (simp add: copy_word_def Let_def)
qed

lemma request_line_kept:
  assumes "header_block (req_buf h) c"
  shows "\<exists>cmd url v. request_line h = Some (cmd, url, h\<lparr>HttpVer := v\<rparr>) \<and> length v \<le> 15"
proof -
  let ?word = "\<lambda>c. c \<noteq> CHR '' '' \<and> c \<noteq> CR"
  let ?space = "\<lambda>c. c = CHR '' ''"
  from copy_word_block [OF assms, of 0 ?word 15] obtain cmd p where 1: "copy_word 15 ?word (req_buf h) 0 = Some (cmd, p)" "p \<le> c - 2" by auto
  from scan_block [OF assms 1(2), of ?space] obtain p1 where 2: "scan_buf ?space (req_buf h) p = Some p1" "p1 \<le> c - 2" by auto
  from copy_word_block [OF assms 2(2), of ?word 127] obtain url p2 where
    3: "copy_word 127 ?word (req_buf h) p1 = Some (url, p2)" "p2 \<le> c - 2" by auto
  from scan_block [OF assms 3(2), of ?space] obtain p3 where 4: "scan_buf ?space (req_buf h) p2 = Some p3" "p3 \<le> c - 2" by auto
  from copy_word_block [OF assms 4(2), of "\<lambda>c. c \<noteq> CR" 15] obtain v p4 where
    5: "copy_word 15 (\<lambda>c. c \<noteq> CR) (req_buf h) p3 = Some (v, p4)" "length v \<le> 15" by auto
  have "length (cstr v) \<le> 15" using 5(2) by (auto simp: cstr_def intro: le_trans [OF length_takeWhile_le])
  with 1(1) 2(1) 3(1) 4(1) 5(1) show ?thesis by (auto simp: request_line_def)
qed

section \<open>The answer\<close>

lemma emit_all_Some:
  "length (res_buf h) + length (concat texts) < res_buf_alloclen h \<Longrightarrow> emit_all texts h = Some (h\<lparr>res_buf := res_buf h @ concat texts\<rparr>)"
proof (induction texts arbitrary: h)
  case (Cons t ts)
  then show ?case by (simp add: emit_all_def emit_def)
qed (simp add: emit_all_def)

lemma emit_all_None:
  assumes "length (res_buf h) < res_buf_alloclen h" "res_buf_alloclen h \<le> length (res_buf h) + length (concat texts)"
  shows "emit_all texts h = None"
proof -
  have n: "fold (\<lambda>t r. Option.bind r (emit t)) ts None = None" for ts by (induction ts) simp_all
  show ?thesis using assms
    by (induction texts arbitrary: h) (auto simp: emit_all_def emit_def n)
qed

abbreviation header_text :: "('s, 're, 'k, 'h) http_env \<Rightarrow> upnphttp \<Rightarrow> nat \<Rightarrow> string \<Rightarrow> nat \<Rightarrow> string" where
  "header_text E h code msg bodylen \<equiv> resp_head E h code msg bodylen @ concat (extra_headers E h)"

lemma text_of_header [simp]:
  "resp_head E (h\<lparr>res_buf_alloclen := n, res_sent := 0, res_buf := b\<rparr>) = resp_head E h"
  "extra_headers E (h\<lparr>res_buf_alloclen := n, res_sent := 0, res_buf := b\<rparr>) = extra_headers E h"
  by (auto simp: resp_head_def extra_headers_def content_type_def fun_eq_iff split: option.splits)

text \<open>The header is built exactly when its text and the empty line fit what has been reserved.\<close>

lemma BuildHeader_eq:
  fixes E :: "('s, 're, 'k, 'h) http_env"
  defines "n \<equiv> \<lambda>bodylen h. max (res_buf_alloclen h) (httpresphead_size E + 256 + bodylen)"
  shows "BuildHeader_upnphttp E code msg bodylen h =
    (let text = header_text E h code msg bodylen @ eol
     in if length text \<le> n bodylen h
        then Some (h\<lparr>res_buf_alloclen := max (n bodylen h) (length text + bodylen), res_sent := 0, res_buf := text\<rparr>) else None)"
proof -
  let ?n = "n bodylen h"
  let ?h = "h\<lparr>res_buf_alloclen := ?n, res_sent := 0, res_buf := []\<rparr>"
  let ?texts = "resp_head E h code msg bodylen # extra_headers E h"
  have "0 < ?n" by (simp add: n_def)
  have e: "BuildHeader_upnphttp E code msg bodylen h = (case emit_all ?texts ?h of None \<Rightarrow> None
       | Some h2 \<Rightarrow> if length (res_buf h2) + 2 \<le> res_buf_alloclen h2
           then Some (h2\<lparr>res_buf := res_buf h2 @ eol, res_buf_alloclen := max (res_buf_alloclen h2) (length (res_buf h2 @ eol) + bodylen)\<rparr>) else None)"
    by (simp add: BuildHeader_upnphttp_def Let_def n_def split: option.split)
  show ?thesis
  proof (cases "length (concat ?texts) < ?n")
    case True
    then show ?thesis unfolding e using emit_all_Some [of ?h ?texts] by (simp add: eol_def Let_def)
  next
    case False
    with emit_all_None [of ?h ?texts] \<open>0 < ?n\<close> have "emit_all ?texts ?h = None" by simp
    with False show ?thesis unfolding e by (simp add: eol_def Let_def)
  qed
qed

text \<open>The lengths of the values.\<close>

lemma length_decint: "- (2 ^ 31) \<le> i \<Longrightarrow> i < 2 ^ 31 \<Longrightarrow> length (decint i) \<le> 11"
  using length_dec [of "nat i" 10] length_dec [of "nat (- i)" 10] by (auto simp: decint_def nat_less_iff)

lemma length_content_type: "length (content_type h) \<le> 25"
  by (simp add: content_type_def)

text \<open>
  The combinations of flags and messages that the server uses: the long messages are never sent with the
  headers of a subscription, and these never with \<open>Allow\<close>.
\<close>

definition sendable :: "upnphttp \<Rightarrow> string \<Rightarrow> bool" where
  "sendable h msg \<longleftrightarrow> length (HttpVer h) \<le> 15 \<and> length (accept_language h) \<le> 7 \<and> length msg \<le> 26
     \<and> (respflags h AND FLAG_TIMEOUT \<noteq> 0 \<or> respflags h AND FLAG_SID \<noteq> 0 \<longrightarrow>
          length msg \<le> 2 \<and> - (2 ^ 31) \<le> req_Timeout h \<and> req_Timeout h < 2 ^ 31
          \<and> respflags h AND FLAG_ALLOW_POST = 0 \<and> respflags h AND FLAG_ALLOW_SUB_UNSUB = 0)
     \<and> (respflags h AND FLAG_SID \<noteq> 0 \<longrightarrow> length (res_SID h) \<le> 41)"

definition short_texts :: "('s, 're, 'k, 'h) http_env \<Rightarrow> bool" where
  "short_texts E \<longleftrightarrow> (\<forall>v. os_version E = Some v \<longrightarrow> length v \<le> 64) \<and> (\<forall>d. http_date E = Some d \<longrightarrow> length d \<le> 29)"

lemma length_extra:
  assumes "short_texts E" "sendable h msg"
  shows "length (concat (extra_headers E h)) + length msg \<le> 147"
proof -
  have d: "length (concat (case http_date E of None \<Rightarrow> [] | Some d \<Rightarrow> [''Date: '' @ d @ eol])) \<le> 37"
    using assms(1) by (auto simp: short_texts_def eol_def split: option.split)
  have l: "length (concat (if cstr (accept_language h) \<noteq> []
        then [''Content-Language: '' @ (if hd (accept_language h) = CHR ''*'' then ''en'' else cstr (accept_language h)) @ eol] else [])) \<le> 27"
    using length_cstr [of "accept_language h"] assms(2) by (auto simp: sendable_def eol_def)
  have s: "length (concat ((if enable_events E \<and> respflags h AND FLAG_TIMEOUT \<noteq> 0
        then [''Timeout: Second-'', (if req_Timeout h \<noteq> 0 then decint (req_Timeout h) else ''infinite'') @ eol] else [])
     @ (if enable_events E \<and> respflags h AND FLAG_SID \<noteq> 0 then [''SID: '' @ res_SID h @ eol] else [])
     @ (if respflags h AND FLAG_ALLOW_POST \<noteq> 0 then [''Allow: POST'' @ eol]
        else if respflags h AND FLAG_ALLOW_SUB_UNSUB \<noteq> 0 then [''Allow: SUBSCRIBE, UNSUBSCRIBE'' @ eol] else []))) + length msg \<le> 83"
    using assms(2) length_decint [of "req_Timeout h"] by (auto simp: sendable_def eol_def)
  show ?thesis using d l s unfolding extra_headers_def by simp
qed

lemma length_head:
  assumes "short_texts E" "length (HttpVer h) \<le> 15" "code < 1000"
  shows "length (resp_head E h code msg bodylen) \<le> httpresphead_size E + 106 + length msg"
proof -
  have "length (dec code) \<le> 3" using assms(3) by (intro length_dec) auto
  moreover have "length (decint (sint (of_nat bodylen :: u32))) \<le> 11"
    using sint_range_size [of "of_nat bodylen :: u32"] by (intro length_decint) (auto simp: word_size)
  moreover note length_content_type [of h]
  ultimately show ?thesis using assms(1,2)
    by (auto simp: resp_head_def httpresphead_size_def eol_def short_texts_def split: option.splits)
qed

lemma BuildResp2_Some:
  assumes "short_texts E" "sendable h msg" "code < 1000"
  shows "\<exists>n. BuildResp2_upnphttp E code msg text h
    = Some (h\<lparr>res_buf_alloclen := n, res_sent := 0, res_buf := header_text E h code msg (length text) @ eol @ text\<rparr>)"
proof -
  have "length (header_text E h code msg (length text) @ eol) \<le> max (res_buf_alloclen h) (httpresphead_size E + 256 + length text)"
    using length_extra [OF assms(1,2)] length_head [OF assms(1) _ assms(3), of h msg "length text"] assms(2)
    by (simp add: sendable_def eol_def)
  then show ?thesis by (auto simp: BuildResp2_upnphttp_def BuildHeader_eq Let_def)
qed

end
