(* ===== verification/UpnpHttpConn.thy ===== *)
theory UpnpHttpConn
  imports UpnpHttpProps
begin

text \<open>
  The life of an HTTP connection: an invariant of its states, and that every call that processes it
  returns, stays in its buffers and changes the state of the gateway only through a SOAP action of its
  own client.
\<close>

section \<open>Ending a connection\<close>

text \<open>After an answer the connection sends or is closed, and its request is not touched again.\<close>

definition closing :: "upnphttp \<Rightarrow> upnphttp \<Rightarrow> bool" where
  "closing h h' \<longleftrightarrow> (h_state h' = ESendingAndClosing \<or> h_state h' = EToDelete) \<and> req_buf h' = req_buf h \<and> req_bufalloc h' = req_bufalloc h
     \<and> h_client h' = h_client h \<and> h_ipv6 h' = h_ipv6 h
     \<and> req_soapActionOff h' = req_soapActionOff h \<and> req_soapActionLen h' = req_soapActionLen h"

lemma SendResp_frame: "\<exists>b n. SendResp_upnphttp io h = (b, h\<lparr>res_sent := n\<rparr>)"
proof (induction io arbitrary: h)
  case Nil
  show ?case by (subst SendResp_upnphttp.simps) (auto intro: exI [of _ "res_sent h"])
next
  case (Cons x io)
  have h: "h = h\<lparr>res_sent := res_sent h\<rparr>" by simp
  have "\<exists>b n. SendResp_upnphttp io (h\<lparr>res_sent := m\<rparr>) = (b, h\<lparr>res_sent := n\<rparr>)" for m using Cons [of "h\<lparr>res_sent := m\<rparr>"] by simp
  then show ?case using h Cons [of h]
    by (subst SendResp_upnphttp.simps) (cases x; auto intro: exI [of _ "res_sent h"])
qed

lemma SendRespAndClose_closes: "closing h (SendRespAndClose_upnphttp io h)"
proof -
  from SendResp_frame [of io h] obtain b n where "SendResp_upnphttp io h = (b, h\<lparr>res_sent := n\<rparr>)" by blast
  then show ?thesis by (cases b) (simp_all add: SendRespAndClose_upnphttp_def CloseSocket_upnphttp_def closing_def)
qed

lemma respond_closes:
  assumes "short_texts E" "sendable h msg" "code < 1000"
  shows "\<exists>h'. respond E io code msg text h = Some h' \<and> closing h h'"
proof -
  from BuildResp2_Some [OF assms, of "text"] obtain n where
    r: "BuildResp2_upnphttp E code msg text h
      = Some (h\<lparr>res_buf_alloclen := n, res_sent := 0, res_buf := header_text E h code msg (length text) @ eol @ text\<rparr>)" by blast
  have "closing h (SendRespAndClose_upnphttp io (h\<lparr>res_buf_alloclen := n, res_sent := 0, res_buf := b\<rparr>))" for b
    using SendRespAndClose_closes [of "h\<lparr>res_buf_alloclen := n, res_sent := 0, res_buf := b\<rparr>" io] by (simp add: closing_def)
  with r show ?thesis by (simp add: respond_def)
qed

text \<open>A connection whose request has been read can be answered with any of the messages.\<close>

definition answerable :: "upnphttp \<Rightarrow> bool" where
  "answerable h \<longleftrightarrow> length (HttpVer h) \<le> 15 \<and> length (accept_language h) \<le> 7 \<and> - (2 ^ 31) \<le> req_Timeout h \<and> req_Timeout h < 2 ^ 31"

abbreviation plain :: "upnphttp \<Rightarrow> bool" where
  "plain h \<equiv> answerable h \<and> respflags h AND answer_flags = 0"

lemma plain_sendable: "plain h \<Longrightarrow> length msg \<le> 26 \<Longrightarrow> sendable h msg"
  using no_answer_flags [of "respflags h"] by (simp add: sendable_def answerable_def)

lemma flag_sendable:
  assumes "answerable h" "length msg \<le> 26" "f \<in> {FLAG_HTML, FLAG_ALLOW_POST OR FLAG_HTML, FLAG_ALLOW_SUB_UNSUB OR FLAG_HTML}"
  shows "sendable (h\<lparr>respflags := f\<rparr>) msg"
  using assms by (auto simp: sendable_def answerable_def flag_defs)

lemma subscription_sendable:
  assumes "answerable h" "length sid \<le> 41"
  shows "sendable (h\<lparr>respflags := FLAG_TIMEOUT OR FLAG_SID, res_SID := sid\<rparr>) ''OK''"
  using assms by (simp add: sendable_def answerable_def flag_defs)

lemma closing_flags [simp]: "closing (h\<lparr>respflags := f\<rparr>) h' = closing h h'" "closing (h\<lparr>respflags := f, res_SID := s\<rparr>) h' = closing h h'"
  "closing (h\<lparr>req_command := c\<rparr>) h' = closing h h'" "closing (h\<lparr>req_Timeout := t\<rparr>) h' = closing h h'"
  by (simp_all add: closing_def)

lemma errors_closes:
  assumes "short_texts E" "answerable h"
  shows "\<exists>h'. Send400 E io h = Some h' \<and> closing h h'" "\<exists>h'. Send404 E io h = Some h' \<and> closing h h'"
    "\<exists>h'. Send500 E io h = Some h' \<and> closing h h'" "\<exists>h'. Send501 E io h = Some h' \<and> closing h h'"
    "f \<in> {FLAG_ALLOW_POST, FLAG_ALLOW_SUB_UNSUB} \<Longrightarrow> \<exists>h'. Send405 E io (h\<lparr>respflags := f\<rparr>) = Some h' \<and> closing h h'"
  unfolding Send400_def Send404_def Send500_def Send501_def Send405_def
  using respond_closes [OF assms(1) flag_sendable [OF assms(2)]] by auto

lemma descriptions_closes:
  assumes "short_texts E" "plain h"
  shows "\<exists>h'. sendDummyDesc E io h = Some h' \<and> closing h h'" "\<exists>h'. sendXMLdesc E io f h = Some h' \<and> closing h h'"
    "\<exists>h'. soap_answer E io r h = Some h' \<and> closing h h'"
proof -
  have s: "sendable h ''OK''" "sendable h ''Internal Server Error''" using plain_sendable [OF assms(2)] by simp_all
  from respond_closes [OF assms(1) s(1), of 200] show "\<exists>h'. sendDummyDesc E io h = Some h' \<and> closing h h'"
    by (simp add: sendDummyDesc_def)
  from respond_closes [OF assms(1) s(1), of 200] errors_closes(3) [OF assms(1) conjunct1 [OF assms(2)], of io] show "\<exists>h'. sendXMLdesc E io f h = Some h' \<and> closing h h'"
    by (simp add: sendXMLdesc_def split: option.split)
  from respond_closes [OF assms(1) s(1), of 200] respond_closes [OF assms(1) s(2), of 500] show "\<exists>h'. soap_answer E io r h = Some h' \<and> closing h h'"
    by (simp add: soap_answer_def)
qed

lemma ProcessHTTPGet_closes:
  assumes "short_texts E" "plain h"
  shows "\<exists>h'. ProcessHTTPGet E io url h = Some h' \<and> closing h h'"
  using descriptions_closes [OF assms] errors_closes [OF assms(1) conjunct1 [OF assms(2)]] by (auto simp: ProcessHTTPGet_def split: option.split)

section \<open>Subscriptions\<close>

text \<open>A callback is taken from the header, it is on the client's address, and it has a scheme and a host.\<close>

lemma scan_lim_le: "i \<le> lim \<Longrightarrow> scan_lim P buf lim i \<le> lim"
proof -
  assume "i \<le> lim"
  moreover have "length (takeWhile P (take (lim - i) (drop i buf))) \<le> lim - i" by (rule le_trans [OF length_takeWhile_le]) simp
  ultimately show ?thesis by (simp add: scan_lim_def)
qed

lemma url_host_le: "url_host buf p lim = (ipv6, addrstr, e) \<Longrightarrow> p < lim \<Longrightarrow> e \<le> lim"
proof -
  assume u: "url_host buf p lim = (ipv6, addrstr, e)" and p: "p < lim"
  define q where "q = (if buf ! p = CHR ''['' then p + 1 else p)"
  from u obtain P where "e = scan_lim P buf (min lim (q + 47)) q" unfolding q_def by (auto simp: url_host_def Let_def)
  moreover have "q \<le> min lim (q + 47)" using p by (simp add: q_def)
  ultimately have "e \<le> min lim (q + 47)" using scan_lim_le by metis
  then show ?thesis by simp
qed

definition good_callback :: "upnphttp \<Rightarrow> nat \<Rightarrow> nat \<Rightarrow> nat \<Rightarrow> bool" where
  "good_callback h lim off len = (\<exists>ipv6 addrstr e. 0 < off \<and> off + len \<le> lim \<and> off + 7 \<le> e \<and> e \<le> lim
     \<and> take 7 (drop off (req_buf h)) = ''http://'' \<and> url_host (req_buf h) (off + 7) lim = (ipv6, addrstr, e)
     \<and> same_address h ipv6 addrstr \<and> off + len = scan_lim (\<lambda>c. c \<noteq> CHR ''>'') (req_buf h) lim e)"

lemma checkCallbackURL_good:
  assumes "off + len < length (req_buf h)"
  shows "checkCallbackURL h off len = Some None
    \<or> (\<exists>o' l'. checkCallbackURL h off len = Some (Some (o', l')) \<and> good_callback h (off + len) o' l')"
  using assms
proof (induction len arbitrary: off rule: less_induct)
  case (less len)
  show ?case
  proof (cases "off = 0 \<or> len < 10")
    case True
    then show ?thesis by (subst checkCallbackURL.simps) simp
  next
    case False
    let ?url = "take 8 (drop off (req_buf h)) = ''<http://''"
    obtain ipv6 addrstr e where u: "url_host (req_buf h) (off + 8) (off + len) = (ipv6, addrstr, e)" by (metis prod_cases3)
    from url_host_end [OF u] url_host_le [OF u] False have e: "off + 8 \<le> e" "e \<le> off + len" by simp_all
    show ?thesis
    proof (cases "?url \<and> same_address h ipv6 addrstr")
      case True
      from scan_lim_ge [of e] scan_lim_le [OF e(2)] have
        s: "e \<le> scan_lim (\<lambda>c. c \<noteq> CHR ''>'') (req_buf h) (off + len) e" "scan_lim (\<lambda>c. c \<noteq> CHR ''>'') (req_buf h) (off + len) e \<le> off + len"
        by simp_all
      have "take 7 (drop (off + 1) (req_buf h)) = tl (take 8 (drop off (req_buf h)))"
        by (simp add: tl_take drop_Suc tl_drop)
      with True s e u have "good_callback h (off + len) (off + 1) (scan_lim (\<lambda>c. c \<noteq> CHR ''>'') (req_buf h) (off + len) e - (off + 1))"
        unfolding good_callback_def by (intro exI [of _ ipv6] exI [of _ addrstr] exI [of _ e]) (simp add: add.commute)
      moreover have "checkCallbackURL h off len
          = Some (Some (off + 1, scan_lim (\<lambda>c. c \<noteq> CHR ''>'') (req_buf h) (off + len) e - (off + 1)))"
        using True False u less(2) by (subst checkCallbackURL.simps) (simp add: Let_def)
      ultimately show ?thesis by blast
    next
      case bad: False
      define i where "i = (if ?url then e else off + 1)"
      define p where "p = scan_lim (\<lambda>c. c \<noteq> CHR ''>'') (req_buf h) (off + len) i"
      define q where "q = scan_lim (\<lambda>c. c \<noteq> CHR ''<'') (req_buf h) (off + len) p"
      have i: "off < i" "i \<le> off + len" using e False by (auto simp: i_def)
      with scan_lim_ge [of i] scan_lim_le [OF i(2)] have p: "off < p" "p \<le> off + len" unfolding p_def by (auto intro: less_le_trans)
      with scan_lim_ge [of p] scan_lim_le [OF p(2)] have q: "off < q" "q \<le> off + len" unfolding q_def by (auto intro: less_le_trans)
      have eq: "checkCallbackURL h off len = (if req_buf h ! p \<noteq> CHR ''>'' then Some None
          else if req_buf h ! q \<noteq> CHR ''<'' then Some None else checkCallbackURL h q (len - (q - off)))"
        using False bad u less(2) by (subst checkCallbackURL.simps) (auto simp: Let_def i_def p_def q_def)
      show ?thesis
      proof (cases "req_buf h ! p \<noteq> CHR ''>'' \<or> req_buf h ! q \<noteq> CHR ''<''")
        case True
        with eq show ?thesis by auto
      next
        case False
        have s: "q + (len - (q - off)) = off + len" using q by simp
        moreover have "len - (q - off) < len" using q(1) \<open>\<not> (off = 0 \<or> len < 10)\<close> by (intro diff_less) auto
        ultimately have "checkCallbackURL h q (len - (q - off)) = Some None
          \<or> (\<exists>o' l'. checkCallbackURL h q (len - (q - off)) = Some (Some (o', l')) \<and> good_callback h (q + (len - (q - off))) o' l')"
          using less(1) [of "len - (q - off)" q] less(2) by simp
        with eq False show ?thesis unfolding s by simp
      qed
    qed
  qed
qed

lemma good_callback_cong:
  assumes "req_buf h' = req_buf h" "h_client h' = h_client h" "h_ipv6 h' = h_ipv6 h"
  shows "good_callback h' = good_callback h"
proof -
  have "same_address h' = same_address h" by (rule ext, rule ext) (simp add: same_address_def assms split: option.split)
  then show ?thesis by (simp add: good_callback_def [abs_def] assms)
qed

lemma good_callback_length: "good_callback h lim off len \<Longrightarrow> 7 \<le> len"
proof -
  assume "good_callback h lim off len"
  then obtain e where "off + 7 \<le> e" "off + len = scan_lim (\<lambda>c. c \<noteq> CHR ''>'') (req_buf h) lim e" by (auto simp: good_callback_def)
  with scan_lim_ge [of e "\<lambda>c. c \<noteq> CHR ''>''" "req_buf h" lim] show ?thesis by simp
qed

text \<open>What stays the same of every subscriber from its subscription to its end.\<close>

definition statics :: "events \<Rightarrow> (string \<times> string) set" where
  "statics st = (\<lambda>(p, d). (sub_uuid d, sub_callback d)) ` set (subscriberlist st)"

lemma statics_put [simp]:
  assumes "\<And>d. sub_uuid (f d) = sub_uuid d" "\<And>d. sub_callback (f d) = sub_callback d"
  shows "statics (st\<lparr>subscriberlist := put p f (subscriberlist st)\<rparr>) = statics st"
  using assms by (auto simp: statics_def put_def image_image image_iff split: prod.splits) (force split: prod.splits)+

lemma statics_set_obj: "set_obj p f st = Some st' \<Longrightarrow> statics st' = statics st"
  by (auto simp: set_obj_def statics_def split: option.splits)

lemma statics_set_sub:
  "set_sub p (\<lambda>d. d\<lparr>sub_notify := v\<rparr>) st = Some st' \<Longrightarrow> statics st' = statics st"
  "set_sub p (\<lambda>d. d\<lparr>sub_seq := sub_seq d + 1\<rparr>) st = Some st' \<Longrightarrow> statics st' = statics st"
  by (auto simp: set_sub_def split: option.splits)

lemma statics_each: "(\<And>x st st'. f x st = Some st' \<Longrightarrow> statics st' \<subseteq> statics st) \<Longrightarrow> each f xs st = Some st' \<Longrightarrow> statics st' \<subseteq> statics st"
  by (induction xs arbitrary: st) (auto split: option.splits, blast)

lemma statics_notifylist [simp]: "statics (st\<lparr>notifylist := ns\<rparr>) = statics st"
  by (simp add: statics_def)

lemma statics_unlink: "statics (st\<lparr>subscriberlist := filter P (subscriberlist st)\<rparr>) \<subseteq> statics st"
  by (auto simp: statics_def)

lemma statics_create: "upnp_event_create_notify E p st = Some st' \<Longrightarrow> statics st' = statics st"
  unfolding upnp_event_create_notify_def Let_def
  by (auto dest: statics_set_sub(1) split: option.split_asm if_split_asm)

lemma statics_prepare: "upnp_event_prepare E p st = Some st' \<Longrightarrow> statics st' = statics st"
  by (auto simp: upnp_event_prepare_def Let_def dest!: statics_set_obj split: option.splits if_splits)

lemma statics_send: "upnp_event_send E p st = Some st' \<Longrightarrow> statics st' = statics st"
  by (auto simp: upnp_event_send_def Let_def dest!: statics_set_obj split: option.splits io_result.splits)

lemma statics_recv: "upnp_event_recv E p st = Some st' \<Longrightarrow> statics st' = statics st"
  by (auto simp: upnp_event_recv_def dest!: statics_set_obj statics_set_sub split: option.splits io_result.splits)

lemma statics_connect: "upnp_event_notify_connect E p st = Some st' \<Longrightarrow> statics st' = statics st"
  by (auto simp: upnp_event_notify_connect_def Let_def dest!: statics_set_obj split: option.splits if_splits prod.splits)

lemma statics_process: "upnp_event_process_notify E p st = Some st' \<Longrightarrow> statics st' = statics st"
  by (auto simp: upnp_event_process_notify_def dest: statics_set_obj statics_prepare statics_send statics_recv
      split: option.splits notify_state.splits if_splits)

lemma statics_drop: "drop_notify p st = Some st' \<Longrightarrow> statics st' \<subseteq> statics st"
  using statics_unlink by (fastforce simp: drop_notify_def Let_def unlink_def dest: statics_set_sub split: option.splits if_splits)

text \<open>The calls of the module: only a subscription adds, and it adds its own callback.\<close>

lemma statics_add:
  "upnpevents_addSubscriber E url cb t st = Some (sid, st') \<Longrightarrow> statics st' \<subseteq> insert (''uuid:'' @ ev_uuid E, cb) (statics st)
    \<and> (\<forall>s. sid = Some s \<longrightarrow> s = ''uuid:'' @ ev_uuid E)"
  by (auto simp: upnpevents_addSubscriber_def newSubscriber_def Let_def dest!: statics_create split: option.splits if_splits)
    (auto simp: statics_def)

lemma find_mem: "find P xs = Some x \<Longrightarrow> x \<in> set xs"
  by (induction xs) (auto split: if_splits)

lemma statics_renew:
  assumes "upnpevents_renewSubscription E s t st = (sid, st')"
  shows "statics st' = statics st \<and> (\<forall>s. sid = Some s \<longrightarrow> s \<in> fst ` statics st)"
proof (cases "find (\<lambda>(_, sub). sid_matches s sub \<and> \<not> (ev_strict E \<and> sub_timeout sub \<noteq> 0 \<and> ev_time E > sub_timeout sub)) (subscriberlist st)")
  case None
  with assms show ?thesis by (simp add: upnpevents_renewSubscription_def)
next
  case (Some a)
  obtain p d where a: "a = (p, d)" by fastforce
  with find_mem [OF Some] have "(p, d) \<in> set (subscriberlist st)" by simp
  then have "sub_uuid d \<in> fst ` statics st" by (force simp: statics_def image_iff)
  with Some a assms show ?thesis by (auto simp: upnpevents_renewSubscription_def)
qed

lemma statics_remove: "upnpevents_removeSubscriber s st = Some (r, st') \<Longrightarrow> statics st' \<subseteq> statics st"
  using statics_unlink by (fastforce simp: upnpevents_removeSubscriber_def unlink_def dest!: statics_set_obj split: option.splits)

lemma statics_change: "upnp_event_var_change_notify E v st = Some st' \<Longrightarrow> statics st' \<subseteq> statics st"
  unfolding upnp_event_var_change_notify_def
  by (erule statics_each [rotated]) (auto dest: statics_create split: option.splits if_splits)

lemma statics_selectfds: "upnpevents_selectfds E st = Some st' \<Longrightarrow> statics st' \<subseteq> statics st"
  unfolding upnpevents_selectfds_def
  by (erule statics_each [rotated]) (auto dest: statics_connect split: option.splits if_splits)

lemma statics_processfds: "upnpevents_processfds E st = Some st' \<Longrightarrow> statics st' \<subseteq> statics st"
proof -
  assume "upnpevents_processfds E st = Some st'"
  then obtain st1 st2 where
    1: "each (\<lambda>p st. case map_of (notifylist st) p of None \<Rightarrow> None
       | Some n \<Rightarrow> if nt_s n \<ge> 0 \<and> ev_isset E (nt_s n) then upnp_event_process_notify E p st else Some st) (map fst (notifylist st)) st = Some st1"
    and 2: "each drop_notify (map fst (notifylist st1)) st1 = Some st2"
    and 3: "st' = st2\<lparr>subscriberlist := filter (\<lambda>(_, sub). \<not> expired E sub) (subscriberlist st2)\<rparr>"
    by (auto simp: upnpevents_processfds_def split: option.splits)
  from 1 have "statics st1 \<subseteq> statics st"
    by (rule statics_each [rotated]) (auto dest: statics_process split: option.splits if_splits)
  moreover from 2 have "statics st2 \<subseteq> statics st1" by (rule statics_each [rotated]) (rule statics_drop)
  ultimately show ?thesis using statics_unlink [of "\<lambda>(_, sub). \<not> expired E sub" st2] 3 by blast
qed

section \<open>The server\<close>

text \<open>What the connections rely on: an allocator, texts of the usual length for the headers of an answer, and limits.\<close>

locale http_server = allocator malloc for malloc +
  fixes E :: "('s, 're, 'k, 'h) http_env"
  assumes texts: "short_texts E" and uuid: "length (ev_uuid (ht_events E)) \<le> 36" and alloc: "ev_malloc (ht_events E) = malloc"
    and limits: "0 < HEADERS_LENGTH_LIMIT E"
begin

definition events_ok :: "events \<Rightarrow> bool" where
  "events_ok ev \<longleftrightarrow> ev_inv ev \<and> (\<forall>u\<in>fst ` statics ev. length u \<le> 41)"

definition subscribed :: "upnphttp \<Rightarrow> events \<Rightarrow> events \<Rightarrow> bool" where
  "subscribed h ev ev' \<longleftrightarrow> statics ev' \<subseteq> statics ev
     \<or> (\<exists>u lim off len. lim < length (req_buf h) \<and> good_callback h lim off len \<and> statics ev' \<subseteq> insert (u, take len (drop off (req_buf h))) (statics ev))"

lemma answers:
  assumes "answerable h" "sendable h msg" "code < 1000"
  shows "\<exists>h'. map_option (\<lambda>h1. (h1, ev)) (respond E io code msg t h) = Some (h', ev) \<and> closing h h'"
  using respond_closes [OF texts assms(2,3), of io t] by auto

lemma Subscribe_closes:
  assumes p: "plain h" and f: "fields_ok h" "req_contentoff h \<le> length (req_buf h)" and ev: "events_ok ev"
  shows "\<exists>h' ev'. ProcessHTTPSubscribe_upnphttp E io path h ev = Some (h', ev') \<and> closing h h' \<and> events_ok ev' \<and> subscribed h ev ev'"
proof -
  define g where "g = (if (ht_strict E \<and> UPNP_VERSION_MAJOR E > 1 \<or> UPNP_VERSION_MINOR E > 0) \<and> req_Timeout h < 1800
     then h\<lparr>req_Timeout := 1800\<rparr> else h)"
  have g: "plain g" "closing g h' = closing h h'" "req_buf g = req_buf h" "req_CallbackOff g = req_CallbackOff h"
    "req_CallbackLen g = req_CallbackLen h" "good_callback g = good_callback h" for h'
    using p by (simp_all add: g_def answerable_def good_callback_cong [of "h\<lparr>req_Timeout := 1800\<rparr>" h])
  let ?answer = "\<lambda>code msg h ev. map_option (\<lambda>h1. (h1, ev)) (respond E io code msg [] h)"
  have a: "\<exists>h'. ?answer code msg g ev = Some (h', ev) \<and> closing h h'" if "length msg \<le> 26" "code < 1000" for code msg ev
    using answers [OF _ plain_sendable [OF g(1) that(1)] that(2)] g by auto
  have ok: "\<exists>h'. ?answer 200 ''OK'' (g\<lparr>respflags := FLAG_TIMEOUT OR FLAG_SID, res_SID := s\<rparr>) ev = Some (h', ev) \<and> closing h h'"
    if "length s \<le> 41" for s ev
    using answers [OF _ subscription_sendable [of g s], of 200 ev io "[]"] that g(1,2) by (simp add: answerable_def)
  have no_sid: "\<exists>h'. ?answer 200 ''OK'' (g\<lparr>respflags := FLAG_TIMEOUT\<rparr>) ev = Some (h', ev) \<and> closing h h'" for ev
  proof -
    have "sendable (g\<lparr>respflags := FLAG_TIMEOUT\<rparr>) ''OK''" using g(1) by (simp add: sendable_def answerable_def flag_defs)
    from answers [OF _ this, of 200 ev io "[]"] g(1,2) show ?thesis by (simp add: answerable_def)
  qed
  have quiet: "subscribed h ev ev'" if "statics ev' \<subseteq> statics ev" for ev' using that by (simp add: subscribed_def)
  show ?thesis
  proof (cases "req_CallbackOff g > 0 \<and> \<not> (ht_strict E \<and> (req_SIDOff g > 0 \<or> req_NTOff g = 0
      \<or> take (req_NTLen g) (drop (req_NTOff g) (req_buf g)) \<noteq> ''upnp:event''))")
    case True
    have "req_CallbackOff g + req_CallbackLen g < length (req_buf g)"
      using f True g(3-5) by (auto simp: fields_ok_def inside_def Let_def)
    from checkCallbackURL_good [OF this] show ?thesis
    proof (elim disjE exE conjE)
      assume "checkCallbackURL g (req_CallbackOff g) (req_CallbackLen g) = Some None"
      with True a [of "''Precondition Failed''" 412 ev] ev quiet [of ev] show ?thesis
        unfolding ProcessHTTPSubscribe_upnphttp_def Let_def g_def [symmetric] by auto
    next
      fix off len
      assume c: "checkCallbackURL g (req_CallbackOff g) (req_CallbackLen g) = Some (Some (off, len))"
        "good_callback g (req_CallbackOff g + req_CallbackLen g) off len"
      let ?cb = "take len (drop off (req_buf g))"
      have "off + len < length (req_buf g)" using c(2) \<open>req_CallbackOff g + req_CallbackLen g < length (req_buf g)\<close> by (auto simp: good_callback_def)
      then have "7 \<le> length ?cb" using good_callback_length [OF c(2)] by simp
      from addSubscriber_inv [OF alloc _ this, of ev path "req_Timeout g"] ev obtain sid ev' where
        s: "upnpevents_addSubscriber (ht_events E) path ?cb (req_Timeout g) ev = Some (sid, ev')" "ev_inv ev'" by (auto simp: events_ok_def)
      from statics_add [OF s(1)] have
        st: "statics ev' \<subseteq> insert (''uuid:'' @ ev_uuid (ht_events E), ?cb) (statics ev)" "\<And>u. sid = Some u \<Longrightarrow> u = ''uuid:'' @ ev_uuid (ht_events E)"
        by auto
      have "events_ok ev'" using st(1) s(2) ev uuid by (fastforce simp: events_ok_def)
      moreover have "subscribed h ev ev'"
        using st(1) c(2) g(3,6) \<open>req_CallbackOff g + req_CallbackLen g < length (req_buf g)\<close> unfolding subscribed_def by metis
      moreover have "\<exists>h'. (case sid of None \<Rightarrow> ?answer 200 ''OK'' (g\<lparr>respflags := FLAG_TIMEOUT\<rparr>) ev'
          | Some u \<Rightarrow> ?answer 200 ''OK'' (g\<lparr>respflags := FLAG_TIMEOUT OR FLAG_SID, res_SID := u\<rparr>) ev') = Some (h', ev') \<and> closing h h'"
        using no_sid [of ev'] ok [of _ ev'] st(2) uuid by (cases sid) auto
      ultimately show ?thesis using True c(1) s(1)
        unfolding ProcessHTTPSubscribe_upnphttp_def Let_def g_def [symmetric] by (cases sid) auto
    qed
  next
    case False
    let ?sid = "take (req_SIDLen g) (drop (req_SIDOff g) (req_buf g))"
    obtain sid ev1 where r: "upnpevents_renewSubscription (ht_events E) ?sid (req_Timeout g) ev = (sid, ev1)" by fastforce
    from renew_inv [of ev "ht_events E" ?sid "req_Timeout g"] statics_renew [OF r] r ev
    have ev1: "events_ok ev1" "subscribed h ev ev1" "\<And>u. sid = Some u \<Longrightarrow> length u \<le> 41" by (auto simp: events_ok_def subscribed_def)
    have e412: "\<exists>h'. ?answer 412 ''Precondition Failed'' g ev = Some (h', ev) \<and> closing h h'" for ev by (rule a) simp_all
    have e400: "\<exists>h'. ?answer 400 ''Incompatible header fields'' g ev = Some (h', ev) \<and> closing h h'" for ev by (rule a) simp_all
    have "\<exists>h'. (case sid of None \<Rightarrow> ?answer 412 ''Precondition Failed'' g ev1
        | Some u \<Rightarrow> ?answer 200 ''OK'' (g\<lparr>respflags := FLAG_TIMEOUT OR FLAG_SID, res_SID := u\<rparr>) ev1) = Some (h', ev1) \<and> closing h h'"
      using e412 [of ev1] ok [of _ ev1] ev1(3) by (cases sid) auto
    with e412 [of ev] e400 [of ev] ev1(1,2) ev quiet [of ev] False r show ?thesis
      unfolding ProcessHTTPSubscribe_upnphttp_def Let_def g_def [symmetric] by (cases sid) (auto split: if_splits)
  qed
qed

lemma UnSubscribe_closes:
  assumes p: "plain h" and ev: "events_ok ev"
  shows "\<exists>h' ev'. ProcessHTTPUnSubscribe_upnphttp E io h ev = Some (h', ev') \<and> closing h h' \<and> events_ok ev' \<and> subscribed h ev ev'"
proof -
  have a: "\<exists>h'. map_option (\<lambda>h1. (h1, ev)) (respond E io code msg [] h) = Some (h', ev) \<and> closing h h'" if "length msg \<le> 26" "code < 1000" for code msg ev
    using answers [OF _ plain_sendable [OF p that(1)] that(2)] p by auto
  let ?sid = "take (req_SIDLen h) (drop (req_SIDOff h) (req_buf h))"
  from removeSubscriber_inv [of ev ?sid] ev obtain r ev1 where
    r: "upnpevents_removeSubscriber ?sid ev = Some (r, ev1)" "ev_inv ev1" by (auto simp: events_ok_def)
  with statics_remove [OF r(1)] ev have ev1: "events_ok ev1" "subscribed h ev ev1" by (auto simp: events_ok_def subscribed_def)
  have "subscribed h ev ev" by (simp add: subscribed_def)
  with a [of "''Precondition Failed''" 412 ev] a [of "''Incompatible header fields''" 400 ev] a [of "''Precondition Failed''" 412 ev1]
    a [of "''OK''" 200 ev1] ev ev1 r(1) show ?thesis unfolding ProcessHTTPUnSubscribe_upnphttp_def Let_def by auto
qed

text \<open>The invariant of a connection: its memory is bounded, and while it reads, what it has read so far is below the limits.\<close>

definition mem_ok :: "upnphttp \<Rightarrow> bool" where
  "mem_ok h \<longleftrightarrow> length (req_buf h) \<le> req_bufalloc h \<and> (req_bufalloc h = 0 \<or> 4096 \<le> req_bufalloc h)
     \<and> req_bufalloc h \<le> HEADERS_LENGTH_LIMIT E + CONTENT_LENGTH_LIMIT E + 264192"

definition readable :: "upnphttp \<Rightarrow> bool" where
  "readable h \<longleftrightarrow> mem_ok h \<and> length (HttpVer h) \<le> 15 \<and> fields_ok h \<and> (res_buf_alloclen h = 0 \<or> 256 \<le> res_buf_alloclen h)"

definition conn_inv :: "upnphttp \<Rightarrow> bool" where
  "conn_inv h \<longleftrightarrow> mem_ok h \<and>
     (h_state h = EWaitingForHttpRequest \<longrightarrow>
        readable h \<and> req_contentoff h = 0 \<and> length (req_buf h) < HEADERS_LENGTH_LIMIT E)
     \<and> (h_state h = EWaitingForHttpContent \<or> h_state h = ESendingContinue \<longrightarrow>
        readable h \<and> req_contentoff h \<le> length (req_buf h) \<and> req_contentoff h < HEADERS_LENGTH_LIMIT E
        \<and> req_contentlen h \<le> CONTENT_LENGTH_LIMIT E \<and> length (req_buf h) < req_contentoff h + req_contentlen h)"

lemma readable_plain: "readable h \<Longrightarrow> plain h"
  by (simp add: readable_def fields_ok_def answerable_def Let_def)

lemma closing_inv: "closing h h' \<Longrightarrow> mem_ok h \<Longrightarrow> conn_inv h'"
  by (auto simp: closing_def conn_inv_def mem_ok_def)

text \<open>What one call may do: change the events by a subscription of its client, or execute its client's SOAP action.\<close>

definition soap_action :: "upnphttp \<Rightarrow> string" where
  "soap_action h = take (req_soapActionLen h) (drop (req_soapActionOff h) (req_buf h))"

definition step_ok :: "upnphttp \<Rightarrow> ('s, 'k) http_state \<Rightarrow> upnphttp \<Rightarrow> ('s, 'k) http_state \<Rightarrow> bool" where
  "step_ok h st h' st' \<longleftrightarrow> conn_inv h' \<and> h_client h' = h_client h \<and> h_ipv6 h' = h_ipv6 h
     \<and> events_ok (hs_events st') \<and> subscribed h' (hs_events st) (hs_events st')
     \<and> (hs_soap st' = hs_soap st \<or> (\<exists>t r. ExecuteSoapAction (ht_soap E) (h_client h\<lparr>content := t\<rparr>) (soap_action h') (hs_soap st) = Some (r, hs_soap st')))"

lemma closing_step:
  assumes "closing h h'" "mem_ok h" "h_client h = h_client h0" "h_ipv6 h = h_ipv6 h0" "events_ok ev" "subscribed h (hs_events st) ev"
  shows "step_ok h0 st h' (st\<lparr>hs_events := ev\<rparr>)" "events_ok (hs_events st) \<Longrightarrow> step_ok h0 st h' st"
proof -
  have "good_callback h' = good_callback h" by (rule good_callback_cong) (use assms(1) in \<open>simp_all add: closing_def\<close>)
  then have s: "subscribed h' ev ev' = subscribed h ev ev'" for ev ev'
    using assms(1) by (simp add: subscribed_def closing_def)
  show "step_ok h0 st h' (st\<lparr>hs_events := ev\<rparr>)"
    using assms closing_inv [OF assms(1,2)] s by (simp add: step_ok_def closing_def)
  show "events_ok (hs_events st) \<Longrightarrow> step_ok h0 st h' st"
    using assms closing_inv [OF assms(1,2)] by (simp add: step_ok_def closing_def subscribed_def)
qed

abbreviation soap_returns :: "upnphttp \<Rightarrow> ('s, 'k) http_state \<Rightarrow> bool" where
  "soap_returns h st \<equiv> \<forall>action t. ExecuteSoapAction (ht_soap E) (h_client h\<lparr>content := t\<rparr>) action (hs_soap st) \<noteq> None"

lemma POST_step:
  assumes r: "readable h" and c: "req_contentoff h \<le> length (req_buf h)" "req_contentoff h < HEADERS_LENGTH_LIMIT E" "req_contentlen h \<le> CONTENT_LENGTH_LIMIT E"
    and e: "h_client h = h_client h0" "h_ipv6 h = h_ipv6 h0" "events_ok (hs_events st)" and s: "soap_returns h0 st"
  shows "\<exists>h' st'. ProcessHTTPPOST_upnphttp E io h st = Some (h', st') \<and> step_ok h0 st h' st'"
proof -
  note p = readable_plain [OF r]
  have m: "mem_ok h" using r by (simp add: readable_def)
  have q: "subscribed h ev ev" for ev by (simp add: subscribed_def)
  show ?thesis
  proof (cases "length (req_buf h) - req_contentoff h \<ge> req_contentlen h")
    case True
    show ?thesis
    proof (cases "req_soapActionOff h > 0")
      case action: True
      then have l: "req_soapActionOff h + req_soapActionLen h \<le> length (req_buf h)"
        using r c(1) by (auto simp: readable_def fields_ok_def inside_def Let_def)
      let ?t = "take (req_contentlen h) (drop (req_contentoff h) (req_buf h))"
      from s e(1) obtain a so where x: "ExecuteSoapAction (ht_soap E) (h_client h\<lparr>content := ?t\<rparr>) (soap_action h) (hs_soap st) = Some (a, so)" by fastforce
      from descriptions_closes(3) [OF texts p] obtain h' where h': "soap_answer E io a h = Some h'" "closing h h'" by blast
      have "soap_action h' = soap_action h" using h'(2) by (simp add: soap_action_def closing_def)
      with closing_step(2) [OF h'(2) m e q e(3)] x e(1) have "step_ok h0 st h' (st\<lparr>hs_soap := so\<rparr>)"
        by (auto simp: step_ok_def)
      with True action l x h'(1) show ?thesis by (simp add: ProcessHTTPPOST_upnphttp_def soap_action_def)
    next
      case False
      from errors_closes(1) [OF texts, of h io] p obtain h' where "Send400 E io h = Some h'" "closing h h'" by blast
      with closing_step(2) [OF this(2) m e q e(3)] True False show ?thesis by (auto simp: ProcessHTTPPOST_upnphttp_def)
    qed
  next
    case False
    have step: "step_ok h0 st (h\<lparr>res_buf := b, res_buf_alloclen := n, res_sent := k, h_state := x\<rparr>) st"
        "step_ok h0 st (h\<lparr>res_buf := b, res_buf_alloclen := n, h_state := x, res_sent := k\<rparr>) st"
      if "x \<in> {ESendingContinue, EWaitingForHttpContent}" "256 \<le> n" for b n k x
      using that r c False e by (auto simp: step_ok_def subscribed_def conn_inv_def readable_def mem_ok_def fields_ok_def Let_def)
    show ?thesis
    proof (cases "respflags h AND FLAG_CONTINUE \<noteq> 0")
      case True
      define n where "n = (if res_buf_alloclen h = 0 then 256 else res_buf_alloclen h)"
      define w where "w = HttpVer h @ '' 100 Continue'' @ eol @ eol"
      have n: "256 \<le> n" "emit w (h\<lparr>res_buf := [], res_buf_alloclen := n\<rparr>) = Some (h\<lparr>res_buf := w, res_buf_alloclen := n\<rparr>)"
        using r by (auto simp: readable_def n_def w_def emit_def eol_def)
      from SendResp_frame [of io "h\<lparr>res_buf := w, res_buf_alloclen := n, res_sent := 0, h_state := ESendingContinue\<rparr>"] obtain b k where
        "SendResp_upnphttp io (h\<lparr>res_buf := w, res_buf_alloclen := n, res_sent := 0, h_state := ESendingContinue\<rparr>)
          = (b, h\<lparr>res_buf := w, res_buf_alloclen := n, h_state := ESendingContinue, res_sent := k\<rparr>)" by auto
      with n False True step show ?thesis
        unfolding ProcessHTTPPOST_upnphttp_def n_def [symmetric] w_def [symmetric] by (cases b) simp_all
    next
      case no: False
      have "step_ok h0 st (h\<lparr>h_state := EWaitingForHttpContent\<rparr>) st"
        using r c False e by (auto simp: step_ok_def subscribed_def conn_inv_def readable_def mem_ok_def fields_ok_def Let_def)
      with no False show ?thesis by (simp add: ProcessHTTPPOST_upnphttp_def)
    qed
  qed
qed

lemma Query_step:
  assumes r: "readable h" and b: "header_block (req_buf h) (req_contentoff h)" "req_contentoff h < HEADERS_LENGTH_LIMIT E"
    and e: "h_client h = h_client h0" "h_ipv6 h = h_ipv6 h0" "events_ok (hs_events st)" and s: "soap_returns h0 st"
  shows "\<exists>h' st'. ProcessHttpQuery_upnphttp E io h st = Some (h', st') \<and> step_ok h0 st h' st'"
proof -
  from request_line_kept [OF b(1)] obtain cmd url v where q: "request_line h = Some (cmd, url, h\<lparr>HttpVer := v\<rparr>)" "length v \<le> 15" by blast
  from ParseHttpHeaders_kept [of "h\<lparr>HttpVer := v\<rparr>" E] b(1) r obtain g where
    g: "ParseHttpHeaders E (h\<lparr>HttpVer := v\<rparr>) = Some g" "same_request (h\<lparr>HttpVer := v\<rparr>) g" "fields_ok g"
    by (auto simp: fields_ok_def readable_def Let_def)
  have rg: "readable (g\<lparr>req_command := c\<rparr>)" "readable g" for c
    using r g q(2) by (auto simp: readable_def same_request_def mem_ok_def fields_ok_def Let_def)
  note p = readable_plain [OF rg(1)] readable_plain [OF rg(2)]
  have m: "mem_ok (g\<lparr>req_command := c\<rparr>)" "mem_ok g" for c using rg by (simp_all add: readable_def)
  have eg: "h_client g = h_client h0" "h_ipv6 g = h_ipv6 h0" "req_contentoff g \<le> length (req_buf g)" "req_contentoff g < HEADERS_LENGTH_LIMIT E"
    using g(2) e b by (auto simp: same_request_def header_block_def)
  have quiet: "subscribed x ev ev" for x ev by (simp add: subscribed_def)
  have only: "\<exists>h' st'. map_option (\<lambda>h. (h, st)) f = Some (h', st') \<and> step_ok h0 st h' st'" if "\<exists>h'. f = Some h' \<and> closing g h'" for f
    using that closing_step(2) [OF _ m(2) eg(1,2) e(3) quiet e(3)] by auto
  have ev: "\<exists>h' st'. map_option (\<lambda>(h, ev). (h, st\<lparr>hs_events := ev\<rparr>)) f = Some (h', st') \<and> step_ok h0 st h' st'"
    if "\<exists>h' ev'. f = Some (h', ev') \<and> closing (g\<lparr>req_command := c\<rparr>) h' \<and> events_ok ev' \<and> subscribed (g\<lparr>req_command := c\<rparr>) (hs_events st) ev'" for f c
    using that closing_step(1) [OF _ m(1) _ _ _ _] eg(1,2) by fastforce
  note errors = errors_closes [OF texts conjunct1 [OF p(2)], where io = io]
  show ?thesis
  proof (cases "req_contentlen g > CONTENT_LENGTH_LIMIT E \<or> \<not> host_is_address g \<or> strip_random E url = None")
    case True
    have "sendable g ''Content Too Large''" by (rule plain_sendable [OF p(2)]) simp
    from only [OF respond_closes [OF texts this, of 413 io "[]"]] only [OF errors(2)] True q(1) g(1) show ?thesis
      by (auto simp: ProcessHttpQuery_upnphttp_def Let_def)
  next
    case False
    then obtain u where u: "strip_random E url = Some u" "\<not> req_contentlen g > CONTENT_LENGTH_LIMIT E" "host_is_address g" by auto
    have post: "\<exists>h' st'. ProcessHTTPPOST_upnphttp E io (g\<lparr>req_command := EPost\<rparr>) st = Some (h', st') \<and> step_ok h0 st h' st'"
      using POST_step [OF rg(1) [of EPost], of h0 st io] eg e(3) s u(2) by simp
    have get: "\<exists>h' st'. map_option (\<lambda>h. (h, st)) (ProcessHTTPGet E io u (g\<lparr>req_command := EGet\<rparr>)) = Some (h', st') \<and> step_ok h0 st h' st'"
      using only ProcessHTTPGet_closes [OF texts p(1) [of EGet], of io u] by auto
    have f: "fields_ok (g\<lparr>req_command := ESubscribe\<rparr>)" using rg(1) [of ESubscribe] by (simp add: readable_def)
    note sub = ev [of _ ESubscribe, OF Subscribe_closes [OF p(1) f _ e(3)]]
    note unsub = ev [of _ EUnSubscribe, OF UnSubscribe_closes [OF p(1) e(3)]]
    from post get sub [of io "cstr u"] unsub [of io] only [OF errors(4)] eg(3) q(1) g(1) u show ?thesis
      unfolding ProcessHttpQuery_upnphttp_def Let_def by simp
  qed
qed

text \<open>Receiving: there is always room for 2048 bytes.\<close>

lemma adjust_buffer:
  assumes "mem_ok h" "length (req_buf h) < HEADERS_LENGTH_LIMIT E + CONTENT_LENGTH_LIMIT E" "upnphttp_adjust_buffer E h = Some h'"
  shows "\<exists>n. h' = h\<lparr>req_bufalloc := n\<rparr> \<and> length (req_buf h) + 2048 \<le> n \<and> 4096 \<le> n \<and> n \<le> HEADERS_LENGTH_LIMIT E + CONTENT_LENGTH_LIMIT E + 264192"
proof (cases "req_bufalloc h < length (req_buf h) + 2048")
  case True
  with assms show ?thesis by (auto simp: upnphttp_adjust_buffer_def mem_ok_def Let_def split: if_splits)
next
  case False
  have "h = h\<lparr>req_bufalloc := req_bufalloc h\<rparr>" by simp
  with False assms show ?thesis by (auto simp: upnphttp_adjust_buffer_def mem_ok_def intro: exI [of _ "req_bufalloc h"])
qed

lemma inside_0: "inside 0 off len \<Longrightarrow> inside c off len"
  by (simp add: inside_def)

lemma version_length: "length (version_of w v) \<le> max 15 (length v)"
  by (auto simp: version_of_def split: option.split intro: le_trans [OF length_takeWhile_le])

lemma receive_request_step:
  assumes inv: "conn_inv h" "h_state h = EWaitingForHttpRequest" and n: "length (req_buf h) + length data \<le> n" "4096 \<le> n"
    "n \<le> HEADERS_LENGTH_LIMIT E + CONTENT_LENGTH_LIMIT E + 264192" and ev: "events_ok (hs_events st)" and s: "soap_returns h st"
  shows "\<exists>h' st'. receive_request E io data (h\<lparr>req_bufalloc := n\<rparr>) st = Some (h', st') \<and> step_ok h st h' st'"
proof -
  define h1 where "h1 = (h\<lparr>req_bufalloc := n\<rparr>)\<lparr>req_buf := req_buf (h\<lparr>req_bufalloc := n\<rparr>) @ data\<rparr>"
  define h2 where "h2 = (case findendheaders (req_buf h1) of None \<Rightarrow> h1 | Some i \<Rightarrow> h1\<lparr>req_contentoff := i + 4\<rparr>)"
  have h: "readable h" "req_contentoff h = 0" using inv by (simp_all add: conn_inv_def)
  then have "fields_ok (h\<lparr>req_contentoff := c\<rparr>)" for c by (simp add: readable_def fields_ok_def inside_0 [of _ _ c] Let_def)
  then have r: "readable h2" and e: "h_client h2 = h_client h" "h_ipv6 h2 = h_ipv6 h" "req_buf h2 = req_buf h1" "h_state h2 = h_state h"
    using h(1) n by (simp_all add: h2_def h1_def readable_def mem_ok_def fields_ok_def Let_def split: option.split)
  have c: "findendheaders (req_buf h1) = None \<Longrightarrow> req_contentoff h2 = 0"
    using inv by (simp add: h2_def h1_def conn_inv_def)
  have b: "header_block (req_buf h2) (req_contentoff h2)" if "findendheaders (req_buf h1) \<noteq> None"
    using that findendheaders_block [of "req_buf h1"] e(3) by (auto simp: h2_def)
  have eq: "receive_request E io data (h\<lparr>req_bufalloc := n\<rparr>) st =
     (if req_contentoff h2 \<ge> HEADERS_LENGTH_LIMIT E \<or> findendheaders (req_buf h1) = None \<and> length (req_buf h2) \<ge> HEADERS_LENGTH_LIMIT E
      then map_option (\<lambda>h. (h, st)) (Send400 E io (h2\<lparr>req_buf := butlast (req_buf h2) @ [CHR 0x00],
             HttpVer := version_of (cstr (butlast (req_buf h2) @ [CHR 0x00])) (HttpVer h2)\<rparr>))
      else if findendheaders (req_buf h1) \<noteq> None then ProcessHttpQuery_upnphttp E io h2 st else Some (h2, st))"
    by (simp only: receive_request_def Let_def h1_def h2_def)
  show ?thesis
  proof (cases "req_contentoff h2 \<ge> HEADERS_LENGTH_LIMIT E \<or> findendheaders (req_buf h1) = None \<and> length (req_buf h2) \<ge> HEADERS_LENGTH_LIMIT E")
    case True
    let ?buf = "butlast (req_buf h2) @ [CHR 0x00]"
    let ?g = "h2\<lparr>req_buf := ?buf, HttpVer := version_of (cstr ?buf) (HttpVer h2)\<rparr>"
    have "req_buf h2 \<noteq> []" using True b c limits by (cases "findendheaders (req_buf h1)") (auto simp: header_block_def)
    then have "length ?buf = length (req_buf h2)" by simp
    with r version_length [of "cstr ?buf" "HttpVer h2"] have g: "mem_ok ?g" "answerable ?g"
      by (auto simp: readable_def mem_ok_def answerable_def fields_ok_def Let_def)
    from errors_closes(1) [OF texts g(2), of io] obtain h' where "Send400 E io ?g = Some h'" "closing ?g h'" by blast
    with closing_step(2) [OF this(2) g(1) _ _ ev _ ev, of h] e True show ?thesis by (auto simp: eq subscribed_def)
  next
    case False
    show ?thesis
    proof (cases "findendheaders (req_buf h1)")
      case None
      have "conn_inv h2" using r c [OF None] None False e inv(2) by (auto simp: conn_inv_def readable_def)
      with None False e ev show ?thesis by (auto simp: eq step_ok_def subscribed_def)
    next
      case (Some i)
      from Query_step [OF r b _ e(1,2) ev s, of io] Some False show ?thesis by (simp add: eq)
    qed
  qed
qed

lemma receive_content_step:
  assumes inv: "conn_inv h" "h_state h = EWaitingForHttpContent" and n: "length (req_buf h) + length data \<le> n" "4096 \<le> n"
    "n \<le> HEADERS_LENGTH_LIMIT E + CONTENT_LENGTH_LIMIT E + 264192" and ev: "events_ok (hs_events st)" and s: "soap_returns h st"
  shows "\<exists>h' st'. receive_content E io data (h\<lparr>req_bufalloc := n\<rparr>) st = Some (h', st') \<and> step_ok h st h' st'"
proof -
  define h1 where "h1 = h\<lparr>req_bufalloc := n, req_buf := req_buf h @ data\<rparr>"
  have r: "readable h1" "req_contentoff h1 \<le> length (req_buf h1)" "req_contentoff h1 < HEADERS_LENGTH_LIMIT E" "req_contentlen h1 \<le> CONTENT_LENGTH_LIMIT E"
    and e: "h_client h1 = h_client h" "h_ipv6 h1 = h_ipv6 h" "h_state h1 = EWaitingForHttpContent"
    using inv n by (auto simp: h1_def conn_inv_def readable_def mem_ok_def fields_ok_def Let_def)
  show ?thesis
  proof (cases "length (req_buf h1) - req_contentoff h1 \<ge> req_contentlen h1")
    case True
    with POST_step [OF r e(1,2) ev s, of io] show ?thesis by (simp add: receive_content_def h1_def)
  next
    case False
    with r e have "conn_inv h1" by (auto simp: conn_inv_def readable_def)
    with e ev have "step_ok h st h1 st" by (auto simp: step_ok_def subscribed_def)
    with False show ?thesis by (simp add: receive_content_def h1_def)
  qed
qed

lemma Process_step:
  assumes inv: "conn_inv h" and ev: "events_ok (hs_events st)" and s: "soap_returns h st"
  shows "\<exists>h' st'. Process_upnphttp E r io h st = Some (h', st') \<and> step_ok h st h' st'"
proof -
  have gone: "step_ok h st (g\<lparr>h_state := EToDelete\<rparr>) st" if "mem_ok g" "h_client g = h_client h" "h_ipv6 g = h_ipv6 h" for g
    using that ev by (auto simp: step_ok_def conn_inv_def mem_ok_def subscribed_def)
  have receive: "\<exists>h' st'. (case upnphttp_adjust_buffer E h of
              None \<Rightarrow> map_option (\<lambda>h1. (h1\<lparr>h_state := EToDelete\<rparr>, st)) (Send500 E io h)
            | Some h1 \<Rightarrow>
                (case r of
                   RecvAgain \<Rightarrow> Some (h1, st)
                 | RecvError \<Rightarrow> Some (h1\<lparr>h_state := EToDelete\<rparr>, st)
                 | Received b \<Rightarrow>
                     let data = take (req_bufalloc h1 - length (req_buf h1) - spare) b
                     in if data = [] then Some (h1\<lparr>h_state := EToDelete\<rparr>, st) else k data h1 st)) = Some (h', st') \<and> step_ok h st h' st'"
    if w: "h_state h = EWaitingForHttpRequest \<or> h_state h = EWaitingForHttpContent"
      and k: "\<And>data n. length (req_buf h) + length data \<le> n \<Longrightarrow> 4096 \<le> n \<Longrightarrow> n \<le> HEADERS_LENGTH_LIMIT E + CONTENT_LENGTH_LIMIT E + 264192
        \<Longrightarrow> \<exists>h' st'. k data (h\<lparr>req_bufalloc := n\<rparr>) st = Some (h', st') \<and> step_ok h st h' st'" for spare k
  proof -
    have m: "mem_ok h" "readable h" "length (req_buf h) < HEADERS_LENGTH_LIMIT E + CONTENT_LENGTH_LIMIT E"
      using inv w by (auto simp: conn_inv_def)
    show ?thesis
    proof (cases "upnphttp_adjust_buffer E h")
      case None
      from errors_closes(3) [OF texts conjunct1 [OF readable_plain [OF m(2)]], of io] obtain h' where
        "Send500 E io h = Some h'" "closing h h'" by blast
      with None gone [of h'] m(1) show ?thesis by (auto simp: closing_def mem_ok_def)
    next
      case (Some h1)
      from adjust_buffer [OF m(1,3) Some] obtain n where
        n: "h1 = h\<lparr>req_bufalloc := n\<rparr>" "length (req_buf h) + 2048 \<le> n" "4096 \<le> n" "n \<le> HEADERS_LENGTH_LIMIT E + CONTENT_LENGTH_LIMIT E + 264192" by blast
      have "mem_ok h1" using n m(1) by (simp add: mem_ok_def)
      with gone [of h1] n(1) have d: "step_ok h st (h1\<lparr>h_state := EToDelete\<rparr>) st" by simp
      have "readable h1" using m(2) \<open>mem_ok h1\<close> by (simp add: n(1) readable_def fields_ok_def Let_def)
      then have "conn_inv h1" using inv \<open>mem_ok h1\<close> by (simp add: n(1) conn_inv_def)
      with n(1) ev have a: "step_ok h st h1 st" by (simp add: step_ok_def subscribed_def)
      show ?thesis
      proof (cases r)
        case (Received b)
        let ?data = "take (req_bufalloc h1 - length (req_buf h1) - spare) b"
        have "length (req_buf h) + length ?data \<le> n" using n by simp
        from k [OF this n(3,4)] Some d n(1) Received show ?thesis by (auto simp: Let_def)
      qed (use Some a d in auto)
    qed
  qed
  show ?thesis
  proof (cases "h_state h")
    case EWaitingForHttpRequest
    show ?thesis unfolding Process_upnphttp_def Let_def EWaitingForHttpRequest httpStates.case
      by (rule receive [unfolded Let_def]) (use EWaitingForHttpRequest receive_request_step [OF inv _ _ _ _ ev s] in simp_all)
  next
    case EWaitingForHttpContent
    show ?thesis unfolding Process_upnphttp_def Let_def EWaitingForHttpContent httpStates.case
      by (rule receive [unfolded Let_def]) (use EWaitingForHttpContent receive_content_step [OF inv _ _ _ _ ev s] in simp_all)
  next
    case ESendingContinue
    from SendResp_frame [of io h] obtain b k where k: "SendResp_upnphttp io h = (b, h\<lparr>res_sent := k\<rparr>)" by blast
    have "step_ok h st (h\<lparr>res_sent := k\<rparr>) st" "step_ok h st (h\<lparr>res_sent := k, h_state := EWaitingForHttpContent\<rparr>) st"
      using inv ESendingContinue ev by (auto simp: step_ok_def conn_inv_def readable_def mem_ok_def fields_ok_def subscribed_def Let_def)
    with k ESendingContinue show ?thesis by (cases b) (auto simp: Process_upnphttp_def)
  next
    case ESendingAndClosing
    from closing_step(2) [OF SendRespAndClose_closes [of h io] _ refl refl ev _ ev] inv ESendingAndClosing show ?thesis
      by (auto simp: Process_upnphttp_def conn_inv_def subscribed_def)
  next
    case EToDelete
    with inv ev show ?thesis by (auto simp: Process_upnphttp_def step_ok_def subscribed_def)
  qed
qed

end

end
