(* ===== verification/UpnpHttpCallback.thy ===== *)
theory UpnpHttpCallback
  imports UpnpHttpConn UpnpSoapProps
begin

text \<open>
  The host of a callback is read twice: by \<open>checkCallbackURL\<close> of \<open>upnphttp.c\<close>, which compares it with the
  client, and by \<open>upnp_event_notify_connect\<close> of \<open>upnpevents.c\<close>, which connects to it. Both readings give
  the same address, so the check is about the address that is used.
\<close>

section \<open>The length of an address\<close>

lemma inet_pton_length: "inet_pton s = Some a \<Longrightarrow> length s \<le> 15"
  using inet_pton_canonical [of s a] length_inet_ntop [of a] by simp

text \<open>Each group of two bytes takes at most five characters, a dotted tail at most fifteen.\<close>

lemma pton6_loop_length:
  assumes "pton6_loop curtok seen val colonp tp s \<noteq> None" "length curtok = seen + length s" "seen \<le> 4" "even (length tp)" "length tp \<le> 16"
  shows "2 * (length s + seen) + 5 * length tp + (if colonp = None then 0 else 10) \<le> 90"
  using assms
proof (induction curtok seen val colonp tp s rule: pton6_loop.induct)
  case (1 curtok seen val colonp tp)
  then have "length tp = 16 \<Longrightarrow> seen = 0 \<and> colonp = None" "length tp = 14 \<Longrightarrow> colonp \<noteq> None \<Longrightarrow> seen = 0"
    by (auto simp: pton6_end_def put_group_def split: if_splits option.splits)
  moreover have "length tp = 16 \<or> length tp = 14 \<or> length tp \<le> 12" using 1(4,5) by presburger
  ultimately show ?case using 1(3) by auto
next
  case (2 curtok seen val colonp tp c s)
  show ?case
  proof (cases "isxdigit c")
    case True
    with "2.prems"(1) have "seen \<noteq> 4" by auto
    with True 2 show ?thesis by simp
  next
    case x: False
    show ?thesis
    proof (cases "c = CHR '':''")
      case True
      show ?thesis
      proof (cases "seen = 0")
        case s: True
        with x True "2.prems"(1) have "colonp = None" by (auto split: if_splits)
        with x True s 2 show ?thesis by simp
      next
        case s: False
        with x True "2.prems"(1) have a: "s \<noteq> []" "\<not> length tp + 2 > 16" by (auto split: if_splits)
        with x True s 2 have "2 * length s + 5 * (length tp + 2) + (if colonp = None then 0 else 10) \<le> 90" by (simp add: put_group_def)
        with "2.prems"(3) show ?thesis by simp
      qed
    next
      case False
      with x "2.prems"(1) obtain a where "c = CHR ''.''" "length tp + 4 \<le> 16" "inet_pton curtok = Some a" "pton6_end colonp (tp @ writenu32 a) \<noteq> None"
        by (auto split: if_splits option.splits)
      moreover from this(4) have "colonp \<noteq> None \<Longrightarrow> length tp \<noteq> 12" by (auto simp: pton6_end_def writenu32_def split: option.splits)
      moreover have "length tp \<noteq> 12 \<Longrightarrow> length tp \<le> 12 \<Longrightarrow> length tp \<le> 10" using "2.prems"(4) by presburger
      ultimately show ?thesis using inet_pton_length [of curtok a] "2.prems"(2) by auto
    qed
  qed
qed

lemma inet_pton6_length:
  assumes "inet_pton6 s = Some a"
  shows "s \<noteq> [] \<and> length s \<le> 45"
proof -
  have s: "s \<noteq> []" using assms by (auto simp: inet_pton6_def)
  show ?thesis
  proof (cases "hd s = CHR '':''")
    case True
    with s assms have "pton6_loop (tl s) 0 0 None [] (tl s) \<noteq> None" "tl s \<noteq> []" "hd (tl s) = CHR '':''" by (auto simp: inet_pton6_def split: if_splits)
    moreover from this obtain r where r: "tl s = CHR '':'' # r" by (cases "tl s") auto
    ultimately have "pton6_loop r 0 0 (Some 0) [] r \<noteq> None" by (simp add: isxdigit_def isdigit_def)
    from pton6_loop_length [OF this] have "length r \<le> 40" by simp
    moreover have "length s = length r + 2" using s r by (cases s) auto
    ultimately show ?thesis using s by simp
  next
    case False
    with s assms have "pton6_loop s 0 0 None [] s \<noteq> None" by (simp add: inet_pton6_def)
    from pton6_loop_length [OF this] s show ?thesis by simp
  qed
qed

section \<open>The host of a URL\<close>

text \<open>The text \<open>y\<close> up to the end of the header value: the host as both readers take it.\<close>

lemma host_prefix:
  fixes P :: "char \<Rightarrow> bool" and y :: string
  defines "w \<equiv> takeWhile (\<lambda>c. c \<noteq> CHR ''>'' \<and> P c) (take 47 y)"
  assumes "P (CHR 0x00)"
  shows "take 47 (takeWhile P (cstr (w @ takeWhile (\<lambda>c. c \<noteq> CHR ''>'') (drop (length w) y)))) = cstr w"
    and "length (cstr w) < 47 \<Longrightarrow> takeWhile P (cstr (w @ takeWhile (\<lambda>c. c \<noteq> CHR ''>'') (drop (length w) y))) = cstr w"
proof -
  let ?r = "takeWhile (\<lambda>c. c \<noteq> CHR ''>'') (drop (length w) y)"
  have P: "\<forall>c\<in>set w. P c" by (auto simp: w_def dest: set_takeWhileD)
  have l: "length w \<le> 47" unfolding w_def by (rule le_trans [OF length_takeWhile_le]) simp
  show e: "takeWhile P (cstr (w @ ?r)) = cstr w" if "length (cstr w) < 47"
  proof (cases "CHR 0x00 \<in> set w")
    case True
    then have "cstr (w @ ?r) = cstr w" by (auto simp: cstr_def takeWhile_append)
    moreover have "\<forall>c\<in>set (cstr w). P c" using P by (auto simp: cstr_def dest: set_takeWhileD)
    ultimately show ?thesis by (simp add: takeWhile_eq_all_conv)
  next
    case False
    then have c: "cstr w = w" "cstr (w @ ?r) = w @ cstr ?r" by (auto simp: cstr_def takeWhile_append)
    have "takeWhile P (cstr ?r) = []"
    proof (cases "length w < length (take 47 y)")
      case True
      then have "\<not> (take 47 y ! length w \<noteq> CHR ''>'' \<and> P (take 47 y ! length w))" unfolding w_def by (rule nth_length_takeWhile)
      with True have n: "y ! length w = CHR ''>'' \<or> \<not> P (y ! length w)" "length w < length y" by auto
      then obtain z where "drop (length w) y = y ! length w # z" by (metis Cons_nth_drop_Suc)
      with n assms(2) show ?thesis by (auto simp: cstr_def)
    next
      case False
      with that c(1) have "length y \<le> length w" by simp
      then show ?thesis by simp
    qed
    with P c show ?thesis by (simp add: takeWhile_append)
  qed
  show "take 47 (takeWhile P (cstr (w @ ?r))) = cstr w"
  proof (cases "length (cstr w) < 47")
    case True
    with e show ?thesis by simp
  next
    case False
    with l length_cstr [of w] have "length w = 47" "length (cstr w) = length w" by simp_all
    moreover from this(2) have c: "cstr w = w" unfolding cstr_def by (metis takeWhile_eq_take take_all order_refl)
    moreover from c have "CHR 0x00 \<notin> set w" by (auto simp: cstr_def takeWhile_eq_all_conv)
    then have "cstr (w @ ?r) = w @ cstr ?r" by (auto simp: cstr_def takeWhile_append)
    ultimately show ?thesis using P by (simp add: takeWhile_append)
  qed
qed

text \<open>The rest of a URL, from the place where the host starts: the host and what follows up to the closing bracket.\<close>

lemma url_rest:
  fixes buf :: string
  defines "y \<equiv> \<lambda>q lim. take (lim - q) (drop q buf)"
  assumes "e = scan_lim Q buf (min lim (q + 47)) q" "q \<le> lim"
  defines "w \<equiv> takeWhile Q (take 47 (y q lim))"
  shows "e = q + length w"
    and "take (e - q) (drop q buf) = w"
    and "take (scan_lim R buf lim e - q) (drop q buf) = w @ takeWhile R (drop (length w) (y q lim))"
proof -
  have y: "take (min lim (q + 47) - q) (drop q buf) = take 47 (y q lim)" 
  proof -
    have "min lim (q + 47) - q = min 47 (lim - q)" using assms(3) by arith
    then show ?thesis by (simp add: y_def)
  qed
  then show e: "e = q + length w" unfolding assms(2) scan_lim_def w_def by simp
  have le: "length w \<le> length (take 47 (y q lim))" unfolding w_def by (rule length_takeWhile_le)
  have "w = take (length w) (take 47 (y q lim))" unfolding w_def by (metis takeWhile_eq_take)
  then have pre: "w = take (length w) (drop q buf)" "length w \<le> length (y q lim)"
    using le by (auto simp: y_def min_def split: if_splits)
  then show "take (e - q) (drop q buf) = w" by (simp add: e)
  define v where "v = takeWhile R (drop (length w) (y q lim))"
  have d: "take (lim - e) (drop e buf) = drop (length w) (y q lim)" by (simp add: y_def e drop_take add.commute)
  have "take (length v) (drop (length w) (drop q buf)) = v"
  proof -
    have "v = take (length v) (drop (length w) (y q lim))" unfolding v_def by (metis takeWhile_eq_take)
    also have "\<dots> = take (length v) (drop (length w) (drop q buf))"
    proof -
      have "length v \<le> length (drop (length w) (y q lim))" unfolding v_def by (rule length_takeWhile_le)
      then have "length v \<le> lim - q - length w" by (simp add: y_def)
      then show ?thesis by (simp add: y_def drop_take min_absorb1)
    qed
    finally show ?thesis by simp
  qed
  moreover have "scan_lim R buf lim e - q = length w + length v" unfolding scan_lim_def d v_def by (simp add: e)
  ultimately show "take (scan_lim R buf lim e - q) (drop q buf) = w @ takeWhile R (drop (length w) (y q lim))"
    using pre(1) by (simp add: take_add v_def)
qed

definition client_address :: "upnphttp \<Rightarrow> sockaddr" where
  "client_address h =
     (if \<not> h_ipv6 h then Inet (clientaddr (h_client h))
      else if in6_is_v4mapped (clientaddr_v6 (h_client h)) then Inet (in6_v4 (clientaddr_v6 (h_client h)))
      else Inet6 (clientaddr_v6 (h_client h)))"

text \<open>The address that a notification connects to.\<close>

definition callback_target :: "string \<Rightarrow> sockaddr" where
  "callback_target cb = (case callback_host (drop 7 (cstr cb)) of (ipv6, addrstr, _) \<Rightarrow> callback_addr ipv6 addrstr)"

lemma good_callback_target:
  assumes g: "good_callback h lim off len" and l: "lim < length (req_buf h)"
    and m: "h_ipv6 h \<Longrightarrow> \<not> in6_is_v4mapped (clientaddr_v6 (h_client h))"
  shows "callback_target (take len (drop off (req_buf h))) = client_address h"
proof -
  let ?buf = "req_buf h"
  let ?R = "\<lambda>c. c \<noteq> CHR ''>''"
  from g obtain ipv6 addrstr e where o: "off + 7 \<le> e" "e \<le> lim" "take 7 (drop off ?buf) = ''http://''"
    "url_host ?buf (off + 7) lim = (ipv6, addrstr, e)" "same_address h ipv6 addrstr" "off + len = scan_lim ?R ?buf lim e"
    by (auto simp: good_callback_def)
  define p where "p = off + 7"
  have p: "p \<le> e" "p + (len - 7) = scan_lim ?R ?buf lim e" "7 \<le> len"
    using o(1,6) scan_lim_ge [of e ?R ?buf lim] by (auto simp: p_def)
  have "take len (drop off ?buf) = take 7 (drop off ?buf) @ take (len - 7) (drop p ?buf)"
    using p(3) take_add [of 7 "len - 7" "drop off ?buf"] by (simp add: p_def add.commute)
  then have cb: "drop 7 (cstr (take len (drop off ?buf))) = cstr (take (len - 7) (drop p ?buf))"
    by (simp add: o(3) cstr_def)
  define q where "q = (if ipv6 then p + 1 else p)"
  define Q where "Q = (\<lambda>c. if ipv6 then c \<noteq> CHR '']'' else c \<noteq> CHR ''/'' \<and> c \<noteq> CHR '':'')"
  have i: "ipv6 = (?buf ! p = CHR ''['')" and e: "e = scan_lim (\<lambda>c. c \<noteq> CHR ''>'' \<and> Q c) ?buf (min lim (q + 47)) q"
    and a: "addrstr = cstr (take (e - q) (drop q ?buf))"
    using o(4) by (auto simp: url_host_def Let_def p_def q_def Q_def)
  have "q \<le> e" unfolding e by (rule scan_lim_ge)
  then have "q \<le> lim" using o(2) by simp
  define y where "y = take (lim - q) (drop q ?buf)"
  define w where "w = takeWhile (\<lambda>c. c \<noteq> CHR ''>'' \<and> Q c) (take 47 y)"
  have addr: "addrstr = cstr w" using url_rest(2) [OF e \<open>q \<le> lim\<close>] by (simp add: a y_def w_def)
  have rest: "take (scan_lim ?R ?buf lim e - q) (drop q ?buf) = w @ takeWhile ?R (drop (length w) y)"
    using url_rest(3) [OF e \<open>q \<le> lim\<close>, of ?R] by (simp add: y_def w_def)
  have NUL: "Q (CHR 0x00)" by (simp add: Q_def)
  note host = host_prefix [where P = Q and y = y, OF NUL, folded w_def]
  let ?t = "w @ takeWhile ?R (drop (length w) y)"
  show ?thesis
  proof (cases ipv6)
    case False
    then have t: "take (len - 7) (drop p ?buf) = ?t" using rest p(2) [symmetric] by (simp add: q_def)
    have "cstr ?t = [] \<or> hd (cstr ?t) \<noteq> CHR ''[''"
    proof (cases "take (len - 7) (drop p ?buf)")
      case (Cons c cs)
      then obtain ys where "drop p ?buf = c # ys" by (cases "drop p ?buf"; cases "len - 7") auto
      then have "c = ?buf ! p" by (rule nth_via_drop [symmetric])
      with Cons i False show ?thesis unfolding t [symmetric] by (auto simp: cstr_def)
    qed (auto simp: t [symmetric])
    moreover have "take 47 (takeWhile (\<lambda>c. c \<noteq> CHR ''/'' \<and> c \<noteq> CHR '':'') (cstr ?t)) = addrstr"
      using host(1) False by (simp add: Q_def addr)
    ultimately have "callback_target (take len (drop off ?buf)) = callback_addr False addrstr"
      unfolding callback_target_def cb t by (auto simp: callback_host_def Let_def)
    with o(5) False show ?thesis
      by (auto simp: callback_addr_def same_address_def client_address_def split: option.splits if_splits)
  next
    case True
    from o(5) True obtain a where s: "inet_pton6 addrstr = Some a" "h_ipv6 h" "a = clientaddr_v6 (h_client h)"
      by (auto simp: same_address_def split: option.splits)
    note al = inet_pton6_length [OF s(1)]
    have "p < length ?buf" "1 \<le> len - 7"
      using l o(2) p \<open>q \<le> e\<close> True scan_lim_ge [of e ?R ?buf lim] by (auto simp: q_def)
    then have "take (len - 7) (drop p ?buf) = CHR ''['' # take (len - 7 - 1) (drop q ?buf)"
      using i True by (simp add: q_def Cons_nth_drop_Suc [symmetric] take_Cons')
    moreover have "len - 7 - 1 = scan_lim ?R ?buf lim e - q" using p(2) True by (simp add: q_def)
    ultimately have t: "cstr (take (len - 7) (drop p ?buf)) = CHR ''['' # cstr ?t" using rest by (simp add: cstr_def)
    have "takeWhile (\<lambda>c. c \<noteq> CHR '']'') (cstr ?t) = addrstr" using host(2) al True by (simp add: Q_def addr)
    with al have "callback_target (take len (drop off ?buf)) = callback_addr True (''['' @ addrstr @ '']'')"
      unfolding callback_target_def cb t by (simp add: callback_host_def Let_def split: prod.splits)
    also have "\<dots> = Inet6 a" using al s(1) by (simp add: callback_addr_def butlast_append take_append)
    finally show ?thesis using s m by (simp add: client_address_def)
  qed
qed

end
