(* ===== verification/UpnpHttpSpec.thy ===== *)
theory UpnpHttpSpec
  imports UpnpHttpCallback UpnpSoapSpec
begin

text \<open>
  The HTTP connections of the daemon as a system: connections are accepted, processed in any order with
  any outcome of the socket calls, and removed, while the events are sent. The properties of the server
  hold in every state that is reached.
\<close>

section \<open>Accepted connections\<close>

text \<open>The peer of a connection; an IPv4 address may arrive in its mapped form.\<close>

definition peer_of :: "sockaddr \<Rightarrow> sockaddr" where
  "peer_of sa = (case sa of Inet a \<Rightarrow> Inet a | Inet6 a \<Rightarrow> if in6_is_v4mapped a then Inet (in6_v4 a) else Inet6 a)"

definition lan_peers :: "('s, 're, 'k, 'h) pcp_env \<Rightarrow> sockaddr set" where
  "lan_peers S = {peer_of sa | sa scope_id. get_lan_for_peer S sa scope_id \<noteq> None}"

definition client_ok :: "('s, 're, 'k, 'h) pcp_env \<Rightarrow> upnphttp \<Rightarrow> bool" where
  "client_ok S h \<longleftrightarrow> inet_aton (clientaddr_str (h_client h)) = None
     \<and> (h_ipv6 h \<longrightarrow> \<not> in6_is_v4mapped (clientaddr_v6 (h_client h))) \<and> client_address h \<in> lan_peers S"

lemma accepted_client_ok:
  assumes "accept_http E s sa port scope_id = Some h"
  shows "client_ok (sv (ht_soap E)) h"
proof -
  from assms obtain c g where c: "ProcessIncomingHTTP (ht_soap E) sa port scope_id = Some c" "New_upnphttp s = Some g"
    "h = g\<lparr>h_client := c, h_ipv6 := (case sa of Inet _ \<Rightarrow> False | Inet6 a \<Rightarrow> \<not> in6_is_v4mapped a)\<rparr>"
    by (auto simp: accept_http_def split: option.splits)
  have l: "get_lan_for_peer (sv (ht_soap E)) sa scope_id \<noteq> None" using c(1) by (auto simp: ProcessIncomingHTTP_def split: if_splits)
  have "client_address h = peer_of sa"
    using c(1,3) by (auto simp: ProcessIncomingHTTP_def client_address_def peer_of_def split: if_splits sockaddr.splits)
  with l have "client_address h \<in> lan_peers (sv (ht_soap E))" by (auto simp: lan_peers_def)
  moreover have "inet_aton (clientaddr_str c) = None"
  proof (cases sa)
    case (Inet a)
    with accepted_client [of "ht_soap E" a port scope_id c] c(1) inet_aton_colon [of a "dec (unat port)"] show ?thesis by simp
  next
    case (Inet6 a)
    with c(1) obtain t where "clientaddr_str c = CHR ''['' # t"
      by (auto simp: ProcessIncomingHTTP_def sockaddr_to_string_def bounded_copy_def split: if_splits)
    then show ?thesis by (simp add: inet_aton_def inet_aton_loop.simps isdigit_def)
  qed
  moreover have "h_ipv6 h \<longrightarrow> \<not> in6_is_v4mapped (clientaddr_v6 (h_client h))"
    using c(1,3) by (auto simp: ProcessIncomingHTTP_def split: if_splits sockaddr.splits)
  ultimately show ?thesis using c(3) by (simp add: client_ok_def)
qed

context redirect_backend
begin

text \<open>In builds without the IPv6 firewall service every SOAP action returns and keeps the backend in order.\<close>

lemma DeletePortMappingRange_inv:
  assumes "be_ops (so_redir E) = ops" "inv (fw st)"
  shows "inv (fw (snd (DeletePortMappingRange E h a ns st)))"
  using assms delete_ports [OF assms] by (auto simp: DeletePortMappingRange_def Let_def split: option.splits)

lemma soap_outcome:
  assumes R: "be_ops (so_redir E) = ops" and i: "inv (fw (rst6 st))" and s: "secure_mode E" and n: "\<not> enable_6fc E"
    and c: "inet_aton (clientaddr_str h) = None"
  shows "\<exists>r st'. ExecuteSoapAction E h action st = Some (r, st') \<and> inv (fw (rst6 st'))
    \<and> (soap_method action \<noteq> Some ''DeletePortMappingRange'' \<longrightarrow> others (clientaddr h) (mappings (fw (rst6 st'))) = others (clientaddr h) (mappings (fw (rst6 st))))"
proof -
  consider "soap_method action \<notin> {Some ''DeletePortMappingRange'', Some ''AddPinhole'', Some ''DeletePinhole''}"
    | m where "soap_method action = Some m" "m = ''AddPinhole'' \<or> m = ''DeletePinhole''"
    | "soap_method action = Some ''DeletePortMappingRange''" by auto
  then show ?thesis
  proof cases
    case 1
    from ExecuteSoapAction_keeps [OF R i s c 1] show ?thesis by blast
  next
    case (2 m)
    have "map_of (soapMethods E) ''AddPinhole'' = None" "map_of (soapMethods E) ''DeletePinhole'' = None"
      using n by (simp_all add: soapMethods_def wan_methods_def l3f_methods_def protection_methods_def)
    with 2(2) have "map_of (soapMethods E) m = None" by blast
    with 2 i show ?thesis by (simp add: ExecuteSoapAction_def)
  next
    case 3
    have "map_of (soapMethods E) ''DeletePortMappingRange'' = Some (on_redirect (DeletePortMappingRange E))"
      by (simp add: soapMethods_def wan_methods_def)
    with 3 DeletePortMappingRange_inv [OF R i, of h] show ?thesis
      by (auto simp: ExecuteSoapAction_def on_redirect_def set_rst_def split: prod.splits) (metis snd_conv)
  qed
qed

end

section \<open>The system\<close>

text \<open>
  The settings that stay the same while the daemon runs: the LANs and the backend, the allocator and the
  limits. Time, socket outcomes and new identifiers may differ from call to call.
\<close>

definition server_env ::
  "('s, 're, 'k, 'h) pcp_env \<Rightarrow> (nat list \<Rightarrow> nat option) \<Rightarrow> nat \<Rightarrow> nat \<Rightarrow> ('s, 're, 'k, 'h) http_env \<Rightarrow> bool" where
  "server_env S malloc H L E \<longleftrightarrow> http_server malloc E \<and> sv (ht_soap E) = S \<and> secure_mode (ht_soap E) \<and> \<not> enable_6fc (ht_soap E)
     \<and> HEADERS_LENGTH_LIMIT E = H \<and> CONTENT_LENGTH_LIMIT E = L"

inductive http_system ::
  "('s, 're, 'k, 'h) pcp_env \<Rightarrow> (nat list \<Rightarrow> nat option) \<Rightarrow> nat \<Rightarrow> nat \<Rightarrow> ('s, 'k) soap_state \<Rightarrow> upnphttp list \<Rightarrow> ('s, 'k) http_state \<Rightarrow> bool"
  for S malloc H L so where
  start: "http_system S malloc H L so [] \<lparr>hs_soap = so, hs_events = no_events\<rparr>"
| accepted: "http_system S malloc H L so hs st \<Longrightarrow> server_env S malloc H L E \<Longrightarrow> accept_http E s sa port scope_id = Some h \<Longrightarrow>
    http_system S malloc H L so (h # hs) st"
| processed: "http_system S malloc H L so hs st \<Longrightarrow> server_env S malloc H L E \<Longrightarrow> i < length hs \<Longrightarrow>
    Process_upnphttp E r io (hs ! i) st = Some (h', st') \<Longrightarrow> http_system S malloc H L so (hs[i := h']) st'"
| removed: "http_system S malloc H L so hs st \<Longrightarrow> http_system S malloc H L so (filter (\<lambda>h. h_state h \<noteq> EToDelete) hs) st"
| changed: "http_system S malloc H L so hs st \<Longrightarrow> ev_malloc V = malloc \<Longrightarrow>
    upnp_event_var_change_notify V service (hs_events st) = Some ev \<Longrightarrow> http_system S malloc H L so hs (st\<lparr>hs_events := ev\<rparr>)"
| selected: "http_system S malloc H L so hs st \<Longrightarrow> ev_malloc V = malloc \<Longrightarrow>
    upnpevents_selectfds V (hs_events st) = Some ev \<Longrightarrow> http_system S malloc H L so hs (st\<lparr>hs_events := ev\<rparr>)"
| notified: "http_system S malloc H L so hs st \<Longrightarrow> ev_malloc V = malloc \<Longrightarrow>
    upnpevents_processfds V (hs_events st) = Some ev \<Longrightarrow> http_system S malloc H L so hs (st\<lparr>hs_events := ev\<rparr>)"

lemma New_inv:
  assumes "http_server malloc E" "New_upnphttp s = Some h"
  shows "http_server.conn_inv E (h\<lparr>h_client := c, h_ipv6 := b\<rparr>)"
  using assms http_server.limits [OF assms(1)]
  by (auto simp: http_server.conn_inv_def http_server.readable_def http_server.mem_ok_def New_upnphttp_def fields_ok_def inside_def
      split: if_splits)

lemma conn_inv_limits:
  assumes "http_server malloc E" "http_server malloc' E'" "HEADERS_LENGTH_LIMIT E' = HEADERS_LENGTH_LIMIT E" "CONTENT_LENGTH_LIMIT E' = CONTENT_LENGTH_LIMIT E"
  shows "http_server.conn_inv E' h = http_server.conn_inv E h"
  using assms by (simp add: http_server.conn_inv_def http_server.readable_def http_server.mem_ok_def)

abbreviation callbacks_in :: "sockaddr set \<Rightarrow> events \<Rightarrow> bool" where
  "callbacks_in A ev \<equiv> \<forall>(u, cb)\<in>statics ev. callback_target cb \<in> A"

definition system_inv ::
  "('s \<Rightarrow> bool) \<Rightarrow> ('s, 're, 'k, 'h) pcp_env \<Rightarrow> (nat list \<Rightarrow> nat option) \<Rightarrow> nat \<Rightarrow> nat \<Rightarrow> upnphttp list \<Rightarrow> ('s, 'k) http_state \<Rightarrow> bool" where
  "system_inv ok S malloc H L hs st \<longleftrightarrow>
     (\<forall>h\<in>set hs. client_ok S h \<and> (\<forall>E. server_env S malloc H L E \<longrightarrow> http_server.conn_inv E h))
     \<and> http_server.events_ok (hs_events st) \<and> ok (fw (rst6 (hs_soap st))) \<and> callbacks_in (lan_peers S) (hs_events st)"

lemma process_inv:
  assumes B: "redirect_backend ops ok mappings" "be_ops (pe_redir S) = ops" and e: "server_env S malloc H L E"
    and inv: "system_inv ok S malloc H L hs st" "h \<in> set hs"
  shows "\<exists>h' st'. Process_upnphttp E r io h st = Some (h', st') \<and> http_server.step_ok E h st h' st'
    \<and> ok (fw (rst6 (hs_soap st')))
    \<and> (soap_method (http_server.soap_action h') \<noteq> Some ''DeletePortMappingRange'' \<longrightarrow>
        others (clientaddr (h_client h)) (mappings (fw (rst6 (hs_soap st')))) = others (clientaddr (h_client h)) (mappings (fw (rst6 (hs_soap st)))))"
proof -
  have s: "http_server malloc E" "sv (ht_soap E) = S" "secure_mode (ht_soap E)" "\<not> enable_6fc (ht_soap E)"
    using e by (simp_all add: server_env_def)
  have i: "http_server.conn_inv E h" "http_server.events_ok (hs_events st)" "ok (fw (rst6 (hs_soap st)))" "client_ok S h"
    using inv e by (auto simp: system_inv_def)
  have "\<exists>r so. ExecuteSoapAction (ht_soap E) (h_client h\<lparr>content := t\<rparr>) a (hs_soap st) = Some (r, so) \<and> ok (fw (rst6 so))
    \<and> (soap_method a \<noteq> Some ''DeletePortMappingRange'' \<longrightarrow>
        others (clientaddr (h_client h)) (mappings (fw (rst6 so))) = others (clientaddr (h_client h)) (mappings (fw (rst6 (hs_soap st)))))" for a t
    using redirect_backend.soap_outcome [OF B(1), of "ht_soap E" "hs_soap st" "h_client h\<lparr>content := t\<rparr>" a] B(2) s(2-4) i(3,4)
    by (simp add: client_ok_def)
  note soap = this
  then have "\<forall>a t. ExecuteSoapAction (ht_soap E) (h_client h\<lparr>content := t\<rparr>) a (hs_soap st) \<noteq> None" by (metis option.distinct(1))
  from http_server.Process_step [OF s(1) i(1,2) this, of r io] obtain h' st' where
    p: "Process_upnphttp E r io h st = Some (h', st')" "http_server.step_ok E h st h' st'" by blast
  from p(2) consider "hs_soap st' = hs_soap st"
    | t r' where "ExecuteSoapAction (ht_soap E) (h_client h\<lparr>content := t\<rparr>) (http_server.soap_action h') (hs_soap st) = Some (r', hs_soap st')"
    unfolding http_server.step_ok_def [OF s(1)] by blast
  then show ?thesis
  proof cases
    case 1
    with p i(3) show ?thesis by simp
  next
    case (2 t r')
    with soap [of t "http_server.soap_action h'"] p show ?thesis by simp
  qed
qed

lemma events_ok_iff: "http_server.events_ok ev \<longleftrightarrow> ev_inv ev \<and> (\<forall>u\<in>fst ` statics ev. length u \<le> 41)"
  if "http_server malloc E" for malloc and E :: "('s, 're, 'k, 'h) http_env"
  using that by (rule http_server.events_ok_def)

text \<open>A subscription keeps the callbacks in the LAN: its own is on the address of its client.\<close>

lemma subscribed_callbacks:
  assumes s: "http_server malloc E" "http_server.subscribed h ev ev'" and c: "client_ok S h" "callbacks_in (lan_peers S) ev"
  shows "callbacks_in (lan_peers S) ev'"
proof -
  from s(2) consider "statics ev' \<subseteq> statics ev"
    | u lim off len where "good_callback h lim off len" "lim < length (req_buf h)" "statics ev' \<subseteq> insert (u, take len (drop off (req_buf h))) (statics ev)"
    unfolding http_server.subscribed_def [OF s(1)] by blast
  then show ?thesis
  proof cases
    case 1
    with c(2) show ?thesis by blast
  next
    case (2 u lim off len)
    have "callback_target (take len (drop off (req_buf h))) \<in> lan_peers S"
      using good_callback_target [OF 2(1,2)] c(1) by (simp add: client_ok_def)
    with 2(3) c(2) show ?thesis by blast
  qed
qed

lemma client_ok_cong:
  "h_client h' = h_client h \<Longrightarrow> h_ipv6 h' = h_ipv6 h \<Longrightarrow> client_ok S h' = client_ok S h"
  by (simp add: client_ok_def client_address_def)

lemma fewer_callbacks:
  assumes "http_server malloc E" "http_server.events_ok ev" "callbacks_in A ev" "statics ev' \<subseteq> statics ev" "ev_inv ev'"
  shows "http_server.events_ok ev' \<and> callbacks_in A ev'"
  using assms(2-5) unfolding events_ok_iff [OF assms(1)] by blast

lemma system_invariant:
  assumes B: "redirect_backend ops ok mappings" "be_ops (pe_redir S) = ops" "allocator malloc" and e: "server_env S malloc H L E0"
    and r: "http_system S malloc H L so hs st" and o: "ok (fw (rst6 so))"
  shows "system_inv ok S malloc H L hs st"
  using r
proof (induction rule: http_system.induct)
  case start
  have "http_server malloc E0" using e by (simp add: server_env_def)
  from events_ok_iff [OF this, of no_events] o show ?case
    by (simp add: system_inv_def statics_def no_events_def ev_inv_def linked_def)
next
  case (accepted hs st E s sa port scope_id h)
  have "http_server.conn_inv E' h" if "server_env S malloc H L E'" for E'
  proof -
    from accepted(3) obtain g c b where g: "New_upnphttp s = Some g" "h = g\<lparr>h_client := c, h_ipv6 := b\<rparr>"
      by (auto simp: accept_http_def split: option.splits)
    from that have "http_server malloc E'" by (simp add: server_env_def)
    from New_inv [OF this g(1)] g(2) show ?thesis by simp
  qed
  with accepted_client_ok [OF accepted(3)] accepted(2,4) show ?case by (auto simp: system_inv_def server_env_def)
next
  case (processed hs st E i r io h' st')
  have s: "http_server malloc E" using processed(2) by (simp add: server_env_def)
  have h: "hs ! i \<in> set hs" using processed(3) by simp
  from process_inv [OF B(1,2) processed(2,5) h, of r io] processed(4) have
    p: "http_server.step_ok E (hs ! i) st h' st'" "ok (fw (rst6 (hs_soap st')))" by auto
  from p(1) have q: "http_server.conn_inv E h'" "h_client h' = h_client (hs ! i)" "h_ipv6 h' = h_ipv6 (hs ! i)"
    "http_server.events_ok (hs_events st')" "http_server.subscribed h' (hs_events st) (hs_events st')"
    unfolding http_server.step_ok_def [OF s] by blast+
  have c: "client_ok S h'" using processed(5) h client_ok_cong [OF q(2,3)] by (auto simp: system_inv_def)
  have "http_server.conn_inv E' h'" if "server_env S malloc H L E'" for E'
    using that processed(2) q(1) conn_inv_limits [OF s, of malloc E' h'] by (simp add: server_env_def)
  moreover have "callbacks_in (lan_peers S) (hs_events st')"
    using subscribed_callbacks [OF s q(5) c] processed(5) by (simp add: system_inv_def)
  ultimately show ?case using c p(2) q(4) processed(5)
    by (auto simp: system_inv_def dest!: set_update_subset_insert [THEN subsetD])
next
  case (removed hs st)
  then show ?case by (auto simp: system_inv_def)
next
  case (changed hs st V service ev)
  have s: "http_server malloc E0" using e by (simp add: server_env_def)
  have "ev_inv ev" using allocator.var_change_inv [OF B(3) changed(2), of "hs_events st" service] changed(3,4)
    by (auto simp: system_inv_def events_ok_iff [OF s])
  with fewer_callbacks [OF s, of "hs_events st"] statics_change [OF changed(3)] changed(4) show ?case by (auto simp: system_inv_def)
next
  case (selected hs st V ev)
  have s: "http_server malloc E0" using e by (simp add: server_env_def)
  have "ev_inv ev" using selectfds_inv [of "hs_events st" V] selected(3,4) by (auto simp: system_inv_def events_ok_iff [OF s])
  with fewer_callbacks [OF s, of "hs_events st"] statics_selectfds [OF selected(3)] selected(4) show ?case by (auto simp: system_inv_def)
next
  case (notified hs st V ev)
  have s: "http_server malloc E0" using e by (simp add: server_env_def)
  have "ev_inv ev" using processfds_inv [of "hs_events st" V] notified(3,4) by (auto simp: system_inv_def events_ok_iff [OF s])
  with fewer_callbacks [OF s, of "hs_events st"] statics_processfds [OF notified(3)] notified(4) show ?case by (auto simp: system_inv_def)
qed

section \<open>Properties\<close>


text \<open>
  reading a request stays inside its header block. Whatever bytes a client sends, once they hold an empty
  line the request line and all headers are read without looking at a byte after it (the search for the
  name of the client's system apart, which ends at the terminating NUL), and every value that is kept for
  later lies inside the block.
\<close>

theorem headers_in_bounds:
  assumes "findendheaders (req_buf h) = Some i" and "req_contentoff h = i + 4" and "fields_ok h"
  shows "\<exists>cmd url h1 h2. request_line h = Some (cmd, url, h1) \<and> length (HttpVer h1) \<le> 15
    \<and> ParseHttpHeaders E h1 = Some h2 \<and> fields_ok h2 \<and> req_buf h2 = req_buf h \<and> req_contentoff h2 = i + 4"
proof -
  from findendheaders_block [OF assms(1)] have b: "header_block (req_buf h) (req_contentoff h)" by (simp add: assms(2))
  from request_line_kept [OF b] obtain cmd url v where r: "request_line h = Some (cmd, url, h\<lparr>HttpVer := v\<rparr>)" "length v \<le> 15" by blast
  from ParseHttpHeaders_kept [of "h\<lparr>HttpVer := v\<rparr>" E] b assms(3) obtain h2 where
    "ParseHttpHeaders E (h\<lparr>HttpVer := v\<rparr>) = Some h2" "same_request (h\<lparr>HttpVer := v\<rparr>) h2" "fields_ok h2"
    by (auto simp: fields_ok_def)
  with r assms(2) show ?thesis by (auto simp: same_request_def)
qed


text \<open>The only addresses that a notification is connected to are those of the callbacks.\<close>

lemma connect_cong:
  assumes "callbacks_in A st" "\<And>s a port. a \<in> A \<Longrightarrow> f s a port = g s a port"
  shows "upnp_event_notify_connect (V\<lparr>ev_connect := f\<rparr>) p st = upnp_event_notify_connect (V\<lparr>ev_connect := g\<rparr>) p st"
proof -
  have "callback_addr ipv6 addrstr \<in> A"
    if "map_of (subscriberlist st) q = Some d" "callback_host (drop 7 (cstr (sub_callback d))) = (ipv6, addrstr, r)" for q d ipv6 addrstr r
  proof -
    from that(1) have "(q, d) \<in> set (subscriberlist st)" by (rule map_of_SomeD)
    then have "(sub_uuid d, sub_callback d) \<in> statics st" by (force simp: statics_def)
    with assms(1) have "callback_target (sub_callback d) \<in> A" by blast
    with that(2) show ?thesis by (simp add: callback_target_def)
  qed
  with assms(2) show ?thesis
    by (simp add: upnp_event_notify_connect_def Let_def split: option.split prod.split)
qed

lemma each_connect_cong:
  assumes "callbacks_in A st" "\<And>s a port. a \<in> A \<Longrightarrow> f s a port = g s a port"
  shows "each (\<lambda>p st. case map_of (notifylist st) p of None \<Rightarrow> None
      | Some n \<Rightarrow> if nt_s n \<ge> 0 \<and> nt_state n = ECreated then upnp_event_notify_connect (V\<lparr>ev_connect := f\<rparr>) p st else Some st) ps st
    = each (\<lambda>p st. case map_of (notifylist st) p of None \<Rightarrow> None
      | Some n \<Rightarrow> if nt_s n \<ge> 0 \<and> nt_state n = ECreated then upnp_event_notify_connect (V\<lparr>ev_connect := g\<rparr>) p st else Some st) ps st"
  using assms(1)
proof (induction ps arbitrary: st)
  case (Cons p ps)
  note c = connect_cong [OF Cons.prems assms(2), where V = V and p = p]
  from Cons show ?case
    by (auto simp: c dest!: statics_connect split: option.split)
qed simp

text \<open>
  C3: the notifications of events are sent only to hosts of the LAN: the daemon behaves the same for any two
  networks that differ only in what a connection to another address does. A subscription is accepted only
  with a callback on the address of its client, the address that is checked is the address that is
  used, and only hosts of the LAN are clients.
\<close>

theorem notifications_stay_in_lan:
  assumes "redirect_backend ops ok mappings" and "be_ops (pe_redir S) = ops" and "allocator malloc" and "ok (fw (rst6 so))"
    and "http_system S malloc H L so hs st" and "server_env S malloc H L E"
    and "\<And>s a port. a \<in> lan_peers S \<Longrightarrow> connect1 s a port = connect2 s a port"
  shows "upnpevents_selectfds (V\<lparr>ev_connect := connect1\<rparr>) (hs_events st) = upnpevents_selectfds (V\<lparr>ev_connect := connect2\<rparr>) (hs_events st)"
proof -
  have "callbacks_in (lan_peers S) (hs_events st)"
    using system_invariant [OF assms(1-3,6,5,4)] by (simp add: system_inv_def)
  from each_connect_cong [OF this assms(7)] show ?thesis by (simp add: upnpevents_selectfds_def)
qed

text \<open>
  C5: a request whose \<open>Host\<close> header is a name and not an address is refused, whatever else it contains:
  neither a SOAP action nor a subscription is executed (protection against DNS rebinding).
\<close>

theorem host_name_refused:
  assumes "request_line h = Some (cmd, url, h1)" and "ParseHttpHeaders E h1 = Some g"
    and "req_HostOff g > 0" and "c \<in> set (take (req_HostLen g) (drop (req_HostOff g) (req_buf g)))"
    and "\<not> isdigit c" and "c \<noteq> CHR '':''" and "c \<noteq> CHR ''.''" and "req_buf g ! req_HostOff g \<noteq> CHR ''[''"
    and "ProcessHttpQuery_upnphttp E io h st = Some (h', st')"
  shows "st' = st"
proof -
  have "req_HostLen g \<noteq> 0" using assms(4) by (cases "req_HostLen g") simp_all
  then have "\<not> host_is_address g" using assms(3-8) by (auto simp: host_is_address_def Let_def list_all_iff)
  with assms(1,2,9) show ?thesis by (auto simp: ProcessHttpQuery_upnphttp_def Let_def split: if_splits)
qed

text \<open>
  C6: a connection that could not send its \<open>100 Continue\<close> at once is never looked at again: no round of the
  main loop watches its socket, so it stays as it is for ever.
\<close>

theorem sending_continue_stalls:
  assumes "http_round E cs accepted st = Some (hs, st')" and "(h, ready) \<in> set cs" and "h_state h = ESendingContinue"
  shows "h \<in> set hs"
proof -
  have "h \<in> set hs1" if "process_connections E cs st = Some (hs1, st1)" for hs1 st1
    using assms(2) that
  proof (induction cs arbitrary: st hs1 st1)
    case (Cons x cs)
    obtain h0 ready0 where x: "x = (h0, ready0)" by fastforce
    from Cons.prems(2) obtain h2 st2 hs2 st3 where
      p: "(case ready0 of Some (r, io) \<Rightarrow> if http_selected h0 then Process_upnphttp E r io h0 st else Some (h0, st) | None \<Rightarrow> Some (h0, st)) = Some (h2, st2)"
      "process_connections E cs st2 = Some (hs2, st3)" "hs1 = h2 # hs2" unfolding x by (auto split: option.splits)
    show ?case
    proof (cases "x = (h, ready)")
      case True
      then have "h2 = h" using p(1) x assms(3) by (auto simp: http_selected_def split: option.splits)
      with p(3) show ?thesis by simp
    next
      case False
      with Cons.prems(1) Cons.IH [OF _ p(2)] p(3) show ?thesis by auto
    qed
  qed simp
  with assms(1,3) show ?thesis by (auto simp: http_round_def)
qed

text \<open>
  C7: an answer does not fit its buffer when the text of the system version is long: the space that is
  reserved counts two bytes for it, and a text of 212 or more bytes (the version file is read
  up to 255) makes the answer to an invalid subscription write past the end of the buffer.
\<close>

theorem long_os_version_overflows:
  assumes "os_version E = Some v" and "212 \<le> length v" and "http_date E = None" and "HttpVer h = ''HTTP/1.1''" and "respflags h = 0"
    and "accept_language h = []" and "res_buf_alloclen h = 0"
  shows "respond E io 412 ''Precondition Failed'' [] h = None"
proof -
  have "dec 412 = ''412''" "dec 0 = ''0''" by (simp_all add: dec.simps digit_char_def char_of_def bit_0)
  with assms have "BuildHeader_upnphttp E 412 ''Precondition Failed'' 0 h = None"
    by (simp add: BuildHeader_eq Let_def resp_head_def extra_headers_def httpresphead_size_def content_type_def eol_def decint_def)
  then show ?thesis by (simp add: respond_def BuildResp2_upnphttp_def)
qed

section \<open>A concrete server\<close>

definition demo_http :: "(list_tables rdr_state, unit, string \<rightharpoonup> ip6t_entry list, string \<rightharpoonup> ip6t_entry list) http_env" where
  "demo_http = \<lparr>ht_soap = demo_soap\<lparr>enable_6fc := False\<rparr>, ht_events = demo_events, enable_events = True, has_dummy_service = False,
     char_is_signed = True, UPNP_VERSION_MAJOR = 1, UPNP_VERSION_MINOR = 1, random_url = None, force_igd_desc_v1 = False,
     CONTENT_LENGTH_LIMIT = 1048576, HEADERS_LENGTH_LIMIT = 65536, OS_VERSION = ''Linux'', server_string_rest = '' UPnP/1.1 MiniUPnPd/2.3'',
     os_version = None, http_date = None, ht_realloc = (\<lambda>_. True), desc_root = (\<lambda>_. None), desc_WANIPCn = (\<lambda>_. None),
     desc_WANCfg = (\<lambda>_. None), desc_L3F = (\<lambda>_. None), desc_6FC = (\<lambda>_. None), desc_DP = (\<lambda>_. None)\<rparr>"

interpretation dh: http_server next_address demo_http
  by unfold_locales (simp_all add: demo_http_def demo_events_def short_texts_def)

definition demo_subscribe :: string where
  "demo_subscribe = ''SUBSCRIBE /evt/IPConn HTTP/1.1'' @ eol @ ''Host: 10.0.0.1:5000'' @ eol
     @ ''Callback: <http://10.0.0.2/e>'' @ eol @ eol"

definition demo_rebinding :: string where
  "demo_rebinding = ''POST /ctl HTTP/1.1'' @ eol @ ''Host: evil.com'' @ eol @ eol"

definition demo_conn :: upnphttp where
  "demo_conn = \<lparr>h_socket = 3, h_client = demo_client 0x0a000002, h_ipv6 = False, h_state = EWaitingForHttpRequest,
     HttpVer = ''HTTP/0.9'', req_buf = [], accept_language = [], req_bufalloc = 0, req_contentlen = 0, req_contentoff = 0,
     req_command = EUnknown, req_soapActionOff = 0, req_soapActionLen = 0, req_HostOff = 0, req_HostLen = 0,
     req_CallbackOff = 0, req_CallbackLen = 0, req_Timeout = 0, req_SIDOff = 0, req_SIDLen = 0, res_SID = [],
     req_NTOff = 0, req_NTLen = 0, respflags = 0, res_buf = [], res_sent = 0, res_buf_alloclen = 0\<rparr>"

lemma demo_conn: "accept_http demo_http 3 (Inet 0x0a000002) 50000 0 = Some demo_conn"
proof -
  have "ProcessIncomingHTTP (demo_soap\<lparr>enable_6fc := False\<rparr>) (Inet 0x0a000002) 50000 0 = ProcessIncomingHTTP demo_soap (Inet 0x0a000002) 50000 0"
    unfolding ProcessIncomingHTTP_def sockaddr_to_string_def by simp
  with demo_accepted(1) show ?thesis by (simp add: accept_http_def demo_http_def New_upnphttp_def demo_conn_def)
qed

definition demo_refused :: upnphttp where
  "demo_refused = the (New_upnphttp 3)\<lparr>req_buf := demo_rebinding, req_contentoff := 38, req_bufalloc := 4096\<rparr>"

definition demo_parsed :: upnphttp where
  "demo_parsed = demo_refused\<lparr>HttpVer := ''HTTP/1.1'', req_HostOff := 26, req_HostLen := 8\<rparr>"

lemma demo_http_simps [simp]: "enable_events demo_http" "char_is_signed demo_http" "\<not> ht_strict demo_http" "CONTENT_LENGTH_LIMIT demo_http = 1048576"
  by (simp_all add: demo_http_def demo_soap_def)

lemmas parse_eval = demo_refused_def demo_parsed_def demo_rebinding_def New_upnphttp_def eol_def CR_def LF_def request_line_def
  copy_word_def scan_buf_def Let_def cstr_def ParseHttpHeaders_def parse_lines.simps parse_line_def strncasecmp_eq_def strcaseeq_def
  toupper_def char_of_def host_header_def header_value_def sep_def is_blank_def gt_space_def bit_0

lemma demo_refused_parsed:
  "request_line demo_refused = Some (''POST'', ''/ctl'', demo_refused\<lparr>HttpVer := ''HTTP/1.1''\<rparr>)"
  "ParseHttpHeaders demo_http (demo_refused\<lparr>HttpVer := ''HTTP/1.1''\<rparr>) = Some demo_parsed"
  by (simp_all add: parse_eval)

lemma demo_ends: "findendheaders demo_rebinding = Some 34" "findendheaders demo_subscribe = Some 82"
  by code_simp+

definition demo_hstate :: "(list_tables rdr_state, string \<rightharpoonup> ip6t_entry list) http_state" where
  "demo_hstate = \<lparr>hs_soap = demo_soap_state, hs_events = no_events\<rparr>"

definition demo_conn3 :: upnphttp where
  "demo_conn3 = demo_conn\<lparr>h_client := demo_client 0x0a000003\<rparr>"

lemma demo_conn3: "accept_http demo_http 3 (Inet 0x0a000003) 50000 0 = Some demo_conn3"
proof -
  have "ProcessIncomingHTTP (demo_soap\<lparr>enable_6fc := False\<rparr>) (Inet 0x0a000003) 50000 0 = ProcessIncomingHTTP demo_soap (Inet 0x0a000003) 50000 0"
    unfolding ProcessIncomingHTTP_def sockaddr_to_string_def by simp
  with demo_accepted(2) show ?thesis by (simp add: accept_http_def demo_http_def New_upnphttp_def demo_conn_def demo_conn3_def)
qed

lemma demo_server_env: "server_env demo_pcp next_address 65536 1048576 demo_http"
  using dh.http_server_axioms by (simp add: server_env_def demo_http_def demo_soap_def)

lemma demo_system: "http_system demo_pcp next_address 65536 1048576 demo_soap_state [demo_conn3, demo_conn] demo_hstate"
  using http_system.accepted [OF http_system.accepted [OF http_system.start demo_server_env demo_conn, of demo_soap_state] demo_server_env demo_conn3]
  by (simp add: demo_hstate_def)

lemmas demo_laws = list_backend demo_pcp_ops na.allocator_axioms demo_soap_inv(1)


lemma headers_in_bounds_witness:
  "\<exists>cmd url h1 h2. request_line (demo_conn\<lparr>req_buf := demo_subscribe, req_contentoff := 86\<rparr>) = Some (cmd, url, h1)
     \<and> ParseHttpHeaders demo_http h1 = Some h2 \<and> fields_ok h2"
  using headers_in_bounds [of "demo_conn\<lparr>req_buf := demo_subscribe, req_contentoff := 86\<rparr>" 82 demo_http]
  by (auto simp: demo_ends fields_ok_def inside_def demo_conn_def)

text \<open>The first bytes of a request from 10.0.0.3 leave the mapping of 10.0.0.2 alone.\<close>

lemma demo_partial:
  "\<exists>h'. Process_upnphttp demo_http (Received ''POST /ctl'') [] demo_conn3 demo_hstate = Some (h', demo_hstate) \<and> req_soapActionLen h' = 0"
  by (simp add: Process_upnphttp_def upnphttp_adjust_buffer_def receive_request_def demo_conn3_def demo_conn_def findendheaders.simps
      demo_http_def CR_def)


text \<open>A subscription arrives; what the network does outside the LAN makes no difference.\<close>

lemma notifications_stay_in_lan_witness:
  "\<exists>h' st'. Process_upnphttp demo_http (Received demo_subscribe) [Sent 200] demo_conn demo_hstate = Some (h', st')
     \<and> upnpevents_selectfds (demo_events\<lparr>ev_connect := \<lambda>_ _ _. True\<rparr>) (hs_events st')
       = upnpevents_selectfds (demo_events\<lparr>ev_connect := \<lambda>_ a _. a \<in> lan_peers demo_pcp\<rparr>) (hs_events st')"
proof -
  have "Process_upnphttp demo_http (Received demo_subscribe) [Sent 200] demo_conn demo_hstate \<noteq> None"
    using process_inv [OF demo_laws(1,2) demo_server_env system_invariant [OF demo_laws(1-3) demo_server_env demo_system demo_laws(4)],
        of demo_conn "Received demo_subscribe" "[Sent 200]"] by auto
  then obtain h' st' where p: "Process_upnphttp demo_http (Received demo_subscribe) [Sent 200] demo_conn demo_hstate = Some (h', st')" by auto
  have "http_system demo_pcp next_address 65536 1048576 demo_soap_state ([demo_conn3, demo_conn][1 := h']) st'"
    using http_system.processed [OF demo_system demo_server_env, of 1] p by simp
  from notifications_stay_in_lan [OF demo_laws this demo_server_env, of "\<lambda>_ _ _. True" "\<lambda>_ a _. a \<in> lan_peers demo_pcp" demo_events] p
  show ?thesis by auto
qed

lemma host_name_refused_witness:
  "\<exists>h' st'. ProcessHttpQuery_upnphttp demo_http [] demo_refused demo_hstate = Some (h', st') \<and> st' = demo_hstate"
proof -
  have a: "req_HostOff demo_parsed > 0" "CHR ''e'' \<in> set (take (req_HostLen demo_parsed) (drop (req_HostOff demo_parsed) (req_buf demo_parsed)))"
    "req_buf demo_parsed ! req_HostOff demo_parsed \<noteq> CHR ''[''" "\<not> isdigit (CHR ''e'')" "CHR ''e'' \<noteq> CHR '':''" "CHR ''e'' \<noteq> CHR ''.''"
    by (simp_all add: parse_eval isdigit_def)
  have "\<not> host_is_address demo_parsed" using a by (auto simp: host_is_address_def Let_def list_all_iff demo_parsed_def)
  moreover have "answerable demo_parsed" by (simp add: answerable_def parse_eval)
  with errors_closes(2) [OF dh.texts, where io = "[]"] obtain h1 where "Send404 demo_http [] demo_parsed = Some h1" by blast
  ultimately obtain h' st' where p: "ProcessHttpQuery_upnphttp demo_http [] demo_refused demo_hstate = Some (h', st')"
    by (simp add: ProcessHttpQuery_upnphttp_def demo_refused_parsed) (simp add: parse_eval)
  from host_name_refused [OF demo_refused_parsed a(1,2,4,5,6,3) p] p show ?thesis by blast
qed

lemma sending_continue_stalls_witness:
  "\<exists>hs st'. http_round demo_http [(demo_conn\<lparr>h_state := ESendingContinue\<rparr>, Some (RecvAgain, [Sent 25]))] [] demo_hstate = Some (hs, st')
     \<and> demo_conn\<lparr>h_state := ESendingContinue\<rparr> \<in> set hs"
proof -
  obtain hs st' where p: "http_round demo_http [(demo_conn\<lparr>h_state := ESendingContinue\<rparr>, Some (RecvAgain, [Sent 25]))] [] demo_hstate = Some (hs, st')"
    by (simp add: http_round_def http_selected_def)
  from sending_continue_stalls [OF p, of "demo_conn\<lparr>h_state := ESendingContinue\<rparr>" "Some (RecvAgain, [Sent 25])"] p show ?thesis by auto
qed

lemma long_os_version_overflows_witness:
  "respond (demo_http\<lparr>os_version := Some (replicate 212 (CHR ''a''))\<rparr>) [] 412 ''Precondition Failed'' [] (demo_conn\<lparr>HttpVer := ''HTTP/1.1''\<rparr>) = None"
  by (rule long_os_version_overflows [where v = "replicate 212 (CHR ''a'')"]) (simp_all only: length_replicate, simp_all add: demo_http_def demo_conn_def)

end
