(* ===== verification/UpnpDescGen.thy ===== *)
theory UpnpDescGen
  imports UpnpHttp IgdDesc
begin

unbundle bit_operations_syntax

text \<open>
  \<open>upnpdescgen.c\<close> and \<open>getconnstatus.c\<close>: the XML descriptions of the device and of its services, and the
  values of the evented state variables, printed from tables into a buffer that grows. The buffer is the
  text so far and the number of allocated bytes; a write behind them is \<^const>\<open>None\<close>, and so is an index
  outside of a table or the use of a null pointer. A failing \<open>malloc\<close> makes a generator return
  NULL, which is the value \<^term>\<open>Some None\<close>; a failing \<open>realloc\<close> loses what was to be appended.
\<close>

section \<open>The growing buffer\<close>

text \<open>
  The texts of the descriptions that are set at run time or by the build, and the allocator: whether a
  block of that size is given.
\<close>

record desc_texts =
  friendly_name :: string
  manufacturer_name :: string
  manufacturer_url :: string
  model_description :: string
  model_name :: string
  modelnumber :: string
  model_url :: string
  serialnumber :: string
  uuidvalue_igd :: string
  uuidvalue_wan :: string
  root_presentationurl :: string
  MINIUPNPD_VERSION :: string
  MINIUPNPD_DATE :: string
  upnp_configid :: u32
  desc_malloc :: "nat \<Rightarrow> bool"
  desc_realloc :: "nat \<Rightarrow> bool"

record strbuf =
  sb_str :: string
  sb_tmplen :: nat

definition strcat_str :: "desc_texts \<Rightarrow> string \<Rightarrow> strbuf \<Rightarrow> strbuf option" where
  "strcat_str X s2 b =
     (let len = length (sb_str b); s2len = length s2;
          append = (\<lambda>b. if len + s2len + 1 \<le> sb_tmplen b then Some (b\<lparr>sb_str := sb_str b @ s2\<rparr>) else None)
      in if sb_tmplen b \<le> len + s2len
         then let newlen = (if s2len < 256 then sb_tmplen b + 256 else sb_tmplen b + s2len + 1)
              in if desc_realloc X newlen then append (b\<lparr>sb_tmplen := newlen\<rparr>) else Some b
         else append b)"

definition strcat_char :: "desc_texts \<Rightarrow> char \<Rightarrow> strbuf \<Rightarrow> strbuf option" where
  "strcat_char X c b =
     (let len = length (sb_str b);
          append = (\<lambda>b. if len < sb_tmplen b then Some (b\<lparr>sb_str := sb_str b @ [c]\<rparr>) else None)
      in if sb_tmplen b \<le> len + 1
         then if desc_realloc X (sb_tmplen b + 256) then append (b\<lparr>sb_tmplen := sb_tmplen b + 256\<rparr>) else Some b
         else append b)"

text \<open>What a generator appends, one call after the other.\<close>

datatype piece = Str string | Chr char

fun strcat_piece :: "desc_texts \<Rightarrow> piece \<Rightarrow> strbuf \<Rightarrow> strbuf option" where
  "strcat_piece X (Str s) b = strcat_str X s b"
| "strcat_piece X (Chr c) b = strcat_char X c b"

fun strcat_all :: "desc_texts \<Rightarrow> piece list \<Rightarrow> strbuf \<Rightarrow> strbuf option" where
  "strcat_all X [] b = Some b"
| "strcat_all X (p # ps) b = (case strcat_piece X p b of None \<Rightarrow> None | Some b1 \<Rightarrow> strcat_all X ps b1)"

text \<open>The decimal digits of an integer, collected in an array of 16 characters from the last to the first.\<close>

fun int_digits :: "nat \<Rightarrow> nat \<Rightarrow> string" where
  "int_digits 0 i = []"
| "int_digits (Suc room) i = (if i = 0 then [] else digit_char (i mod 10) # int_digits room (i div 10))"

definition strcat_int :: "int \<Rightarrow> piece list" where
  "strcat_int i =
     (if i = 0 then [Chr (CHR ''0'')]
      else (if i < 0 then [Chr (CHR ''-'')] else []) @ map Chr (rev (int_digits 16 (nat \<bar>i\<bar>))))"

section \<open>The tables\<close>

definition upnptypes :: "string list" where
  "upnptypes = [''string'', ''boolean'', ''ui2'', ''ui4'', ''bin.base64'']"

definition upnpdefaultvalues :: "string option list" where
  "upnpdefaultvalues = [None, Some ''IP_Routed'', Some ''3600'', Some ''Unconfigured'', Some ''0'', Some ''1'', Some ''ERROR_NONE'']"

definition upnpallowedvalues :: "string option list" where
  "upnpallowedvalues =
     [None, Some ''DSL'', Some ''POTS'', Some ''Cable'', Some ''Ethernet'',
      None, Some ''Up'', Some ''Down'', Some ''Initializing'', Some ''Unavailable'',
      None, Some ''TCP'', Some ''UDP'',
      None, Some ''Unconfigured'', Some ''IP_Routed'', Some ''IP_Bridged'',
      None, Some ''Unconfigured'', Some ''Connecting'', Some ''Connected'', Some ''PendingDisconnect'', Some ''Disconnecting'', Some ''Disconnected'',
      None, Some ''ERROR_NONE'',
      None, Some [], None]"

definition upnpallowedranges :: "int list" where
  "upnpallowedranges = [0, 0, 604800, 1, 65535, 1, 86400, 100, 200]"

definition magicargname :: "bool \<Rightarrow> string option list" where
  "magicargname dp =
     [None, Some ''StartPort'', Some ''EndPort'', Some ''RemoteHost'', Some ''RemotePort'', Some ''InternalClient'', Some ''InternalPort'', Some ''IsWorking'']
     @ (if dp then [Some ''ProtocolType'', Some ''InMessage'', Some ''OutMessage'', Some ''ProtocolList'', Some ''RoleList''] else [])"

definition quoted :: "string \<Rightarrow> string" where
  "quoted s = CHR 0x22 # s @ [CHR 0x22]"

definition xmlver :: string where
  "xmlver = ''<?xml version='' @ quoted ''1.0'' @ ''?>'' @ eol"

definition root_service :: string where
  "root_service = ''scpd xmlns='' @ quoted ''urn:schemas-upnp-org:service-1-0''"

definition root_device :: string where
  "root_device = ''root xmlns='' @ quoted ''urn:schemas-upnp-org:device-1-0''"

text \<open>
  An element of the description of the device: a leaf has a name with a slash in front and a text, another
  element the index of its first child and their number. Indices are natural numbers; the table has fewer
  elements than the sixteen bits of the code could number.
\<close>

datatype elt_data = NoData | Data string | INITHELPER nat nat

record XMLElt =
  eltname :: "string option"
  elt_data :: elt_data

abbreviation leaf_elt :: "string \<Rightarrow> string \<Rightarrow> XMLElt" where
  "leaf_elt n t \<equiv> \<lparr>eltname = Some (CHR ''/'' # n), elt_data = Data t\<rparr>"

abbreviation node_elt :: "string \<Rightarrow> nat \<Rightarrow> nat \<Rightarrow> XMLElt" where
  "node_elt n i k \<equiv> \<lparr>eltname = Some n, elt_data = INITHELPER i k\<rparr>"

abbreviation null_elt :: XMLElt where
  "null_elt \<equiv> \<lparr>eltname = None, elt_data = NoData\<rparr>"

definition urn_version :: "bool \<Rightarrow> string" where
  "urn_version v2 = (if v2 then ''2'' else ''1'')"

definition DEVICE_TYPE_IGD :: "bool \<Rightarrow> string" where
  "DEVICE_TYPE_IGD v2 = ''urn:schemas-upnp-org:device:InternetGatewayDevice:'' @ urn_version v2"

definition DEVICE_TYPE_WAN :: "bool \<Rightarrow> string" where
  "DEVICE_TYPE_WAN v2 = ''urn:schemas-upnp-org:device:WANDevice:'' @ urn_version v2"

definition DEVICE_TYPE_WANC :: "bool \<Rightarrow> string" where
  "DEVICE_TYPE_WANC v2 = ''urn:schemas-upnp-org:device:WANConnectionDevice:'' @ urn_version v2"

definition SERVICE_TYPE_WANIPC :: "bool \<Rightarrow> string" where
  "SERVICE_TYPE_WANIPC v2 = ''urn:schemas-upnp-org:service:WANIPConnection:'' @ urn_version v2"

definition SERVICES_OFFSET :: "('s, 're, 'k, 'h) http_env \<Rightarrow> nat" where
  "SERVICES_OFFSET E = (if enable_6fc (ht_soap E) then 63 else 58)"

definition NSERVICES :: "('s, 're, 'k, 'h) http_env \<Rightarrow> nat" where
  "NSERVICES E = of_bool (enable_l3f (ht_soap E)) + of_bool (has_dummy_service E) + of_bool (enable_dp (ht_soap E))"

definition root_services :: "('s, 're, 'k, 'h) http_env \<Rightarrow> bool" where
  "root_services E = (enable_l3f (ht_soap E) \<or> has_dummy_service E \<or> enable_dp (ht_soap E))"

text \<open>The five elements of a service.\<close>

abbreviation service_elts :: "string \<Rightarrow> string \<Rightarrow> string \<Rightarrow> string \<Rightarrow> string \<Rightarrow> XMLElt list" where
  "service_elts ty ident scpd ctl evt \<equiv>
     [leaf_elt ''serviceType'' ty, leaf_elt ''serviceId'' ident, leaf_elt ''SCPDURL'' scpd, leaf_elt ''controlURL'' ctl, leaf_elt ''eventSubURL'' evt]"

definition DP_SERVICE :: string where "DP_SERVICE = ''urn:schemas-upnp-org:service:DeviceProtection:1''"
definition IP6FC_SERVICE :: string where "IP6FC_SERVICE = ''urn:schemas-upnp-org:service:WANIPv6FirewallControl:1''"

definition root_elts :: "('s, 're, 'k, 'h) http_env \<Rightarrow> desc_texts \<Rightarrow> XMLElt list" where
  "root_elts E X =
     [node_elt root_device 1 2,
      node_elt ''specVersion'' 3 2,
      node_elt ''device'' 5 (if root_services E then 13 else 12),
      leaf_elt ''major'' (dec (UPNP_VERSION_MAJOR E)),
      leaf_elt ''minor'' (dec (UPNP_VERSION_MINOR E)),
      leaf_elt ''deviceType'' (DEVICE_TYPE_IGD (igd_v2 (ht_soap E))),
      leaf_elt ''friendlyName'' (friendly_name X),
      leaf_elt ''manufacturer'' (manufacturer_name X),
      leaf_elt ''manufacturerURL'' (manufacturer_url X),
      leaf_elt ''modelDescription'' (model_description X),
      leaf_elt ''modelName'' (model_name X),
      leaf_elt ''modelNumber'' (modelnumber X),
      leaf_elt ''modelURL'' (model_url X),
      leaf_elt ''serialNumber'' (serialnumber X),
      leaf_elt ''UDN'' (uuidvalue_igd X)]
     @ (if root_services E
        then [node_elt ''serviceList'' (SERVICES_OFFSET E) (NSERVICES E), node_elt ''deviceList'' 18 1,
              leaf_elt ''presentationURL'' (root_presentationurl X)]
        else [node_elt ''deviceList'' 18 1, leaf_elt ''presentationURL'' (root_presentationurl X), null_elt])"

definition wan_elts :: "('s, 're, 'k, 'h) http_env \<Rightarrow> desc_texts \<Rightarrow> XMLElt list" where
  "wan_elts E X =
     [node_elt ''device'' 19 13,
      leaf_elt ''deviceType'' (DEVICE_TYPE_WAN (igd_v2 (ht_soap E))),
      leaf_elt ''friendlyName'' ''WANDevice'',
      leaf_elt ''manufacturer'' ''MiniUPnP'',
      leaf_elt ''manufacturerURL'' ''https://miniupnp.tuxfamily.org/'',
      leaf_elt ''modelDescription'' (''MiniUPnP daemon version '' @ MINIUPNPD_VERSION X),
      leaf_elt ''modelName'' ''MiniUPnPd'',
      leaf_elt ''modelNumber'' (MINIUPNPD_DATE X),
      leaf_elt ''modelURL'' ''https://miniupnp.tuxfamily.org/'',
      leaf_elt ''serialNumber'' (serialnumber X),
      leaf_elt ''UDN'' (uuidvalue_wan X),
      leaf_elt ''UPC'' ''000000000000'',
      node_elt ''serviceList'' 32 1,
      node_elt ''deviceList'' 38 1,
      node_elt ''service'' 33 5]
     @ service_elts ''urn:schemas-upnp-org:service:WANCommonInterfaceConfig:1'' ''urn:upnp-org:serviceId:WANCommonIFC1''
         ''/WANCfg.xml'' ''/ctl/CmnIfCfg'' WANCFG_EVENTURL"

definition wanc_elts :: "('s, 're, 'k, 'h) http_env \<Rightarrow> desc_texts \<Rightarrow> XMLElt list" where
  "wanc_elts E X =
     [node_elt ''device'' 39 12,
      leaf_elt ''deviceType'' (DEVICE_TYPE_WANC (igd_v2 (ht_soap E))),
      leaf_elt ''friendlyName'' ''WANConnectionDevice'',
      leaf_elt ''manufacturer'' ''MiniUPnP'',
      leaf_elt ''manufacturerURL'' ''https://miniupnp.tuxfamily.org/'',
      leaf_elt ''modelDescription'' (''MiniUPnP daemon version '' @ MINIUPNPD_VERSION X),
      leaf_elt ''modelName'' ''MiniUPnPd'',
      leaf_elt ''modelNumber'' (MINIUPNPD_DATE X),
      leaf_elt ''modelURL'' ''https://miniupnp.tuxfamily.org/'',
      leaf_elt ''serialNumber'' (serialnumber X),
      leaf_elt ''UDN'' (uuidvalue_wcd (ht_soap E)),
      leaf_elt ''UPC'' ''000000000000'',
      node_elt ''serviceList'' 51 (if enable_6fc (ht_soap E) then 2 else 1),
      node_elt ''service'' 53 5,
      node_elt ''service'' 58 5]
     @ service_elts (SERVICE_TYPE_WANIPC (igd_v2 (ht_soap E))) ''urn:upnp-org:serviceId:WANIPConn1''
         ''/WANIPCn.xml'' ''/ctl/IPConn'' WANIPC_EVENTURL
     @ (if enable_6fc (ht_soap E)
        then service_elts IP6FC_SERVICE ''urn:upnp-org:serviceId:WANIPv6Firewall1'' ''/WANIP6FC.xml'' ''/ctl/IP6FCtl'' WANIP6FC_EVENTURL
        else [])"

definition service_list_elts :: "('s, 're, 'k, 'h) http_env \<Rightarrow> XMLElt list" where
  "service_list_elts E =
     (if root_services E then [node_elt ''service'' (SERVICES_OFFSET E + 2) 5, node_elt ''service'' (SERVICES_OFFSET E + 7) 5] else [])
     @ (if has_dummy_service E
        then service_elts ''urn:schemas-dummy-com:service:Dummy:1'' ''urn:dummy-com:serviceId:dummy1'' ''/dummy.xml'' ''/dummy'' ''/dummy'' else [])
     @ (if enable_l3f (ht_soap E)
        then service_elts ''urn:schemas-upnp-org:service:Layer3Forwarding:1'' ''urn:upnp-org:serviceId:L3Forwarding1''
               ''/L3F.xml'' ''/ctl/L3F'' L3F_EVENTURL else [])
     @ (if enable_dp (ht_soap E)
        then service_elts DP_SERVICE ''urn:upnp-org:serviceId:DeviceProtection1'' ''/DP.xml'' ''/ctl/DP'' DP_EVENTURL else [])"

definition rootDesc :: "('s, 're, 'k, 'h) http_env \<Rightarrow> desc_texts \<Rightarrow> XMLElt list" where
  "rootDesc E X = root_elts E X @ wan_elts E X @ wanc_elts E X @ service_list_elts E @ [null_elt]"

section \<open>The description of the device\<close>

text \<open>A leaf is printed when it has a text; a request for version 1 patches the last character of a type.\<close>

definition igd1_types :: "bool \<Rightarrow> string list" where
  "igd1_types v2 = [DEVICE_TYPE_IGD v2, DEVICE_TYPE_WAN v2, DEVICE_TYPE_WANC v2, SERVICE_TYPE_WANIPC v2]"

definition patch_version :: "('s, 're, 'k, 'h) http_env \<Rightarrow> bool \<Rightarrow> string \<Rightarrow> strbuf \<Rightarrow> strbuf option" where
  "patch_version E force_igd1 t b =
     (if igd_v2 (ht_soap E) \<and> force_igd1 \<and> hd t = CHR ''u'' \<and> t \<in> set (igd1_types (igd_v2 (ht_soap E)))
      then if sb_str b = [] then None else Some (b\<lparr>sb_str := butlast (sb_str b) @ ''1''\<rparr>)
      else Some b)"

definition random_pieces :: "('s, 're, 'k, 'h) http_env \<Rightarrow> string \<Rightarrow> piece list" where
  "random_pieces E t = (case random_url E of None \<Rightarrow> [] | Some r \<Rightarrow> if hd t = CHR ''/'' then [Chr (CHR ''/''), Str r] else [])"

definition genXML_leaf ::
  "('s, 're, 'k, 'h) http_env \<Rightarrow> desc_texts \<Rightarrow> bool \<Rightarrow> string \<Rightarrow> elt_data \<Rightarrow> strbuf \<Rightarrow> strbuf option" where
  "genXML_leaf E X force_igd1 name dat b =
     (case dat of
        Data (c # t) \<Rightarrow>
          Option.bind (strcat_all X ([Chr (CHR ''<''), Str (tl name), Chr (CHR ''>'')] @ random_pieces E (c # t) @ [Str (c # t)]) b) (\<lambda>b1.
          Option.bind (patch_version E force_igd1 (c # t) b1)
            (strcat_all X [Chr (CHR ''<''), Str name, Chr (CHR ''>'')]))
      | INITHELPER _ _ \<Rightarrow> None
      | _ \<Rightarrow> Some b)"

text \<open>The start of an element with children; the root element carries the configuration number.\<close>

definition open_pieces :: "desc_texts \<Rightarrow> string \<Rightarrow> piece list" where
  "open_pieces X name =
     [Chr (CHR ''<''), Str name]
     @ (if take 5 name = ''root '' then [Str '' configId='', Str (take 15 (quoted (dec (unat (upnp_configid X)))))] else [])
     @ [Chr (CHR ''>'')]"

definition close_pieces :: "('s, 're, 'k, 'h) http_env \<Rightarrow> string \<Rightarrow> piece list" where
  "close_pieces E name = [Chr (CHR ''<''), Chr (CHR ''/'')] @ map Chr (takeWhile (gt_space E) name) @ [Chr (CHR ''>'')]"

text \<open>
  The elements that are open, innermost first: the index of the current child, the index behind the last one
  and the name. Going to the next element closes those whose last child is done.
\<close>

type_synonym pile = "(nat \<times> nat \<times> string) list"

definition GENXML_STACK_SIZE :: nat where "GENXML_STACK_SIZE = 16"

fun genXML_unstack :: "('s, 're, 'k, 'h) http_env \<Rightarrow> desc_texts \<Rightarrow> pile \<Rightarrow> strbuf \<Rightarrow> (strbuf \<times> pile) option" where
  "genXML_unstack E X [] b = Some (b, [])"
| "genXML_unstack E X ((i, j, name) # pile) b =
     (if i + 1 = j then Option.bind (strcat_all X (close_pieces E name) b) (genXML_unstack E X pile)
      else Some (b, (i + 1, j, name) # pile))"

text \<open>A client that is told version 1 is not shown the services that came with version 2.\<close>

definition skip_child :: "('s, 're, 'k, 'h) http_env \<Rightarrow> bool \<Rightarrow> XMLElt list \<Rightarrow> nat \<Rightarrow> bool option" where
  "skip_child E force_igd1 p k =
     (if igd_v2 (ht_soap E) \<and> force_igd1
      then if k < length p
           then case eltname (p ! k) of None \<Rightarrow> None
                | Some n \<Rightarrow>
                    if n \<noteq> [] \<and> hd n = CHR ''/''
                    then (case elt_data (p ! k) of Data t \<Rightarrow> Some (t = DP_SERVICE \<or> t = IP6FC_SERVICE) | _ \<Rightarrow> None)
                    else Some False
           else None
      else Some False)"

text \<open>One round of the loop: the text, and the next element unless the document is finished.\<close>

definition genXML_next :: "('s, 're, 'k, 'h) http_env \<Rightarrow> desc_texts \<Rightarrow> pile \<Rightarrow> strbuf \<Rightarrow> (strbuf \<times> (nat \<times> pile) option) option" where
  "genXML_next E X pile b =
     map_option (\<lambda>(b1, pile1). (b1, case pile1 of [] \<Rightarrow> None | (i, j, n) # _ \<Rightarrow> Some (i, pile1))) (genXML_unstack E X pile b)"

definition genXML_step ::
  "('s, 're, 'k, 'h) http_env \<Rightarrow> desc_texts \<Rightarrow> bool \<Rightarrow> XMLElt list \<Rightarrow> nat \<Rightarrow> pile \<Rightarrow> strbuf \<Rightarrow> (strbuf \<times> (nat \<times> pile) option) option" where
  "genXML_step E X force_igd1 p i pile b =
     (if i < length p
      then case eltname (p ! i) of None \<Rightarrow> Some (b, None)
           | Some name \<Rightarrow>
               if name \<noteq> [] \<and> hd name = CHR ''/''
               then Option.bind (genXML_leaf E X force_igd1 name (elt_data (p ! i)) b) (genXML_next E X pile)
               else (case elt_data (p ! i) of
                       INITHELPER k n \<Rightarrow>
                         (case skip_child E force_igd1 p k of None \<Rightarrow> None
                          | Some True \<Rightarrow> genXML_next E X pile b
                          | Some False \<Rightarrow>
                              map_option (\<lambda>b1. (b1, Some (k, if length pile < GENXML_STACK_SIZE then (k, k + n, name) # pile else pile)))
                                (strcat_all X (open_pieces X name) b))
                     | _ \<Rightarrow> None)
      else None)"

partial_function (option) genXML_loop ::
  "('s, 're, 'k, 'h) http_env \<Rightarrow> desc_texts \<Rightarrow> bool \<Rightarrow> XMLElt list \<Rightarrow> nat \<Rightarrow> pile \<Rightarrow> strbuf \<Rightarrow> strbuf option" where
  [code]: "genXML_loop E X force_igd1 p i pile b =
     (case genXML_step E X force_igd1 p i pile b of None \<Rightarrow> None
      | Some (b1, next) \<Rightarrow> (case next of None \<Rightarrow> Some b1 | Some (i1, pile1) \<Rightarrow> genXML_loop E X force_igd1 p i1 pile1 b1))"

definition genXML ::
  "('s, 're, 'k, 'h) http_env \<Rightarrow> desc_texts \<Rightarrow> bool \<Rightarrow> XMLElt list \<Rightarrow> strbuf \<Rightarrow> strbuf option" where
  "genXML E X force_igd1 p b = genXML_loop E X force_igd1 p 0 [] b"

text \<open>A generator starts with the XML declaration in a buffer of 2048 bytes.\<close>

definition start_buf :: strbuf where
  "start_buf = \<lparr>sb_str = xmlver, sb_tmplen = 2048\<rparr>"

text \<open>The text of a buffer is closed with a NUL.\<close>

definition finish_buf :: "strbuf \<Rightarrow> string option option" where
  "finish_buf b = (if length (sb_str b) < sb_tmplen b then Some (Some (sb_str b)) else None)"

definition genRootDesc :: "('s, 're, 'k, 'h) http_env \<Rightarrow> desc_texts \<Rightarrow> bool \<Rightarrow> string option option" where
  "genRootDesc E X force_igd1 =
     (if desc_malloc X 2048
      then case genXML E X force_igd1 (rootDesc E X) start_buf of None \<Rightarrow> None
           | Some b \<Rightarrow> finish_buf b
      else Some None)"

section \<open>The tables of the services\<close>

text \<open>An array that ends with an element of zeros is the list of the elements before it.\<close>

record argument =
  dir :: u8
  relatedVar :: nat

record upnp_action =
  act_name :: string
  act_args :: "argument list option"

record stateVar =
  var_name :: string
  itype :: u8
  idefault :: nat
  iallowedlist :: nat
  ieventvalue :: nat

record serviceDesc =
  actionList :: "upnp_action list"
  serviceStateTable :: "stateVar list"

abbreviation args_of :: "(u8 \<times> nat) list \<Rightarrow> argument list option" where
  "args_of xs \<equiv> Some (map (\<lambda>(d, v). \<lparr>dir = d, relatedVar = v\<rparr>) xs)"

abbreviation vars_of :: "(string \<times> u8 \<times> nat \<times> nat \<times> nat) list \<Rightarrow> stateVar list" where
  "vars_of xs \<equiv> map (\<lambda>(n, t, d, a, e). \<lparr>var_name = n, itype = t, idefault = d, iallowedlist = a, ieventvalue = e\<rparr>) xs"

abbreviation acts_of :: "(string \<times> argument list option) list \<Rightarrow> upnp_action list" where
  "acts_of xs \<equiv> map (\<lambda>(n, a). \<lparr>act_name = n, act_args = a\<rparr>) xs"

definition SETUPREADY_MAGICALVALUE :: nat where "SETUPREADY_MAGICALVALUE = 248"
definition CONNECTIONSTATUS_MAGICALVALUE :: nat where "CONNECTIONSTATUS_MAGICALVALUE = 249"
definition FIREWALLENABLED_MAGICALVALUE :: nat where "FIREWALLENABLED_MAGICALVALUE = 250"
definition INBOUNDPINHOLEALLOWED_MAGICALVALUE :: nat where "INBOUNDPINHOLEALLOWED_MAGICALVALUE = 251"
definition SYSTEMUPDATEID_MAGICALVALUE :: nat where "SYSTEMUPDATEID_MAGICALVALUE = 252"
definition PORTMAPPINGNUMBEROFENTRIES_MAGICALVALUE :: nat where "PORTMAPPINGNUMBEROFENTRIES_MAGICALVALUE = 253"
definition EXTERNALIPADDRESS_MAGICALVALUE :: nat where "EXTERNALIPADDRESS_MAGICALVALUE = 254"
definition DEFAULTCONNECTIONSERVICE_MAGICALVALUE :: nat where "DEFAULTCONNECTIONSERVICE_MAGICALVALUE = 255"

definition AddPortMappingArgs :: "(u8 \<times> nat) list" where
  "AddPortMappingArgs = [(1, 11), (1, 12), (1, 14), (1, 13), (1, 15), (1, 9), (1, 16), (1, 10)]"

definition AddAnyPortMappingArgs :: "(u8 \<times> nat) list" where
  "AddAnyPortMappingArgs = [(1, 11), (1, 12), (1, 14), (1, 13), (1, 15), (1, 9), (1, 16), (1, 10), (2, 12)]"

definition DeletePortMappingRangeArgs :: "(u8 \<times> nat) list" where
  "DeletePortMappingRangeArgs = [(1 OR push_bit 2 1, 12), (1 OR push_bit 2 2, 12), (1, 14), (1, 18)]"

definition GetListOfPortMappingsArgs :: "(u8 \<times> nat) list" where
  "GetListOfPortMappingsArgs = [(1 OR push_bit 2 1, 12), (1 OR push_bit 2 2, 12), (1, 14), (1, 18), (1, 8), (2, 19)]"

definition GetExternalIPAddressArgs :: "(u8 \<times> nat) list" where
  "GetExternalIPAddressArgs = [(2, 7)]"

definition DeletePortMappingArgs :: "(u8 \<times> nat) list" where
  "DeletePortMappingArgs = [(1, 11), (1, 12), (1, 14)]"

definition SetConnectionTypeArgs :: "(u8 \<times> nat) list" where
  "SetConnectionTypeArgs = [(1, 0)]"

definition GetConnectionTypeInfoArgs :: "(u8 \<times> nat) list" where
  "GetConnectionTypeInfoArgs = [(2, 0), (2, 1)]"

definition GetStatusInfoArgs :: "(u8 \<times> nat) list" where
  "GetStatusInfoArgs = [(2, 2), (2, 4), (2, 3)]"

definition GetNATRSIPStatusArgs :: "(u8 \<times> nat) list" where
  "GetNATRSIPStatusArgs = [(2, 5), (2, 6)]"

definition GetGenericPortMappingEntryArgs :: "(u8 \<times> nat) list" where
  "GetGenericPortMappingEntryArgs = [(1, 8), (2, 11), (2, 12), (2, 14), (2, 13), (2, 15), (2, 9), (2, 16), (2, 10)]"

definition GetSpecificPortMappingEntryArgs :: "(u8 \<times> nat) list" where
  "GetSpecificPortMappingEntryArgs = [(1, 11), (1, 12), (1, 14), (2, 13), (2, 15), (2, 9), (2, 16), (2, 10)]"

definition WANIPCnActions :: "bool \<Rightarrow> upnp_action list" where
  "WANIPCnActions v2 = acts_of
     ([(''SetConnectionType'', args_of SetConnectionTypeArgs),
       (''GetConnectionTypeInfo'', args_of GetConnectionTypeInfoArgs),
       (''RequestConnection'', None),
       (''ForceTermination'', None),
       (''GetStatusInfo'', args_of GetStatusInfoArgs),
       (''GetNATRSIPStatus'', args_of GetNATRSIPStatusArgs),
       (''GetGenericPortMappingEntry'', args_of GetGenericPortMappingEntryArgs),
       (''GetSpecificPortMappingEntry'', args_of GetSpecificPortMappingEntryArgs),
       (''AddPortMapping'', args_of AddPortMappingArgs),
       (''DeletePortMapping'', args_of DeletePortMappingArgs),
       (''GetExternalIPAddress'', args_of GetExternalIPAddressArgs)]
      @ (if v2 then [(''DeletePortMappingRange'', args_of DeletePortMappingRangeArgs),
                     (''GetListOfPortMappings'', args_of GetListOfPortMappingsArgs),
                     (''AddAnyPortMapping'', args_of AddAnyPortMappingArgs)] else []))"

definition WANIPCnVars :: "bool \<Rightarrow> stateVar list" where
  "WANIPCnVars v2 = vars_of
     ([(''ConnectionType'', 0, 1, 0, 15),
       (''PossibleConnectionTypes'', 0 OR 0x80, 0, 14, 15),
       (''ConnectionStatus'', 0 OR 0x80, 3, 18, CONNECTIONSTATUS_MAGICALVALUE),
       (''Uptime'', 3, 0, 0, 0),
       (''LastConnectionError'', 0, 6, 25, 0),
       (''RSIPAvailable'', 1, 4, 0, 0),
       (''NATEnabled'', 1, 5, 0, 0),
       (''ExternalIPAddress'', 0 OR 0x80, 0, 0, EXTERNALIPADDRESS_MAGICALVALUE),
       (''PortMappingNumberOfEntries'', 2 OR 0x80, 0, 0, PORTMAPPINGNUMBEROFENTRIES_MAGICALVALUE),
       (''PortMappingEnabled'', 1, 0, 0, 0),
       (''PortMappingLeaseDuration'', 3, 2, 1, 0),
       (''RemoteHost'', 0, 0, 0, 0),
       (''ExternalPort'', 2, 0, 0, 0),
       (''InternalPort'', 2, 0, 3, 0),
       (''PortMappingProtocol'', 0, 0, 11, 0),
       (''InternalClient'', 0, 0, 0, 0),
       (''PortMappingDescription'', 0, 0, 0, 0)]
      @ (if v2 then [(''SystemUpdateID'', 3 OR 0x80, 0, 0, SYSTEMUPDATEID_MAGICALVALUE),
                     (''A_ARG_TYPE_Manage'', 1, 0, 0, 0),
                     (''A_ARG_TYPE_PortListing'', 0, 0, 0, 0)] else []))"

definition scpdWANIPCn :: "('s, 're, 'k, 'h) http_env \<Rightarrow> serviceDesc" where
  "scpdWANIPCn E = \<lparr>actionList = WANIPCnActions (igd_v2 (ht_soap E)), serviceStateTable = WANIPCnVars (igd_v2 (ht_soap E))\<rparr>"

definition WANCfgActions :: "upnp_action list" where
  "WANCfgActions = acts_of
     [(''GetCommonLinkProperties'', args_of [(2, 0), (2, 1), (2, 2), (2, 3)]),
      (''GetTotalBytesSent'', args_of [(2, 4)]),
      (''GetTotalBytesReceived'', args_of [(2, 5)]),
      (''GetTotalPacketsSent'', args_of [(2, 6)]),
      (''GetTotalPacketsReceived'', args_of [(2, 7)])]"

definition WANCfgVars :: "stateVar list" where
  "WANCfgVars = vars_of
     [(''WANAccessType'', 0, 0, 1, 0),
      (''Layer1UpstreamMaxBitRate'', 3, 0, 0, 0),
      (''Layer1DownstreamMaxBitRate'', 3, 0, 0, 0),
      (''PhysicalLinkStatus'', 0 OR 0x80, 0, 6, 6),
      (''TotalBytesSent'', 3, 0, 0, 0),
      (''TotalBytesReceived'', 3, 0, 0, 0),
      (''TotalPacketsSent'', 3, 0, 0, 0),
      (''TotalPacketsReceived'', 3, 0, 0, 0)]"

definition scpdWANCfg :: serviceDesc where
  "scpdWANCfg = \<lparr>actionList = WANCfgActions, serviceStateTable = WANCfgVars\<rparr>"

definition L3FActions :: "upnp_action list" where
  "L3FActions = acts_of [(''SetDefaultConnectionService'', args_of [(1, 0)]), (''GetDefaultConnectionService'', args_of [(2, 0)])]"

definition L3FVars :: "stateVar list" where
  "L3FVars = vars_of [(''DefaultConnectionService'', 0 OR 0x80, 0, 0, DEFAULTCONNECTIONSERVICE_MAGICALVALUE)]"

definition scpdL3F :: serviceDesc where
  "scpdL3F = \<lparr>actionList = L3FActions, serviceStateTable = L3FVars\<rparr>"

definition GetFirewallStatusArgs :: "(u8 \<times> nat) list" where
  "GetFirewallStatusArgs = [(2 OR 0x80, 0), (2 OR 0x80, 6)]"

definition GetOutboundPinholeTimeoutArgs :: "(u8 \<times> nat) list" where
  "GetOutboundPinholeTimeoutArgs =
     [(1 OR 0x80 OR push_bit 2 3, 1), (1 OR 0x80 OR push_bit 2 4, 2), (1 OR 0x80 OR push_bit 2 5, 1), (1 OR 0x80 OR push_bit 2 6, 2),
      (1 OR 0x80, 3), (2 OR 0x80, 7)]"

definition AddPinholeArgs :: "(u8 \<times> nat) list" where
  "AddPinholeArgs =
     [(1 OR 0x80 OR push_bit 2 3, 1), (1 OR 0x80 OR push_bit 2 4, 2), (1 OR 0x80 OR push_bit 2 5, 1), (1 OR 0x80 OR push_bit 2 6, 2),
      (1 OR 0x80, 3), (1 OR 0x80, 5), (2 OR 0x80, 4)]"

definition UpdatePinholeArgs :: "(u8 \<times> nat) list" where
  "UpdatePinholeArgs = [(1 OR 0x80, 4), (1, 5)]"

definition DeletePinholeArgs :: "(u8 \<times> nat) list" where
  "DeletePinholeArgs = [(1 OR 0x80, 4)]"

definition GetPinholePacketsArgs :: "(u8 \<times> nat) list" where
  "GetPinholePacketsArgs = [(1 OR 0x80, 4), (2 OR 0x80, 9)]"

definition CheckPinholeWorkingArgs :: "(u8 \<times> nat) list" where
  "CheckPinholeWorkingArgs = [(1 OR 0x80, 4), (2 OR 0x80 OR push_bit 2 7, 8)]"

definition IPv6FCActions :: "upnp_action list" where
  "IPv6FCActions = acts_of
     [(''GetFirewallStatus'', args_of GetFirewallStatusArgs),
      (''GetOutboundPinholeTimeout'', args_of GetOutboundPinholeTimeoutArgs),
      (''AddPinhole'', args_of AddPinholeArgs),
      (''UpdatePinhole'', args_of UpdatePinholeArgs),
      (''DeletePinhole'', args_of DeletePinholeArgs),
      (''GetPinholePackets'', args_of GetPinholePacketsArgs),
      (''CheckPinholeWorking'', args_of CheckPinholeWorkingArgs)]"

definition IPv6FCVars :: "stateVar list" where
  "IPv6FCVars = vars_of
     [(''FirewallEnabled'', 1 OR 0x80, 0, 0, FIREWALLENABLED_MAGICALVALUE),
      (''A_ARG_TYPE_IPv6Address'', 0, 0, 0, 0),
      (''A_ARG_TYPE_Port'', 2, 0, 0, 0),
      (''A_ARG_TYPE_Protocol'', 2, 0, 0, 0),
      (''A_ARG_TYPE_UniqueID'', 2, 0, 0, 0),
      (''A_ARG_TYPE_LeaseTime'', 3, 0, 5, 0),
      (''InboundPinholeAllowed'', 1 OR 0x80, 0, 0, INBOUNDPINHOLEALLOWED_MAGICALVALUE),
      (''A_ARG_TYPE_OutboundPinholeTimeout'', 3, 0, 7, 0),
      (''A_ARG_TYPE_Boolean'', 1, 0, 0, 0),
      (''A_ARG_TYPE_PinholePackets'', 3, 0, 0, 0)]"

definition scpd6FC :: serviceDesc where
  "scpd6FC = \<lparr>actionList = IPv6FCActions, serviceStateTable = IPv6FCVars\<rparr>"

definition SendSetupMessageArgs :: "(u8 \<times> nat) list" where
  "SendSetupMessageArgs = [(1 OR 0x80 OR push_bit 2 8, 6), (1 OR 0x80 OR push_bit 2 9, 5), (2 OR 0x80 OR push_bit 2 10, 5)]"

definition DPActions :: "upnp_action list" where
  "DPActions = acts_of
     [(''SendSetupMessage'', args_of SendSetupMessageArgs),
      (''GetSupportedProtocols'', args_of [(2 OR 0x80 OR push_bit 2 11, 1)]),
      (''GetAssignedRoles'', args_of [(2 OR 0x80 OR push_bit 2 12, 6)])]"

definition DPVars :: "stateVar list" where
  "DPVars = vars_of
     [(''SetupReady'', 1 OR 0x80, 0, 0, SETUPREADY_MAGICALVALUE),
      (''SupportedProtocols'', 0, 0, 0, 0),
      (''A_ARG_TYPE_ACL'', 0, 0, 0, 0),
      (''A_ARG_TYPE_IdentityList'', 0, 0, 0, 0),
      (''A_ARG_TYPE_Identity'', 0, 0, 0, 0),
      (''A_ARG_TYPE_Base64'', 4, 0, 0, 0),
      (''A_ARG_TYPE_String'', 0, 0, 0, 0)]"

definition scpdDP :: serviceDesc where
  "scpdDP = \<lparr>actionList = DPActions, serviceStateTable = DPVars\<rparr>"

section \<open>The descriptions of the services\<close>

text \<open>An element of an array of strings, where an index outside and a null pointer have no value.\<close>

definition str_at :: "string option list \<Rightarrow> nat \<Rightarrow> string option" where
  "str_at xs i = (if i < length xs then xs ! i else None)"

text \<open>The name of an argument, from its related variable and its flags.\<close>

definition arg_name :: "('s, 're, 'k, 'h) http_env \<Rightarrow> string \<Rightarrow> u8 \<Rightarrow> string \<Rightarrow> string option" where
  "arg_name E action d p =
     (let v2 = igd_v2 (ht_soap E)
      in if d AND 0x7c \<noteq> 0 then str_at (magicargname (enable_dp (ht_soap E))) (unat (drop_bit 2 (d AND 0x7c)))
         else if length p \<ge> 11 \<and> take 11 p = ''PortMapping'' \<and> (length p < 22 \<or> take 11 (drop 11 p) \<noteq> ''Description'')
         then Some (if length p \<ge> 11 + 15 \<and> take 15 (drop 11 p) = ''NumberOfEntries''
                    then if v2 \<and> action = ''GetListOfPortMappings'' then ''NumberOfPorts'' else ''PortMappingIndex''
                    else drop 11 p)
         else if v2 \<and> length p \<ge> 11 \<and> take 11 p = ''A_ARG_TYPE_'' then Some (drop 11 p)
         else if v2 \<and> length p = 12 \<and> p = ''ExternalPort'' \<and> d = 2 \<and> action = ''AddAnyPortMapping'' then Some ''ReservedPort''
         else Some p)"

definition arg_pieces :: "('s, 're, 'k, 'h) http_env \<Rightarrow> string \<Rightarrow> stateVar list \<Rightarrow> argument \<Rightarrow> piece list option" where
  "arg_pieces E action vars a =
     (if relatedVar a < length vars
      then let p = var_name (vars ! relatedVar a)
           in map_option (\<lambda>n.
                [Str ''<argument><name>''] @ (if dir a AND 0x80 = 0 then [Str ''New''] else [])
                @ [Str n, Str ''</name><direction>'', Str (if dir a AND 0x03 = 1 then ''in'' else ''out''),
                   Str ''</direction><relatedStateVariable>'', Str p, Str ''</relatedStateVariable></argument>''])
              (arg_name E action (dir a) p)
      else None)"

text \<open>The pieces of a list of entries, one after the other.\<close>

fun pieces_of :: "('a \<Rightarrow> piece list option) \<Rightarrow> 'a list \<Rightarrow> piece list option" where
  "pieces_of f [] = Some []"
| "pieces_of f (x # xs) = (case f x of None \<Rightarrow> None | Some ps \<Rightarrow> map_option (\<lambda>qs. ps @ qs) (pieces_of f xs))"

definition action_pieces :: "('s, 're, 'k, 'h) http_env \<Rightarrow> stateVar list \<Rightarrow> upnp_action \<Rightarrow> piece list option" where
  "action_pieces E vars a =
     map_option (\<lambda>ps. [Str ''<action><name>'', Str (act_name a), Str ''</name>''] @ ps @ [Str ''</action>''])
       (case act_args a of None \<Rightarrow> Some []
        | Some xs \<Rightarrow> map_option (\<lambda>ps. [Str ''<argumentList>''] @ ps @ [Str ''</argumentList>''])
                       (pieces_of (arg_pieces E (act_name a) vars) xs))"

text \<open>The allowed values from an index on, up to the next null pointer.\<close>

fun allowed_values :: "string option list \<Rightarrow> piece list option" where
  "allowed_values [] = None"
| "allowed_values (None # xs) = Some []"
| "allowed_values (Some v # xs) = map_option (\<lambda>ps. [Str ''<allowedValue>'', Str v, Str ''</allowedValue>''] @ ps) (allowed_values xs)"

definition allowed_pieces :: "stateVar \<Rightarrow> piece list option" where
  "allowed_pieces v =
     (let j = iallowedlist v
      in if j = 0 then Some []
         else if itype v AND 0x0f = 0
         then map_option (\<lambda>ps. [Str ''<allowedValueList>''] @ ps @ [Str ''</allowedValueList>'']) (allowed_values (drop j upnpallowedvalues))
         else if j + 1 < length upnpallowedranges
         then Some ([Str ''<allowedValueRange><minimum>''] @ strcat_int (upnpallowedranges ! j) @ [Str ''</minimum><maximum>'']
                    @ strcat_int (upnpallowedranges ! (j + 1)) @ [Str ''</maximum></allowedValueRange>''])
         else None)"

definition var_pieces :: "('s, 're, 'k, 'h) http_env \<Rightarrow> stateVar \<Rightarrow> piece list option" where
  "var_pieces E v =
     (case (if unat (itype v AND 0x0f) < length upnptypes then Some (upnptypes ! unat (itype v AND 0x0f)) else None) of None \<Rightarrow> None
      | Some ty \<Rightarrow>
          (case (if idefault v = 0 then Some [] else map_option (\<lambda>s. [Str ''<defaultValue>'', Str s, Str ''</defaultValue>'']) (str_at upnpdefaultvalues (idefault v))) of
             None \<Rightarrow> None
           | Some dflt \<Rightarrow>
               map_option (\<lambda>al.
                 [Str (''<stateVariable sendEvents='' @ [CHR 0x22]), Str (if enable_events E \<and> itype v AND 0x80 \<noteq> 0 then ''yes'' else ''no''),
                  Str ([CHR 0x22] @ ''><name>''), Str (var_name v), Str ''</name><dataType>'', Str ty, Str ''</dataType>'']
                 @ dflt @ al @ [Str ''</stateVariable>'']) (allowed_pieces v)))"

text \<open>A client that is told version 1 is shown the actions before the first one of version 2.\<close>

definition shown_actions :: "('s, 're, 'k, 'h) http_env \<Rightarrow> bool \<Rightarrow> upnp_action list \<Rightarrow> upnp_action list" where
  "shown_actions E force_igd1 acts =
     (if igd_v2 (ht_soap E) \<and> force_igd1 then takeWhile (\<lambda>a. act_name a \<noteq> ''DeletePortMappingRange'') acts else acts)"

definition service_pieces :: "('s, 're, 'k, 'h) http_env \<Rightarrow> serviceDesc \<Rightarrow> bool \<Rightarrow> piece list option" where
  "service_pieces E s force_igd1 =
     (case pieces_of (action_pieces E (serviceStateTable s)) (shown_actions E force_igd1 (actionList s)) of None \<Rightarrow> None
      | Some as \<Rightarrow>
          map_option (\<lambda>vs.
            [Chr (CHR ''<''), Str root_service, Chr (CHR ''>''),
             Str (''<specVersion><major>'' @ dec (UPNP_VERSION_MAJOR E) @ ''</major>'' @ ''<minor>'' @ dec (UPNP_VERSION_MINOR E) @ ''</minor></specVersion>''),
             Str ''<actionList>''] @ as @ [Str ''</actionList><serviceStateTable>''] @ vs @ [Str ''</serviceStateTable></scpd>''])
            (pieces_of (var_pieces E) (serviceStateTable s)))"

definition genServiceDesc :: "('s, 're, 'k, 'h) http_env \<Rightarrow> desc_texts \<Rightarrow> serviceDesc \<Rightarrow> bool \<Rightarrow> string option option" where
  "genServiceDesc E X s force_igd1 =
     (if desc_malloc X 2048
      then Option.bind (service_pieces E s force_igd1) (\<lambda>ps. Option.bind (strcat_all X ps start_buf) finish_buf)
      else Some None)"

definition genWANIPCn :: "('s, 're, 'k, 'h) http_env \<Rightarrow> desc_texts \<Rightarrow> bool \<Rightarrow> string option option" where
  "genWANIPCn E X force_igd1 = genServiceDesc E X (scpdWANIPCn E) force_igd1"

definition genWANCfg :: "('s, 're, 'k, 'h) http_env \<Rightarrow> desc_texts \<Rightarrow> bool \<Rightarrow> string option option" where
  "genWANCfg E X force_igd1 = genServiceDesc E X scpdWANCfg force_igd1"

definition genL3F :: "('s, 're, 'k, 'h) http_env \<Rightarrow> desc_texts \<Rightarrow> bool \<Rightarrow> string option option" where
  "genL3F E X force_igd1 = genServiceDesc E X scpdL3F force_igd1"

definition gen6FC :: "('s, 're, 'k, 'h) http_env \<Rightarrow> desc_texts \<Rightarrow> bool \<Rightarrow> string option option" where
  "gen6FC E X force_igd1 = genServiceDesc E X scpd6FC force_igd1"

definition genDP :: "('s, 're, 'k, 'h) http_env \<Rightarrow> desc_texts \<Rightarrow> bool \<Rightarrow> string option option" where
  "genDP E X force_igd1 = genServiceDesc E X scpdDP force_igd1"

section \<open>The values of the evented variables\<close>

text \<open>
  The state of the connection is that of the address of the external interface (\<open>GETIFADDR_IF_DOWN\<close> does not
  occur in the build with \<open>getifaddrs\<close>).
\<close>

definition get_wan_connection_status :: "ifaddrs list option \<Rightarrow> string option \<Rightarrow> nat" where
  "get_wan_connection_status sys ifname =
     (case getifaddr sys ifname of Inr _ \<Rightarrow> 2
      | Inl e \<Rightarrow> if e = GETIFADDR_NO_ADDRESS then 5 else 0)"

definition get_wan_connection_status_str :: "ifaddrs list option \<Rightarrow> string option \<Rightarrow> string option" where
  "get_wan_connection_status_str sys ifname =
     str_at [Some ''Unconfigured'', Some ''Connecting'', Some ''Connected'', Some ''PendingDisconnect'', Some ''Disconnecting'', Some ''Disconnected'']
       (get_wan_connection_status sys ifname)"

definition event_value :: "('s, 're, 'k, 'h) http_env \<Rightarrow> 's redirect_state \<Rightarrow> nat \<Rightarrow> piece list option" where
  "event_value E st e =
     (let S = ht_soap E; N = so_nat S
      in if e = 0 then Some []
         else if enable_dp S \<and> e = SETUPREADY_MAGICALVALUE then Some [Str ''1'']
         else if e = CONNECTIONSTATUS_MAGICALVALUE
         then map_option (\<lambda>s. [Str s]) (str_at upnpallowedvalues (18 + get_wan_connection_status (if_list N) (ext_if_name N)))
         else if enable_6fc S \<and> e = FIREWALLENABLED_MAGICALVALUE then Some [Str (if ipv6fc_fw_disabled S then ''0'' else ''1'')]
         else if enable_6fc S \<and> e = INBOUNDPINHOLEALLOWED_MAGICALVALUE then Some [Str (if ipv6fc_inbound_disallowed S then ''0'' else ''1'')]
         else if igd_v2 S \<and> e = SYSTEMUPDATEID_MAGICALVALUE then Some [Str ''1'']
         else if e = PORTMAPPINGNUMBEROFENTRIES_MAGICALVALUE
         then map_option (\<lambda>n. [Str (take 15 (dec n))]) (upnp_get_portmapping_number_of_entries (so_redir S) st)
         else if e = EXTERNALIPADDRESS_MAGICALVALUE
         then Some [Str (case use_ext_ip_addr N of Some s \<Rightarrow> s
               | None \<Rightarrow>
                   (case getifaddr (if_list N) (ext_if_name N) of
                      Inl _ \<Rightarrow> ''0.0.0.0''
                    | Inr (addr, _) \<Rightarrow> if \<not> allow_private_ipv4 N \<and> addr_is_reserved addr then ''0.0.0.0'' else inet_ntop addr))]
         else if e = DEFAULTCONNECTIONSERVICE_MAGICALVALUE
         then Some [Str (uuidvalue_wcd S),
                    Str (if igd_v2 S then '':WANConnectionDevice:2,urn:upnp-org:serviceId:WANIPConn1''
                         else '':WANConnectionDevice:1,urn:upnp-org:serviceId:WANIPConn1'')]
         else map_option (\<lambda>s. [Str s]) (str_at upnpallowedvalues e))"

definition event_pieces :: "('s, 're, 'k, 'h) http_env \<Rightarrow> 's redirect_state \<Rightarrow> stateVar \<Rightarrow> piece list option" where
  "event_pieces E st v =
     (if itype v AND 0x80 \<noteq> 0
      then map_option (\<lambda>ps. [Str ''<e:property><'', Str (var_name v), Str ''>''] @ ps @ [Str ''</'', Str (var_name v), Str ''></e:property>''])
             (event_value E st (ieventvalue v))
      else Some [])"

definition genEventVars :: "('s, 're, 'k, 'h) http_env \<Rightarrow> desc_texts \<Rightarrow> serviceDesc \<Rightarrow> 's redirect_state \<Rightarrow> string option option" where
  "genEventVars E X s st =
     (if desc_malloc X 512
      then Option.bind (pieces_of (event_pieces E st) (serviceStateTable s)) (\<lambda>ps.
           Option.bind (strcat_all X ([Str (''<e:propertyset xmlns:e='' @ quoted ''urn:schemas-upnp-org:event-1-0'' @ ''>'')] @ ps @ [Str ''</e:propertyset>''])
                          \<lparr>sb_str = [], sb_tmplen = 512\<rparr>) finish_buf)
      else Some None)"

text \<open>The functions that the events code calls, by service.\<close>

definition getVars ::
  "('s, 're, 'k, 'h) http_env \<Rightarrow> desc_texts \<Rightarrow> subscriber_service_enum \<Rightarrow> 's redirect_state \<Rightarrow> string option option" where
  "getVars E X service st =
     (case service of EWanCFG \<Rightarrow> genEventVars E X scpdWANCfg st | EWanIPC \<Rightarrow> genEventVars E X (scpdWANIPCn E) st
      | EL3F \<Rightarrow> genEventVars E X scpdL3F st | E6FC \<Rightarrow> genEventVars E X scpd6FC st | EDP \<Rightarrow> genEventVars E X scpdDP st)"

text \<open>The descriptions that the HTTP server serves.\<close>

definition with_descriptions :: "desc_texts \<Rightarrow> ('s, 're, 'k, 'h) http_env \<Rightarrow> ('s, 're, 'k, 'h) http_env" where
  "with_descriptions X E =
     E\<lparr>desc_root := \<lambda>v1. Option.bind (genRootDesc E X v1) id, desc_WANIPCn := \<lambda>v1. Option.bind (genWANIPCn E X v1) id,
       desc_WANCfg := \<lambda>v1. Option.bind (genWANCfg E X v1) id, desc_L3F := \<lambda>v1. Option.bind (genL3F E X v1) id,
       desc_6FC := \<lambda>v1. Option.bind (gen6FC E X v1) id, desc_DP := \<lambda>v1. Option.bind (genDP E X v1) id\<rparr>"

end
