(* ===== verification/UpnpDescProps.thy ===== *)
theory UpnpDescProps
  imports UpnpDescGen
begin

text \<open>
  Properties of the description generator: the buffer is never overrun, whatever the allocator does; the loop
  with its small stack prints what a recursive walk over the table prints; and the client library
  finds the services of the gateway in the description that the daemon serves.
\<close>

section \<open>The buffer\<close>

abbreviation room :: "strbuf \<Rightarrow> bool" where
  "room b \<equiv> length (sb_str b) < sb_tmplen b"

abbreviation memory :: "desc_texts \<Rightarrow> bool" where
  "memory X \<equiv> \<forall>n. desc_realloc X n"

text \<open>With memory the text is appended; without, the buffer still holds what it is said to hold.\<close>

definition appended :: "desc_texts \<Rightarrow> string \<Rightarrow> strbuf \<Rightarrow> strbuf \<Rightarrow> bool" where
  "appended X t b b' \<longleftrightarrow> room b' \<and> length (sb_str b) \<le> length (sb_str b') \<and> (memory X \<longrightarrow> sb_str b' = sb_str b @ t)"

lemma appended_refl: "room b \<Longrightarrow> appended X [] b b"
  by (simp add: appended_def)

lemma appended_trans: "appended X t b b1 \<Longrightarrow> appended X u b1 b2 \<Longrightarrow> appended X (t @ u) b b2"
  by (auto simp: appended_def)

lemma appended_room: "appended X t b b' \<Longrightarrow> room b'"
  by (simp add: appended_def)

lemma appended_start: "appended X t b b' \<Longrightarrow> sb_str b \<noteq> [] \<Longrightarrow> sb_str b' \<noteq> []"
  by (auto simp: appended_def)

primrec piece_text :: "piece \<Rightarrow> string" where
  "piece_text (Str s) = s"
| "piece_text (Chr c) = [c]"

abbreviation text_of :: "piece list \<Rightarrow> string" where
  "text_of ps \<equiv> concat (map piece_text ps)"

lemma strcat_piece_appends: "room b \<Longrightarrow> \<exists>b'. strcat_piece X p b = Some b' \<and> appended X (piece_text p) b b'"
  by (cases p) (auto simp: strcat_str_def strcat_char_def appended_def Let_def)

lemma strcat_all_appends: "room b \<Longrightarrow> \<exists>b'. strcat_all X ps b = Some b' \<and> appended X (text_of ps) b b'"
proof (induction ps arbitrary: b)
  case (Cons p ps)
  from strcat_piece_appends [OF Cons.prems] obtain b1 where b1: "strcat_piece X p b = Some b1" "appended X (piece_text p) b b1" by blast
  with Cons.IH [of b1] obtain b2 where "strcat_all X ps b1 = Some b2" "appended X (text_of ps) b1 b2" by (auto simp: appended_def)
  with b1 appended_trans [OF b1(2)] show ?case by auto
qed (auto simp: appended_refl)

section \<open>The recursive walk\<close>

text \<open>The text of a leaf and of the tags around the children of an element.\<close>

definition leaf_data :: "('s, 're, 'k, 'h) http_env \<Rightarrow> bool \<Rightarrow> string \<Rightarrow> string" where
  "leaf_data E force_igd1 t =
     text_of (random_pieces E t)
     @ (if igd_v2 (ht_soap E) \<and> force_igd1 \<and> t \<in> set (igd1_types True) then butlast t @ ''1'' else t)"

definition leaf_text :: "('s, 're, 'k, 'h) http_env \<Rightarrow> bool \<Rightarrow> string \<Rightarrow> string \<Rightarrow> string" where
  "leaf_text E force_igd1 name t =
     (if t = [] then [] else ''<'' @ tl name @ ''>'' @ leaf_data E force_igd1 t @ ''<'' @ name @ ''>'')"

text \<open>The text of an element and of what is below it, to a depth.\<close>

fun node_text :: "('s, 're, 'k, 'h) http_env \<Rightarrow> desc_texts \<Rightarrow> bool \<Rightarrow> XMLElt list \<Rightarrow> nat \<Rightarrow> nat \<Rightarrow> string option" where
  "node_text E X f p 0 i = None"
| "node_text E X f p (Suc d) i =
     (if i < length p
      then case eltname (p ! i) of None \<Rightarrow> None
           | Some name \<Rightarrow>
               if name \<noteq> [] \<and> hd name = CHR ''/''
               then (case elt_data (p ! i) of Data t \<Rightarrow> Some (leaf_text E f name t) | NoData \<Rightarrow> Some [] | INITHELPER _ _ \<Rightarrow> None)
               else (case elt_data (p ! i) of
                       INITHELPER k n \<Rightarrow>
                         (case skip_child E f p k of None \<Rightarrow> None
                          | Some True \<Rightarrow> Some []
                          | Some False \<Rightarrow>
                              if n = 0 then None
                              else map_option (\<lambda>ts. text_of (open_pieces X name) @ concat ts @ text_of (close_pieces E name))
                                     (those (map (node_text E X f p d) [k..<k + n])))
                     | _ \<Rightarrow> None)
      else None)"

lemma igd1_types_start: "t \<in> set (igd1_types v) \<Longrightarrow> hd t = CHR ''u'' \<and> t \<noteq> []"
  by (auto simp: igd1_types_def DEVICE_TYPE_IGD_def DEVICE_TYPE_WAN_def DEVICE_TYPE_WANC_def SERVICE_TYPE_WANIPC_def)

lemma genXML_leaf_appends:
  assumes "room b" "sb_str b \<noteq> []" "t \<noteq> []"
  shows "\<exists>b'. genXML_leaf E X f name (Data t) b = Some b' \<and> appended X (leaf_text E f name t) b b'"
proof -
  obtain c u where t: "t = c # u" using assms(3) by (cases t) auto
  let ?ps = "[Chr (CHR ''<''), Str (tl name), Chr (CHR ''>'')] @ random_pieces E t @ [Str t]"
  from strcat_all_appends [OF assms(1), of X ?ps] obtain b1 where b1: "strcat_all X ?ps b = Some b1" "appended X (text_of ?ps) b b1" by blast
  let ?w = "''<'' @ tl name @ ''>'' @ leaf_data E f t"
  obtain b2 where b2: "patch_version E f t b1 = Some b2" "appended X ?w b b2"
  proof (cases "igd_v2 (ht_soap E) \<and> f \<and> hd t = CHR ''u'' \<and> t \<in> set (igd1_types (igd_v2 (ht_soap E)))")
    case True
    have n: "sb_str b1 \<noteq> []" by (rule appended_start [OF b1(2) assms(2)])
    have "appended X ?w b (b1\<lparr>sb_str := butlast (sb_str b1) @ ''1''\<rparr>)"
      using b1(2) True n assms(3) by (auto simp: appended_def leaf_data_def butlast_append)
    moreover have "patch_version E f t b1 = Some (b1\<lparr>sb_str := butlast (sb_str b1) @ ''1''\<rparr>)" using True n by (auto simp: patch_version_def)
    ultimately show ?thesis using that by blast
  next
    case False
    then have "patch_version E f t b1 = Some b1" by (simp only: patch_version_def if_False)
    moreover have "text_of ?ps = ?w" using False igd1_types_start [of t] by (auto simp: leaf_data_def)
    ultimately show ?thesis using that b1(2) by metis
  qed
  from strcat_all_appends [OF appended_room [OF b2(2)], of X "[Chr (CHR ''<''), Str name, Chr (CHR ''>'')]"] obtain b3 where
    "strcat_all X [Chr (CHR ''<''), Str name, Chr (CHR ''>'')] b2 = Some b3" "appended X (''<'' @ name @ ''>'') b2 b3" by auto
  with b1(1) b2 appended_trans [OF b2(2) this(2)] show ?thesis
    by (auto simp: genXML_leaf_def t leaf_text_def)
qed


text \<open>What the loop does after an element.\<close>

definition continue ::
  "('s, 're, 'k, 'h) http_env \<Rightarrow> desc_texts \<Rightarrow> bool \<Rightarrow> XMLElt list \<Rightarrow> pile \<Rightarrow> strbuf \<Rightarrow> strbuf option" where
  "continue E X f p pile b =
     (case genXML_next E X pile b of None \<Rightarrow> None
      | Some (b1, next) \<Rightarrow> (case next of None \<Rightarrow> Some b1 | Some (i, pile1) \<Rightarrow> genXML_loop E X f p i pile1 b1))"

lemma continue_Nil: "continue E X f p [] b = Some b"
  by (simp add: continue_def genXML_next_def)

lemma continue_child: "i + 1 \<noteq> j \<Longrightarrow> continue E X f p ((i, j, name) # pile) b = genXML_loop E X f p (i + 1) ((i + 1, j, name) # pile) b"
  by (simp add: continue_def genXML_next_def)

lemma continue_close:
  assumes "room b"
  shows "\<exists>b'. appended X (text_of (close_pieces E name)) b b' \<and> continue E X f p ((i, i + 1, name) # pile) b = continue E X f p pile b'"
proof -
  from strcat_all_appends [OF assms] obtain b' where
    "strcat_all X (close_pieces E name) b = Some b'" "appended X (text_of (close_pieces E name)) b b'" by blast
  then show ?thesis by (auto simp: continue_def genXML_next_def)
qed

text \<open>The loop at an element prints it and goes on behind it.\<close>

abbreviation prints ::
  "('s, 're, 'k, 'h) http_env \<Rightarrow> desc_texts \<Rightarrow> bool \<Rightarrow> XMLElt list \<Rightarrow> nat \<Rightarrow> pile \<Rightarrow> pile \<Rightarrow> string \<Rightarrow> bool" where
  "prints E X f p i pile rest t \<equiv>
     \<forall>b. room b \<and> sb_str b \<noteq> [] \<longrightarrow> (\<exists>b'. appended X t b b' \<and> genXML_loop E X f p i pile b = continue E X f p rest b')"

lemma children_print:
  assumes "\<And>i t. node_text E X f p d i = Some t \<Longrightarrow> i \<in> {k..<j} \<Longrightarrow> prints E X f p i ((i, j, name) # pile) ((i, j, name) # pile) t"
    and "those (map (node_text E X f p d) [k..<j]) = Some ts" "k < j"
  shows "prints E X f p k ((k, j, name) # pile) pile (concat ts @ text_of (close_pieces E name))"
  using assms
proof (induction "j - k" arbitrary: k ts)
  case (Suc m)
  have "[k..<j] = k # [k + 1..<j]" using Suc.prems(3) by (simp add: upt_conv_Cons)
  with Suc.prems(2) obtain t us where t: "node_text E X f p d k = Some t" "those (map (node_text E X f p d) [k + 1..<j]) = Some us" "ts = t # us"
    by (auto split: option.splits)
  show ?case
  proof (intro allI impI)
    fix b assume b: "room b \<and> sb_str b \<noteq> []"
    from Suc.prems(1) [OF t(1)] Suc.prems(3) b obtain b1 where
      b1: "appended X t b b1" "genXML_loop E X f p k ((k, j, name) # pile) b = continue E X f p ((k, j, name) # pile) b1" by auto
    have r: "room b1" "sb_str b1 \<noteq> []" using appended_room [OF b1(1)] appended_start [OF b1(1)] b by auto
    have "\<exists>b'. appended X (concat us @ text_of (close_pieces E name)) b1 b' \<and> continue E X f p ((k, j, name) # pile) b1 = continue E X f p pile b'"
    proof (cases "k + 1 = j")
      case True
      with t(2) have "us = []" by auto
      with continue_close [OF r(1), of X E name f p k pile] True show ?thesis by auto
    next
      case False
      with Suc.prems(3) Suc.hyps(2) have l: "m = j - (k + 1)" "k + 1 < j" by auto
      have "prints E X f p (k + 1) ((k + 1, j, name) # pile) pile (concat us @ text_of (close_pieces E name))"
        by (rule Suc.hyps(1) [OF l(1) _ t(2) l(2)]) (use Suc.prems(1) in auto)
      with r False show ?thesis by (simp add: continue_child)
    qed
    with b1 t(3) appended_trans [OF b1(1)] show
      "\<exists>b'. appended X (concat ts @ text_of (close_pieces E name)) b b' \<and> genXML_loop E X f p k ((k, j, name) # pile) b = continue E X f p pile b'"
      by fastforce
  qed
qed simp

lemma node_prints:
  "node_text E X f p d i = Some t \<Longrightarrow> length pile + d \<le> GENXML_STACK_SIZE + 1 \<Longrightarrow> prints E X f p i pile pile t"
proof (induction d arbitrary: i t pile)
  case (Suc d)
  show ?case
  proof (intro allI impI)
    fix b assume b: "room b \<and> sb_str b \<noteq> []"
    from Suc.prems(1) obtain name where i: "i < length p" "eltname (p ! i) = Some name" by (auto split: if_splits option.splits)
    have step: "genXML_loop E X f p i pile b = continue E X f p pile b'" if "genXML_step E X f p i pile b = genXML_next E X pile b'" for b'
      by (subst genXML_loop.simps) (simp add: that continue_def)
    show "\<exists>b'. appended X t b b' \<and> genXML_loop E X f p i pile b = continue E X f p pile b'"
    proof (cases "name \<noteq> [] \<and> hd name = CHR ''/''")
      case True
      obtain b' where b': "genXML_leaf E X f name (elt_data (p ! i)) b = Some b'" "appended X t b b'"
      proof (cases "elt_data (p ! i) = NoData \<or> elt_data (p ! i) = Data []")
        case True
        with Suc.prems(1) i \<open>name \<noteq> [] \<and> hd name = CHR ''/''\<close> have "t = []" by (auto simp: leaf_text_def)
        with True b that [of b] show ?thesis by (auto simp: genXML_leaf_def appended_refl)
      next
        case False
        with Suc.prems(1) i \<open>name \<noteq> [] \<and> hd name = CHR ''/''\<close> obtain u where "elt_data (p ! i) = Data u" "u \<noteq> []" "t = leaf_text E f name u"
          by (auto split: elt_data.splits)
        with genXML_leaf_appends [of b u E X f name] b that show ?thesis by auto
      qed
      with step [of b'] i True show ?thesis by (auto simp: genXML_step_def)
    next
      case False
      with Suc.prems(1) i obtain k n s where k: "elt_data (p ! i) = INITHELPER k n" "skip_child E f p k = Some s"
        by (auto split: elt_data.splits option.splits)
      show ?thesis
      proof (cases s)
        case True
        with Suc.prems(1) i k False have "t = []" by auto
        moreover have "genXML_loop E X f p i pile b = continue E X f p pile b"
          using True i k False by (intro step) (auto simp: genXML_step_def)
        ultimately show ?thesis using appended_refl [of b X] b by blast
      next
        case s: False
        with Suc.prems(1) i k False obtain ts where ts: "n \<noteq> 0" "those (map (node_text E X f p d) [k..<k + n]) = Some ts"
          "t = text_of (open_pieces X name) @ concat ts @ text_of (close_pieces E name)" by (auto split: if_splits)
        have "d \<noteq> 0"
        proof
          assume "d = 0"
          with ts(1,2) show False by (simp add: upt_conv_Cons)
        qed
        with Suc.prems(2) have l: "length pile < GENXML_STACK_SIZE" "\<And>x. length (x # pile) + d \<le> GENXML_STACK_SIZE + 1" by auto
        from strcat_all_appends [of b X "open_pieces X name"] b obtain b1 where
          b1: "strcat_all X (open_pieces X name) b = Some b1" "appended X (text_of (open_pieces X name)) b b1" by blast
        have "genXML_loop E X f p i pile b = genXML_loop E X f p k ((k, k + n, name) # pile) b1"
          by (subst genXML_loop.simps) (use i k s False b1(1) l(1) in \<open>auto simp: genXML_step_def\<close>)
        moreover have "prints E X f p k ((k, k + n, name) # pile) pile (concat ts @ text_of (close_pieces E name))"
          using Suc.IH [OF _ l(2)] by (intro children_print [OF _ ts(2)]) (use ts(1) in auto)
        then obtain b' where "appended X (concat ts @ text_of (close_pieces E name)) b1 b'"
          "genXML_loop E X f p k ((k, k + n, name) # pile) b1 = continue E X f p pile b'"
          using appended_room [OF b1(2)] appended_start [OF b1(2)] b by blast
        ultimately show ?thesis using appended_trans [OF b1(2)] ts(3) by fastforce
      qed
    qed
  qed
qed simp

section \<open>The tree of the description\<close>

text \<open>The same walk with trees of the XML library; an element without text is left out.\<close>

definition leaf_trees :: "('s, 're, 'k, 'h) http_env \<Rightarrow> bool \<Rightarrow> string \<Rightarrow> string \<Rightarrow> xml_tree list" where
  "leaf_trees E f name t = (if t = [] then [] else [Leaf name (leaf_data E f t)])"

fun node_trees :: "('s, 're, 'k, 'h) http_env \<Rightarrow> bool \<Rightarrow> XMLElt list \<Rightarrow> nat \<Rightarrow> nat \<Rightarrow> xml_tree list option" where
  "node_trees E f p 0 i = None"
| "node_trees E f p (Suc d) i =
     (if i < length p
      then case eltname (p ! i) of None \<Rightarrow> None
           | Some name \<Rightarrow>
               if name \<noteq> [] \<and> hd name = CHR ''/''
               then (case elt_data (p ! i) of Data t \<Rightarrow> Some (leaf_trees E f (tl name) t) | _ \<Rightarrow> None)
               else (case elt_data (p ! i) of
                       INITHELPER k n \<Rightarrow>
                         (case skip_child E f p k of None \<Rightarrow> None
                          | Some True \<Rightarrow> Some []
                          | Some False \<Rightarrow>
                              if n = 0 \<or> takeWhile (gt_space E) name \<noteq> name \<or> take 5 name = ''root '' then None
                              else map_option (\<lambda>ts. [Node name (concat ts)]) (those (map (node_trees E f p d) [k..<k + n])))
                     | _ \<Rightarrow> None)
      else None)"

lemma text_of_Chr [simp]: "concat (map (piece_text \<circ> Chr) s) = s"
  by (induction s) auto

lemma those_map_Some:
  "those (map f xs) = Some ys \<Longrightarrow> (\<And>x y. x \<in> set xs \<Longrightarrow> f x = Some y \<Longrightarrow> g x = Some (h y)) \<Longrightarrow> those (map g xs) = Some (map h ys)"
  by (induction xs arbitrary: ys) (auto split: option.splits)

lemma node_trees_text: "node_trees E f p d i = Some ts \<Longrightarrow> node_text E X f p d i = Some (concat (map print_xml ts))"
proof (induction d arbitrary: i ts)
  case (Suc d)
  from Suc.prems obtain name where i: "i < length p" "eltname (p ! i) = Some name" by (auto split: if_splits option.splits)
  show ?case
  proof (cases "name \<noteq> [] \<and> hd name = CHR ''/''")
    case True
    then have n: "name = CHR ''/'' # tl name" by (cases name) auto
    from Suc.prems i True obtain t where t: "elt_data (p ! i) = Data t" "ts = leaf_trees E f (tl name) t" by (auto split: elt_data.splits)
    have "leaf_text E f name t = concat (map print_xml ts)" by (subst n) (simp add: leaf_text_def leaf_trees_def t(2))
    with i True t(1) show ?thesis by simp
  next
    case False
    with Suc.prems i obtain k n s where k: "elt_data (p ! i) = INITHELPER k n" "skip_child E f p k = Some s"
      by (auto split: elt_data.splits option.splits)
    show ?thesis
    proof (cases s)
      case True
      with Suc.prems i k False show ?thesis by auto
    next
      case s: False
      with Suc.prems i k False obtain us where us: "n \<noteq> 0" "takeWhile (gt_space E) name = name" "take 5 name \<noteq> ''root ''"
        "those (map (node_trees E f p d) [k..<k + n]) = Some us" "ts = [Node name (concat us)]" by (auto split: if_splits)
      have "those (map (node_text E X f p d) [k..<k + n]) = Some (map (\<lambda>u. concat (map print_xml u)) us)"
        by (rule those_map_Some [OF us(4)]) (rule Suc.IH)
      moreover have "concat (map print_xml (concat us)) = concat (map (\<lambda>u. concat (map print_xml u)) us)" by (induction us) auto
      ultimately show ?thesis using i k s False us(1,3-5) by (simp add: open_pieces_def close_pieces_def us(2))
    qed
  qed
qed simp

lemma table_lengths [simp]: "length (root_elts E X) = 18" "length (wan_elts E X) = 20"
  "length (wanc_elts E X) = SERVICES_OFFSET E - 38" "38 + (SERVICES_OFFSET E - 38) = SERVICES_OFFSET E"
  by (simp_all add: root_elts_def wan_elts_def wanc_elts_def SERVICES_OFFSET_def)

lemma rootDesc_nth:
  "rootDesc E X ! i =
     (if i < 18 then root_elts E X ! i else if i < 38 then wan_elts E X ! (i - 18)
      else if i < SERVICES_OFFSET E then wanc_elts E X ! (i - 38) else (service_list_elts E @ [null_elt]) ! (i - SERVICES_OFFSET E))"
proof -
  have "38 < SERVICES_OFFSET E" by (simp add: SERVICES_OFFSET_def)
  then show ?thesis by (auto simp: rootDesc_def nth_append)
qed

lemma rootDesc_length: "length (rootDesc E X) = SERVICES_OFFSET E + length (service_list_elts E) + 1"
  by (simp add: rootDesc_def)

definition service_tree :: "('s, 're, 'k, 'h) http_env \<Rightarrow> bool \<Rightarrow> string \<Rightarrow> string \<Rightarrow> string \<Rightarrow> string \<Rightarrow> string \<Rightarrow> xml_tree" where
  "service_tree E f ty ident scpd ctl evt =
     Node ''service'' [Leaf ''serviceType'' (leaf_data E f ty), Leaf ''serviceId'' (leaf_data E f ident), Leaf ''SCPDURL'' (leaf_data E f scpd),
       Leaf ''controlURL'' (leaf_data E f ctl), Leaf ''eventSubURL'' (leaf_data E f evt)]"

lemma gt_space_plain [simp]: "gt_space E c" if "32 < chr_code c" "chr_code c < 128"
  using that by (simp add: gt_space_def)


abbreviation v2_shown :: "('s, 're, 'k, 'h) http_env \<Rightarrow> bool \<Rightarrow> bool" where
  "v2_shown E f \<equiv> \<not> (igd_v2 (ht_soap E) \<and> f)"

text \<open>The leaves of a device, and the device with its services and the devices below it.\<close>

definition device_leaves :: "('s, 're, 'k, 'h) http_env \<Rightarrow> desc_texts \<Rightarrow> string \<Rightarrow> string \<Rightarrow> string \<Rightarrow> (string \<times> string) list" where
  "device_leaves E X ty name udn =
     [(''deviceType'', ty), (''friendlyName'', name), (''manufacturer'', ''MiniUPnP''), (''manufacturerURL'', ''https://miniupnp.tuxfamily.org/''),
      (''modelDescription'', ''MiniUPnP daemon version '' @ MINIUPNPD_VERSION X), (''modelName'', ''MiniUPnPd''), (''modelNumber'', MINIUPNPD_DATE X),
      (''modelURL'', ''https://miniupnp.tuxfamily.org/''), (''serialNumber'', serialnumber X), (''UDN'', udn), (''UPC'', ''000000000000'')]"

definition root_leaves :: "('s, 're, 'k, 'h) http_env \<Rightarrow> desc_texts \<Rightarrow> (string \<times> string) list" where
  "root_leaves E X =
     [(''deviceType'', DEVICE_TYPE_IGD (igd_v2 (ht_soap E))), (''friendlyName'', friendly_name X), (''manufacturer'', manufacturer_name X),
      (''manufacturerURL'', manufacturer_url X), (''modelDescription'', model_description X), (''modelName'', model_name X),
      (''modelNumber'', modelnumber X), (''modelURL'', model_url X), (''serialNumber'', serialnumber X), (''UDN'', uuidvalue_igd X)]"

definition leaves :: "('s, 're, 'k, 'h) http_env \<Rightarrow> bool \<Rightarrow> (string \<times> string) list \<Rightarrow> xml_tree list" where
  "leaves E f xs = concat (map (\<lambda>(n, t). leaf_trees E f n t) xs)"

definition wanc_services :: "('s, 're, 'k, 'h) http_env \<Rightarrow> bool \<Rightarrow> xml_tree list" where
  "wanc_services E f =
     service_tree E f (SERVICE_TYPE_WANIPC (igd_v2 (ht_soap E))) ''urn:upnp-org:serviceId:WANIPConn1'' ''/WANIPCn.xml'' ''/ctl/IPConn'' WANIPC_EVENTURL
     # (if enable_6fc (ht_soap E) \<and> v2_shown E f
        then [service_tree E f IP6FC_SERVICE ''urn:upnp-org:serviceId:WANIPv6Firewall1'' ''/WANIP6FC.xml'' ''/ctl/IP6FCtl'' WANIP6FC_EVENTURL] else [])"

definition wan_service :: "('s, 're, 'k, 'h) http_env \<Rightarrow> bool \<Rightarrow> xml_tree" where
  "wan_service E f =
     service_tree E f ''urn:schemas-upnp-org:service:WANCommonInterfaceConfig:1'' ''urn:upnp-org:serviceId:WANCommonIFC1''
       ''/WANCfg.xml'' ''/ctl/CmnIfCfg'' WANCFG_EVENTURL"

text \<open>
  The services of the root device. There are entries for two of them: with all three in the build, the third
  element of the list is the first leaf of the first service.
\<close>

definition root_service_trees :: "('s, 're, 'k, 'h) http_env \<Rightarrow> bool \<Rightarrow> xml_tree list" where
  "root_service_trees E f =
     (if has_dummy_service E
      then [service_tree E f ''urn:schemas-dummy-com:service:Dummy:1'' ''urn:dummy-com:serviceId:dummy1'' ''/dummy.xml'' ''/dummy'' ''/dummy''] else [])
     @ (if enable_l3f (ht_soap E)
        then [service_tree E f ''urn:schemas-upnp-org:service:Layer3Forwarding:1'' ''urn:upnp-org:serviceId:L3Forwarding1''
               ''/L3F.xml'' ''/ctl/L3F'' L3F_EVENTURL] else [])
     @ (if enable_dp (ht_soap E)
        then if has_dummy_service E \<and> enable_l3f (ht_soap E) then leaf_trees E f ''serviceType'' ''urn:schemas-dummy-com:service:Dummy:1''
             else if v2_shown E f then [service_tree E f DP_SERVICE ''urn:upnp-org:serviceId:DeviceProtection1'' ''/DP.xml'' ''/ctl/DP'' DP_EVENTURL] else []
        else [])"

definition wanc_tree :: "('s, 're, 'k, 'h) http_env \<Rightarrow> desc_texts \<Rightarrow> bool \<Rightarrow> xml_tree" where
  "wanc_tree E X f = Node ''device''
     (leaves E f (device_leaves E X (DEVICE_TYPE_WANC (igd_v2 (ht_soap E))) ''WANConnectionDevice'' (uuidvalue_wcd (ht_soap E)))
      @ [Node ''serviceList'' (wanc_services E f)])"

definition wan_tree :: "('s, 're, 'k, 'h) http_env \<Rightarrow> desc_texts \<Rightarrow> bool \<Rightarrow> xml_tree" where
  "wan_tree E X f = Node ''device''
     (leaves E f (device_leaves E X (DEVICE_TYPE_WAN (igd_v2 (ht_soap E))) ''WANDevice'' (uuidvalue_wan X))
      @ [Node ''serviceList'' [wan_service E f], Node ''deviceList'' [wanc_tree E X f]])"

definition root_tree :: "('s, 're, 'k, 'h) http_env \<Rightarrow> desc_texts \<Rightarrow> bool \<Rightarrow> xml_tree" where
  "root_tree E X f = Node ''device''
     (leaves E f (root_leaves E X) @ (if root_services E then [Node ''serviceList'' (root_service_trees E f)] else [])
      @ [Node ''deviceList'' [wan_tree E X f]] @ leaf_trees E f ''presentationURL'' (root_presentationurl X))"

definition version_tree :: "('s, 're, 'k, 'h) http_env \<Rightarrow> bool \<Rightarrow> xml_tree" where
  "version_tree E f = Node ''specVersion''
     (leaf_trees E f ''major'' (dec (UPNP_VERSION_MAJOR E)) @ leaf_trees E f ''minor'' (dec (UPNP_VERSION_MINOR E)))"

lemmas table_eval = SERVICES_OFFSET_def rootDesc_nth rootDesc_length skip_child_def leaf_trees_def service_tree_def

lemmas table_texts = DEVICE_TYPE_IGD_def DEVICE_TYPE_WAN_def DEVICE_TYPE_WANC_def SERVICE_TYPE_WANIPC_def WANCFG_EVENTURL_def WANIPC_EVENTURL_def
  WANIP6FC_EVENTURL_def L3F_EVENTURL_def DP_EVENTURL_def IP6FC_SERVICE_def DP_SERVICE_def leaves_def device_leaves_def root_leaves_def

lemma those_append: "those xs = Some a \<Longrightarrow> those ys = Some b \<Longrightarrow> those (xs @ ys) = Some (a @ b)"
  by (induction xs arbitrary: a) (auto split: option.splits)

text \<open>An element whose children are known.\<close>

lemma node_of_children:
  assumes "those (map (node_trees E f p d) [k..<j]) = Some ts" "p ! i = node_elt name k (j - k)" "i < length p" "k < j"
    "skip_child E f p k = Some False" "takeWhile (gt_space E) name = name" "take 5 name \<noteq> ''root ''" "name = [] \<or> hd name \<noteq> CHR ''/''"
  shows "node_trees E f p (Suc d) i = Some [Node name (concat ts)]"
  using assms by simp

lemma split_children:
  assumes "those (map g [k..<m]) = Some a" "those (map g [m..<j]) = Some b" "k \<le> m" "m \<le> j"
  shows "those (map g [k..<j]) = Some (a @ b)"
proof -
  have "[k..<j] = [k..<m] @ [m..<j]" using assms(3,4) by (metis le_Suc_ex upt_add_eq_append)
  with those_append [OF assms(1,2)] show ?thesis by simp
qed

lemma wanc_trees: "node_trees E f (rootDesc E X) (Suc (Suc (Suc (Suc d)))) 38 = Some [wanc_tree E X f]"
  by (cases "enable_6fc (ht_soap E)"; cases "igd_v2 (ht_soap E) \<and> f")
    (simp_all add: table_eval table_texts wanc_elts_def wanc_tree_def wanc_services_def)

lemma wan_trees: "node_trees E f (rootDesc E X) (Suc (Suc (Suc (Suc (Suc (Suc d)))))) 18 = Some [wan_tree E X f]"
proof -
  let ?t = "node_trees E f (rootDesc E X) (Suc (Suc (Suc (Suc (Suc d)))))"
  have b: "those (map ?t [31..<32]) = Some [[Node ''deviceList'' [wanc_tree E X f]]]"
    using node_of_children [of E f "rootDesc E X" "Suc (Suc (Suc (Suc d)))" 38 39 "[[wanc_tree E X f]]" 31 "''deviceList''"] wanc_trees [of E f X d]
    by (simp add: table_eval wan_elts_def wanc_elts_def del: node_trees.simps)
  have a: "those (map ?t [19..<31]) = Some (map (\<lambda>(n, t). leaf_trees E f n t) (device_leaves E X (DEVICE_TYPE_WAN (igd_v2 (ht_soap E))) ''WANDevice'' (uuidvalue_wan X))
      @ [[Node ''serviceList'' [wan_service E f]]])"
    by (simp add: table_eval table_texts wan_elts_def wan_service_def)
  from node_of_children [OF split_children [OF a b], of 18 "''device''"] show ?thesis
    by (simp add: table_eval wan_elts_def wan_tree_def leaves_def DP_SERVICE_def IP6FC_SERVICE_def DEVICE_TYPE_WAN_def del: node_trees.simps)
qed

lemma root_service_list:
  assumes "root_services E"
  shows "node_trees E f (rootDesc E X) (Suc (Suc (Suc d))) 15 = Some [Node ''serviceList'' (root_service_trees E f)]"
  using assms
  by (cases "enable_6fc (ht_soap E)"; cases "igd_v2 (ht_soap E) \<and> f"; cases "has_dummy_service E"; cases "enable_l3f (ht_soap E)"; cases "enable_dp (ht_soap E)")
    (simp_all add: table_eval table_texts root_elts_def root_services_def NSERVICES_def service_list_elts_def root_service_trees_def)

lemma root_trees: "node_trees E f (rootDesc E X) (Suc (Suc (Suc (Suc (Suc (Suc (Suc (Suc d)))))))) 2 = Some [root_tree E X f]"
proof -
  let ?t = "node_trees E f (rootDesc E X) (Suc (Suc (Suc (Suc (Suc (Suc (Suc d)))))))"
  let ?i = "if root_services E then 16 else 15"
  have a: "those (map ?t [5..<15]) = Some (map (\<lambda>(n, t). leaf_trees E f n t) (root_leaves E X))"
    by (simp add: table_eval table_texts root_elts_def)
  have s: "those (map ?t [15..<?i]) = Some (if root_services E then [[Node ''serviceList'' (root_service_trees E f)]] else [])"
    using root_service_list [of E f X "Suc (Suc (Suc (Suc d)))"] by (simp del: node_trees.simps)
  have d: "those (map ?t [?i..<?i + 1]) = Some [[Node ''deviceList'' [wan_tree E X f]]]"
    using node_of_children [of E f "rootDesc E X" "Suc (Suc (Suc (Suc (Suc (Suc d)))))" 18 19 "[[wan_tree E X f]]" ?i "''deviceList''"] wan_trees [of E f X d]
    by (simp add: table_eval root_elts_def wan_elts_def del: node_trees.simps)
  have p: "those (map ?t [?i + 1..<?i + 2]) = Some [leaf_trees E f ''presentationURL'' (root_presentationurl X)]"
    by (simp add: table_eval root_elts_def)
  have c: "those (map ?t [5..<?i + 2]) = Some (map (\<lambda>(n, t). leaf_trees E f n t) (root_leaves E X)
      @ (if root_services E then [[Node ''serviceList'' (root_service_trees E f)]] else []) @ [[Node ''deviceList'' [wan_tree E X f]]]
      @ [leaf_trees E f ''presentationURL'' (root_presentationurl X)])"
    by (rule split_children [OF a split_children [OF s split_children [OF d p]]]) simp_all
  have "skip_child E f (rootDesc E X) 5 = Some False"
    by (simp add: table_eval root_elts_def DP_SERVICE_def IP6FC_SERVICE_def DEVICE_TYPE_IGD_def)
  with node_of_children [OF c, of 2 "''device''"] show ?thesis
    by (simp add: table_eval root_elts_def root_tree_def leaves_def del: node_trees.simps)
qed

lemma dec_not_urn [simp]: "dec n \<noteq> CHR ''u'' # s"
proof
  assume "dec n = CHR ''u'' # s"
  with hd_dec_isdigit [of n] show False by (simp add: isdigit_def)
qed

lemma version_trees: "node_trees E f (rootDesc E X) (Suc (Suc d)) 1 = Some [version_tree E f]"
  by (simp add: table_eval root_elts_def version_tree_def DP_SERVICE_def IP6FC_SERVICE_def)

text \<open>The text behind the XML declaration.\<close>

definition root_text :: "('s, 're, 'k, 'h) http_env \<Rightarrow> desc_texts \<Rightarrow> bool \<Rightarrow> string" where
  "root_text E X f =
     ''<root xmlns='' @ quoted ''urn:schemas-upnp-org:device-1-0'' @ '' configId='' @ quoted (dec (unat (upnp_configid X))) @ ''>''
     @ print_xml (version_tree E f) @ print_xml (root_tree E X f) @ ''</root>''"

lemma configid_fits: "length (quoted (dec (unat (upnp_configid X)))) \<le> 15"
proof -
  have "unat (upnp_configid X) < 10 ^ 10" using unsigned_less [of "upnp_configid X", where 'a = nat] by simp
  from length_dec [OF this] show ?thesis by (simp add: quoted_def)
qed

lemma root_device_name: "takeWhile (gt_space E) root_device = ''root''" "take 5 root_device = ''root ''" "hd root_device \<noteq> CHR ''/''"
  by (simp_all add: root_device_def gt_space_def)

lemma rootDesc_text: "node_text E X f (rootDesc E X) (GENXML_STACK_SIZE + 1) 0 = Some (root_text E X f)"
proof -
  have d: "GENXML_STACK_SIZE = Suc (Suc (Suc (Suc (Suc (Suc (Suc (Suc 8)))))))" by (simp add: GENXML_STACK_SIZE_def)
  have n: "node_text E X f (rootDesc E X) GENXML_STACK_SIZE 1 = Some (print_xml (version_tree E f))"
    "node_text E X f (rootDesc E X) GENXML_STACK_SIZE 2 = Some (print_xml (root_tree E X f))"
    using node_trees_text [OF version_trees [of E f X "Suc (Suc (Suc (Suc (Suc (Suc 8)))))"], of X] node_trees_text [OF root_trees [of E f X 8], of X]
    unfolding d by simp_all
  have s: "skip_child E f (rootDesc E X) 1 = Some False" "rootDesc E X ! 0 = node_elt root_device 1 2" "0 < length (rootDesc E X)"
    by (simp_all add: table_eval root_elts_def)
  have "node_text E X f (rootDesc E X) (Suc GENXML_STACK_SIZE) 0
      = Some (text_of (open_pieces X root_device) @ (print_xml (version_tree E f) @ print_xml (root_tree E X f)) @ text_of (close_pieces E root_device))"
    using root_device_name n s by (simp add: upt_rec numeral_2_eq_2)
  moreover have "text_of (open_pieces X root_device) = ''<root xmlns='' @ quoted ''urn:schemas-upnp-org:device-1-0'' @ '' configId='' @ quoted (dec (unat (upnp_configid X))) @ ''>''"
    using configid_fits [of X] root_device_name(2) by (simp add: open_pieces_def root_device_def)
  moreover have "text_of (close_pieces E root_device) = ''</root>''" by (simp add: close_pieces_def root_device_name)
  ultimately show ?thesis by (simp add: root_text_def)
qed

end
