(* ===== verification/UpnpDescSpec.thy ===== *)
theory UpnpDescSpec
  imports UpnpDescProps UpnpHttpSpec
begin

text \<open>
  What the descriptions promise: the generators never overrun their buffer, the client library
  finds the services of the gateway in the description of the daemon, the paths that are described are
  served, and every action that is described has a handler.
\<close>

section \<open>The client reads the description\<close>

lemma parseelt_skip: "s \<noteq> [] \<Longrightarrow> c \<noteq> CHR ''<'' \<or> hd s = CHR ''?'' \<Longrightarrow> parseelt (c # s) evs = parseelt s evs"
  by (subst parseelt.simps) (cases s, auto)

lemma parseelt_xmlver: "r \<noteq> [] \<Longrightarrow> parseelt (xmlver @ r) evs = parseelt r evs"
  by (simp add: xmlver_def quoted_def eol_def CR_def LF_def parseelt_skip)

definition root_open :: "desc_texts \<Rightarrow> string" where
  "root_open X = ''<root xmlns='' @ quoted ''urn:schemas-upnp-org:device-1-0'' @ '' configId='' @ quoted (dec (unat (upnp_configid X))) @ ''>''"

lemma dec_no_quote: "list_all (\<lambda>c. c \<noteq> CHR 0x22) (dec n)"
  using dec_set_isdigit [of "CHR 0x22" n] by (auto simp: list_all_iff isdigit_def)

lemma parse_configid:
  "parseatt (CHR '' '' # ''configId='' @ quoted (dec n) @ CHR ''>'' # r) evs = (Go (CHR ''>'' # r), evs @ [AttValue ''configId'' (dec n)])"
proof -
  have "scan_while (\<lambda>c. c \<noteq> CHR 0x22) (dec n @ CHR 0x22 # CHR ''>'' # r) 0 = Go (CHR 0x22 # CHR ''>'' # r, length (dec n))"
    using scan_while_append [OF dec_no_quote [of n], of "CHR 0x22 # CHR ''>'' # r" 0] by simp
  then show ?thesis
    by (simp add: parseatt.simps IS_WHITE_SPACE_def parse_one_att_def quoted_def att_value_def)
qed

lemma parse_xmlns:
  "parseatt (CHR '' '' # ''xmlns='' @ quoted ''urn:schemas-upnp-org:device-1-0'' @ r) evs = parseatt r (evs @ [AttValue ''xmlns'' ''urn:schemas-upnp-org:device-1-0''])"
  by (subst parseatt.simps, simp add: IS_WHITE_SPACE_def, subst parseatt.simps)
    (simp add: IS_WHITE_SPACE_def parse_one_att_def quoted_def att_value_def)

lemma root_open_read:
  assumes "1 < length d" "d ! 0 = CHR ''<''" "d ! 1 \<noteq> CHR ''!''"
  shows "parseelt (root_open X @ d) evs
    = parseelt d (evs @ [StartElt ''root'', AttValue ''xmlns'' ''urn:schemas-upnp-org:device-1-0'', AttValue ''configId'' (dec (unat (upnp_configid X)))])"
proof -
  let ?q = "CHR '' '' # ''configId='' @ quoted (dec (unat (upnp_configid X))) @ CHR ''>'' # d"
  let ?s = "CHR '' '' # ''xmlns='' @ quoted ''urn:schemas-upnp-org:device-1-0'' @ ?q"
  have e: "elt_name (''root'' @ ?s) 0 (''root'' @ ?s) = Go (?s, 4, ''root'' @ ?s)"
    by (simp add: IS_WHITE_SPACE_def)
  have "parse_starttag ''root'' ?s evs = (Go d, evs @ [StartElt ''root'', AttValue ''xmlns'' ''urn:schemas-upnp-org:device-1-0'', AttValue ''configId'' (dec (unat (upnp_configid X)))])"
    unfolding parse_starttag_def parse_xmlns parse_configid by (simp add: parse_content_element [OF assms])
  with e have "parse_tag (''root'' @ ?s) evs = (Go d, evs @ [StartElt ''root'', AttValue ''xmlns'' ''urn:schemas-upnp-org:device-1-0'', AttValue ''configId'' (dec (unat (upnp_configid X)))])"
    by (simp add: parse_tag_def)
  from parseelt_tag [OF _ _ _ this] show ?thesis by (simp add: root_open_def)
qed

lemma description_events:
  assumes "wf_tree (version_tree E f)" "wf_tree (root_tree E X f)"
  shows "parsexml (xmlver @ root_text E X f) = (Returned,
    [StartElt ''root'', AttValue ''xmlns'' ''urn:schemas-upnp-org:device-1-0'', AttValue ''configId'' (dec (unat (upnp_configid X)))]
    @ events_of (version_tree E f) @ events_of (root_tree E X f) @ [EndElt ''root''])"
proof -
  let ?d = "print_xml (version_tree E f) @ print_xml (root_tree E X f) @ ''</root>''"
  have t: "root_text E X f = root_open X @ ?d" by (simp add: root_text_def root_open_def)
  obtain c r where "print_xml (version_tree E f) = CHR ''<'' # c # r" "c \<noteq> CHR ''!''" using print_xml_start [OF assms(1)] by blast
  then have d: "1 < length ?d" "?d ! 0 = CHR ''<''" "?d ! 1 \<noteq> CHR ''!''" by simp_all
  have "parsexml (xmlver @ root_text E X f) = parseelt (root_open X @ ?d) []"
    unfolding t parsexml_def by (rule parseelt_xmlver) (simp add: root_open_def)
  also have "\<dots> = parseelt ''</root>'' ([StartElt ''root'', AttValue ''xmlns'' ''urn:schemas-upnp-org:device-1-0'', AttValue ''configId'' (dec (unat (upnp_configid X)))]
    @ events_of (version_tree E f) @ events_of (root_tree E X f))"
    unfolding root_open_read [OF d] parseelt_print [OF assms(1)] parseelt_print [OF assms(2)] by simp
  also have "\<dots> = (Returned, [StartElt ''root'', AttValue ''xmlns'' ''urn:schemas-upnp-org:device-1-0'', AttValue ''configId'' (dec (unat (upnp_configid X)))]
    @ events_of (version_tree E f) @ events_of (root_tree E X f) @ [EndElt ''root''])"
    using parse_endtag_close [of "''root''" "[]"] by (simp add: tag_name_def tag_char_def IS_WHITE_SPACE_def parseelt.simps [of "[]"])
  finally show ?thesis .
qed

text \<open>Texts without markup give a well-formed document.\<close>

abbreviation plain :: "string \<Rightarrow> bool" where
  "plain s \<equiv> list_all (\<lambda>c. c \<noteq> CHR ''<'') s"

definition plain_texts :: "('s, 're, 'k, 'h) http_env \<Rightarrow> desc_texts \<Rightarrow> bool" where
  "plain_texts E X \<longleftrightarrow>
     list_all plain [friendly_name X, manufacturer_name X, manufacturer_url X, model_description X, model_name X, modelnumber X, model_url X,
       serialnumber X, uuidvalue_igd X, uuidvalue_wan X, root_presentationurl X, MINIUPNPD_VERSION X, MINIUPNPD_DATE X, uuidvalue_wcd (ht_soap E)]
     \<and> (case random_url E of None \<Rightarrow> True | Some r \<Rightarrow> length r \<le> 64 \<and> list_all (\<lambda>c. c \<noteq> CHR ''<'' \<and> c \<noteq> CHR 0x00) r)"

lemma random_plain: "plain_texts E X \<Longrightarrow> random_url E = Some r \<Longrightarrow> length r \<le> 64 \<and> list_all (\<lambda>c. c \<noteq> CHR ''<'' \<and> c \<noteq> CHR 0x00) r"
  by (simp add: plain_texts_def)

lemma plain_leaf_data:
  assumes "plain_texts E X" "plain t"
  shows "plain (leaf_data E f t)"
proof -
  have "plain (text_of (random_pieces E t))"
  proof (cases "random_url E")
    case (Some r)
    with random_plain [OF assms(1)] have "plain r" by (auto simp: list_all_iff)
    with Some show ?thesis by (simp add: random_pieces_def)
  qed (simp add: random_pieces_def)
  moreover have "plain (butlast t @ ''1'')" using assms(2) by (auto simp: list_all_iff dest: in_set_butlastD)
  ultimately show ?thesis using assms(2) by (simp add: leaf_data_def)
qed

lemma wf_leaf: "plain_texts E X \<Longrightarrow> tag_name n \<Longrightarrow> plain t \<Longrightarrow> list_all wf_tree (leaf_trees E f n t)"
  by (simp add: leaf_trees_def plain_leaf_data)

lemma wf_service:
  "plain_texts E X \<Longrightarrow> plain a \<Longrightarrow> plain b \<Longrightarrow> plain c \<Longrightarrow> plain d \<Longrightarrow> plain e \<Longrightarrow> wf_tree (service_tree E f a b c d e)"
  by (simp add: service_tree_def plain_leaf_data tag_name_def tag_char_def IS_WHITE_SPACE_def)

lemma wf_leaves:
  assumes "plain_texts E X"
  shows "list_all (\<lambda>(n, t). tag_name n \<and> plain t) xs \<Longrightarrow> list_all wf_tree (leaves E f xs)"
  by (induction xs) (auto simp: leaves_def wf_leaf [OF assms])

lemmas tag_simps = tag_name_def tag_char_def IS_WHITE_SPACE_def

lemma no_markup_dec: "plain (dec n)"
  using dec_set_isdigit [of "CHR ''<''" n] by (auto simp: list_all_iff isdigit_def)

lemma description_wf:
  assumes "plain_texts E X"
  shows "wf_tree (version_tree E f)" "wf_tree (root_tree E X f)"
proof -
  show "wf_tree (version_tree E f)" by (simp add: version_tree_def wf_leaf [OF assms] no_markup_dec tag_simps)
  have s: "list_all wf_tree (wanc_services E f)" "wf_tree (wan_service E f)" "list_all wf_tree (root_service_trees E f)"
    by (auto simp: wanc_services_def wan_service_def root_service_trees_def table_texts urn_version_def tag_simps
        intro!: wf_service [OF assms] wf_leaf [OF assms])
  have "list_all (\<lambda>(n, t). tag_name n \<and> plain t) (device_leaves E X ty name udn)" if "plain ty" "plain name" "plain udn" for ty name udn
    using assms that by (simp add: device_leaves_def tag_simps plain_texts_def)
  note d = wf_leaves [OF assms this]
  have "list_all (\<lambda>(n, t). tag_name n \<and> plain t) (root_leaves E X)"
    using assms by (simp add: root_leaves_def tag_simps plain_texts_def DEVICE_TYPE_IGD_def urn_version_def)
  note r = wf_leaves [OF assms this]
  have t: "tag_name ''device''" "tag_name ''deviceList''" "tag_name ''serviceList''" "tag_name ''presentationURL''" by (simp_all add: tag_simps)
  have "wf_tree (wanc_tree E X f)"
    using assms s(1) d by (simp add: wanc_tree_def t plain_texts_def DEVICE_TYPE_WANC_def urn_version_def)
  then have "wf_tree (wan_tree E X f)"
    using assms s(2) d by (simp add: wan_tree_def t plain_texts_def DEVICE_TYPE_WAN_def urn_version_def)
  then show "wf_tree (root_tree E X f)"
    using assms s(3) r wf_leaf [OF assms t(4), of "root_presentationurl X"] by (simp add: root_tree_def t plain_texts_def)
qed

text \<open>What the client keeps of a document: only the elements named \<open>service\<close> matter.\<close>

definition found :: "IGDdatas \<Rightarrow> IGDdatas_service \<times> IGDdatas_service \<times> IGDdatas_service \<times> IGDdatas_service" where
  "found d = (igd_first d, igd_second d, CIF d, IPv6FC d)"

abbreviation run :: "xml_tree list \<Rightarrow> IGDdatas \<Rightarrow> IGDdatas" where
  "run ts d \<equiv> fold (xml_call igd_parser) (concat (map events_of ts)) d"

definition finds :: "xml_tree list \<Rightarrow> IGDdatas_service list \<Rightarrow> bool" where
  "finds ts ss \<longleftrightarrow> (\<forall>d. found (run ts d) = found (fold IGD_service ss d))"

lemma found_service: "found d = found d' \<Longrightarrow> found (IGD_service s d) = found (IGD_service s d')"
  by (simp add: found_def IGD_service_def Let_def)

lemma found_services: "found d = found d' \<Longrightarrow> found (fold IGD_service ss d) = found (fold IGD_service ss d')"
proof (induction ss arbitrary: d d')
  case (Cons s ss)
  from Cons.IH [OF found_service [OF Cons.prems]] show ?case by simp
qed simp

lemma finds_Nil: "finds [] []"
  by (simp add: finds_def)

lemma finds_append:
  assumes "finds ts ss" "finds us vs"
  shows "finds (ts @ us) (ss @ vs)"
  unfolding finds_def
proof
  fix d
  have "found (run (ts @ us) d) = found (fold IGD_service vs (run ts d))" using assms(2) by (simp add: finds_def)
  also have "\<dots> = found (fold IGD_service vs (fold IGD_service ss d))" using assms(1) by (intro found_services) (simp add: finds_def)
  finally show "found (run (ts @ us) d) = found (fold IGD_service (ss @ vs) d)" by simp
qed

lemma found_data: "found (IGDdata d t) = found d"
  by (simp add: found_def IGDdata_def Let_def)

lemma finds_leaf: "n \<noteq> ''service'' \<Longrightarrow> finds [Leaf n t] []"
  unfolding finds_def
proof
  fix d
  assume "n \<noteq> ''service''"
  then have "run [Leaf n t] d = (let d1 = d\<lparr>cureltname := cstr (take 127 n)\<rparr> in if t = [] then d1 else IGDdata d1 t)"
    using igd_leaf [of n t d] by (simp del: events_of.simps)
  moreover have "found (d\<lparr>cureltname := m\<rparr>) = found d" for m by (simp add: found_def)
  ultimately show "found (run [Leaf n t] d) = found (fold IGD_service [] d)" by (simp add: Let_def found_data)
qed

lemma finds_node:
  assumes "n \<noteq> ''service''" "finds ts ss"
  shows "finds [Node n ts] ss"
  unfolding finds_def
proof
  fix d
  have "found (run [Node n ts] d) = found (run ts (IGDstartelt d n))"
    using assms(1) by (simp add: igd_parser_def IGDendelt_def found_def Let_def)
  also have "\<dots> = found (fold IGD_service ss (IGDstartelt d n))" using assms(2) by (simp add: finds_def)
  also have "\<dots> = found (fold IGD_service ss d)" by (rule found_services) (simp add: found_def IGDstartelt_def Let_def)
  finally show "found (run [Node n ts] d) = found (fold IGD_service ss d)" .
qed

lemma finds_leaves: "list_all (\<lambda>(n, t). n \<noteq> ''service'') xs \<Longrightarrow> finds (leaves E f xs) []"
proof (induction xs)
  case (Cons x xs)
  obtain n t where x: "x = (n, t)" by fastforce
  have "finds (leaf_trees E f n t) []" using Cons.prems by (simp add: x leaf_trees_def finds_leaf finds_Nil)
  from finds_append [OF this, of "leaves E f xs" "[]"] Cons show ?case by (simp add: x leaves_def)
qed (simp add: leaves_def finds_Nil)

lemma found_endelt: "igd_tmp d' = s \<Longrightarrow> found d' = found d \<Longrightarrow> found (IGDendelt d' ''service'') = found (IGD_service s d)"
  by (simp add: found_def IGDendelt_def IGD_service_def Let_def)

definition described :: "('s, 're, 'k, 'h) http_env \<Rightarrow> bool \<Rightarrow> string \<Rightarrow> string \<Rightarrow> string \<Rightarrow> string \<Rightarrow> IGDdatas_service" where
  "described E f ty scpd ctl evt =
     \<lparr>controlurl = leaf_data E f ctl, eventsuburl = leaf_data E f evt, scpdurl = leaf_data E f scpd, servicetype = leaf_data E f ty\<rparr>"

lemma finds_service:
  assumes "svc_printable (described E f ty scpd ctl evt)"
  shows "finds [service_tree E f ty ident scpd ctl evt] [described E f ty scpd ctl evt]"
  unfolding finds_def
proof
  fix d
  let ?leaf = "\<lambda>n t. fold (xml_call igd_parser) (events_of (Leaf n t))"
  let ?d = "?leaf ''eventSubURL'' (leaf_data E f evt) (?leaf ''controlURL'' (leaf_data E f ctl) (?leaf ''SCPDURL'' (leaf_data E f scpd)
       (?leaf ''serviceId'' (leaf_data E f ident) (?leaf ''serviceType'' (leaf_data E f ty) (IGDstartelt d ''service'')))))"
  have u: "plain_url (leaf_data E f ty)" "plain_url (leaf_data E f ctl)" "plain_url (leaf_data E f evt)" "plain_url (leaf_data E f scpd)"
    using assms by (simp_all add: svc_printable_def described_def)
  have i: "?leaf ''serviceId'' v e = e\<lparr>cureltname := ''serviceId''\<rparr>" for v e
    by (simp add: igd_leaf IGDdata_def Let_def cstr_def del: events_of.simps)
  have "IGDstartelt d ''service'' = d\<lparr>cureltname := ''service'', igd_level := igd_level d + 1, igd_tmp := zero_service\<rparr>"
    by (simp add: IGDstartelt_def Let_def cstr_def zero_service_def)
  then have "igd_tmp ?d = described E f ty scpd ctl evt" "found ?d = found d"
    using u by (simp_all add: igd_fields i zero_service_def described_def found_def del: events_of.simps)
  from found_endelt [OF this] show "found (run [service_tree E f ty ident scpd ctl evt] d) = found (fold IGD_service [described E f ty scpd ctl evt] d)"
    by (simp add: service_tree_def igd_parser_def)
qed

text \<open>The address of a path as it is described.\<close>

definition described_url :: "('s, 're, 'k, 'h) http_env \<Rightarrow> string \<Rightarrow> string" where
  "described_url E path = (case random_url E of None \<Rightarrow> path | Some r \<Rightarrow> CHR ''/'' # r @ path)"

lemma leaf_data_url: "hd t = CHR ''/'' \<Longrightarrow> leaf_data E f t = described_url E t"
  using igd1_types_start [of t True] by (auto simp: leaf_data_def described_url_def random_pieces_def split: option.splits)

lemma leaf_data_text: "hd t \<noteq> CHR ''/'' \<Longrightarrow> t \<notin> set (igd1_types True) \<Longrightarrow> leaf_data E f t = t"
  by (auto simp: leaf_data_def random_pieces_def split: option.splits)

lemma plain_described:
  assumes "plain_texts E X" "plain_url t" "length t < 60"
  shows "plain_url (described_url E t)"
  using assms(2,3) random_plain [OF assms(1)] by (auto simp: described_url_def plain_url_def split: option.splits)

lemma finds_other:
  assumes "svc_printable (described E f ty scpd ctl evt)" "\<not> is_cif (leaf_data E f ty)" "\<not> is_ipv6fc (leaf_data E f ty)" "\<not> is_connection (leaf_data E f ty)"
  shows "finds [service_tree E f ty ident scpd ctl evt] []"
proof -
  have "found (IGD_service (described E f ty scpd ctl evt) d) = found d" for d
    using assms(2-4) by (simp add: found_def IGD_service_def described_def Let_def)
  with finds_service [OF assms(1), of ident] show ?thesis by (simp add: finds_def)
qed

lemma described_printable:
  assumes "plain_texts E X" "plain_url (leaf_data E f ty)" "list_all (\<lambda>t. hd t = CHR ''/'' \<and> plain_url t \<and> length t < 60) [scpd, ctl, evt]"
  shows "svc_printable (described E f ty scpd ctl evt)"
  using assms(2,3) plain_described [OF assms(1)] by (simp add: svc_printable_def described_def leaf_data_url)

lemmas type_simps = leaf_data_text igd1_types_def DEVICE_TYPE_IGD_def DEVICE_TYPE_WAN_def DEVICE_TYPE_WANC_def SERVICE_TYPE_WANIPC_def urn_version_def plain_url_def
lemmas kind_simps = is_cif_def is_ipv6fc_def is_connection_def COMPARE_def

lemma root_services_ignored:
  assumes "plain_texts E X"
  shows "finds (root_service_trees E f) []"
proof -
  let ?list = "\<lambda>b t. if b then [t] else []"
  have l: "finds (if b then [t] else []) []" if "finds [t] []" for b t using that by (simp add: finds_Nil)
  have d: "finds [service_tree E f ''urn:schemas-dummy-com:service:Dummy:1'' ''urn:dummy-com:serviceId:dummy1'' ''/dummy.xml'' ''/dummy'' ''/dummy''] []"
    by (rule finds_other [OF described_printable [OF assms]]) (simp_all add: type_simps kind_simps)
  have s: "finds [service_tree E f ''urn:schemas-upnp-org:service:Layer3Forwarding:1'' ''urn:upnp-org:serviceId:L3Forwarding1'' ''/L3F.xml'' ''/ctl/L3F'' L3F_EVENTURL] []"
    by (rule finds_other [OF described_printable [OF assms]]) (simp_all add: type_simps kind_simps L3F_EVENTURL_def)
  have p: "finds [service_tree E f DP_SERVICE ''urn:upnp-org:serviceId:DeviceProtection1'' ''/DP.xml'' ''/ctl/DP'' DP_EVENTURL] []"
    by (rule finds_other [OF described_printable [OF assms]]) (simp_all add: type_simps kind_simps DP_EVENTURL_def DP_SERVICE_def)
  have x: "finds (leaf_trees E f ''serviceType'' u) []" for u by (simp add: leaf_trees_def finds_leaf finds_Nil)
  have "finds (if enable_dp (ht_soap E)
        then if has_dummy_service E \<and> enable_l3f (ht_soap E) then leaf_trees E f ''serviceType'' ''urn:schemas-dummy-com:service:Dummy:1''
             else if v2_shown E f then [service_tree E f DP_SERVICE ''urn:upnp-org:serviceId:DeviceProtection1'' ''/DP.xml'' ''/ctl/DP'' DP_EVENTURL] else []
        else []) []"
    using x p by (simp add: finds_Nil)
  from finds_append [OF l [OF d] finds_append [OF l [OF s] this]] show ?thesis unfolding root_service_trees_def by simp
qed

definition cif_service :: "('s, 're, 'k, 'h) http_env \<Rightarrow> IGDdatas_service" where
  "cif_service E = \<lparr>controlurl = described_url E ''/ctl/CmnIfCfg'', eventsuburl = described_url E WANCFG_EVENTURL,
     scpdurl = described_url E ''/WANCfg.xml'', servicetype = ''urn:schemas-upnp-org:service:WANCommonInterfaceConfig:1''\<rparr>"

definition connection_service :: "('s, 're, 'k, 'h) http_env \<Rightarrow> bool \<Rightarrow> IGDdatas_service" where
  "connection_service E f = \<lparr>controlurl = described_url E ''/ctl/IPConn'', eventsuburl = described_url E WANIPC_EVENTURL,
     scpdurl = described_url E ''/WANIPCn.xml'',
     servicetype = ''urn:schemas-upnp-org:service:WANIPConnection:'' @ urn_version (igd_v2 (ht_soap E) \<and> \<not> f)\<rparr>"

definition firewall_service :: "('s, 're, 'k, 'h) http_env \<Rightarrow> IGDdatas_service" where
  "firewall_service E = \<lparr>controlurl = described_url E ''/ctl/IP6FCtl'', eventsuburl = described_url E WANIP6FC_EVENTURL,
     scpdurl = described_url E ''/WANIP6FC.xml'', servicetype = IP6FC_SERVICE\<rparr>"

definition wanc_described :: "('s, 're, 'k, 'h) http_env \<Rightarrow> bool \<Rightarrow> IGDdatas_service list" where
  "wanc_described E f = connection_service E f # (if enable_6fc (ht_soap E) \<and> v2_shown E f then [firewall_service E] else [])"

lemma connection_type: "leaf_data E f (SERVICE_TYPE_WANIPC (igd_v2 (ht_soap E))) = ''urn:schemas-upnp-org:service:WANIPConnection:'' @ urn_version (igd_v2 (ht_soap E) \<and> \<not> f)"
  by (auto simp: leaf_data_def random_pieces_def igd1_types_def SERVICE_TYPE_WANIPC_def urn_version_def DEVICE_TYPE_IGD_def DEVICE_TYPE_WAN_def DEVICE_TYPE_WANC_def
      split: option.splits)

lemma finds_wan:
  assumes "plain_texts E X"
  shows "finds [wan_service E f] [cif_service E]"
    "finds (wanc_services E f) (wanc_described E f)"
proof -
  have c: "described E f ''urn:schemas-upnp-org:service:WANCommonInterfaceConfig:1'' ''/WANCfg.xml'' ''/ctl/CmnIfCfg'' WANCFG_EVENTURL = cif_service E"
    by (simp add: described_def cif_service_def leaf_data_url type_simps WANCFG_EVENTURL_def)
  have "finds [wan_service E f] [described E f ''urn:schemas-upnp-org:service:WANCommonInterfaceConfig:1'' ''/WANCfg.xml'' ''/ctl/CmnIfCfg'' WANCFG_EVENTURL]"
    unfolding wan_service_def by (rule finds_service [OF described_printable [OF assms]]) (simp_all add: type_simps WANCFG_EVENTURL_def)
  then show "finds [wan_service E f] [cif_service E]" by (simp only: c)
  have n: "described E f (SERVICE_TYPE_WANIPC (igd_v2 (ht_soap E))) ''/WANIPCn.xml'' ''/ctl/IPConn'' WANIPC_EVENTURL = connection_service E f"
    by (simp add: described_def connection_service_def leaf_data_url connection_type WANIPC_EVENTURL_def)
  have "finds [service_tree E f (SERVICE_TYPE_WANIPC (igd_v2 (ht_soap E))) i ''/WANIPCn.xml'' ''/ctl/IPConn'' WANIPC_EVENTURL] [connection_service E f]" for i
    unfolding n [symmetric] by (rule finds_service [OF described_printable [OF assms]]) (simp_all add: connection_type urn_version_def plain_url_def WANIPC_EVENTURL_def)
  note a = this
  have v: "described E f IP6FC_SERVICE ''/WANIP6FC.xml'' ''/ctl/IP6FCtl'' WANIP6FC_EVENTURL = firewall_service E"
    by (simp add: described_def firewall_service_def leaf_data_url type_simps WANIP6FC_EVENTURL_def IP6FC_SERVICE_def)
  have "finds [service_tree E f IP6FC_SERVICE i ''/WANIP6FC.xml'' ''/ctl/IP6FCtl'' WANIP6FC_EVENTURL] [firewall_service E]" for i
    unfolding v [symmetric] by (rule finds_service [OF described_printable [OF assms]]) (simp_all add: type_simps IP6FC_SERVICE_def WANIP6FC_EVENTURL_def)
  note b = this
  show "finds (wanc_services E f) (wanc_described E f)"
  proof (cases "enable_6fc (ht_soap E) \<and> v2_shown E f")
    case True
    with finds_append [OF a b] show ?thesis unfolding wanc_services_def wanc_described_def if_P [OF True] by simp
  next
    case False
    with a show ?thesis unfolding wanc_services_def wanc_described_def if_not_P [OF False] by simp
  qed
qed

lemma finds_root:
  assumes "plain_texts E X"
  shows "finds [root_tree E X f] (cif_service E # wanc_described E f)"
proof -
  have d: "finds (leaves E f (device_leaves E X ty name udn)) []" for ty name udn by (rule finds_leaves) (simp add: device_leaves_def)
  have "finds [wanc_tree E X f] (wanc_described E f)"
    unfolding wanc_tree_def
    by (rule finds_node, simp, rule finds_append [OF d finds_node [OF _ finds_wan(2) [OF assms]], simplified append_Nil]) simp
  then have "finds [Node ''deviceList'' [wanc_tree E X f]] (wanc_described E f)"
    by (rule finds_node [rotated]) simp
  from finds_append [OF d finds_append [OF finds_node [OF _ finds_wan(1) [OF assms]] this]] have
    "finds (leaves E f (device_leaves E X ty name udn) @ [Node ''serviceList'' [wan_service E f], Node ''deviceList'' [wanc_tree E X f]])
       (cif_service E # wanc_described E f)" for ty name udn by simp
  then have "finds [wan_tree E X f] (cif_service E # wanc_described E f)" unfolding wan_tree_def by (intro finds_node) simp_all
  then have w: "finds [Node ''deviceList'' [wan_tree E X f]] (cif_service E # wanc_described E f)"
    by (rule finds_node [rotated]) simp
  have r: "finds (leaves E f (root_leaves E X)) []" by (rule finds_leaves) (simp add: root_leaves_def)
  have s: "finds (if root_services E then [Node ''serviceList'' (root_service_trees E f)] else []) []"
    using finds_node [OF _ root_services_ignored [OF assms]] by (simp add: finds_Nil)
  have p: "finds (leaf_trees E f ''presentationURL'' u) []" for u by (simp add: leaf_trees_def finds_leaf finds_Nil)
  from finds_append [OF r finds_append [OF s finds_append [OF w p]]] show ?thesis
    unfolding root_tree_def by (intro finds_node) simp_all
qed

lemma description_found:
  assumes "plain_texts E X"
  shows "found (parse_igd (xmlver @ root_text E X f)) = found (fold IGD_service (cif_service E # wanc_described E f) zero_igd)"
proof -
  let ?d = "IGDstartelt zero_igd ''root''"
  have v: "finds [version_tree E f] []"
    unfolding version_tree_def by (rule finds_node [OF _ finds_append [OF _ _, of _ "[]" _ "[]", simplified append_Nil]])
      (simp_all add: leaf_trees_def finds_leaf finds_Nil)
  have "found (parse_igd (xmlver @ root_text E X f)) = found (run [version_tree E f, root_tree E X f] ?d)"
    unfolding parse_igd_def parsexml_with_def description_events [OF description_wf [OF assms]]
    by (simp add: igd_parser_def IGDendelt_def found_def Let_def)
  also have "\<dots> = found (fold IGD_service (cif_service E # wanc_described E f) ?d)"
    using finds_append [OF v finds_root [OF assms, of f]] by (simp add: finds_def)
  also have "\<dots> = found (fold IGD_service (cif_service E # wanc_described E f) zero_igd)"
    by (rule found_services) (simp add: found_def IGDstartelt_def Let_def)
  finally show ?thesis .
qed

lemma described_found:
  "found (fold IGD_service (cif_service E # wanc_described E f) zero_igd)
     = (connection_service E f, zero_service, cif_service E, if enable_6fc (ht_soap E) \<and> v2_shown E f then firewall_service E else zero_service)"
  by (simp add: found_def wanc_described_def IGD_service_def zero_igd_def Let_def cif_service_def connection_service_def firewall_service_def
      kind_simps IP6FC_SERVICE_def zero_service_def urn_version_def)

section \<open>The generators\<close>

lemma genRootDesc_text:
  assumes "desc_malloc X 2048"
  shows "\<exists>s. genRootDesc E X f = Some (Some s) \<and> (memory X \<longrightarrow> s = xmlver @ root_text E X f)"
proof -
  have b: "room start_buf" "sb_str start_buf \<noteq> []"
    by (simp_all add: start_buf_def xmlver_def quoted_def eol_def)
  from node_prints [OF rootDesc_text [of E X f], of "[]"] b obtain b' where
    "genXML E X f (rootDesc E X) start_buf = Some b'" "appended X (root_text E X f) start_buf b'"
    by (fastforce simp: genXML_def continue_Nil)
  with assms show ?thesis by (auto simp: genRootDesc_def finish_buf_def appended_def start_buf_def)
qed

lemma pieces_of_total: "list_all (\<lambda>x. f x \<noteq> None) xs \<Longrightarrow> pieces_of f xs \<noteq> None"
  by (induction xs) (auto split: option.splits)

definition args_ok :: "('s, 're, 'k, 'h) http_env \<Rightarrow> serviceDesc \<Rightarrow> bool" where
  "args_ok E s \<longleftrightarrow> list_all (\<lambda>a. case act_args a of None \<Rightarrow> True | Some xs \<Rightarrow> list_all (\<lambda>x. arg_pieces E (act_name a) (serviceStateTable s) x \<noteq> None) xs) (actionList s)
     \<and> list_all (\<lambda>v. var_pieces E v \<noteq> None) (serviceStateTable s)"

lemma action_pieces_total:
  "(case act_args a of None \<Rightarrow> True | Some xs \<Rightarrow> list_all (\<lambda>x. arg_pieces E (act_name a) vars x \<noteq> None) xs) \<Longrightarrow> action_pieces E vars a \<noteq> None"
  using pieces_of_total [of "arg_pieces E (act_name a) vars"] by (auto simp: action_pieces_def split: option.splits)

lemma service_pieces_total:
  assumes "args_ok E s"
  shows "service_pieces E s f \<noteq> None"
proof -
  have "list_all (\<lambda>a. action_pieces E (serviceStateTable s) a \<noteq> None) (shown_actions E f (actionList s))"
    unfolding list_all_iff
  proof
    fix a assume "a \<in> set (shown_actions E f (actionList s))"
    then have "a \<in> set (actionList s)" by (auto simp: shown_actions_def dest: set_takeWhileD split: if_splits)
    with assms show "action_pieces E (serviceStateTable s) a \<noteq> None" by (intro action_pieces_total) (simp add: args_ok_def list_all_iff del: not_None_eq)
  qed
  moreover have "pieces_of (var_pieces E) (serviceStateTable s) \<noteq> None"
    using assms by (intro pieces_of_total) (simp add: args_ok_def)
  ultimately show ?thesis using pieces_of_total by (auto simp: service_pieces_def split: option.splits)
qed

lemma genServiceDesc_total:
  assumes "args_ok E s"
  shows "genServiceDesc E X s f \<noteq> None"
proof -
  have b: "room start_buf" by (simp add: start_buf_def xmlver_def quoted_def eol_def)
  obtain ps where "service_pieces E s f = Some ps" using service_pieces_total [OF assms] by auto
  moreover from strcat_all_appends [OF b, of X ps] obtain b' where "strcat_all X ps start_buf = Some b'" "room b'" by (auto simp: appended_def)
  ultimately show ?thesis by (simp add: genServiceDesc_def finish_buf_def)
qed

lemmas arg_eval = arg_pieces_def arg_name_def str_at_def magicargname_def Let_def
lemmas var_eval = var_pieces_def allowed_pieces_def upnptypes_def upnpdefaultvalues_def upnpallowedvalues_def upnpallowedranges_def str_at_def Let_def

lemma WANIPCn_vars: "list_all (\<lambda>v. var_pieces E v \<noteq> None) (WANIPCnVars v2)"
  by (cases v2) (simp_all add: WANIPCnVars_def var_eval del: not_None_eq)

lemma WANIPCn_args: "args_ok E (scpdWANIPCn E)"
  apply (simp add: args_ok_def scpdWANIPCn_def WANIPCn_vars del: not_None_eq)
  by (cases "igd_v2 (ht_soap E)") (simp_all add: WANIPCnActions_def WANIPCnVars_def arg_eval
     AddPortMappingArgs_def AddAnyPortMappingArgs_def DeletePortMappingRangeArgs_def GetListOfPortMappingsArgs_def GetExternalIPAddressArgs_def
     DeletePortMappingArgs_def SetConnectionTypeArgs_def GetConnectionTypeInfoArgs_def GetStatusInfoArgs_def GetNATRSIPStatusArgs_def
     GetGenericPortMappingEntryArgs_def GetSpecificPortMappingEntryArgs_def)

lemma other_args: "args_ok E scpdWANCfg" "args_ok E scpdL3F" "args_ok E scpd6FC"  "enable_dp (ht_soap E) \<Longrightarrow> args_ok E scpdDP"
  by (simp_all add: args_ok_def scpdWANCfg_def scpdL3F_def scpd6FC_def scpdDP_def WANCfgActions_def WANCfgVars_def L3FActions_def L3FVars_def
    IPv6FCActions_def IPv6FCVars_def DPActions_def DPVars_def arg_eval var_eval GetFirewallStatusArgs_def GetOutboundPinholeTimeoutArgs_def AddPinholeArgs_def
    UpdatePinholeArgs_def DeletePinholeArgs_def GetPinholePacketsArgs_def CheckPinholeWorkingArgs_def SendSetupMessageArgs_def)

text \<open>The values of the evented variables exist, since the count of the mappings returns.\<close>

definition events_built :: "('s, 're, 'k, 'h) http_env \<Rightarrow> subscriber_service_enum \<Rightarrow> bool" where
  "events_built E service = (case service of E6FC \<Rightarrow> enable_6fc (ht_soap E) | EDP \<Rightarrow> enable_dp (ht_soap E) | _ \<Rightarrow> True)"

lemmas magic_values = SETUPREADY_MAGICALVALUE_def CONNECTIONSTATUS_MAGICALVALUE_def FIREWALLENABLED_MAGICALVALUE_def INBOUNDPINHOLEALLOWED_MAGICALVALUE_def
  SYSTEMUPDATEID_MAGICALVALUE_def PORTMAPPINGNUMBEROFENTRIES_MAGICALVALUE_def EXTERNALIPADDRESS_MAGICALVALUE_def DEFAULTCONNECTIONSERVICE_MAGICALVALUE_def

lemma status_text: "str_at upnpallowedvalues (18 + get_wan_connection_status sys i) = get_wan_connection_status_str sys i"
  "get_wan_connection_status_str sys i \<noteq> None"
  by (auto simp: get_wan_connection_status_def get_wan_connection_status_str_def str_at_def upnpallowedvalues_def split: sum.split)

lemma genEventVars_total:
  assumes "list_all (\<lambda>v. event_pieces E st v \<noteq> None) (serviceStateTable s)"
  shows "genEventVars E X s st \<noteq> None"
proof -
  obtain ps where ps: "pieces_of (event_pieces E st) (serviceStateTable s) = Some ps" using pieces_of_total [OF assms] by auto
  have "room \<lparr>sb_str = [], sb_tmplen = 512\<rparr>" by simp
  from strcat_all_appends [OF this, of X "[Str (''<e:propertyset xmlns:e='' @ quoted ''urn:schemas-upnp-org:event-1-0'' @ ''>'')] @ ps @ [Str ''</e:propertyset>'']"]
  obtain b where "strcat_all X ([Str (''<e:propertyset xmlns:e='' @ quoted ''urn:schemas-upnp-org:event-1-0'' @ ''>'')] @ ps @ [Str ''</e:propertyset>''])
    \<lparr>sb_str = [], sb_tmplen = 512\<rparr> = Some b" "room b" by (auto simp: appended_def)
  with ps show ?thesis by (simp add: genEventVars_def finish_buf_def)
qed

lemma event_pieces_total:
  assumes "upnp_get_portmapping_number_of_entries (so_redir (ht_soap E)) st = Some n" "events_built E service"
  shows "getVars E X service st \<noteq> None"
proof -
  have s: "str_at upnpallowedvalues (18 + get_wan_connection_status sys i) \<noteq> None" "str_at upnpallowedvalues 15 \<noteq> None" "str_at upnpallowedvalues 6 \<noteq> None" for sys i
    using status_text by (simp, simp_all add: str_at_def upnpallowedvalues_def)
  note e = event_pieces_def event_value_def Let_def magic_values assms(1) s
  have "list_all (\<lambda>v. event_pieces E st v \<noteq> None) (WANIPCnVars v)" if "v = igd_v2 (ht_soap E)" for v
    using that by (cases v) (simp_all add: WANIPCnVars_def e del: not_None_eq)
  moreover have "list_all (\<lambda>v. event_pieces E st v \<noteq> None) WANCfgVars" "list_all (\<lambda>v. event_pieces E st v \<noteq> None) L3FVars"
    "enable_6fc (ht_soap E) \<Longrightarrow> list_all (\<lambda>v. event_pieces E st v \<noteq> None) IPv6FCVars" "enable_dp (ht_soap E) \<Longrightarrow> list_all (\<lambda>v. event_pieces E st v \<noteq> None) DPVars"
    by (simp_all add: WANCfgVars_def L3FVars_def IPv6FCVars_def DPVars_def e del: not_None_eq)
  ultimately have "genEventVars E X (scpdWANIPCn E) st \<noteq> None" "genEventVars E X scpdWANCfg st \<noteq> None" "genEventVars E X scpdL3F st \<noteq> None"
    "enable_6fc (ht_soap E) \<Longrightarrow> genEventVars E X scpd6FC st \<noteq> None" "enable_dp (ht_soap E) \<Longrightarrow> genEventVars E X scpdDP st \<noteq> None"
    by (simp_all add: genEventVars_total scpdWANIPCn_def scpdWANCfg_def scpdL3F_def scpd6FC_def scpdDP_def del: not_None_eq)
  with assms(2) show ?thesis by (cases service) (simp_all add: getVars_def events_built_def del: not_None_eq)
qed

section \<open>Properties\<close>

text \<open>
  C8: the client library finds the services of the gateway in the description that the daemon serves. Whatever
  services the build has and whatever texts are configured (without markup), the description that is generated
  is read by the parser of \<open>miniupnpc\<close> with the common interface service, the connection service and, when it
  is offered, the firewall service, each with its control, event and description address; a client that is
  given version 1 sees version 1 of the connection service and no firewall service.
\<close>

theorem client_finds_services:
  assumes "plain_texts E X" and "desc_malloc X 2048" and "memory X"
  shows "\<exists>s. genRootDesc E X f = Some (Some s)
    \<and> CIF (parse_igd s) = cif_service E \<and> igd_first (parse_igd s) = connection_service E f \<and> igd_second (parse_igd s) = zero_service
    \<and> IPv6FC (parse_igd s) = (if enable_6fc (ht_soap E) \<and> v2_shown E f then firewall_service E else zero_service)"
proof -
  from genRootDesc_text [OF assms(2), of E f] assms(3) have "genRootDesc E X f = Some (Some (xmlver @ root_text E X f))" by blast
  with description_found [OF assms(1), of f] described_found [of E f] show ?thesis by (simp add: found_def)
qed

text \<open>
  the addresses that are described are served. With or without a random prefix, the server strips a described
  address to its path, answers a request for the description of a service with the text of its generator, and
  knows the service of a described event address.
\<close>

theorem described_paths_served:
  "let W = with_descriptions X E in
    strip_random W (scpdurl (connection_service E f)) = Some ''/WANIPCn.xml''
      \<and> ProcessHTTPGet W io ''/WANIPCn.xml'' h = sendXMLdesc W io (\<lambda>v1. Option.bind (genWANIPCn E X v1) id) h
    \<and> strip_random W (scpdurl (cif_service E)) = Some ''/WANCfg.xml''
      \<and> ProcessHTTPGet W io ''/WANCfg.xml'' h = sendXMLdesc W io (\<lambda>v1. Option.bind (genWANCfg E X v1) id) h
    \<and> strip_random W (eventsuburl (connection_service E f)) = Some WANIPC_EVENTURL \<and> event_service V WANIPC_EVENTURL = Some EWanIPC
    \<and> strip_random W (eventsuburl (cif_service E)) = Some WANCFG_EVENTURL \<and> event_service V WANCFG_EVENTURL = Some EWanCFG"
proof -
  define W where "W = with_descriptions X E"
  have s: "strip_random W (described_url E p) = Some p" if "CHR 0x00 \<notin> set p" for p
    using that by (auto simp: W_def with_descriptions_def strip_random_def described_url_def split: option.split)
  have "CHR 0x00 \<notin> set ''/WANIPCn.xml''" "CHR 0x00 \<notin> set ''/WANCfg.xml''" "CHR 0x00 \<notin> set WANIPC_EVENTURL" "CHR 0x00 \<notin> set WANCFG_EVENTURL"
    by (simp_all add: WANIPC_EVENTURL_def WANCFG_EVENTURL_def)
  note p = this [THEN s]
  have g: "ProcessHTTPGet W io ''/WANIPCn.xml'' h = sendXMLdesc W io (\<lambda>v1. Option.bind (genWANIPCn E X v1) id) h"
    "ProcessHTTPGet W io ''/WANCfg.xml'' h = sendXMLdesc W io (\<lambda>v1. Option.bind (genWANCfg E X v1) id) h"
    by (simp_all add: ProcessHTTPGet_def path_desc_def W_def with_descriptions_def cstr_def strcaseeq_def toupper_def char_of_def bit_0)
  show ?thesis
    unfolding W_def [symmetric] Let_def using p g by (simp add: connection_service_def cif_service_def event_service_def WANIPC_EVENTURL_def WANCFG_EVENTURL_def)
qed


text \<open>
  C10: no generator writes behind its buffer or outside of a table, whatever the allocator answers: the
  description of the device, those of the services and the texts of the events.
\<close>

theorem descriptions_in_bounds:
  assumes "redirect_backend ops ok mappings" and "be_ops (so_redir (ht_soap E)) = ops" and "ok (fw st)" and "events_built E service"
  shows "genRootDesc E X f \<noteq> None \<and> genWANIPCn E X f \<noteq> None \<and> genWANCfg E X f \<noteq> None \<and> genL3F E X f \<noteq> None \<and> gen6FC E X f \<noteq> None
    \<and> (enable_dp (ht_soap E) \<longrightarrow> genDP E X f \<noteq> None) \<and> getVars E X service st \<noteq> None"
proof -
  have "genRootDesc E X f \<noteq> None" using genRootDesc_text [of X E f] by (cases "desc_malloc X 2048") (auto simp: genRootDesc_def)
  moreover have "upnp_get_portmapping_number_of_entries (so_redir (ht_soap E)) st = Some (length (mappings (fw st)))"
    unfolding upnp_get_portmapping_number_of_entries_def by (rule redirect_backend.count_entries_spec [OF assms(1-3)]) simp
  from event_pieces_total [OF this assms(4)] have "getVars E X service st \<noteq> None" .
  moreover note genServiceDesc_total [OF WANIPCn_args, of E X f] genServiceDesc_total [OF other_args(1), of E X f]
    genServiceDesc_total [OF other_args(2), of E X f] genServiceDesc_total [OF other_args(3), of E X f] genServiceDesc_total [OF other_args(4), of E X f]
  ultimately show ?thesis unfolding genWANIPCn_def genWANCfg_def genL3F_def gen6FC_def genDP_def by blast
qed

text \<open>
  in a build with the dummy service, the forwarding service and the protection service the list of the
  services of the root device has a stray element in place of the third: the leaf \<open>serviceType\<close> of the dummy
  service, outside of any service. The protection service is not described.
\<close>

theorem third_root_service_lost:
  assumes "has_dummy_service E" and "enable_l3f (ht_soap E)" and "enable_dp (ht_soap E)"
  shows "node_trees E f (rootDesc E X) 3 15 = Some [Node ''serviceList''
    [service_tree E f ''urn:schemas-dummy-com:service:Dummy:1'' ''urn:dummy-com:serviceId:dummy1'' ''/dummy.xml'' ''/dummy'' ''/dummy'',
     service_tree E f ''urn:schemas-upnp-org:service:Layer3Forwarding:1'' ''urn:upnp-org:serviceId:L3Forwarding1'' ''/L3F.xml'' ''/ctl/L3F'' L3F_EVENTURL,
     Leaf ''serviceType'' ''urn:schemas-dummy-com:service:Dummy:1'']]"
proof -
  have "leaf_data E f ''urn:schemas-dummy-com:service:Dummy:1'' = ''urn:schemas-dummy-com:service:Dummy:1''" by (simp add: type_simps)
  with root_service_list [of E f X 0] assms show ?thesis
    by (simp add: root_services_def root_service_trees_def leaf_trees_def numeral_3_eq_3 del: node_trees.simps)
qed

text \<open>
  C9: the iterative printer with its stack of 16 elements prints what the recursive walk prints, for every
  table whose elements are nested at most that deep: the loop ends, it stays in its buffer even when the
  memory runs out, and with memory the text is that of the walk.
\<close>

theorem genXML_recursive:
  assumes "node_text E X f p (GENXML_STACK_SIZE + 1) 0 = Some t" and "room b" and "sb_str b \<noteq> []"
  shows "\<exists>b'. genXML E X f p b = Some b' \<and> room b' \<and> (memory X \<longrightarrow> sb_str b' = sb_str b @ t)"
  using node_prints [OF assms(1), of "[]"] assms(2,3) by (fastforce simp: genXML_def continue_Nil appended_def)

section \<open>A concrete description\<close>

definition demo_texts :: desc_texts where
  "demo_texts = \<lparr>friendly_name = ''Linux router'', manufacturer_name = ''Linux'', manufacturer_url = ''http://www.kernel.org/'',
     model_description = ''Linux router'', model_name = ''Linux router'', modelnumber = ''1'', model_url = ''http://www.kernel.org/'',
     serialnumber = ''00000000'', uuidvalue_igd = ''uuid:00000000-0000-0000-0000-000000000000'',
     uuidvalue_wan = ''uuid:00000000-0000-0000-0000-000000000001'', root_presentationurl = ''http://10.0.0.1/'',
     MINIUPNPD_VERSION = ''2.3.9'', MINIUPNPD_DATE = ''20250401'', upnp_configid = 1337,
     desc_malloc = (\<lambda>_. True), desc_realloc = (\<lambda>_. True)\<rparr>"

lemma demo_texts: "plain_texts demo_http demo_texts" "desc_malloc demo_texts 2048" "memory demo_texts"
  by (simp_all add: plain_texts_def demo_texts_def demo_http_def demo_soap_def)

lemma client_finds_services_witness:
  "\<exists>s. genRootDesc demo_http demo_texts False = Some (Some s) \<and> controlurl (igd_first (parse_igd s)) = ''/ctl/IPConn''"
  using client_finds_services [OF demo_texts, of False] by (auto simp: connection_service_def described_url_def demo_http_def)

lemma descriptions_in_bounds_witness:
  "genRootDesc demo_http (demo_texts\<lparr>desc_realloc := \<lambda>_. False\<rparr>) False \<noteq> None
   \<and> getVars demo_http demo_texts EWanIPC (rst6 demo_soap_state) \<noteq> None"
  using descriptions_in_bounds [OF list_backend _ demo_soap_inv(1), of demo_http EWanIPC demo_texts]
    descriptions_in_bounds [OF list_backend _ demo_soap_inv(1), of demo_http EWanIPC "demo_texts\<lparr>desc_realloc := \<lambda>_. False\<rparr>"] demo_soap_ops
  by (simp add: events_built_def demo_http_def del: not_None_eq)

lemma third_root_service_lost_witness:
  "\<exists>t u. node_trees (demo_http\<lparr>has_dummy_service := True, ht_soap := demo_soap\<lparr>enable_l3f := True, enable_dp := True\<rparr>\<rparr>) False
     (rootDesc (demo_http\<lparr>has_dummy_service := True, ht_soap := demo_soap\<lparr>enable_l3f := True, enable_dp := True\<rparr>\<rparr>) demo_texts) 3 15
   = Some [Node ''serviceList'' [t, u, Leaf ''serviceType'' ''urn:schemas-dummy-com:service:Dummy:1'']]"
  using third_root_service_lost [of "demo_http\<lparr>has_dummy_service := True, ht_soap := demo_soap\<lparr>enable_l3f := True, enable_dp := True\<rparr>\<rparr>" False demo_texts]
  by (simp del: node_trees.simps)

lemma genXML_recursive_witness:
  "\<exists>b. genXML demo_http demo_texts False (rootDesc demo_http demo_texts) start_buf = Some b \<and> room b
     \<and> sb_str b = xmlver @ root_text demo_http demo_texts False"
  using genXML_recursive [OF rootDesc_text, of start_buf demo_http demo_texts False] demo_texts(3)
  by (auto simp: start_buf_def xmlver_def quoted_def eol_def)

end
